(* ===== verification/Prelude.thy ===== *)
theory Prelude
  imports Main "HOL-Library.Word" "HOL-Library.Multiset"
begin

unbundle bit_operations_syntax

text \<open>
  Shared vocabulary of the development.  Machine integers of the C++ code are words of their
  width (\<open>byte\<close>, \<open>u32\<close>, \<open>u64\<close>); byte vectors are lists; a C++ exception, a failed
  \<^verbatim>\<open>assert\<close> or an error return is the \<open>Inl\<close> side of a sum, sequenced by \<open>bindE\<close>.
  The collections \<open>width_simps\<close> (widths and sizes of encodings) and \<open>shape_simps\<close> (lengths
  kept by in-place updates) carry the routine steps of the component proofs.
\<close>

section \<open>Types\<close>

type_synonym byte = "8 word"
type_synonym u16 = "16 word"
type_synonym u32 = "32 word"
type_synonym u64 = "64 word"
type_synonym bytes = "8 word list"

named_theorems width_simps "widths and sizes of encodings"
named_theorems shape_simps "lengths kept by in-place updates"

section \<open>Results and their sequencing\<close>

definition bindE :: "'e + 'a \<Rightarrow> ('a \<Rightarrow> 'e + 'b) \<Rightarrow> 'e + 'b" where
  "bindE m f = (case m of Inl e \<Rightarrow> Inl e | Inr x \<Rightarrow> f x)"

definition checkE :: "bool \<Rightarrow> 'e \<Rightarrow> 'e + unit" where
  "checkE b e = (if b then Inr () else Inl e)"

lemma bindE_simps [simp]:
  "bindE (Inl e) f = Inl e"
  "bindE (Inr x) f = f x"
  by (simp_all add: bindE_def)

lemma bindE_Inr_iff: "bindE m f = Inr y \<longleftrightarrow> (\<exists>x. m = Inr x \<and> f x = Inr y)"
  by (cases m) auto

lemma bindE_Inl_iff: "bindE m f = Inl e \<longleftrightarrow> m = Inl e \<or> (\<exists>x. m = Inr x \<and> f x = Inl e)"
  by (cases m) auto

lemma checkE_simps [simp]:
  "checkE b e = Inr u \<longleftrightarrow> b"
  "checkE b e = Inl e' \<longleftrightarrow> \<not> b \<and> e' = e"
  "checkE True e = Inr ()"
  "checkE False e = Inl e"
  by (auto simp: checkE_def)

lemma bindE_assoc: "bindE (bindE m f) g = bindE m (\<lambda>x. bindE (f x) g)"
  by (cases m) auto

section \<open>Decimal printing (\<^verbatim>\<open>std::to_string\<close> and stream output of integers)\<close>

definition digit_char :: "nat \<Rightarrow> char" where
  "digit_char d = char_of (48 + d)"

fun to_string :: "nat \<Rightarrow> string" where
  "to_string n = (if n < 10 then [digit_char n] else to_string (n div 10) @ [digit_char (n mod 10)])"

declare to_string.simps [simp del]

definition int_text :: "int \<Rightarrow> string" where
  "int_text i = (if i < 0 then CHR ''-'' # to_string (nat (- i)) else to_string (nat i))"

definition undigit :: "char \<Rightarrow> nat" where
  "undigit c = of_char c - 48"

definition read_dec :: "string \<Rightarrow> nat" where
  "read_dec s = foldl (\<lambda>n c. 10 * n + undigit c) 0 s"

lemma undigit_digit_char [simp]: "d < 10 \<Longrightarrow> undigit (digit_char d) = d"
  by (simp add: undigit_def digit_char_def)

lemma read_dec_to_string [simp]: "read_dec (to_string n) = n"
proof (induction n rule: to_string.induct)
  case (1 n)
  then show ?case
    by (subst to_string.simps) (auto simp: read_dec_def)
qed

lemma to_string_inject [simp]: "to_string m = to_string n \<longleftrightarrow> m = n"
  by (metis read_dec_to_string)

lemma to_string_not_Nil [simp]: "to_string n \<noteq> []"
  by (subst to_string.simps) simp

section \<open>Lists\<close>

lemma length_fold_update:
  assumes "\<And>x ys. length (f x ys) = length ys"
  shows "length (fold f xs ys) = length ys"
  using assms by (induction xs arbitrary: ys) auto

lemma mset_swap_update:
  assumes "i < length xs" "j < length xs"
  shows "mset (xs[i := xs ! j, j := xs ! i]) = mset xs"
  using assms by (simp add: mset_swap)

lemma distinct_mset_eq: "mset xs = mset ys \<Longrightarrow> distinct ys \<Longrightarrow> distinct xs"
  by (metis distinct_count_atmost_1 set_mset_mset)

lemma length_mset_eq: "mset xs = mset ys \<Longrightarrow> length xs = length ys"
  by (metis size_mset)

lemma set_mset_eq: "mset xs = mset ys \<Longrightarrow> set xs = set ys"
  by (metis set_mset_mset)

lemma take_append_take: "take n (take n xs @ ys) = take n (xs @ ys)"
  by (cases "n \<le> length xs") simp_all

section \<open>Words\<close>

lemma word_unat_mod_less: "0 < m \<Longrightarrow> m < 2 ^ LENGTH('a) \<Longrightarrow> unat ((x :: 'a::len word) mod of_nat m) < m"
  by (simp add: unat_mod unat_of_nat take_bit_nat_eq_self_iff take_bit_nat_eq_self)

text \<open>An odd word has a multiplicative inverse, so multiplying by it is a bijection.\<close>

lemma word_mult_inverse_inj:
  fixes c d :: "'a::len word"
  assumes "c * d = 1"
  shows "a * c = b * c \<longleftrightarrow> a = b"
  by (metis assms mult.assoc mult.right_neutral)

lemma xor_right_cancel [simp]: "(a :: 'a::len word) XOR c = b XOR c \<longleftrightarrow> a = b"
  by (metis xor.assoc xor.right_neutral xor_self_eq)

lemma xor_left_cancel [simp]: "(c :: 'a::len word) XOR a = c XOR b \<longleftrightarrow> a = b"
  by (metis xor.assoc xor.left_neutral xor_self_eq)

lemma word_rotl_inject [simp]: "word_rotl n a = word_rotl n b \<longleftrightarrow> a = b"
  by (metis word_rot_gal)

lemma word_rotr_inject [simp]: "word_rotr n a = word_rotr n b \<longleftrightarrow> a = b"
  by (metis word_rot_gal)

section \<open>Little-endian memory\<close>

text \<open>The bytes of a word in memory order on a little-endian host, and the word read from them.\<close>

definition word_to_le :: "'a::len word \<Rightarrow> bytes" where
  "word_to_le x = map (\<lambda>i. ucast (drop_bit (8 * i) x)) [0..<LENGTH('a) div 8]"

primrec word_of_le :: "bytes \<Rightarrow> 'a::len word" where
  "word_of_le [] = 0"
| "word_of_le (b # bs) = ucast b OR push_bit 8 (word_of_le bs)"

lemma length_word_to_le [simp, width_simps]: "length (word_to_le (x :: 'a::len word)) = LENGTH('a) div 8"
  by (simp add: word_to_le_def)

lemma bit_word_of_le:
  "bit (word_of_le bs :: 'a::len word) n \<longleftrightarrow>
     n < LENGTH('a) \<and> n div 8 < length bs \<and> bit (bs ! (n div 8)) (n mod 8)"
proof (induction bs arbitrary: n)
  case Nil
  then show ?case by simp
next
  case (Cons b bs)
  show ?case
  proof (cases "n < 8")
    case True
    then show ?thesis
      by (auto simp: bit_or_iff bit_ucast_iff bit_push_bit_iff dest: bit_imp_le_length)
  next
    case False
    then have "n div 8 = Suc ((n - 8) div 8)" "n mod 8 = (n - 8) mod 8"
      by (simp_all add: div_if [of 8 n] le_mod_geq)
    with False show ?thesis
      by (auto simp: bit_or_iff bit_ucast_iff bit_push_bit_iff Cons.IH dest: bit_imp_le_length)
  qed
qed

lemma nth_word_to_le: "i < LENGTH('a) div 8 \<Longrightarrow> word_to_le (x :: 'a::len word) ! i = ucast (drop_bit (8 * i) x)"
  by (simp add: word_to_le_def)

lemma word_of_le_to_le [simp]:
  assumes "8 dvd LENGTH('a)"
  shows "word_of_le (word_to_le x) = (x :: 'a::len word)"
proof (rule bit_word_eqI)
  fix n assume n: "n < LENGTH('a)"
  then have "n div 8 < LENGTH('a) div 8"
    using assms by (elim dvdE) simp
  with n show "bit (word_of_le (word_to_le x) :: 'a word) n = bit x n"
    by (simp add: bit_word_of_le nth_word_to_le bit_ucast_iff bit_drop_bit_eq)
qed

lemma word_to_le_of_le [simp]:
  assumes "length bs * 8 = LENGTH('a)"
  shows "word_to_le (word_of_le bs :: 'a::len word) = bs"
proof (rule nth_equalityI)
  have len: "LENGTH('a) div 8 = length bs"
    using assms by simp
  then show "length (word_to_le (word_of_le bs :: 'a word)) = length bs" by simp
  fix i assume "i < length (word_to_le (word_of_le bs :: 'a word))"
  with len have i: "i < length bs" by simp
  show "word_to_le (word_of_le bs :: 'a word) ! i = bs ! i"
  proof (rule bit_word_eqI)
    fix n assume "n < LENGTH(8)"
    then have n: "n < 8" by simp
    with i assms have "8 * i + n < LENGTH('a)" by linarith
    with i n len show "bit (word_to_le (word_of_le bs :: 'a word) ! i) n = bit (bs ! i) n"
      by (simp add: nth_word_to_le bit_ucast_iff bit_drop_bit_eq bit_word_of_le)
  qed
qed

lemma word_of_le_append:
  "(word_of_le (xs @ ys) :: 'a::len word) = word_of_le xs OR push_bit (8 * length xs) (word_of_le ys)"
  by (induction xs) (simp_all add: push_bit_or or.assoc push_bit_push_bit add.commute)

lemma word_to_le_concat:
  "word_to_le (push_bit 32 (ucast hi) OR ucast lo :: u64) = word_to_le (lo :: u32) @ word_to_le (hi :: u32)"
proof -
  have "word_of_le (word_to_le lo @ word_to_le hi) = (push_bit 32 (ucast hi) OR ucast lo :: u64)"
  proof (rule bit_word_eqI)
    fix n :: nat assume "n < LENGTH(64)"
    then have n: "n < 64" by simp
    have "bit (word_of_le (word_to_le lo @ word_to_le hi) :: u64) n =
       (if n < 32 then bit lo n else bit hi (n - 32))"
    proof (cases "n < 32")
      case True
      then have "n div 8 < 4" by simp
      with True n show ?thesis
        by (simp add: bit_word_of_le nth_append nth_word_to_le bit_ucast_iff bit_drop_bit_eq)
    next
      case False
      moreover have "8 * (n div 8) + n mod 8 = n" by simp
      ultimately have d: "\<not> n div 8 < 4" "n div 8 < 8" "n div 8 - 4 < 4" "8 * (n div 8 - 4) + n mod 8 = n - 32"
        using n by linarith+
      with False n show ?thesis
        by (simp add: bit_word_of_le nth_append nth_word_to_le bit_ucast_iff bit_drop_bit_eq)
    qed
    with n show "bit (word_of_le (word_to_le lo @ word_to_le hi) :: u64) n =
      bit (push_bit 32 (ucast hi) OR ucast lo :: u64) n"
      by (auto simp: bit_or_iff bit_push_bit_iff bit_ucast_iff dest: bit_imp_le_length)
  qed
  then have "word_to_le (push_bit 32 (ucast hi) OR ucast lo :: u64) =
      word_to_le (word_of_le (word_to_le lo @ word_to_le hi) :: u64)"
    by simp
  then show ?thesis by simp
qed

lemma ucast_u32_u64 [simp]: "(ucast (ucast (x :: u32) :: u64) :: u32) = x"
  by (rule bit_word_eqI) (simp add: bit_ucast_iff)

lemma ucast_word_of_le:
  assumes "8 * length bs \<le> LENGTH('a)"
  shows "ucast (word_of_le bs :: 'a::len word) = (word_of_le bs :: 'b::len word)"
proof (rule bit_word_eqI)
  fix n assume "n < LENGTH('b)"
  moreover have "n < LENGTH('a)" if "n div 8 < length bs"
  proof -
    have "n < 8 * (n div 8) + 8" by (simp add: mult.commute dividend_less_div_times)
    with that assms show ?thesis by linarith
  qed
  ultimately show "bit (ucast (word_of_le bs :: 'a word) :: 'b word) n = bit (word_of_le bs :: 'b word) n"
    by (auto simp: bit_ucast_iff bit_word_of_le)
qed

end
