(* ===== verification/ProgPow.thy ===== *)
theory ProgPow
  imports Prelude
begin

unbundle bit_operations_syntax

text \<open>
  The ProgPoW kernel generator, \<^verbatim>\<open>libprogpow/ProgPow.{h,cpp}\<close>.  \<open>getKern\<close> builds the
  source text of one period's inner loop exactly as the C++ stream does, threading the
  KISS99 generator and the two register sequences through a \<open>kern_state\<close>.  Beside the text the
  same state evolution is read as an abstract program (\<open>getProg\<close>, a list of \<open>instr\<close>), on which the
  guarantees the source comments promise (every register merged every loop, no duplicated cache
  load, two different math sources) are stated.  What the text computes, and that the program is the
  one ProgPoW's random stream selects, is the subject of the theory \<open>KernelText\<close>.
\<close>

section \<open>Parameters\<close>

definition PROGPOW_PERIOD :: nat where "PROGPOW_PERIOD = 10"
definition PROGPOW_LANES :: nat where "PROGPOW_LANES = 16"
definition PROGPOW_REGS :: nat where "PROGPOW_REGS = 32"
definition PROGPOW_DAG_LOADS :: nat where "PROGPOW_DAG_LOADS = 4"
definition PROGPOW_CACHE_BYTES :: nat where "PROGPOW_CACHE_BYTES = 16 * 1024"
definition PROGPOW_CNT_DAG :: nat where "PROGPOW_CNT_DAG = 128"
definition PROGPOW_CNT_CACHE :: nat where "PROGPOW_CNT_CACHE = 11"
definition PROGPOW_CNT_MATH :: nat where "PROGPOW_CNT_MATH = 20"

lemmas progpow_params =
  PROGPOW_PERIOD_def PROGPOW_LANES_def PROGPOW_REGS_def PROGPOW_DAG_LOADS_def
  PROGPOW_CACHE_BYTES_def PROGPOW_CNT_DAG_def PROGPOW_CNT_CACHE_def PROGPOW_CNT_MATH_def

datatype kernel_t = KERNEL_CUDA | KERNEL_CL

section \<open>Random numbers\<close>

record kiss99_t =
  k_z :: u32
  k_w :: u32
  k_jsr :: u32
  k_jcong :: u32

definition fnv1a :: "u32 \<Rightarrow> u32 \<Rightarrow> u32" where
  "fnv1a h d = (h XOR d) * 0x1000193"

definition kiss99 :: "kiss99_t \<Rightarrow> u32 \<times> kiss99_t" where
  "kiss99 st =
     (let z1 = 36969 * (k_z st AND 65535) + drop_bit 16 (k_z st);
          w1 = 18000 * (k_w st AND 65535) + drop_bit 16 (k_w st);
          MWC = push_bit 16 z1 + w1;
          j1 = k_jsr st XOR push_bit 17 (k_jsr st);
          j2 = j1 XOR drop_bit 13 j1;
          j3 = j2 XOR push_bit 5 j2;
          c1 = 69069 * k_jcong st + 1234567
      in ((MWC XOR c1) + j3, \<lparr>k_z = z1, k_w = w1, k_jsr = j3, k_jcong = c1\<rparr>))"

section \<open>Generator state\<close>

record kern_state =
  rnd_state :: kiss99_t
  mix_seq_dst :: "nat list"
  mix_seq_cache :: "nat list"
  mix_seq_dst_cnt :: nat
  mix_seq_cache_cnt :: nat

definition rnd :: "kern_state \<Rightarrow> u32 \<times> kern_state" where
  "rnd s = (let (r, st) = kiss99 (rnd_state s) in (r, s\<lparr>rnd_state := st\<rparr>))"

text \<open>The register a \<open>mix_dst()\<close> or \<open>mix_cache()\<close> macro call names, and the counter it advances.\<close>

definition next_dst :: "kern_state \<Rightarrow> nat \<times> kern_state" where
  "next_dst s = (mix_seq_dst s ! (mix_seq_dst_cnt s mod PROGPOW_REGS),
     s\<lparr>mix_seq_dst_cnt := mix_seq_dst_cnt s + 1\<rparr>)"

definition next_cache :: "kern_state \<Rightarrow> nat \<times> kern_state" where
  "next_cache s = (mix_seq_cache s ! (mix_seq_cache_cnt s mod PROGPOW_REGS),
     s\<lparr>mix_seq_cache_cnt := mix_seq_cache_cnt s + 1\<rparr>)"

definition mix_reg :: "nat \<Rightarrow> string" where
  "mix_reg n = ''mix['' @ to_string n @ '']''"

definition mix_dst :: "kern_state \<Rightarrow> string \<times> kern_state" where
  "mix_dst s = (let (d, s1) = next_dst s in (mix_reg d, s1))"

definition mix_cache :: "kern_state \<Rightarrow> string \<times> kern_state" where
  "mix_cache s = (let (d, s1) = next_cache s in (mix_reg d, s1))"

definition swap_ints :: "nat list \<Rightarrow> nat \<Rightarrow> nat \<Rightarrow> nat list" where
  "swap_ints xs i j = xs[i := xs ! j, j := xs ! i]"

text \<open>One draw of \<^verbatim>\<open>j = rnd() % (i + 1)\<close>.\<close>

definition rnd_below :: "nat \<Rightarrow> kern_state \<Rightarrow> nat \<times> kern_state" where
  "rnd_below n s = (let (r, s1) = rnd s in (unat (r mod of_nat n), s1))"

text \<open>The Fisher-Yates loop \<^verbatim>\<open>for (int i = PROGPOW_REGS - 1; i > 0; i--)\<close>.\<close>

fun shuffle_seqs :: "nat \<Rightarrow> kern_state \<Rightarrow> kern_state" where
  "shuffle_seqs 0 s = s"
| "shuffle_seqs (Suc i) s =
     (let (j1, s1) = rnd_below (Suc i + 1) s;
          s2 = s1\<lparr>mix_seq_dst := swap_ints (mix_seq_dst s1) (Suc i) j1\<rparr>;
          (j2, s3) = rnd_below (Suc i + 1) s2;
          s4 = s3\<lparr>mix_seq_cache := swap_ints (mix_seq_cache s3) (Suc i) j2\<rparr>
      in shuffle_seqs i s4)"

definition prog_seed_of :: "u64 \<Rightarrow> u64" where
  "prog_seed_of block_number = block_number div of_nat PROGPOW_PERIOD"

definition seed_rnd :: "u64 \<Rightarrow> kiss99_t" where
  "seed_rnd prog_seed =
     (let seed0 = (ucast prog_seed :: u32);
          seed1 = (ucast (drop_bit 32 prog_seed) :: u32);
          h1 = fnv1a 0x811c9dc5 seed0;
          h2 = fnv1a h1 seed1;
          h3 = fnv1a h2 seed0;
          h4 = fnv1a h3 seed1
      in \<lparr>k_z = h1, k_w = h2, k_jsr = h3, k_jcong = h4\<rparr>)"

definition init_seqs :: "u64 \<Rightarrow> kern_state" where
  "init_seqs prog_seed = shuffle_seqs (PROGPOW_REGS - 1)
     \<lparr>rnd_state = seed_rnd prog_seed, mix_seq_dst = [0..<PROGPOW_REGS],
      mix_seq_cache = [0..<PROGPOW_REGS], mix_seq_dst_cnt = 0, mix_seq_cache_cnt = 0\<rparr>"

section \<open>Statement text\<close>

definition stmt_line :: "string \<Rightarrow> string" where
  "stmt_line s = s @ ''\<newline>''"

definition merge :: "string \<Rightarrow> string \<Rightarrow> u32 \<Rightarrow> string" where
  "merge a b r =
     (let k = r mod 4; n = to_string (unat ((drop_bit 16 r mod 31) + 1)) in
      if k = 0 then stmt_line (a @ '' = ROTR32('' @ a @ '', '' @ n @ '') ^ '' @ b @ '';'')
      else if k = 1 then stmt_line (a @ '' = ROTL32('' @ a @ '', '' @ n @ '') ^ '' @ b @ '';'')
      else if k = 2 then stmt_line (a @ '' = ('' @ a @ '' * 33) + '' @ b @ '';'')
      else if k = 3 then stmt_line (a @ '' = ('' @ a @ '' ^ '' @ b @ '') * 33;'')
      else stmt_line ''#error'')"

definition math :: "string \<Rightarrow> string \<Rightarrow> string \<Rightarrow> u32 \<Rightarrow> string" where
  "math d a b r =
     (let k = r mod 11 in
      if k = 0 then stmt_line (d @ '' = ROTL32('' @ a @ '', '' @ b @ '');'')
      else if k = 1 then stmt_line (d @ '' = '' @ a @ '' & '' @ b @ '';'')
      else if k = 2 then stmt_line (d @ '' = '' @ a @ '' + '' @ b @ '';'')
      else if k = 3 then stmt_line (d @ '' = popcount('' @ a @ '') + popcount('' @ b @ '');'')
      else if k = 4 then stmt_line (d @ '' = clz('' @ a @ '') + clz('' @ b @ '');'')
      else if k = 5 then stmt_line (d @ '' = ROTR32('' @ a @ '', '' @ b @ '');'')
      else if k = 6 then stmt_line (d @ '' = mul_hi('' @ a @ '', '' @ b @ '');'')
      else if k = 7 then stmt_line (d @ '' = '' @ a @ '' | '' @ b @ '';'')
      else if k = 8 then stmt_line (d @ '' = '' @ a @ '' * '' @ b @ '';'')
      else if k = 9 then stmt_line (d @ '' = '' @ a @ '' ^ '' @ b @ '';'')
      else if k = 10 then stmt_line (d @ '' = min('' @ a @ '', '' @ b @ '');'')
      else stmt_line ''#error'')"

section \<open>The generated source\<close>

definition kern_macros :: "kernel_t \<Rightarrow> string" where
  "kern_macros kern =
     (if kern = KERNEL_CUDA then
        stmt_line ''typedef unsigned int       uint32_t;'' @
        stmt_line ''typedef unsigned long long uint64_t;'' @
        stmt_line ''#define ROTL32(x,n) __funnelshift_l((x), (x), (n))'' @
        stmt_line ''#define ROTR32(x,n) __funnelshift_r((x), (x), (n))'' @
        stmt_line ''#define min(a,b) ((a<b) ? a : b)'' @
        stmt_line ''#define mul_hi(a, b) __umulhi(a, b)'' @
        stmt_line ''#define clz(a) __clz(a)'' @
        stmt_line ''#define popcount(a) __popc(a)'' @
        stmt_line []
      else
        stmt_line ''#ifndef GROUP_SIZE'' @
        stmt_line ''#define GROUP_SIZE 128'' @
        stmt_line ''#endif'' @
        stmt_line (''#define GROUP_SHARE (GROUP_SIZE / '' @ to_string PROGPOW_LANES @ '')'') @
        stmt_line [] @
        stmt_line ''typedef unsigned int       uint32_t;'' @
        stmt_line ''typedef unsigned long      uint64_t;'' @
        stmt_line ''#define ROTL32(x, n) rotate((x), (uint32_t)(n))'' @
        stmt_line ''#define ROTR32(x, n) rotate((x), (uint32_t)(32-n))'' @
        stmt_line [])"

definition kern_params :: string where
  "kern_params =
     stmt_line (''#define PROGPOW_LANES           '' @ to_string PROGPOW_LANES) @
     stmt_line (''#define PROGPOW_REGS            '' @ to_string PROGPOW_REGS) @
     stmt_line (''#define PROGPOW_DAG_LOADS       '' @ to_string PROGPOW_DAG_LOADS) @
     stmt_line (''#define PROGPOW_CACHE_WORDS     '' @ to_string (PROGPOW_CACHE_BYTES div 4)) @
     stmt_line (''#define PROGPOW_CNT_DAG         '' @ to_string PROGPOW_CNT_DAG) @
     stmt_line (''#define PROGPOW_CNT_MATH        '' @ to_string PROGPOW_CNT_MATH) @
     stmt_line []"

definition kern_signature :: "kernel_t \<Rightarrow> u64 \<Rightarrow> string" where
  "kern_signature kern prog_seed =
     (if kern = KERNEL_CUDA then
        stmt_line ''typedef struct __align__(PROGPOW_DAG_LOADS * 4) {uint32_t s[PROGPOW_DAG_LOADS];} dag_t;'' @
        stmt_line [] @
        stmt_line (''// Inner loop for prog_seed '' @ to_string (unat prog_seed)) @
        stmt_line ''__device__ __forceinline__ void progPowLoop(const uint32_t loop,'' @
        stmt_line ''        uint32_t mix[PROGPOW_REGS],'' @
        stmt_line ''        const dag_t *g_dag,'' @
        stmt_line ''        const uint32_t c_dag[PROGPOW_CACHE_WORDS],'' @
        stmt_line ''        const bool hack_false)''
      else
        stmt_line ''typedef struct __attribute__ ((aligned (PROGPOW_DAG_LOADS * 4))) {uint32_t s[PROGPOW_DAG_LOADS];} dag_t;'' @
        stmt_line [] @
        stmt_line (''// Inner loop for prog_seed '' @ to_string (unat prog_seed)) @
        stmt_line ''void progPowLoop(const uint32_t loop,'' @
        stmt_line ''        uint32_t mix[PROGPOW_REGS],'' @
        stmt_line ''        __global const dag_t *g_dag,'' @
        stmt_line ''        __local const uint32_t c_dag[PROGPOW_CACHE_WORDS],'' @
        stmt_line ''        __local uint64_t share[GROUP_SHARE],'' @
        stmt_line ''        const bool hack_false)'') @
     stmt_line ''{''"

definition kern_hack :: "kernel_t \<Rightarrow> string" where
  "kern_hack kern =
     stmt_line ''// hack to prevent compiler from reordering LD and usage'' @
     (if kern = KERNEL_CUDA then stmt_line ''if (hack_false) __threadfence_block();''
      else stmt_line ''if (hack_false) barrier(CLK_LOCAL_MEM_FENCE);'')"

text \<open>The declarations, and the offset that lane \<open>loop % PROGPOW_LANES\<close> hands to the others.\<close>

definition kern_share :: "kernel_t \<Rightarrow> string" where
  "kern_share kern =
     stmt_line ''dag_t data_dag;'' @
     stmt_line ''uint32_t offset, data;'' @
     (if kern = KERNEL_CUDA then
        stmt_line ''const uint32_t lane_id = threadIdx.x & (PROGPOW_LANES-1);''
      else
        stmt_line ''const uint32_t lane_id = get_local_id(0) & (PROGPOW_LANES-1);'' @
        stmt_line ''const uint32_t group_id = get_local_id(0) / PROGPOW_LANES;'') @
     stmt_line ''// global load'' @
     (if kern = KERNEL_CUDA then
        stmt_line ''offset = __shfl_sync(0xFFFFFFFF, mix[0], loop%PROGPOW_LANES, PROGPOW_LANES);''
      else
        stmt_line ''if(lane_id == (loop % PROGPOW_LANES))'' @
        stmt_line ''    share[group_id] = mix[0];'' @
        stmt_line ''barrier(CLK_LOCAL_MEM_FENCE);'' @
        stmt_line ''offset = share[group_id];'')"

definition kern_global_load :: "kernel_t \<Rightarrow> string" where
  "kern_global_load kern =
     kern_share kern @
     stmt_line ''offset %= PROGPOW_DAG_ELEMENTS;'' @
     stmt_line ''offset = offset * PROGPOW_LANES + (lane_id ^ loop) % PROGPOW_LANES;'' @
     stmt_line ''data_dag = g_dag[offset];'' @
     kern_hack kern"

definition emit_cache :: "nat \<Rightarrow> kern_state \<Rightarrow> string \<times> kern_state" where
  "emit_cache i s =
     (let (src, s1) = mix_cache s;
          (dest, s2) = mix_dst s1;
          (r, s3) = rnd s2
      in (stmt_line (''// cache load '' @ to_string i) @
          stmt_line (''offset = '' @ src @ '' % PROGPOW_CACHE_WORDS;'') @
          stmt_line ''data = c_dag[offset];'' @
          merge dest ''data'' r, s3))"

definition emit_math :: "nat \<Rightarrow> kern_state \<Rightarrow> string \<times> kern_state" where
  "emit_math i s =
     (let (src_rnd, s1) = rnd_below ((PROGPOW_REGS - 1) * PROGPOW_REGS) s;
          src1 = src_rnd mod PROGPOW_REGS;
          src2 = src_rnd div PROGPOW_REGS;
          src2' = (if src1 \<le> src2 then src2 + 1 else src2);
          (r1, s2) = rnd s1;
          (dest, s3) = mix_dst s2;
          (r2, s4) = rnd s3
      in (stmt_line (''// random math '' @ to_string i) @
          math ''data'' (mix_reg src1) (mix_reg src2') r1 @
          merge dest ''data'' r2, s4))"

text \<open>The loop \<^verbatim>\<open>for (int i = 0; (i < PROGPOW_CNT_CACHE) || (i < PROGPOW_CNT_MATH); i++)\<close>.\<close>

definition emit_step :: "nat \<Rightarrow> kern_state \<Rightarrow> string \<times> kern_state" where
  "emit_step i s =
     (let (t1, s1) = (if i < PROGPOW_CNT_CACHE then emit_cache i s else ([], s));
          (t2, s2) = (if i < PROGPOW_CNT_MATH then emit_math i s1 else ([], s1))
      in (t1 @ t2, s2))"

function emit_body :: "nat \<Rightarrow> kern_state \<Rightarrow> string \<times> kern_state" where
  "emit_body i s =
     (if i < PROGPOW_CNT_CACHE \<or> i < PROGPOW_CNT_MATH then
        let (t1, s1) = emit_step i s; (t2, s2) = emit_body (i + 1) s1
        in (t1 @ t2, s2)
      else ([], s))"
  by pat_completeness auto
termination
  by (relation "measure (\<lambda>(i, s). max PROGPOW_CNT_CACHE PROGPOW_CNT_MATH - i)") auto

declare emit_body.simps [simp del]

text \<open>The final merges of the global load, \<^verbatim>\<open>for (int i = 1; i < PROGPOW_DAG_LOADS; i++)\<close>.\<close>

function emit_loads :: "nat \<Rightarrow> kern_state \<Rightarrow> string \<times> kern_state" where
  "emit_loads i s =
     (if i < PROGPOW_DAG_LOADS then
        let (dest, s1) = mix_dst s;
            (r, s2) = rnd s1;
            (t, s3) = emit_loads (i + 1) s2
        in (merge dest (''data_dag.s['' @ to_string i @ '']'') r @ t, s3)
      else ([], s))"
  by pat_completeness auto
termination
  by (relation "measure (\<lambda>(i, s). PROGPOW_DAG_LOADS - i)") auto

declare emit_loads.simps [simp del]

definition kern_consume_head :: "kernel_t \<Rightarrow> string" where
  "kern_consume_head kern = stmt_line ''// consume global load data'' @ kern_hack kern"

definition getKern :: "u64 \<Rightarrow> kernel_t \<Rightarrow> string" where
  "getKern block_number kern =
     (let prog_seed = prog_seed_of block_number;
          s0 = init_seqs prog_seed;
          (body, s1) = emit_body 0 s0;
          (r, s2) = rnd s1;
          (loads, s3) = emit_loads 1 s2
      in kern_macros kern @ kern_params @ kern_signature kern prog_seed @ kern_global_load kern @
         body @ kern_consume_head kern @ merge ''mix[0]'' ''data_dag.s[0]'' r @ loads @
         stmt_line ''}'' @ stmt_line [])"

section \<open>The abstract program\<close>

text \<open>What the emitted statements do, with the register numbers and selectors already drawn.\<close>

datatype instr =
    CacheLoad nat nat nat u32        \<comment> \<open>index, source register, destination, selector\<close>
  | RandMath nat nat nat u32 nat u32 \<comment> \<open>index, sources, math selector, destination, merge selector\<close>
  | DagMerge nat nat u32             \<comment> \<open>word of the DAG load, destination, selector\<close>

fun show_instr :: "instr \<Rightarrow> string" where
  "show_instr (CacheLoad i src dst r) =
     stmt_line (''// cache load '' @ to_string i) @
     stmt_line (''offset = '' @ mix_reg src @ '' % PROGPOW_CACHE_WORDS;'') @
     stmt_line ''data = c_dag[offset];'' @ merge (mix_reg dst) ''data'' r"
| "show_instr (RandMath i src1 src2 r1 dst r2) =
     stmt_line (''// random math '' @ to_string i) @
     math ''data'' (mix_reg src1) (mix_reg src2) r1 @ merge (mix_reg dst) ''data'' r2"
| "show_instr (DagMerge k dst r) =
     merge (mix_reg dst) (''data_dag.s['' @ to_string k @ '']'') r"

fun instr_dst :: "instr \<Rightarrow> nat" where
  "instr_dst (CacheLoad i src dst r) = dst"
| "instr_dst (RandMath i src1 src2 r1 dst r2) = dst"
| "instr_dst (DagMerge k dst r) = dst"

fun cache_srcs :: "instr list \<Rightarrow> nat list" where
  "cache_srcs [] = []"
| "cache_srcs (CacheLoad i src dst r # is) = src # cache_srcs is"
| "cache_srcs (_ # is) = cache_srcs is"

fun math_pairs :: "instr list \<Rightarrow> (nat \<times> nat) list" where
  "math_pairs [] = []"
| "math_pairs (RandMath i a b r1 dst r2 # is) = (a, b) # math_pairs is"
| "math_pairs (_ # is) = math_pairs is"

definition show_prog :: "instr list \<Rightarrow> string" where
  "show_prog is = concat (map show_instr is)"

definition gen_cache :: "nat \<Rightarrow> kern_state \<Rightarrow> instr \<times> kern_state" where
  "gen_cache i s =
     (let (src, s1) = next_cache s; (dst, s2) = next_dst s1; (r, s3) = rnd s2
      in (CacheLoad i src dst r, s3))"

definition math_srcs :: "nat \<Rightarrow> nat \<times> nat" where
  "math_srcs src_rnd =
     (let src1 = src_rnd mod PROGPOW_REGS; src2 = src_rnd div PROGPOW_REGS
      in (src1, if src1 \<le> src2 then src2 + 1 else src2))"

definition gen_math :: "nat \<Rightarrow> kern_state \<Rightarrow> instr \<times> kern_state" where
  "gen_math i s =
     (let (src_rnd, s1) = rnd_below ((PROGPOW_REGS - 1) * PROGPOW_REGS) s;
          (r1, s2) = rnd s1; (dst, s3) = next_dst s2; (r2, s4) = rnd s3
      in (RandMath i (fst (math_srcs src_rnd)) (snd (math_srcs src_rnd)) r1 dst r2, s4))"

definition gen_step :: "nat \<Rightarrow> kern_state \<Rightarrow> instr list \<times> kern_state" where
  "gen_step i s =
     (let (is1, s1) = (if i < PROGPOW_CNT_CACHE then apfst (\<lambda>x. [x]) (gen_cache i s) else ([], s));
          (is2, s2) = (if i < PROGPOW_CNT_MATH then apfst (\<lambda>x. [x]) (gen_math i s1) else ([], s1))
      in (is1 @ is2, s2))"

function gen_body :: "nat \<Rightarrow> kern_state \<Rightarrow> instr list \<times> kern_state" where
  "gen_body i s =
     (if i < PROGPOW_CNT_CACHE \<or> i < PROGPOW_CNT_MATH then
        let (is1, s1) = gen_step i s; (is2, s2) = gen_body (i + 1) s1
        in (is1 @ is2, s2)
      else ([], s))"
  by pat_completeness auto
termination
  by (relation "measure (\<lambda>(i, s). max PROGPOW_CNT_CACHE PROGPOW_CNT_MATH - i)") auto

declare gen_body.simps [simp del]

function gen_loads :: "nat \<Rightarrow> kern_state \<Rightarrow> instr list \<times> kern_state" where
  "gen_loads i s =
     (if i < PROGPOW_DAG_LOADS then
        let (dst, s1) = next_dst s; (r, s2) = rnd s1; (is, s3) = gen_loads (i + 1) s2
        in (DagMerge i dst r # is, s3)
      else ([], s))"
  by pat_completeness auto
termination
  by (relation "measure (\<lambda>(i, s). PROGPOW_DAG_LOADS - i)") auto

declare gen_loads.simps [simp del]

text \<open>The two parts of a period's program: the interleaved cache and math instructions, and the
  merges of the DAG load, the first of which always targets register 0.\<close>

definition getProg :: "u64 \<Rightarrow> instr list \<times> instr list" where
  "getProg prog_seed =
     (let (body, s1) = gen_body 0 (init_seqs prog_seed);
          (r, s2) = rnd s1;
          (loads, s3) = gen_loads 1 s2
      in (body, DagMerge 0 0 r # loads))"

section \<open>Facts about the generator\<close>

lemmas draw_defs = rnd_def next_dst_def next_cache_def rnd_below_def mix_dst_def mix_cache_def

lemma rnd_frame [simp]:
  "mix_seq_dst (snd (rnd s)) = mix_seq_dst s"
  "mix_seq_cache (snd (rnd s)) = mix_seq_cache s"
  "mix_seq_dst_cnt (snd (rnd s)) = mix_seq_dst_cnt s"
  "mix_seq_cache_cnt (snd (rnd s)) = mix_seq_cache_cnt s"
  by (simp_all add: rnd_def split_def Let_def)

lemma rnd_below_frame [simp]: "snd (rnd_below n s) = snd (rnd s)"
  by (simp add: rnd_below_def split_def Let_def)

lemma rnd_below_less: "0 < n \<Longrightarrow> n < 2 ^ 32 \<Longrightarrow> fst (rnd_below n s) < n"
  using word_unat_mod_less [of n "fst (rnd s)"] by (simp add: rnd_below_def split_def Let_def)

lemma mset_swap_ints: "i < length xs \<Longrightarrow> j < length xs \<Longrightarrow> mset (swap_ints xs i j) = mset xs"
  by (simp add: swap_ints_def mset_swap_update)

lemma length_swap_ints [simp, shape_simps]: "length (swap_ints xs i j) = length xs"
  by (simp add: swap_ints_def)

definition shuffled_from :: "kern_state \<Rightarrow> kern_state \<Rightarrow> bool" where
  "shuffled_from s t \<longleftrightarrow>
     mset (mix_seq_dst t) = mset (mix_seq_dst s) \<and> mset (mix_seq_cache t) = mset (mix_seq_cache s) \<and>
     mix_seq_dst_cnt t = mix_seq_dst_cnt s \<and> mix_seq_cache_cnt t = mix_seq_cache_cnt s"

lemma shuffle_seqs_shuffled:
  "i < length (mix_seq_dst s) \<Longrightarrow> i < length (mix_seq_cache s) \<Longrightarrow> i + 1 < 2 ^ 32 \<Longrightarrow>
   shuffled_from s (shuffle_seqs i s)"
proof (induction i arbitrary: s)
  case 0
  then show ?case by (simp add: shuffled_from_def)
next
  case (Suc i)
  have j: "fst (rnd_below (Suc (Suc i)) t) < n" if "Suc i < n" for t n
    using rnd_below_less [of "Suc (Suc i)" t] Suc.prems that by simp
  show ?case
    using Suc.prems
    by (simp add: shuffled_from_def Let_def split_def mset_swap_ints j
          Suc.IH [unfolded shuffled_from_def])
qed

lemma init_seqs_perm:
  "mset (mix_seq_dst (init_seqs p)) = mset [0..<PROGPOW_REGS]"
  "mset (mix_seq_cache (init_seqs p)) = mset [0..<PROGPOW_REGS]"
  "mix_seq_dst_cnt (init_seqs p) = 0" "mix_seq_cache_cnt (init_seqs p) = 0"
proof -
  let ?s = "\<lparr>rnd_state = seed_rnd p, mix_seq_dst = [0..<PROGPOW_REGS],
      mix_seq_cache = [0..<PROGPOW_REGS], mix_seq_dst_cnt = 0, mix_seq_cache_cnt = 0\<rparr>"
  have "shuffled_from ?s (init_seqs p)"
    unfolding init_seqs_def by (rule shuffle_seqs_shuffled) (simp_all add: PROGPOW_REGS_def)
  then show
    "mset (mix_seq_dst (init_seqs p)) = mset [0..<PROGPOW_REGS]"
    "mset (mix_seq_cache (init_seqs p)) = mset [0..<PROGPOW_REGS]"
    "mix_seq_dst_cnt (init_seqs p) = 0" "mix_seq_cache_cnt (init_seqs p) = 0"
    by (simp_all add: shuffled_from_def)
qed

lemma init_seqs_facts:
  "length (mix_seq_dst (init_seqs p)) = PROGPOW_REGS" "length (mix_seq_cache (init_seqs p)) = PROGPOW_REGS"
  "set (mix_seq_dst (init_seqs p)) = {..<PROGPOW_REGS}"
  "set (mix_seq_cache (init_seqs p)) = {..<PROGPOW_REGS}"
  "distinct (mix_seq_dst (init_seqs p))" "distinct (mix_seq_cache (init_seqs p))"
  using length_mset_eq [OF init_seqs_perm(1)] length_mset_eq [OF init_seqs_perm(2)]
    set_mset_eq [OF init_seqs_perm(1)] set_mset_eq [OF init_seqs_perm(2)]
    distinct_mset_eq [OF init_seqs_perm(1)] distinct_mset_eq [OF init_seqs_perm(2)]
  by (auto simp: atLeast0LessThan)

subsection \<open>The text renders the program\<close>

lemma emit_cache_gen: "emit_cache i s = apfst show_instr (gen_cache i s)"
  by (simp add: emit_cache_def gen_cache_def mix_cache_def mix_dst_def split_def Let_def)

lemma emit_math_gen: "emit_math i s = apfst show_instr (gen_math i s)"
  by (simp add: emit_math_def gen_math_def math_srcs_def mix_dst_def split_def Let_def)

lemma emit_step_gen: "emit_step i s = apfst show_prog (gen_step i s)"
  by (simp add: emit_step_def gen_step_def emit_cache_gen emit_math_gen split_def show_prog_def Let_def)

lemma emit_body_gen: "emit_body i s = apfst show_prog (gen_body i s)"
proof (induction i s rule: gen_body.induct)
  case (1 i s)
  note IH = "1.IH" [OF _ refl prod.collapse]
  show ?case
    using IH by (auto simp: emit_body.simps [of i s] gen_body.simps [of i s] emit_step_gen
          split_def Let_def show_prog_def)
qed

lemma emit_loads_gen: "emit_loads i s = apfst show_prog (gen_loads i s)"
proof (induction i s rule: gen_loads.induct)
  case (1 i s)
  note IH = "1.IH" [OF _ refl prod.collapse refl prod.collapse]
  show ?case
    using IH by (auto simp: emit_loads.simps [of i s] gen_loads.simps [of i s] mix_dst_def
          split_def show_prog_def Let_def)
qed

lemma mix_reg_0: "mix_reg 0 = ''mix[0]''" "to_string 0 = ''0''"
  by code_simp+

subsection \<open>Which registers are drawn\<close>

lemma gen_cache_facts:
  "instr_dst (fst (gen_cache i s)) = mix_seq_dst s ! (mix_seq_dst_cnt s mod PROGPOW_REGS)"
  "cache_srcs (fst (gen_cache i s) # is) = mix_seq_cache s ! (mix_seq_cache_cnt s mod PROGPOW_REGS) # cache_srcs is"
  "mix_seq_dst (snd (gen_cache i s)) = mix_seq_dst s"
  "mix_seq_cache (snd (gen_cache i s)) = mix_seq_cache s"
  "mix_seq_dst_cnt (snd (gen_cache i s)) = Suc (mix_seq_dst_cnt s)"
  "mix_seq_cache_cnt (snd (gen_cache i s)) = Suc (mix_seq_cache_cnt s)"
  by (simp_all add: gen_cache_def next_cache_def next_dst_def split_def Let_def)

lemma gen_math_facts:
  "instr_dst (fst (gen_math i s)) = mix_seq_dst s ! (mix_seq_dst_cnt s mod PROGPOW_REGS)"
  "cache_srcs (fst (gen_math i s) # is) = cache_srcs is"
  "mix_seq_dst (snd (gen_math i s)) = mix_seq_dst s"
  "mix_seq_cache (snd (gen_math i s)) = mix_seq_cache s"
  "mix_seq_dst_cnt (snd (gen_math i s)) = Suc (mix_seq_dst_cnt s)"
  "mix_seq_cache_cnt (snd (gen_math i s)) = mix_seq_cache_cnt s"
  by (simp_all add: gen_math_def next_dst_def split_def Let_def)

definition cyc :: "nat list \<Rightarrow> nat \<Rightarrow> nat \<Rightarrow> nat list" where
  "cyc xs a n = map (\<lambda>k. xs ! (k mod PROGPOW_REGS)) [a..<a + n]"

lemma cyc_0 [simp]: "cyc xs a 0 = []"
  by (simp add: cyc_def)

lemma cyc_Suc: "cyc xs a (Suc n) = xs ! (a mod PROGPOW_REGS) # cyc xs (Suc a) n"
  by (simp add: cyc_def upt_conv_Cons del: upt_Suc)

lemma cyc_append: "cyc xs a m @ cyc xs (a + m) n = cyc xs a (m + n)"
  using upt_add_eq_append [of a "a + m" n] by (simp add: cyc_def add.assoc)

abbreviation draws :: "nat \<Rightarrow> nat" where
  "draws i \<equiv> of_bool (i < PROGPOW_CNT_CACHE) + of_bool (i < PROGPOW_CNT_MATH)"

lemma cache_srcs_append: "cache_srcs (xs @ ys) = cache_srcs xs @ cache_srcs ys"
  by (induction xs rule: cache_srcs.induct) auto

lemma gen_step_facts:
  "map instr_dst (fst (gen_step i s)) = cyc (mix_seq_dst s) (mix_seq_dst_cnt s) (draws i)"
  "cache_srcs (fst (gen_step i s)) =
     cyc (mix_seq_cache s) (mix_seq_cache_cnt s) (of_bool (i < PROGPOW_CNT_CACHE))"
  "mix_seq_dst (snd (gen_step i s)) = mix_seq_dst s"
  "mix_seq_cache (snd (gen_step i s)) = mix_seq_cache s"
  "mix_seq_dst_cnt (snd (gen_step i s)) = mix_seq_dst_cnt s + draws i"
  "mix_seq_cache_cnt (snd (gen_step i s)) = mix_seq_cache_cnt s + of_bool (i < PROGPOW_CNT_CACHE)"
  by (simp_all add: gen_step_def gen_cache_facts gen_math_facts split_def Let_def cyc_Suc
       cache_srcs_append numeral_2_eq_2)

lemma gen_body_facts:
  defines "n i \<equiv> (PROGPOW_CNT_CACHE - i) + (PROGPOW_CNT_MATH - i)"
  shows "map instr_dst (fst (gen_body i s)) = cyc (mix_seq_dst s) (mix_seq_dst_cnt s) (n i) \<and>
   cache_srcs (fst (gen_body i s)) = cyc (mix_seq_cache s) (mix_seq_cache_cnt s) (PROGPOW_CNT_CACHE - i) \<and>
   mix_seq_dst (snd (gen_body i s)) = mix_seq_dst s \<and>
   mix_seq_dst_cnt (snd (gen_body i s)) = mix_seq_dst_cnt s + n i"
proof (induction i s rule: gen_body.induct)
  case (1 i s)
  show ?case
  proof (cases "i < PROGPOW_CNT_CACHE \<or> i < PROGPOW_CNT_MATH")
    case True
    have n: "n i = draws i + n (Suc i)"
      and c: "PROGPOW_CNT_CACHE - i = of_bool (i < PROGPOW_CNT_CACHE) + (PROGPOW_CNT_CACHE - Suc i)"
      by (auto simp: n_def)
    show ?thesis
      using True "1.IH" [OF True refl prod.collapse] unfolding n c
      by (simp add: gen_body.simps [of i s] split_def Let_def gen_step_facts cache_srcs_append
            cyc_append del: of_bool_eq)
  next
    case False
    then show ?thesis by (simp add: gen_body.simps [of i s] n_def)
  qed
qed

lemma cyc_set:
  assumes "length xs = PROGPOW_REGS" "PROGPOW_REGS \<le> n"
  shows "set (cyc xs 0 n) = set xs"
proof
  show "set (cyc xs 0 n) \<subseteq> set xs"
    using assms by (auto simp: cyc_def PROGPOW_REGS_def)
  show "set xs \<subseteq> set (cyc xs 0 n)"
  proof
    fix x assume "x \<in> set xs"
    then obtain k where "k < PROGPOW_REGS" "x = xs ! k"
      using assms(1) by (auto simp: in_set_conv_nth)
    with assms(2) show "x \<in> set (cyc xs 0 n)"
      by (auto simp: cyc_def intro!: image_eqI [where x = k])
  qed
qed

lemma cyc_distinct:
  assumes "length xs = PROGPOW_REGS" "distinct xs" "n \<le> PROGPOW_REGS"
  shows "distinct (cyc xs 0 n)"
proof -
  have "cyc xs 0 n = take n xs"
    using assms by (intro nth_equalityI) (auto simp: cyc_def)
  with assms(2) show ?thesis by simp
qed

lemma gen_loads_dsts:
  "map instr_dst (fst (gen_loads i s)) = cyc (mix_seq_dst s) (mix_seq_dst_cnt s) (PROGPOW_DAG_LOADS - i)"
proof (induction i s rule: gen_loads.induct)
  case (1 i s)
  note IH = "1.IH" [OF _ refl prod.collapse refl prod.collapse]
  show ?case
  proof (cases "i < PROGPOW_DAG_LOADS")
    case True
    then have "PROGPOW_DAG_LOADS - i = Suc (PROGPOW_DAG_LOADS - Suc i)" by simp
    with True IH [OF True] show ?thesis
      by (simp add: gen_loads.simps [of i s] split_def Let_def next_dst_def cyc_Suc)
  next
    case False
    then show ?thesis by (simp add: gen_loads.simps [of i s])
  qed
qed

text \<open>The whole program writes the destination sequence in order, with the fixed merge into
  register 0 between the body and the remaining DAG merges.\<close>

lemma getProg_dsts:
  "map instr_dst (fst (getProg p)) = cyc (mix_seq_dst (init_seqs p)) 0 (PROGPOW_CNT_CACHE + PROGPOW_CNT_MATH)"
  "map instr_dst (snd (getProg p)) = 0 # cyc (mix_seq_dst (init_seqs p))
     (PROGPOW_CNT_CACHE + PROGPOW_CNT_MATH) (PROGPOW_DAG_LOADS - 1)"
  using gen_body_facts [of 0 "init_seqs p"]
  by (simp_all add: getProg_def split_def Let_def gen_loads_dsts init_seqs_perm)

lemma getProg_cache_srcs:
  "cache_srcs (fst (getProg p)) = cyc (mix_seq_cache (init_seqs p)) 0 PROGPOW_CNT_CACHE"
  using gen_body_facts [of 0 "init_seqs p"]
  by (simp add: getProg_def split_def Let_def init_seqs_perm)

lemma getProg_dst_total:
  "set (map instr_dst (fst (getProg p) @ snd (getProg p))) =
     insert 0 (set (cyc (mix_seq_dst (init_seqs p)) 0 (PROGPOW_CNT_CACHE + PROGPOW_CNT_MATH + (PROGPOW_DAG_LOADS - 1))))"
  using cyc_append [of "mix_seq_dst (init_seqs p)" 0 "PROGPOW_CNT_CACHE + PROGPOW_CNT_MATH" "PROGPOW_DAG_LOADS - 1", symmetric]
  by (simp only: map_append set_append getProg_dsts list.set add_0) auto

lemma getKern_renders:
  "getKern bn kern =
     kern_macros kern @ kern_params @ kern_signature kern (prog_seed_of bn) @ kern_global_load kern @
     show_prog (fst (getProg (prog_seed_of bn))) @ kern_consume_head kern @
     show_prog (snd (getProg (prog_seed_of bn))) @ stmt_line ''}'' @ stmt_line []"
  by (simp add: getKern_def getProg_def emit_body_gen emit_loads_gen split_def Let_def)
    (simp add: show_prog_def mix_reg_0)


lemma math_pairs_append: "math_pairs (xs @ ys) = math_pairs xs @ math_pairs ys"
  by (induction xs rule: math_pairs.induct) auto

abbreviation reg_pairs :: "(nat \<times> nat) set" where
  "reg_pairs \<equiv> {(a, b). a < PROGPOW_REGS \<and> b < PROGPOW_REGS \<and> a \<noteq> b}"

lemma math_srcs_bij:
  "bij_betw math_srcs {..<(PROGPOW_REGS - 1) * PROGPOW_REGS}
     {(a, b). a < PROGPOW_REGS \<and> b < PROGPOW_REGS \<and> a \<noteq> b}"
proof (rule bij_betw_byWitness [where f' = "\<lambda>(a, b). a + PROGPOW_REGS * (if a < b then b - 1 else b)"])
  show "math_srcs ` {..<(PROGPOW_REGS - 1) * PROGPOW_REGS}
      \<subseteq> {(a, b). a < PROGPOW_REGS \<and> b < PROGPOW_REGS \<and> a \<noteq> b}"
    by (auto simp: math_srcs_def Let_def PROGPOW_REGS_def less_mult_imp_div_less split: if_splits)
qed (auto simp: math_srcs_def Let_def PROGPOW_REGS_def split: if_splits)


lemma gen_math_pairs: "set (math_pairs [fst (gen_math i s)]) \<subseteq> reg_pairs"
proof -
  have "fst (rnd_below ((PROGPOW_REGS - 1) * PROGPOW_REGS) s) \<in> {..<(PROGPOW_REGS - 1) * PROGPOW_REGS}"
    unfolding lessThan_iff by (rule rnd_below_less) (simp_all add: PROGPOW_REGS_def)
  then have "math_srcs (fst (rnd_below ((PROGPOW_REGS - 1) * PROGPOW_REGS) s)) \<in> reg_pairs"
    by (rule bij_betwE [OF math_srcs_bij, rule_format])
  then show ?thesis
    by (simp add: gen_math_def split_def Let_def)
qed

lemma gen_step_pairs: "set (math_pairs (fst (gen_step i s))) \<subseteq> reg_pairs"
proof -
  have c: "math_pairs [fst (gen_cache i s)] = []" for i s
    by (simp add: gen_cache_def split_def Let_def)
  show ?thesis
    using gen_math_pairs [of i s] gen_math_pairs [of i "snd (gen_cache i s)"]
    by (auto simp: gen_step_def split_def Let_def c math_pairs_append
          simp del: math_pairs.simps(2,3,4))
qed

lemma gen_body_pairs: "set (math_pairs (fst (gen_body i s))) \<subseteq> reg_pairs"
proof (induction i s rule: gen_body.induct)
  case (1 i s)
  note IH = "1.IH" [OF _ refl prod.collapse]
  show ?case
    using IH gen_step_pairs [of i s]
    by (auto simp: gen_body.simps [of i s] split_def Let_def math_pairs_append)
qed

text \<open>FNV-1a loses neither of its arguments, so the generator's state determines the seed.\<close>

lemma fnv1a_inj:
  "fnv1a h d = fnv1a h d' \<longleftrightarrow> d = d'"
  "fnv1a h d = fnv1a h' d \<longleftrightarrow> h = h'"
proof -
  have "(0x1000193 :: u32) * 0x359c449b = 1" by simp
  note inv = word_mult_inverse_inj [OF this]
  show "fnv1a h d = fnv1a h d' \<longleftrightarrow> d = d'" "fnv1a h d = fnv1a h' d \<longleftrightarrow> h = h'"
    by (simp_all add: fnv1a_def inv)
qed

lemma u64_halves_eq:
  assumes "(ucast p :: u32) = ucast q" "(ucast (drop_bit 32 p) :: u32) = ucast (drop_bit 32 q)"
  shows "p = (q :: u64)"
proof (rule bit_word_eqI)
  fix n assume n: "n < LENGTH(64)"
  show "bit p n = bit q n"
  proof (cases "n < 32")
    case True
    then show ?thesis using arg_cong [OF assms(1), of "\<lambda>w. bit w n"] by (simp add: bit_simps)
  next
    case False
    with n have "n - 32 < 32" by simp
    with False show ?thesis
      using arg_cong [OF assms(2), of "\<lambda>w. bit w (n - 32)"] by (simp add: bit_simps)
  qed
qed

lemma seed_rnd_inj: "seed_rnd p = seed_rnd q \<longleftrightarrow> p = q"
  by (auto simp: seed_rnd_def Let_def fnv1a_inj intro: u64_halves_eq)

lemma merge_rotation_bounds:
  "1 \<le> unat ((drop_bit 16 r mod 31) + 1 :: u32) \<and> unat ((drop_bit 16 r mod 31) + 1 :: u32) \<le> 31"
proof -
  have "unat (drop_bit 16 r mod 31 :: u32) < 31"
    using word_unat_mod_less [of 31 "drop_bit 16 r :: u32"] by simp
  then show ?thesis by (simp add: unat_word_ariths)
qed


section \<open>Properties\<close>

text \<open>
  C2: the comment ``guaranteeing every mix element is modified every loop'' holds: the registers
  written by the merges of one loop are exactly the registers \<open>0 .. 31\<close>.
\<close>

theorem every_register_merged:
  "set (map instr_dst (fst (getProg p) @ snd (getProg p))) = {..<PROGPOW_REGS}"
proof -
  have all: "set (cyc (mix_seq_dst (init_seqs p)) 0
          (PROGPOW_CNT_CACHE + PROGPOW_CNT_MATH + (PROGPOW_DAG_LOADS - 1))) = {..<PROGPOW_REGS}"
    by (subst cyc_set) (simp_all add: init_seqs_facts progpow_params)
  have "0 \<in> {..<PROGPOW_REGS}"
    by (simp add: PROGPOW_REGS_def)
  then show ?thesis
    by (simp only: getProg_dst_total all insert_absorb)
qed

text \<open>
  C3: the comment ``guarantee no cache load is duplicated'' holds: the eleven cache loads of a
  loop read eleven different registers.
\<close>

theorem cache_loads_distinct:
  "distinct (cache_srcs (fst (getProg p))) \<and> length (cache_srcs (fst (getProg p))) = PROGPOW_CNT_CACHE \<and>
   set (cache_srcs (fst (getProg p))) \<subseteq> {..<PROGPOW_REGS}"
proof -
  let ?xs = "mix_seq_cache (init_seqs p)"
  have "set (cyc ?xs 0 PROGPOW_CNT_CACHE) \<subseteq> set (cyc ?xs 0 PROGPOW_REGS)"
    by (auto simp: cyc_def progpow_params)
  also have "\<dots> = {..<PROGPOW_REGS}"
    by (simp add: cyc_set init_seqs_facts)
  finally show ?thesis
    using cyc_distinct [of ?xs PROGPOW_CNT_CACHE]
    by (simp add: getProg_cache_srcs init_seqs_facts) (simp add: progpow_params cyc_def)
qed

text \<open>
  C4: every random math instruction of a loop takes two different registers as its sources, and
  the 992 possible draws reach each ordered pair of different registers exactly once.
\<close>

theorem math_sources_unique:
  "set (math_pairs (fst (getProg p))) \<subseteq> reg_pairs \<and>
   bij_betw math_srcs {..<(PROGPOW_REGS - 1) * PROGPOW_REGS} reg_pairs"
  using gen_body_pairs [of 0 "init_seqs p"] math_srcs_bij
  by (simp add: getProg_def split_def Let_def)

text \<open>
  C5: a kernel serves exactly one period.  All blocks of a period get the same kernel text, and the
  random number generator that draws the program starts from the same state for two blocks if and
  only if they lie in the same period of \<open>PROGPOW_PERIOD\<close> blocks, over the whole range of 64-bit
  block numbers.
\<close>

theorem kernel_changes_with_period:
  "(unat a div PROGPOW_PERIOD = unat b div PROGPOW_PERIOD \<longrightarrow> getKern a kern = getKern b kern) \<and>
   (seed_rnd (prog_seed_of a) = seed_rnd (prog_seed_of b) \<longleftrightarrow>
      unat a div PROGPOW_PERIOD = unat b div PROGPOW_PERIOD)"
proof -
  have "prog_seed_of a = prog_seed_of b \<longleftrightarrow> unat a div PROGPOW_PERIOD = unat b div PROGPOW_PERIOD"
    by (simp add: prog_seed_of_def PROGPOW_PERIOD_def word_unat_eq_iff unat_div)
  moreover have "getKern a kern = getKern b kern" if "prog_seed_of a = prog_seed_of b"
    using that by (simp add: getKern_def)
  ultimately show ?thesis by (auto simp: seed_rnd_inj)
qed

theorem kernel_changes_with_period_witness:
  "getKern 120 KERNEL_CUDA = getKern 129 KERNEL_CUDA \<and>
   seed_rnd (prog_seed_of 129) \<noteq> seed_rnd (prog_seed_of 130)"
  using kernel_changes_with_period [of 120 129 KERNEL_CUDA] kernel_changes_with_period [of 129 130 KERNEL_CUDA]
  by (simp add: PROGPOW_PERIOD_def)

end
