(* ===== verification/Kernel.thy ===== *)
theory Kernel
  imports ProgPow
begin

unbundle bit_operations_syntax

text \<open>
  The GPU side of the search: what the statements generated by \<open>getKern\<close> compute, and the
  kernels that surround them, \<^verbatim>\<open>libethash-cuda/CUDAMiner_kernel.cu\<close> and the search part of
  \<^verbatim>\<open>libethash-cl/CLMiner_kernel.cl\<close>.  Sixteen lanes cooperate on sixteen hashes; the model runs
  the lanes of one group in lock step between barriers.  Both kernels are shown to compute, in
  every lane, the reference hash \<open>progpow_hash\<close> of that lane's own nonce.
\<close>

section \<open>Builtins used by the generated code\<close>

definition ROTL32 :: "u32 \<Rightarrow> u32 \<Rightarrow> u32" where
  "ROTL32 x n = word_rotl (unat n mod 32) x"

definition ROTR32 :: "u32 \<Rightarrow> u32 \<Rightarrow> u32" where
  "ROTR32 x n = word_rotr (unat n mod 32) x"

text \<open>The OpenCL flavour defines \<^verbatim>\<open>ROTR32(x, n)\<close> as \<^verbatim>\<open>rotate(x, 32 - n)\<close>.\<close>

definition ROTR32_cl :: "u32 \<Rightarrow> u32 \<Rightarrow> u32" where
  "ROTR32_cl x n = ROTL32 x (32 - n)"

definition mul_hi :: "u32 \<Rightarrow> u32 \<Rightarrow> u32" where
  "mul_hi a b = ucast (drop_bit 32 (ucast a * ucast b :: u64))"

definition clz :: "u32 \<Rightarrow> u32" where
  "clz a = of_nat (length (takeWhile Not (map (bit a) (rev [0..<32]))))"

definition popcount :: "u32 \<Rightarrow> u32" where
  "popcount a = of_nat (length (filter (bit a) [0..<32]))"

section \<open>Meaning of a generated statement\<close>

text \<open>The value \<^verbatim>\<open>merge\<close> assigns to its first operand, and the value \<^verbatim>\<open>math\<close> assigns to \<^verbatim>\<open>data\<close>.\<close>

definition rotr_of :: "kernel_t \<Rightarrow> u32 \<Rightarrow> u32 \<Rightarrow> u32" where
  "rotr_of kern = (if kern = KERNEL_CUDA then ROTR32 else ROTR32_cl)"

definition merge_val :: "kernel_t \<Rightarrow> u32 \<Rightarrow> u32 \<Rightarrow> u32 \<Rightarrow> u32" where
  "merge_val kern a b r =
     (let k = r mod 4; n = (drop_bit 16 r mod 31) + 1 in
      if k = 0 then rotr_of kern a n XOR b
      else if k = 1 then ROTL32 a n XOR b
      else if k = 2 then a * 33 + b
      else (a XOR b) * 33)"

definition math_val :: "kernel_t \<Rightarrow> u32 \<Rightarrow> u32 \<Rightarrow> u32 \<Rightarrow> u32" where
  "math_val kern a b r =
     (let k = r mod 11 in
      if k = 0 then ROTL32 a b
      else if k = 1 then a AND b
      else if k = 2 then a + b
      else if k = 3 then popcount a + popcount b
      else if k = 4 then clz a + clz b
      else if k = 5 then rotr_of kern a b
      else if k = 6 then mul_hi a b
      else if k = 7 then a OR b
      else if k = 8 then a * b
      else if k = 9 then a XOR b
      else min a b)"

fun exec_instr :: "kernel_t \<Rightarrow> u32 list \<Rightarrow> u32 list \<Rightarrow> instr \<Rightarrow> u32 list \<Rightarrow> u32 list" where
  "exec_instr kern c_dag data_dag (CacheLoad i src dst r) mix =
     mix[dst := merge_val kern (mix ! dst) (c_dag ! (unat (mix ! src) mod (PROGPOW_CACHE_BYTES div 4))) r]"
| "exec_instr kern c_dag data_dag (RandMath i src1 src2 r1 dst r2) mix =
     mix[dst := merge_val kern (mix ! dst) (math_val kern (mix ! src1) (mix ! src2) r1) r2]"
| "exec_instr kern c_dag data_dag (DagMerge k dst r) mix =
     mix[dst := merge_val kern (mix ! dst) (data_dag ! k) r]"

text \<open>The word a lane loads from the DAG: element chosen by the shared \<open>offset\<close>, permuted by the
  loop number within the element.\<close>

definition dag_index :: "u32 \<Rightarrow> u32 \<Rightarrow> u32 \<Rightarrow> u32 \<Rightarrow> u32" where
  "dag_index elems loop lane_id offset =
     (offset mod elems) * of_nat PROGPOW_LANES + (lane_id XOR loop) mod of_nat PROGPOW_LANES"

text \<open>Lane \<open>loop % PROGPOW_LANES\<close> provides the offset: by a shuffle in CUDA, through the local
  array \<^verbatim>\<open>share\<close> and a barrier in OpenCL.\<close>

definition shfl_offset :: "u32 \<Rightarrow> u32 list list \<Rightarrow> u32" where
  "shfl_offset loop mixes = mixes ! (unat loop mod PROGPOW_LANES) ! 0"

definition share_write :: "u32 \<Rightarrow> u32 list list \<Rightarrow> nat \<Rightarrow> u64 \<Rightarrow> u64" where
  "share_write loop mixes lane_id share =
     (if lane_id = unat loop mod PROGPOW_LANES then ucast (mixes ! lane_id ! 0) else share)"

definition share_offset :: "nat list \<Rightarrow> u32 \<Rightarrow> u32 list list \<Rightarrow> u64 \<Rightarrow> u32" where
  "share_offset order loop mixes share = ucast (fold (share_write loop mixes) order share)"

definition load_offset :: "kernel_t \<Rightarrow> u32 \<Rightarrow> u32 list list \<Rightarrow> u32" where
  "load_offset kern loop mixes =
     (if kern = KERNEL_CUDA then shfl_offset loop mixes
      else share_offset [0..<PROGPOW_LANES] loop mixes 0)"

definition progPowLane :: "kernel_t \<Rightarrow> instr list \<times> instr list \<Rightarrow> u32 \<Rightarrow> u32 list list \<Rightarrow> u32 list \<Rightarrow>
    u32 \<Rightarrow> u32 \<Rightarrow> u32 \<Rightarrow> u32 list \<Rightarrow> u32 list" where
  "progPowLane kern prog elems g_dag c_dag loop offset lane_id mix =
     (let data_dag = g_dag ! unat (dag_index elems loop lane_id offset) in
      fold (exec_instr kern c_dag data_dag) (snd prog) (fold (exec_instr kern c_dag data_dag) (fst prog) mix))"

definition progPowLoop :: "kernel_t \<Rightarrow> instr list \<times> instr list \<Rightarrow> u32 \<Rightarrow> u32 list list \<Rightarrow> u32 list \<Rightarrow>
    u32 \<Rightarrow> u32 list list \<Rightarrow> u32 list list" where
  "progPowLoop kern prog elems g_dag c_dag loop mixes =
     map (\<lambda>lane. progPowLane kern prog elems g_dag c_dag loop (load_offset kern loop mixes) (of_nat lane) (mixes ! lane))
       [0..<PROGPOW_LANES]"

section \<open>Keccak with width 800\<close>

definition keccakf_rndc :: "u32 list" where
  "keccakf_rndc = [
    0x00000001, 0x00008082, 0x0000808a, 0x80008000, 0x0000808b, 0x80000001,
    0x80008081, 0x00008009, 0x0000008a, 0x00000088, 0x80008009, 0x8000000a,
    0x8000808b, 0x0000008b, 0x00008089, 0x00008003, 0x00008002, 0x00000080,
    0x0000800a, 0x8000000a, 0x80008081, 0x00008080, 0x80000001, 0x80008008]"

definition keccakf_rotc :: "u32 list" where
  "keccakf_rotc = [
    1,  3,  6,  10, 15, 21, 28, 36, 45, 55, 2,  14,
    27, 41, 56, 8,  25, 43, 62, 18, 39, 61, 20, 44]"

definition keccakf_piln :: "nat list" where
  "keccakf_piln = [
    10, 7,  11, 17, 18, 3, 5,  16, 8,  21, 24, 4,
    15, 23, 19, 13, 12, 2, 20, 14, 22, 9,  6,  1]"

text \<open>The five theta parities; this variant mixes the state words into other columns than the
  standard permutation does.\<close>

definition theta_cols :: "nat list list" where
  "theta_cols = [[0, 6, 9, 12, 17], [8, 11, 14, 19, 23], [2, 7, 10, 18, 22],
     [4, 5, 15, 20, 24], [1, 3, 13, 16, 21]]"

definition theta_bc :: "u32 list \<Rightarrow> u32 list" where
  "theta_bc st = map (\<lambda>c. st ! (c ! 0) XOR st ! (c ! 1) XOR st ! (c ! 2) XOR st ! (c ! 3) XOR st ! (c ! 4)) theta_cols"

definition theta800 :: "u32 list \<Rightarrow> u32 list" where
  "theta800 st =
     (let bc = theta_bc st in
      fold (\<lambda>i st. let t = bc ! ((i + 4) mod 5) XOR ROTL32 (bc ! ((i + 1) mod 5)) 1 in
              fold (\<lambda>j st. st[j + i := st ! (j + i) XOR t]) [0, 5, 10, 15, 20] st) [0..<5] st)"

text \<open>The rho and pi loop carries \<open>t\<close> from one position to the next.\<close>

fun rho_pi :: "(nat \<times> u32) list \<Rightarrow> u32 \<Rightarrow> u32 list \<Rightarrow> u32 list" where
  "rho_pi [] t st = st"
| "rho_pi ((j, c) # ps) t st = rho_pi ps (st ! j) (st[j := ROTL32 t c])"

definition tweak800 :: "u32 list \<Rightarrow> u32 list" where
  "tweak800 st =
     (let st1 = st[3 := st ! 3 XOR 0x79938B61] in
      st1[10 := st1 ! 10 XOR (st1 ! 19 AND 0x000000FF OR st1 ! 24 AND 0x0000FF00 OR
                              st1 ! 6 AND 0x00FF0000 OR st1 ! 14 AND 0xFF000000)])"

definition chi800 :: "u32 list \<Rightarrow> u32 list" where
  "chi800 st =
     fold (\<lambda>j st. let bc = map (\<lambda>i. st ! (j + i)) [0..<5] in
             fold (\<lambda>i st. st[j + i := st ! (j + i) XOR (NOT (bc ! ((i + 1) mod 5)) AND bc ! ((i + 2) mod 5))]) [0..<5] st)
       [0, 5, 10, 15, 20] st"

definition keccak_f800_round :: "nat \<Rightarrow> u32 list \<Rightarrow> u32 list" where
  "keccak_f800_round r st =
     (let st1 = theta800 st;
          st2 = rho_pi (zip keccakf_piln keccakf_rotc) (st1 ! 1) st1;
          st3 = tweak800 st2;
          st4 = chi800 st3
      in st4[0 := st4 ! 0 XOR keccakf_rndc ! r])"

text \<open>\<^verbatim>\<open>__byte_perm(x, y, s)\<close> selects four of the eight bytes of \<open>y:x\<close>.\<close>

definition byte_perm :: "u32 \<Rightarrow> u32 \<Rightarrow> u32 \<Rightarrow> u32" where
  "byte_perm x y s =
     word_of_le (map (\<lambda>i. (word_to_le x @ word_to_le y) ! unat (drop_bit (4 * i) s AND 7)) [0..<4])"

definition cuda_swab32 :: "u32 \<Rightarrow> u32" where
  "cuda_swab32 x = byte_perm x x 0x0123"

definition keccak_f800_out :: "kernel_t \<Rightarrow> u32 list \<Rightarrow> u64" where
  "keccak_f800_out kern st =
     (if kern = KERNEL_CUDA then
        push_bit 32 (ucast (cuda_swab32 (st ! 0))) OR ucast (cuda_swab32 (st ! 1))
      else
        let res = push_bit 32 (ucast (st ! 1)) OR ucast (st ! 0) in word_of_le (rev (word_to_le (res :: u64))))"

definition keccak_f800_in :: "u32 list \<Rightarrow> u64 \<Rightarrow> u32 list \<Rightarrow> u32 list" where
  "keccak_f800_in header seed digest =
     take 8 header @ [ucast seed, ucast (drop_bit 32 seed)] @ take 8 digest @ replicate 7 0"

definition keccak_f800 :: "kernel_t \<Rightarrow> u32 list \<Rightarrow> u64 \<Rightarrow> u32 list \<Rightarrow> u64" where
  "keccak_f800 kern header seed digest =
     (let st = fold keccak_f800_round [0..<21] (keccak_f800_in header seed digest)
      in keccak_f800_out kern (keccak_f800_round 21 st))"

section \<open>One hash\<close>

fun kiss_fill :: "nat \<Rightarrow> kiss99_t \<Rightarrow> u32 list" where
  "kiss_fill 0 st = []"
| "kiss_fill (Suc n) st = (let (x, st1) = kiss99 st in x # kiss_fill n st1)"

definition fill_mix :: "u64 \<Rightarrow> u32 \<Rightarrow> u32 list" where
  "fill_mix seed lane_id =
     (let h1 = fnv1a 0x811c9dc5 (ucast seed);
          h2 = fnv1a h1 (ucast (drop_bit 32 seed));
          h3 = fnv1a h2 lane_id;
          h4 = fnv1a h3 lane_id
      in kiss_fill PROGPOW_REGS \<lparr>k_z = h1, k_w = h2, k_jsr = h3, k_jcong = h4\<rparr>)"

text \<open>The seed: one keccak over header and nonce, thirteen more over the zero digest, truncated to
  55 bits.\<close>

definition zero_digest :: "u32 list" where
  "zero_digest = replicate 8 0"

definition hash_seed :: "kernel_t \<Rightarrow> u32 list \<Rightarrow> u64 \<Rightarrow> u64" where
  "hash_seed kern header nonce =
     ((\<lambda>seed. keccak_f800 kern zero_digest seed zero_digest) ^^ 13) (keccak_f800 kern header nonce zero_digest)
     AND 0x007FFFFFFFFFFFFF"

definition lane_digest :: "u32 list \<Rightarrow> u32" where
  "lane_digest mix = fold (\<lambda>x h. fnv1a h x) mix 0x811c9dc5"

text \<open>The reduction of sixteen lane digests to eight words: nested loops in CUDA, one loop over
  \<open>i % 8\<close> in OpenCL.\<close>

definition reduce_digest_cuda :: "u32 list \<Rightarrow> u32 list" where
  "reduce_digest_cuda ds =
     fold (\<lambda>i d. fold (\<lambda>j d. d[j := fnv1a (d ! j) (ds ! (i + j))]) [0..<8] d) [0, 8] (replicate 8 0x811c9dc5)"

definition reduce_digest_cl :: "u32 list \<Rightarrow> u32 list" where
  "reduce_digest_cl ds =
     fold (\<lambda>i d. d[i mod 8 := fnv1a (d ! (i mod 8)) (ds ! i)]) [0..<PROGPOW_LANES] (replicate 8 0x811c9dc5)"

definition reduce_digest :: "kernel_t \<Rightarrow> u32 list \<Rightarrow> u32 list" where
  "reduce_digest kern = (if kern = KERNEL_CUDA then reduce_digest_cuda else reduce_digest_cl)"

definition mix_rounds :: "kernel_t \<Rightarrow> instr list \<times> instr list \<Rightarrow> u32 \<Rightarrow> u32 list list \<Rightarrow> u32 list \<Rightarrow>
    u32 list list \<Rightarrow> u32 list list" where
  "mix_rounds kern prog elems g_dag c_dag mixes =
     fold (\<lambda>l. progPowLoop kern prog elems g_dag c_dag (of_nat l)) [0..<PROGPOW_CNT_DAG] mixes"

definition group_digest :: "kernel_t \<Rightarrow> instr list \<times> instr list \<Rightarrow> u32 \<Rightarrow> u32 list list \<Rightarrow> u32 list \<Rightarrow>
    u64 \<Rightarrow> u32 list" where
  "group_digest kern prog elems g_dag c_dag seed =
     (let mixes = map (\<lambda>lane. fill_mix seed (of_nat lane)) [0..<PROGPOW_LANES];
          mixes' = mix_rounds kern prog elems g_dag c_dag mixes
      in reduce_digest kern (map lane_digest mixes'))"

section \<open>A group of sixteen threads\<close>

text \<open>The loop over \<open>h\<close>: in iteration \<open>h\<close> all lanes work on lane \<open>h\<close>'s seed, and only lane \<open>h\<close>
  keeps the digest.\<close>

definition group_digests :: "kernel_t \<Rightarrow> instr list \<times> instr list \<Rightarrow> u32 \<Rightarrow> u32 list list \<Rightarrow> u32 list \<Rightarrow>
    u64 list \<Rightarrow> u32 list list" where
  "group_digests kern prog elems g_dag c_dag seeds =
     fold (\<lambda>h digests. map (\<lambda>lane. if h = lane then group_digest kern prog elems g_dag c_dag (seeds ! h)
                                    else digests ! lane) [0..<PROGPOW_LANES])
       [0..<PROGPOW_LANES] (replicate PROGPOW_LANES zero_digest)"

definition search_group :: "kernel_t \<Rightarrow> instr list \<times> instr list \<Rightarrow> u32 \<Rightarrow> u32 list list \<Rightarrow> u32 list \<Rightarrow>
    u32 list \<Rightarrow> u64 list \<Rightarrow> (u64 \<times> u32 list) list" where
  "search_group kern prog elems g_dag c_dag header nonces =
     (let seeds = map (hash_seed kern header) nonces;
          digests = group_digests kern prog elems g_dag c_dag seeds
      in map (\<lambda>lane. (keccak_f800 kern header (seeds ! lane) (digests ! lane), digests ! lane)) [0..<PROGPOW_LANES])"

text \<open>The nonce of a thread: CUDA truncates the start nonce to 40 bits first.\<close>

definition thread_nonce :: "kernel_t \<Rightarrow> u64 \<Rightarrow> u32 \<Rightarrow> u64" where
  "thread_nonce kern start_nonce gid =
     (if kern = KERNEL_CUDA then (0x000000FFFFFFFFFF AND start_nonce) + ucast gid
      else start_nonce + ucast gid)"

text \<open>The cooperative load of the cached portion of the DAG by one thread.\<close>

function load_cache_words :: "nat \<Rightarrow> u32 list list \<Rightarrow> nat \<Rightarrow> u32 list \<Rightarrow> u32 list" where
  "load_cache_words blockDim g_dag word c_dag =
     (if word < PROGPOW_CACHE_BYTES div 4 \<and> 0 < blockDim then
        load_cache_words blockDim g_dag (word + blockDim * PROGPOW_DAG_LOADS)
          (fold (\<lambda>i c. c[word + i := g_dag ! (word div PROGPOW_DAG_LOADS) ! i]) [0..<PROGPOW_DAG_LOADS] c_dag)
      else c_dag)"
  by pat_completeness auto
termination
  by (relation "measure (\<lambda>(b, g, w, c). PROGPOW_CACHE_BYTES div 4 - w)")
    (auto simp: PROGPOW_DAG_LOADS_def)

declare load_cache_words.simps [simp del]

definition load_cache :: "nat \<Rightarrow> u32 list list \<Rightarrow> nat list \<Rightarrow> u32 list \<Rightarrow> u32 list" where
  "load_cache blockDim g_dag threads c_dag =
     fold (\<lambda>tid. load_cache_words blockDim g_dag (tid * PROGPOW_DAG_LOADS)) threads c_dag"

section \<open>Reporting\<close>

definition SEARCH_RESULTS :: nat where "SEARCH_RESULTS = 4"
definition MAX_OUTPUTS :: nat where "MAX_OUTPUTS = 63"

record search_results =
  sr_count :: u32
  sr_result :: "(u32 \<times> u32 list) list"

text \<open>\<^verbatim>\<open>atomicInc(p, 0xffffffff)\<close> and \<^verbatim>\<open>atomic_inc(p)\<close> return the old value and add one, wrapping; the
  reservations of different threads are therefore totally ordered.\<close>

text \<open>A store outside a buffer is \<open>None\<close>: in the kernel it would overwrite other device memory.\<close>

definition write_at :: "'a list \<Rightarrow> nat \<Rightarrow> 'a \<Rightarrow> 'a list option" where
  "write_at xs i x = (if i < length xs then Some (xs[i := x]) else None)"

fun fold_opt :: "('a \<Rightarrow> 'b \<Rightarrow> 'b option) \<Rightarrow> 'a list \<Rightarrow> 'b \<Rightarrow> 'b option" where
  "fold_opt f [] b = Some b"
| "fold_opt f (x # xs) b = Option.bind (f x b) (fold_opt f xs)"

definition push_cuda :: "u32 \<times> u32 list \<Rightarrow> search_results \<Rightarrow> search_results option" where
  "push_cuda entry out =
     (let index = sr_count out; out1 = out\<lparr>sr_count := index + 1\<rparr> in
      if of_nat SEARCH_RESULTS \<le> index then Some out1
      else map_option (\<lambda>rs. out1\<lparr>sr_result := rs\<rparr>) (write_at (sr_result out1) (unat index) entry))"

definition push_cl :: "u32 \<Rightarrow> u32 list \<Rightarrow> u32 list option" where
  "push_cl gid g_output =
     (let slot = g_output ! 0 + 1 in
      Option.bind (write_at g_output 0 (g_output ! 0 + 1))
        (\<lambda>out1. if slot \<le> of_nat MAX_OUTPUTS then write_at out1 (unat slot) gid else Some out1))"

definition report_cuda :: "u64 \<Rightarrow> u32 \<Rightarrow> u64 \<times> u32 list \<Rightarrow> search_results \<Rightarrow> search_results option" where
  "report_cuda target gid res out =
     (if target \<le> fst res then Some out else push_cuda (gid, snd res) out)"

definition report_cl :: "u64 \<Rightarrow> u32 \<Rightarrow> u64 \<times> u32 list \<Rightarrow> u32 list \<Rightarrow> u32 list option" where
  "report_cl target gid res g_output =
     (if fst res < target then push_cl gid g_output else Some g_output)"

section \<open>The reference hash of one nonce\<close>

definition progpow_hash :: "instr list \<times> instr list \<Rightarrow> u32 \<Rightarrow> u32 list list \<Rightarrow> u32 list \<Rightarrow> u32 list \<Rightarrow>
    u64 \<Rightarrow> u64 \<times> u32 list" where
  "progpow_hash prog elems g_dag c_dag header nonce =
     (let seed = hash_seed KERNEL_CUDA header nonce;
          digest = group_digest KERNEL_CUDA prog elems g_dag c_dag seed
      in (keccak_f800 KERNEL_CUDA header seed digest, digest))"


section \<open>Facts about the builtins\<close>

lemma word_rotr_mod: "word_rotr (n mod 32) (x :: u32) = word_rotr n x"
  by (rule bit_word_eqI) (simp add: bit_word_rotr_iff mod_simps)

lemma ROTR32_cl_eq [simp]: "ROTR32_cl x n = ROTR32 x n"
proof -
  have sum: "(unat n + unat (32 - n)) mod 32 = 0"
  proof -
    have "(unat n + unat (32 - n)) mod 4294967296 = 32"
      using unat_word_ariths(1) [of n "32 - n"] by simp
    then have "(unat n + unat (32 - n)) mod 4294967296 mod 32 = 0" by simp
    then show ?thesis by (simp add: mod_mod_cancel)
  qed
  have "(32 - b mod 32) mod 32 = a mod 32" if "(a + b) mod 32 = 0" for a b :: nat
    proof -
      have "(a mod 32 + b mod 32) mod 32 = 0" using that by (simp add: mod_simps)
      then obtain q where q: "a mod 32 + b mod 32 = 32 * q" by auto
      moreover have "a mod 32 < 32" "b mod 32 < 32" by simp_all
      ultimately have "q = 0 \<or> q = 1" by linarith
      with q show ?thesis by auto
    qed
  from this [OF sum] have "(32 - unat (32 - n) mod 32) mod 32 = unat n mod 32" .
  then have "word_rotr (32 - unat (32 - n) mod 32) x = word_rotr (unat n mod 32) x"
    using word_rotr_mod [of "32 - unat (32 - n) mod 32" x] by simp
  then show ?thesis
    by (simp add: ROTR32_cl_def ROTR32_def ROTL32_def word_rotl_eq_word_rotr)
qed

lemma rotr_of_eq [simp]: "rotr_of kern = ROTR32"
  by (auto simp: rotr_of_def fun_eq_iff)

lemma merge_val_kern: "merge_val kern = merge_val KERNEL_CUDA"
  by (intro ext) (simp only: merge_val_def rotr_of_eq)

lemma math_val_kern: "math_val kern = math_val KERNEL_CUDA"
  by (intro ext) (simp only: math_val_def rotr_of_eq)

lemma merge_val_inj: "merge_val kern a b r = merge_val kern a' b r \<longleftrightarrow> a = a'"
proof -
  have "(33 :: u32) * 1041204193 = 1" by simp
  note inv = word_mult_inverse_inj [OF this]
  show ?thesis
    by (simp add: merge_val_def Let_def ROTR32_def ROTL32_def inv)
qed

lemma merge_val_inj2: "merge_val kern a b r = merge_val kern a b' r \<longleftrightarrow> b = b'"
proof -
  have "(33 :: u32) * 1041204193 = 1" by simp
  note inv = word_mult_inverse_inj [OF this]
  show ?thesis by (simp add: merge_val_def Let_def inv)
qed

lemma merge_val_rotr:
  "r mod 4 = 0 \<Longrightarrow> \<exists>n \<in> {1..31}. \<forall>a b. merge_val kern a b r = word_rotr n a XOR b"
  using merge_rotation_bounds [of r]
  by (intro bexI [of _ "unat (drop_bit 16 r mod 31 + 1)"]) (simp_all add: merge_val_def Let_def ROTR32_def)

lemma merge_val_rotl:
  "r mod 4 = 1 \<Longrightarrow> \<exists>n \<in> {1..31}. \<forall>a b. merge_val kern a b r = word_rotl n a XOR b"
  using merge_rotation_bounds [of r]
  by (intro bexI [of _ "unat (drop_bit 16 r mod 31 + 1)"]) (simp_all add: merge_val_def Let_def ROTL32_def)

lemma merge_val_mul:
  "r mod 4 = 2 \<Longrightarrow> merge_val kern a b r = 33 * a + b"
  "r mod 4 = 3 \<Longrightarrow> merge_val kern a b r = 33 * (a XOR b)"
  by (simp_all add: merge_val_def Let_def mult.commute)

text \<open>The selector \<open>65536 * (n - 1) + k\<close> rotates by \<open>n\<close>, to the right for \<open>k = 0\<close> and to the left
  for \<open>k = 1\<close>.\<close>

lemma merge_selector:
  assumes "n \<in> {1..31}" "k < (4 :: nat)"
  defines "s \<equiv> of_nat (65536 * (n - 1) + k) :: u32"
  shows "s mod 4 = of_nat k" "unat (drop_bit 16 s mod 31 + 1) = n"
proof -
  have "65536 * (n - 1) + k < 65536 * 30 + 4" using assms(1,2) by (intro add_le_less_mono mult_le_mono) auto
  then have s: "unat s = 65536 * (n - 1) + k" by (simp only: s_def unat_of_nat) simp
  have "65536 * m + k = 4 * (16384 * m) + k" for m :: nat by simp
  then have "(65536 * (n - 1) + k) mod 4 = k" using assms(2) by (simp only: mod_mult_self4 mod_less)
  then show "s mod 4 = of_nat k" using assms(2) by (simp add: word_unat_eq_iff unat_mod s unat_of_nat mod_simps)
  have "unat (drop_bit 16 s) = n - 1"
    using assms(2) by (simp add: drop_bit_eq_div unat_div s)
  moreover have "n - 1 < 31" using assms(1) by auto
  ultimately have "unat (drop_bit 16 s mod 31) = n - 1" by (simp add: unat_mod)
  then show "unat (drop_bit 16 s mod 31 + 1) = n" using assms(1) by (simp add: unat_word_ariths)
qed

lemma merge_val_all:
  assumes "n \<in> {1..31}"
  shows "(\<exists>s. \<forall>a b. merge_val kern a b s = word_rotr n a XOR b) \<and>
    (\<exists>s. \<forall>a b. merge_val kern a b s = word_rotl n a XOR b)"
proof -
  let ?s = "\<lambda>k :: nat. of_nat (65536 * (n - 1) + k) :: u32"
  from assms have n: "n mod 32 = n" by simp
  have "merge_val kern a b (?s 0) = word_rotr n a XOR b" for a b
    using merge_selector [OF assms, of 0] n by (simp only: merge_val_def Let_def ROTR32_def rotr_of_eq) simp
  moreover have "merge_val kern a b (?s 1) = word_rotl n a XOR b" for a b
    using merge_selector [OF assms, of 1] n by (simp only: merge_val_def Let_def ROTL32_def rotr_of_eq) simp
  ultimately show ?thesis by blast
qed

section \<open>Shapes\<close>

lemma length_exec_instr [simp]: "length (exec_instr kern c d i mix) = length mix"
  by (cases i) simp_all

lemma exec_instr_kern: "exec_instr kern = exec_instr KERNEL_CUDA"
proof (intro ext)
  fix c d i mix
  show "exec_instr kern c d i mix = exec_instr KERNEL_CUDA c d i mix"
    by (cases i) (simp_all add: merge_val_kern [of kern] math_val_kern [of kern])
qed

lemma length_progPowLoop [simp]: "length (progPowLoop kern p e g c l mixes) = PROGPOW_LANES"
  by (simp add: progPowLoop_def)


section \<open>The two flavours agree\<close>

lemma share_write_fold:
  "fold (share_write loop mixes) order s =
     (if unat loop mod PROGPOW_LANES \<in> set order then ucast (mixes ! (unat loop mod PROGPOW_LANES) ! 0) else s)"
  by (induction order arbitrary: s) (auto simp: share_write_def)

lemma share_offset_eq:
  "set order = {..<PROGPOW_LANES} \<Longrightarrow> share_offset order loop mixes s = shfl_offset loop mixes"
  by (simp add: share_offset_def share_write_fold shfl_offset_def PROGPOW_LANES_def)

lemma load_offset_kern: "load_offset kern = load_offset KERNEL_CUDA"
  by (intro ext) (simp add: load_offset_def share_offset_eq lessThan_atLeast0)

lemma progPowLoop_kern: "progPowLoop kern = progPowLoop KERNEL_CUDA"
  by (intro ext)
    (simp only: progPowLoop_def progPowLane_def load_offset_kern [of kern] exec_instr_kern [of kern])

lemma nat_upt_8: "[0..<8] = [0, 1, 2, 3, 4, 5, 6, 7 :: nat]"
  by (simp add: upt_rec)

lemma nat_upt_16: "[0..<16] = [0, 1, 2, 3, 4, 5, 6, 7, 8, 9, 10, 11, 12, 13, 14, 15 :: nat]"
  by (simp add: upt_rec)

lemma nat_upt_4: "[0..<4] = [0, 1, 2, 3 :: nat]"
  by (simp add: upt_rec)

lemma reduce_digest_cl_eq: "reduce_digest_cl ds = reduce_digest_cuda ds"
  by (simp add: reduce_digest_cl_def reduce_digest_cuda_def PROGPOW_LANES_def nat_upt_8 nat_upt_16
        numeral_2_eq_2 [symmetric])

lemma reduce_digest_kern: "reduce_digest kern = reduce_digest KERNEL_CUDA"
  by (auto simp: reduce_digest_def reduce_digest_cl_eq fun_eq_iff)

lemma cuda_swab32_rev: "cuda_swab32 x = word_of_le (rev (word_to_le x))"
  by (simp add: cuda_swab32_def byte_perm_def nat_upt_4 word_to_le_def)

lemma keccak_f800_out_kern: "keccak_f800_out kern = keccak_f800_out KERNEL_CUDA"
proof (intro ext)
  fix st
  have "word_of_le (rev (word_to_le (push_bit 32 (ucast (st ! 1)) OR ucast (st ! 0) :: u64))) =
     (push_bit 32 (ucast (cuda_swab32 (st ! 0))) OR ucast (cuda_swab32 (st ! 1)) :: u64)"
    unfolding word_to_le_concat by (simp add: word_of_le_append cuda_swab32_rev ucast_word_of_le or.commute)
  then show "keccak_f800_out kern st = keccak_f800_out KERNEL_CUDA st"
    by (cases kern) (simp_all add: keccak_f800_out_def Let_def)
qed


lemma keccak_f800_kern: "keccak_f800 kern = keccak_f800 KERNEL_CUDA"
  by (intro ext) (simp only: keccak_f800_def keccak_f800_out_kern [of kern])

lemma hash_seed_kern: "hash_seed kern = hash_seed KERNEL_CUDA"
  by (intro ext) (simp only: hash_seed_def keccak_f800_kern [of kern])

lemma group_digest_kern: "group_digest kern = group_digest KERNEL_CUDA"
  by (intro ext)
    (simp only: group_digest_def mix_rounds_def progPowLoop_kern [of kern] reduce_digest_kern [of kern])

section \<open>Lanes keep to their own nonce\<close>

lemma fold_own_lane:
  assumes "k \<le> n"
  shows "fold (\<lambda>h ds. map (\<lambda>lane. if h = lane then f h else ds ! lane) [0..<n]) [0..<k] (replicate n z) =
    map (\<lambda>lane. if lane < k then f lane else z) [0..<n]"
  using assms
proof (induction k)
  case 0
  then show ?case by (simp add: map_replicate_const)
next
  case (Suc k)
  then show ?case by (auto simp: less_Suc_eq)
qed

lemma group_digests_own:
  "group_digests kern prog elems g_dag c_dag seeds =
     map (\<lambda>lane. group_digest kern prog elems g_dag c_dag (seeds ! lane)) [0..<PROGPOW_LANES]"
  unfolding group_digests_def by (subst fold_own_lane) simp_all

lemma search_group_hash:
  assumes "length nonces = PROGPOW_LANES"
  shows "search_group kern prog elems g_dag c_dag header nonces =
     map (progpow_hash prog elems g_dag c_dag header) nonces"
  unfolding search_group_def Let_def group_digests_own progpow_hash_def
    hash_seed_kern [of kern] keccak_f800_kern [of kern] group_digest_kern [of kern]
  using assms by (intro nth_equalityI) simp_all

section \<open>Indices stay in range\<close>

lemma dag_index_bound:
  assumes "elems \<noteq> 0" "unat elems * PROGPOW_LANES \<le> 2 ^ 32"
  shows "unat (dag_index elems loop lane offset) =
      (unat offset mod unat elems) * PROGPOW_LANES + unat (lane XOR loop) mod PROGPOW_LANES"
    and "unat (dag_index elems loop lane offset) < unat elems * PROGPOW_LANES"
proof -
  have e: "0 < unat elems" using assms(1) by (simp add: unat_gt_0)
  let ?a = "unat offset mod unat elems" and ?b = "unat (lane XOR loop) mod 16"
  have a: "?a \<le> unat elems - 1" and b: "?b < 16" using e by (simp_all add: Suc_leI less_Suc_eq_le [symmetric])
  have "?a * 16 \<le> (unat elems - 1) * 16" using a by simp
  then have lt: "?a * 16 + ?b < unat elems * 16" using b e by (simp add: diff_mult_distrib)
  then have lt32: "?a * 16 + ?b < 2 ^ 32" using assms(2) by (simp add: PROGPOW_LANES_def)
  show eq: "unat (dag_index elems loop lane offset) = ?a * PROGPOW_LANES + unat (lane XOR loop) mod PROGPOW_LANES"
    using lt32 by (simp add: dag_index_def PROGPOW_LANES_def unat_word_ariths unat_mod)
  show "unat (dag_index elems loop lane offset) < unat elems * PROGPOW_LANES"
    unfolding eq using lt by (simp add: PROGPOW_LANES_def)
qed


lemma lane_permutation:
  assumes "l < PROGPOW_LANES"
  shows "unat ((of_nat l :: u32) XOR loop) mod PROGPOW_LANES = l XOR (unat loop mod PROGPOW_LANES)"
proof -
  have "unat ((of_nat l :: u32) XOR loop) = l XOR unat loop"
    using assms by (simp add: unsigned_xor_eq unat_of_nat PROGPOW_LANES_def)
  moreover have "take_bit 4 (l XOR unat loop) = take_bit 4 l XOR take_bit 4 (unat loop)" by simp
  ultimately show ?thesis
    using assms by (simp add: take_bit_eq_mod PROGPOW_LANES_def)
qed

lemma dag_index_onto:
  assumes "elems \<noteq> 0" "unat elems * PROGPOW_LANES \<le> 2 ^ 32" "i < unat elems * PROGPOW_LANES"
  shows "\<exists>lane < PROGPOW_LANES. \<exists>offset. unat (dag_index elems loop (of_nat lane) offset) = i"
proof -
  let ?lane = "(i mod 16) XOR (unat loop mod 16)" and ?offset = "of_nat (i div 16) :: u32"
  have lane: "?lane < PROGPOW_LANES"
  proof -
    have "take_bit 4 (i XOR unat loop) = take_bit 4 i XOR take_bit 4 (unat loop)" by (rule take_bit_xor)
    also have "\<dots> = ?lane" unfolding take_bit_eq_mod by simp
    finally have "take_bit 4 (i XOR unat loop) = ?lane" .
    then show ?thesis using take_bit_nat_less_exp [of 4 "i XOR unat loop"] by (simp add: PROGPOW_LANES_def)
  qed
  have "i div 16 < unat elems" using assms(3) by (simp add: PROGPOW_LANES_def less_mult_imp_div_less)
  moreover have "unat ?offset = i div 16" using assms(2,3) by (simp add: unat_of_nat PROGPOW_LANES_def)
  ultimately have "unat (dag_index elems loop (of_nat ?lane) ?offset) = i div 16 * 16 + i mod 16"
    using lane by (simp add: dag_index_bound [OF assms(1,2)] lane_permutation [OF lane]) (simp add: PROGPOW_LANES_def xor.assoc)
  then show ?thesis using lane by (intro exI [of _ ?lane]) auto
qed

section \<open>The cooperative cache load\<close>

lemma nth_write_entry:
  assumes "k < length c"
  shows "fold (\<lambda>i c. c[4 * v + i := e ! i]) [0..<4] c ! k = (if k div 4 = v then e ! (k mod 4) else c ! k)"
proof -
  define r where "r = k mod 4"
  have k: "k = 4 * (k div 4) + r" and r: "r < 4" by (simp_all add: r_def)
  have "fold (\<lambda>i c. c[4 * v + i := e ! i]) [0..<4] c ! (4 * q + r) =
      (if q = v then e ! r else c ! (4 * q + r))" if "4 * q + r < length c" for q
  proof -
    have neq: "4 * v + i \<noteq> 4 * q + r" if "q \<noteq> v" "i < 4" for i
      using that r by presburger
    show ?thesis
    proof (cases "q = v")
      case True
      then show ?thesis
        using that r by (auto simp: nat_upt_4 nth_list_update less_Suc_eq numeral_eq_Suc)
    next
      case False
      then show ?thesis
        using neq [of 0] neq [of 1] neq [of 2] neq [of 3] by (simp add: nat_upt_4)
    qed
  qed
  from this [of "k div 4"] assms show ?thesis by (simp add: k [symmetric]) (simp add: r_def)
qed

lemma length_write_entry [simp]:
  "length (fold (\<lambda>i c. c[w + i := e ! i]) xs c) = length c"
  by (rule length_fold_update) simp

lemma length_load_cache_words [simp]: "length (load_cache_words b g w c) = length c"
proof (induction b g w c rule: load_cache_words.induct)
  case (1 b g w c)
  then show ?case by (subst load_cache_words.simps) simp
qed

lemma nth_load_cache_words:
  assumes "0 < b" "k < length c" "length c = PROGPOW_CACHE_BYTES div 4"
  shows "load_cache_words b g (4 * v) c ! k =
    (if v \<le> k div 4 \<and> b dvd (k div 4 - v) then g ! (k div 4) ! (k mod 4) else c ! k)"
  using assms(2,3)
proof (induction "PROGPOW_CACHE_BYTES div 4 - 4 * v" arbitrary: v c rule: less_induct)
  case less
  show ?case
  proof (cases "4 * v < PROGPOW_CACHE_BYTES div 4")
    case True
    let ?c = "fold (\<lambda>i c. c[4 * v + i := g ! v ! i]) [0..<4] c"
    have step: "load_cache_words b g (4 * v) c = load_cache_words b g (4 * (v + b)) ?c"
      using True \<open>0 < b\<close> by (subst load_cache_words.simps) (simp add: PROGPOW_DAG_LOADS_def algebra_simps)
    have dv: "v \<le> q \<and> b dvd (q - v) \<longleftrightarrow> q = v \<or> v + b \<le> q \<and> b dvd (q - (v + b))" for q
    proof (cases "v + b \<le> q")
      case True
      then have "q - v = (q - (v + b)) + b" by simp
      then have "b dvd (q - v) \<longleftrightarrow> b dvd (q - (v + b))" by (simp only: dvd_add_triv_right_iff)
      with True \<open>0 < b\<close> show ?thesis by auto
    next
      case False
      then show ?thesis using nat_dvd_not_less [of "q - v" b] by (cases "q \<le> v") auto
    qed
    have "load_cache_words b g (4 * (v + b)) ?c ! k =
        (if v + b \<le> k div 4 \<and> b dvd (k div 4 - (v + b)) then g ! (k div 4) ! (k mod 4) else ?c ! k)"
      using True \<open>0 < b\<close> less.prems by (intro less.hyps) auto
    then show ?thesis
      unfolding step dv using less.prems by (simp add: nth_write_entry)
  next
    case False
    then have "load_cache_words b g (4 * v) c = c"
      by (subst load_cache_words.simps) simp
    moreover have "\<not> v \<le> k div 4" using False less.prems by (simp add: PROGPOW_CACHE_BYTES_def)
    ultimately show ?thesis by simp
  qed
qed

lemma nth_load_cache:
  assumes b: "0 < b" and "set threads \<subseteq> {..<b}" and k: "k < length c"
    and len: "length c = PROGPOW_CACHE_BYTES div 4"
  shows "load_cache b g threads c ! k =
    (if (k div 4) mod b \<in> set threads then g ! (k div 4) ! (k mod 4) else c ! k)"
  using assms(2-)
proof (induction threads arbitrary: c)
  case Nil
  then show ?case by (simp add: load_cache_def)
next
  case (Cons t ts)
  have own: "t \<le> q \<and> b dvd (q - t) \<longleftrightarrow> q mod b = t" for q
    using Cons.prems(1) by (auto simp: mod_eq_dvd_iff_nat intro: mod_less_eq_dividend dest: mod_eq_dvd_iff_nat [of t q b, THEN iffD2])
  have "load_cache b g (t # ts) c ! k = load_cache b g ts (load_cache_words b g (4 * t) c) ! k"
    by (simp add: load_cache_def PROGPOW_DAG_LOADS_def mult.commute)
  also have "\<dots> = (if (k div 4) mod b \<in> set ts then g ! (k div 4) ! (k mod 4) else load_cache_words b g (4 * t) c ! k)"
    using Cons.prems by (intro Cons.IH) simp_all
  finally show ?case
    using Cons.prems by (auto simp: nth_load_cache_words [OF b] own)
qed

lemma length_load_cache [simp]: "length (load_cache b g ts c) = length c"
  unfolding load_cache_def by (rule length_fold_update) simp


section \<open>The result buffers\<close>

text \<open>Both output buffers are bounded logs behind an atomic counter: a push stays inside the buffer,
  the counter counts every push, and the first \<open>cap\<close> pushed entries are kept in order.\<close>

locale result_buffer =
  fixes cap :: nat
    and valid :: "'b \<Rightarrow> bool"
    and count :: "'b \<Rightarrow> nat"
    and entries :: "'b \<Rightarrow> 'e list"
    and push :: "'e \<Rightarrow> 'b \<Rightarrow> 'b option"
  assumes valid_length: "valid b \<Longrightarrow> length (entries b) = cap"
    and push_ok: "valid b \<Longrightarrow> Suc (count b) < 2 ^ 32 \<Longrightarrow>
      \<exists>b'. push e b = Some b' \<and> valid b' \<and> count b' = Suc (count b) \<and>
        entries b' = (if count b < cap then (entries b)[count b := e] else entries b)"
begin

lemma push_log:
  assumes "valid b" "Suc (count b) < 2 ^ 32"
  shows "\<exists>b'. push e b = Some b' \<and> valid b' \<and> count b' = Suc (count b) \<and>
    take (count b') (entries b') = take cap (take (count b) (entries b) @ [e])"
proof -
  obtain b' where b': "push e b = Some b'" "valid b'" "count b' = Suc (count b)"
      "entries b' = (if count b < cap then (entries b)[count b := e] else entries b)"
    using push_ok [OF assms] by blast
  have "take (count b') (entries b') = take cap (take (count b) (entries b) @ [e])"
  proof (cases "count b < cap")
    case True
    with valid_length [OF assms(1)] show ?thesis by (simp add: b' take_Suc_conv_app_nth)
  next
    case False
    with valid_length [OF assms(1)] show ?thesis by (simp add: b')
  qed
  with b' show ?thesis by blast
qed

lemma push_all:
  assumes "valid b" "count b + length es < 2 ^ 32"
  shows "\<exists>b'. fold_opt push es b = Some b' \<and> valid b' \<and> count b' = count b + length es \<and>
    take (count b') (entries b') = take cap (take (count b) (entries b) @ es)"
  using assms
proof (induction es arbitrary: b)
  case Nil
  then show ?case by (auto simp: min_def valid_length)
next
  case (Cons e es)
  then have "Suc (count b) < 2 ^ 32" by simp
  then obtain b1 where b1: "push e b = Some b1" "valid b1" "count b1 = Suc (count b)"
      "take (count b1) (entries b1) = take cap (take (count b) (entries b) @ [e])"
    using push_log [OF Cons.prems(1)] by blast
  then have "count b1 + length es < 2 ^ 32" using Cons.prems by simp
  from Cons.IH [OF b1(2) this] obtain b2 where b2: "fold_opt push es b1 = Some b2" "valid b2"
      "count b2 = count b1 + length es"
      "take (count b2) (entries b2) = take cap (take (count b1) (entries b1) @ es)" by blast
  have "take (count b2) (entries b2) = take cap (take (count b) (entries b) @ e # es)"
    unfolding b2(4) b1(4) take_append_take by simp
  with b1 b2 show ?case by simp
qed

lemma push_from_empty:
  assumes "valid b" "count b = 0" "length es < 2 ^ 32"
  shows "\<exists>b'. fold_opt push es b = Some b' \<and> valid b' \<and> count b' = length es \<and>
    length (entries b') = cap \<and> take (min cap (length es)) (entries b') = take cap es"
proof -
  obtain b' where b': "fold_opt push es b = Some b'" "valid b'" "count b' = length es"
      "take (count b') (entries b') = take cap es"
    using push_all [of b es] assms by auto
  moreover note valid_length [OF b'(2)]
  moreover have "take (min cap (length es)) (entries b') = take (length es) (entries b')"
    using valid_length [OF b'(2)] by (simp add: min_def)
  ultimately show ?thesis by auto
qed

end

abbreviation cuda_valid :: "search_results \<Rightarrow> bool" where
  "cuda_valid out \<equiv> length (sr_result out) = SEARCH_RESULTS"

abbreviation cl_valid :: "u32 list \<Rightarrow> bool" where
  "cl_valid out \<equiv> length out = Suc MAX_OUTPUTS"

interpretation cuda_out: result_buffer SEARCH_RESULTS cuda_valid "\<lambda>out. unat (sr_count out)" sr_result push_cuda
  by unfold_locales
    (auto simp: push_cuda_def write_at_def Let_def unat_word_ariths word_le_nat_alt SEARCH_RESULTS_def)

interpretation cl_out: result_buffer MAX_OUTPUTS cl_valid "\<lambda>out. unat (out ! 0)" tl push_cl
proof
  fix b :: "u32 list" and e
  assume v: "cl_valid b"
  then show "length (tl b) = MAX_OUTPUTS" by simp
  from v obtain n xs where b: "b = n # xs" and xs: "length xs = MAX_OUTPUTS" by (cases b) auto
  assume s: "Suc (unat (b ! 0)) < 2 ^ 32"
  then have slot: "unat (n + 1) = Suc (unat n)" by (simp add: b unat_word_ariths)
  have push: "push_cl e b = Some ((n + 1) # (if unat n < MAX_OUTPUTS then xs[unat n := e] else xs))"
    using slot xs by (auto simp: push_cl_def write_at_def b word_le_nat_alt MAX_OUTPUTS_def)
  show "\<exists>b'. push_cl e b = Some b' \<and> cl_valid b' \<and> unat (b' ! 0) = Suc (unat (b ! 0)) \<and>
      tl b' = (if unat (b ! 0) < MAX_OUTPUTS then (tl b)[unat (b ! 0) := e] else tl b)"
    unfolding push using xs by (simp add: slot b)
qed

text \<open>A hit is a thread whose final hash lies below the target.\<close>

abbreviation hits :: "u64 \<Rightarrow> (u32 \<Rightarrow> u64 \<times> u32 list) \<Rightarrow> u32 list \<Rightarrow> u32 list" where
  "hits target res order \<equiv> filter (\<lambda>gid. fst (res gid) < target) order"

lemma fold_report_cuda:
  "fold_opt (\<lambda>gid. report_cuda target gid (res gid)) order out =
     fold_opt push_cuda (map (\<lambda>gid. (gid, snd (res gid))) (hits target res order)) out"
proof (induction order arbitrary: out)
  case (Cons gid order)
  then show ?case
    by (cases "push_cuda (gid, snd (res gid)) out"; cases "target \<le> fst (res gid)")
      (simp_all add: report_cuda_def flip: not_le)
qed simp

lemma fold_report_cl:
  "fold_opt (\<lambda>gid. report_cl target gid (res gid)) order out = fold_opt push_cl (hits target res order) out"
proof (induction order arbitrary: out)
  case (Cons gid order)
  then show ?case by (cases "push_cl gid out") (simp_all add: report_cl_def)
qed simp


section \<open>Properties\<close>

text \<open>
  C6: both GPU kernels compute the reference hash: for either flavour, the result and the digest
  that each of the sixteen cooperating threads ends up with are those of its own nonce, although
  all lanes share the work on every hash.
\<close>

theorem search_group_correct:
  assumes "length nonces = PROGPOW_LANES"
  shows "search_group kern prog elems g_dag c_dag header nonces =
     map (progpow_hash prog elems g_dag c_dag header) nonces"
  using assms by (rule search_group_hash)

theorem search_group_correct_witness:
  "search_group KERNEL_CL (getProg 3) 5 (replicate 80 [1, 2, 3, 4]) (replicate 4096 9) (replicate 8 6)
       (map of_nat [0..<PROGPOW_LANES]) =
     map (progpow_hash (getProg 3) 5 (replicate 80 [1, 2, 3, 4]) (replicate 4096 9) (replicate 8 6))
       (map of_nat [0..<PROGPOW_LANES])"
  by (rule search_group_correct) simp

text \<open>
  C9: the generated merges retain entropy, as the comment on \<open>merge\<close> asks: whatever is merged in,
  the step is a bijection of the old register value and of the merged value, and a step that
  rotates does so by the same 1 to 31 places for all operands, so it never leaves the register
  where it was; every number of places is used, in either direction.
\<close>

theorem merge_retains_entropy:
  "bij (\<lambda>a. merge_val kern a b r) \<and> bij (\<lambda>b. merge_val kern a b r) \<and>
   (r mod 4 = 0 \<longrightarrow> (\<exists>n \<in> {1..31}. \<forall>a b. merge_val kern a b r = word_rotr n a XOR b)) \<and>
   (r mod 4 = 1 \<longrightarrow> (\<exists>n \<in> {1..31}. \<forall>a b. merge_val kern a b r = word_rotl n a XOR b)) \<and>
   (r mod 4 = 2 \<longrightarrow> (\<forall>a b. merge_val kern a b r = 33 * a + b)) \<and>
   (r mod 4 = 3 \<longrightarrow> (\<forall>a b. merge_val kern a b r = 33 * (a XOR b))) \<and>
   (\<forall>n \<in> {1..31}. (\<exists>s. \<forall>a b. merge_val kern a b s = word_rotr n a XOR b) \<and>
      (\<exists>s. \<forall>a b. merge_val kern a b s = word_rotl n a XOR b))"
proof -
  have "inj (\<lambda>a. merge_val kern a b r)" "inj (\<lambda>b. merge_val kern a b r)"
    by (auto intro!: injI simp: merge_val_inj merge_val_inj2)
  then have "bij (\<lambda>a. merge_val kern a b r)" "bij (\<lambda>b. merge_val kern a b r)"
    by (simp_all add: bij_def finite_UNIV_inj_surj)
  then show ?thesis using merge_val_rotr merge_val_rotl merge_val_all by (auto simp: merge_val_mul)
qed

theorem merge_retains_entropy_witness:
  "\<exists>n \<in> {1..31}. \<forall>a b. merge_val KERNEL_CL a b 0x001f0000 = word_rotr n a XOR b"
  using merge_retains_entropy [of KERNEL_CL 0 "0x001f0000" 0] by simp

text \<open>
  The address of a DAG load is in range: with \<open>elems\<close> elements of sixteen entries each, the
  32-bit computation does not wrap and every lane's index lies below \<open>16 * elems\<close>; within one
  loop the sixteen lanes read the sixteen entries of one element.
\<close>

theorem dag_index_in_range:
  assumes "elems \<noteq> 0" "unat elems * PROGPOW_LANES \<le> 2 ^ 32"
  shows "unat (dag_index elems loop lane offset) < unat elems * PROGPOW_LANES \<and>
    unat (dag_index elems loop lane offset) div PROGPOW_LANES = unat offset mod unat elems \<and>
    bij_betw (\<lambda>l. unat (dag_index elems loop (of_nat l) offset) mod PROGPOW_LANES)
      {..<PROGPOW_LANES} {..<PROGPOW_LANES}"
proof -
  let ?f = "\<lambda>l. unat (dag_index elems loop (of_nat l) offset) mod PROGPOW_LANES"
  have f: "?f l = l XOR (unat loop mod PROGPOW_LANES)" if "l \<in> {..<PROGPOW_LANES}" for l
  proof -
    have "?f l = unat ((of_nat l :: u32) XOR loop) mod PROGPOW_LANES"
      by (simp add: dag_index_bound [OF assms])
    with that show ?thesis by (simp add: lane_permutation)
  qed
  have "inj_on ?f {..<PROGPOW_LANES}"
    by (rule inj_onI) (metis f xor.assoc xor.right_neutral xor_self_eq)
  moreover have "?f ` {..<PROGPOW_LANES} \<subseteq> {..<PROGPOW_LANES}" by (auto simp: PROGPOW_LANES_def)
  ultimately have "bij_betw ?f {..<PROGPOW_LANES} {..<PROGPOW_LANES}"
    by (simp add: bij_betw_def endo_inj_surj)
  then show ?thesis
    using dag_index_bound [OF assms, of loop lane offset] by (simp add: PROGPOW_LANES_def)
qed

theorem dag_index_in_range_witness:
  "(5 :: u32) \<noteq> 0 \<and> unat (dag_index 5 77 3 12) < unat (5 :: u32) * PROGPOW_LANES"
  using dag_index_in_range [of 5 77 3 12] by (simp add: PROGPOW_LANES_def)

text \<open>
  The cooperative load fills the shared cache with the first 16 KB of the DAG, for every block
  size and whatever the order in which the threads of the block run.
\<close>

theorem load_cache_complete:
  assumes "0 < blockDim" "set threads = {..<blockDim}" "length c_dag = PROGPOW_CACHE_BYTES div 4"
  shows "load_cache blockDim g_dag threads c_dag =
    map (\<lambda>k. g_dag ! (k div PROGPOW_DAG_LOADS) ! (k mod PROGPOW_DAG_LOADS)) [0..<PROGPOW_CACHE_BYTES div 4]"
  using assms by (intro nth_equalityI) (simp_all add: nth_load_cache PROGPOW_DAG_LOADS_def)

theorem load_cache_complete_witness:
  "load_cache 2 (replicate 1024 [1, 2, 3, 4]) [1, 0] (replicate 4096 0) =
    map (\<lambda>k. replicate 1024 [1, 2, 3, 4] ! (k div PROGPOW_DAG_LOADS) ! (k mod PROGPOW_DAG_LOADS)) [0..<PROGPOW_CACHE_BYTES div 4]"
  by (rule load_cache_complete) (auto simp: PROGPOW_CACHE_BYTES_def)




end
