(* ===== verification/KernelText.thy ===== *)
theory KernelText
  imports Kernel
begin

unbundle bit_operations_syntax

text \<open>
  What the text generated by \<^verbatim>\<open>ProgPow::getKern\<close> means.  The statements of the inner loop are a
  small fragment of C: assignments whose right-hand sides are primaries or one binary operator
  between two primaries.  This theory gives that fragment an abstract syntax (\<open>cstmt\<close>), the text of
  a statement (\<open>show_stmt\<close>) and its effect on the variables of one lane (\<open>exec_stmt\<close>, \<open>None\<close> for an
  access outside an array or a remainder by zero), and states the program of a period
  independently of the generator: \<open>spec_prog\<close> names for every instruction which number of the
  KISS99 stream of that period it uses.  The generated text is shown to consist of statements
  whose execution is the run of that program.
\<close>

section \<open>The fragment of C\<close>

datatype cfun = POPCOUNT_F | CLZ_F
datatype cfun2 = ROTL_F | ROTR_F | MUL_HI_F | MIN_F
datatype cop = ADD_O | MUL_O | XOR_O | AND_O | OR_O | MOD_O

text \<open>The operands of a binary operator are primaries, so the text of an expression can be read in
  one way only, whatever the precedence of its operators; the exception is a sum of two products or
  remainders, where C's precedence is that of the syntax tree.\<close>

datatype cprim =
    CMix nat | CData | COffset | CDagWord nat | CLane | CLoop
  | CLit nat | CElements | CLanes | CWords
  | CCall cfun cprim
  | CCall2 cfun2 cprim cprim
  | CParen cop cprim cprim

datatype cterm = CTimes cprim cprim | CMod cprim cprim

datatype cexp = CPrim cprim | CBin cop cprim cprim | CSum cterm cterm

datatype cstmt =
    SRemark string
  | SFence
  | SMix nat cexp
  | SData cexp
  | SDataCache
  | SOffset cexp
  | SOffsetMod cprim
  | SDagLoad

subsection \<open>Text\<close>

fun show_cfun :: "cfun \<Rightarrow> string" where
  "show_cfun POPCOUNT_F = ''popcount''"
| "show_cfun CLZ_F = ''clz''"

fun show_cfun2 :: "cfun2 \<Rightarrow> string" where
  "show_cfun2 ROTL_F = ''ROTL32''"
| "show_cfun2 ROTR_F = ''ROTR32''"
| "show_cfun2 MUL_HI_F = ''mul_hi''"
| "show_cfun2 MIN_F = ''min''"

fun show_cop :: "cop \<Rightarrow> string" where
  "show_cop ADD_O = ''+''"
| "show_cop MUL_O = ''*''"
| "show_cop XOR_O = ''^''"
| "show_cop AND_O = ''&''"
| "show_cop OR_O = ''|''"
| "show_cop MOD_O = ''%''"

fun show_prim :: "cprim \<Rightarrow> string" where
  "show_prim (CMix n) = ''mix['' @ to_string n @ '']''"
| "show_prim CData = ''data''"
| "show_prim COffset = ''offset''"
| "show_prim (CDagWord k) = ''data_dag.s['' @ to_string k @ '']''"
| "show_prim CLane = ''lane_id''"
| "show_prim CLoop = ''loop''"
| "show_prim (CLit n) = to_string n"
| "show_prim CElements = ''PROGPOW_DAG_ELEMENTS''"
| "show_prim CLanes = ''PROGPOW_LANES''"
| "show_prim CWords = ''PROGPOW_CACHE_WORDS''"
| "show_prim (CCall f a) = show_cfun f @ ''('' @ show_prim a @ '')''"
| "show_prim (CCall2 f a b) = show_cfun2 f @ ''('' @ show_prim a @ '', '' @ show_prim b @ '')''"
| "show_prim (CParen p a b) = ''('' @ show_prim a @ '' '' @ show_cop p @ '' '' @ show_prim b @ '')''"

fun show_term :: "cterm \<Rightarrow> string" where
  "show_term (CTimes a b) = show_prim a @ '' * '' @ show_prim b"
| "show_term (CMod a b) = show_prim a @ '' % '' @ show_prim b"

fun show_exp :: "cexp \<Rightarrow> string" where
  "show_exp (CPrim a) = show_prim a"
| "show_exp (CBin p a b) = show_prim a @ '' '' @ show_cop p @ '' '' @ show_prim b"
| "show_exp (CSum s t) = show_term s @ '' + '' @ show_term t"

fun show_stmt :: "kernel_t \<Rightarrow> cstmt \<Rightarrow> string" where
  "show_stmt kern (SRemark t) = ''// '' @ t @ ''\<newline>''"
| "show_stmt kern SFence =
     (if kern = KERNEL_CUDA then ''if (hack_false) __threadfence_block();\<newline>''
      else ''if (hack_false) barrier(CLK_LOCAL_MEM_FENCE);\<newline>'')"
| "show_stmt kern (SMix n e) = ''mix['' @ to_string n @ ''] = '' @ show_exp e @ '';\<newline>''"
| "show_stmt kern (SData e) = ''data = '' @ show_exp e @ '';\<newline>''"
| "show_stmt kern SDataCache = ''data = c_dag[offset];\<newline>''"
| "show_stmt kern (SOffset e) = ''offset = '' @ show_exp e @ '';\<newline>''"
| "show_stmt kern (SOffsetMod a) = ''offset %= '' @ show_prim a @ '';\<newline>''"
| "show_stmt kern SDagLoad = ''data_dag = g_dag[offset];\<newline>''"

definition show_stmts :: "kernel_t \<Rightarrow> cstmt list \<Rightarrow> string" where
  "show_stmts kern ss = concat (map (show_stmt kern) ss)"

subsection \<open>Effect\<close>

text \<open>What a lane is given, and its local variables.\<close>

record lane_env =
  le_loop :: u32
  le_lane :: u32
  le_elements :: u32
  le_dag :: "u32 list list"
  le_cache :: "u32 list"

record lane_vars =
  lv_mix :: "u32 list"
  lv_offset :: u32
  lv_data :: u32
  lv_dag :: "u32 list"

definition nth_opt :: "'a list \<Rightarrow> nat \<Rightarrow> 'a option" where
  "nth_opt xs i = (if i < length xs then Some (xs ! i) else None)"

definition lift2_opt :: "('a \<Rightarrow> 'b \<Rightarrow> 'c) \<Rightarrow> 'a option \<Rightarrow> 'b option \<Rightarrow> 'c option" where
  "lift2_opt f x y = Option.bind x (\<lambda>a. Option.bind y (\<lambda>b. Some (f a b)))"

fun eval_cfun :: "cfun \<Rightarrow> u32 \<Rightarrow> u32" where
  "eval_cfun POPCOUNT_F = popcount"
| "eval_cfun CLZ_F = clz"

fun eval_cfun2 :: "kernel_t \<Rightarrow> cfun2 \<Rightarrow> u32 \<Rightarrow> u32 \<Rightarrow> u32" where
  "eval_cfun2 kern ROTL_F = ROTL32"
| "eval_cfun2 kern ROTR_F = rotr_of kern"
| "eval_cfun2 kern MUL_HI_F = mul_hi"
| "eval_cfun2 kern MIN_F = min"

fun eval_cop :: "cop \<Rightarrow> u32 option \<Rightarrow> u32 option \<Rightarrow> u32 option" where
  "eval_cop ADD_O x y = lift2_opt (+) x y"
| "eval_cop MUL_O x y = lift2_opt (*) x y"
| "eval_cop XOR_O x y = lift2_opt (XOR) x y"
| "eval_cop AND_O x y = lift2_opt (AND) x y"
| "eval_cop OR_O x y = lift2_opt (OR) x y"
| "eval_cop MOD_O x y = (if y = Some 0 then None else lift2_opt (mod) x y)"

fun eval_prim :: "kernel_t \<Rightarrow> lane_env \<Rightarrow> lane_vars \<Rightarrow> cprim \<Rightarrow> u32 option" where
  "eval_prim kern env vs (CMix n) = nth_opt (lv_mix vs) n"
| "eval_prim kern env vs CData = Some (lv_data vs)"
| "eval_prim kern env vs COffset = Some (lv_offset vs)"
| "eval_prim kern env vs (CDagWord k) = nth_opt (lv_dag vs) k"
| "eval_prim kern env vs CLane = Some (le_lane env)"
| "eval_prim kern env vs CLoop = Some (le_loop env)"
| "eval_prim kern env vs (CLit n) = Some (of_nat n)"
| "eval_prim kern env vs CElements = Some (le_elements env)"
| "eval_prim kern env vs CLanes = Some (of_nat PROGPOW_LANES)"
| "eval_prim kern env vs CWords = Some (of_nat (PROGPOW_CACHE_BYTES div 4))"
| "eval_prim kern env vs (CCall f a) = map_option (eval_cfun f) (eval_prim kern env vs a)"
| "eval_prim kern env vs (CCall2 f a b) =
     lift2_opt (eval_cfun2 kern f) (eval_prim kern env vs a) (eval_prim kern env vs b)"
| "eval_prim kern env vs (CParen p a b) =
     eval_cop p (eval_prim kern env vs a) (eval_prim kern env vs b)"

fun eval_term :: "kernel_t \<Rightarrow> lane_env \<Rightarrow> lane_vars \<Rightarrow> cterm \<Rightarrow> u32 option" where
  "eval_term kern env vs (CTimes a b) = eval_cop MUL_O (eval_prim kern env vs a) (eval_prim kern env vs b)"
| "eval_term kern env vs (CMod a b) = eval_cop MOD_O (eval_prim kern env vs a) (eval_prim kern env vs b)"

fun eval_exp :: "kernel_t \<Rightarrow> lane_env \<Rightarrow> lane_vars \<Rightarrow> cexp \<Rightarrow> u32 option" where
  "eval_exp kern env vs (CPrim a) = eval_prim kern env vs a"
| "eval_exp kern env vs (CBin p a b) =
     eval_cop p (eval_prim kern env vs a) (eval_prim kern env vs b)"
| "eval_exp kern env vs (CSum s t) = eval_cop ADD_O (eval_term kern env vs s) (eval_term kern env vs t)"

text \<open>The fences order memory accesses and change no variable of the lane.\<close>

fun exec_stmt :: "kernel_t \<Rightarrow> lane_env \<Rightarrow> cstmt \<Rightarrow> lane_vars \<Rightarrow> lane_vars option" where
  "exec_stmt kern env (SRemark t) vs = Some vs"
| "exec_stmt kern env SFence vs = Some vs"
| "exec_stmt kern env (SMix n e) vs =
     (if n < length (lv_mix vs) then
        map_option (\<lambda>x. vs\<lparr>lv_mix := (lv_mix vs)[n := x]\<rparr>) (eval_exp kern env vs e)
      else None)"
| "exec_stmt kern env (SData e) vs = map_option (\<lambda>x. vs\<lparr>lv_data := x\<rparr>) (eval_exp kern env vs e)"
| "exec_stmt kern env SDataCache vs =
     map_option (\<lambda>x. vs\<lparr>lv_data := x\<rparr>) (nth_opt (le_cache env) (unat (lv_offset vs)))"
| "exec_stmt kern env (SOffset e) vs = map_option (\<lambda>x. vs\<lparr>lv_offset := x\<rparr>) (eval_exp kern env vs e)"
| "exec_stmt kern env (SOffsetMod a) vs =
     map_option (\<lambda>x. vs\<lparr>lv_offset := x\<rparr>) (eval_cop MOD_O (Some (lv_offset vs)) (eval_prim kern env vs a))"
| "exec_stmt kern env SDagLoad vs =
     map_option (\<lambda>x. vs\<lparr>lv_dag := x\<rparr>) (nth_opt (le_dag env) (unat (lv_offset vs)))"

definition exec_stmts :: "kernel_t \<Rightarrow> lane_env \<Rightarrow> cstmt list \<Rightarrow> lane_vars \<Rightarrow> lane_vars option" where
  "exec_stmts kern env = fold_opt (exec_stmt kern env)"

section \<open>The program of a period, stated without the generator\<close>

text \<open>The four words of the KISS99 state are the successive FNV-1a hashes of the words low, high,
  low, high of the period number; \<open>spec_draw p n\<close> is number \<open>n\<close> of the stream they start.\<close>

definition spec_hash :: "u64 \<Rightarrow> nat \<Rightarrow> u32" where
  "spec_hash p n =
     (let lo = of_nat (unat p mod 2 ^ 32); hi = of_nat (unat p div 2 ^ 32)
      in fold (\<lambda>d h. (h XOR d) * 0x01000193) (take n [lo, hi, lo, hi]) 0x811c9dc5)"

definition spec_state :: "u64 \<Rightarrow> nat \<Rightarrow> kiss99_t" where
  "spec_state p n = ((snd \<circ> kiss99) ^^ n)
     \<lparr>k_z = spec_hash p 1, k_w = spec_hash p 2, k_jsr = spec_hash p 3, k_jcong = spec_hash p 4\<rparr>"

definition spec_draw :: "u64 \<Rightarrow> nat \<Rightarrow> u32" where
  "spec_draw p n = fst (kiss99 (spec_state p n))"

text \<open>The register sequences: a Fisher-Yates shuffle of \<open>0 .. 31\<close> from the end, the destinations
  with the even numbers of the stream, the cache sources with the odd ones.\<close>

definition spec_shuffle :: "nat \<Rightarrow> u64 \<Rightarrow> nat list" where
  "spec_shuffle par p =
     fold (\<lambda>i xs. swap_ints xs i (unat (spec_draw p (2 * (31 - i) + par)) mod (i + 1)))
       (rev [1..<32]) [0..<32]"

abbreviation spec_dst :: "u64 \<Rightarrow> nat \<Rightarrow> nat" where
  "spec_dst p k \<equiv> spec_shuffle 0 p ! (k mod 32)"

text \<open>Iteration \<open>i\<close> merges a cache load, in the first eleven iterations, and a random operation on
  two different registers.\<close>

definition spec_cache :: "u64 \<Rightarrow> nat \<Rightarrow> instr" where
  "spec_cache p i = CacheLoad i (spec_shuffle 1 p ! i) (spec_dst p (2 * i)) (spec_draw p (62 + 4 * i))"

definition spec_math :: "u64 \<Rightarrow> nat \<Rightarrow> instr" where
  "spec_math p i =
     (let b = 62 + 3 * i + min (i + 1) 11;
          pair = unat (spec_draw p b) mod (31 * 32);
          src1 = pair mod 32;
          src2 = filter (\<lambda>x. x \<noteq> src1) [0..<32] ! (pair div 32)
      in RandMath i src1 src2 (spec_draw p (b + 1)) (spec_dst p (i + min (i + 1) 11)) (spec_draw p (b + 2)))"

definition spec_prog :: "u64 \<Rightarrow> instr list \<times> instr list" where
  "spec_prog p =
     (concat (map (\<lambda>i. if i < 11 then [spec_cache p i, spec_math p i] else [spec_math p i]) [0..<20]),
      DagMerge 0 0 (spec_draw p 133) #
      map (\<lambda>k. DagMerge k (spec_dst p (30 + k)) (spec_draw p (133 + k))) [1..<4])"

section \<open>The generator draws that program\<close>

definition gen_at :: "u64 \<Rightarrow> nat \<Rightarrow> nat \<Rightarrow> nat \<Rightarrow> kern_state" where
  "gen_at p n c d = \<lparr>rnd_state = spec_state p n, mix_seq_dst = spec_shuffle 0 p,
     mix_seq_cache = spec_shuffle 1 p, mix_seq_dst_cnt = d, mix_seq_cache_cnt = c\<rparr>"

lemma kiss99_spec: "kiss99 (spec_state p n) = (spec_draw p n, spec_state p (Suc n))"
  by (simp add: spec_draw_def spec_state_def)

lemma gen_at_draws:
  "rnd (gen_at p n c d) = (spec_draw p n, gen_at p (Suc n) c d)"
  "next_dst (gen_at p n c d) = (spec_dst p d, gen_at p n c (Suc d))"
  "next_cache (gen_at p n c d) = (spec_shuffle 1 p ! (c mod 32), gen_at p n (Suc c) d)"
  by (simp_all add: gen_at_def rnd_def kiss99_spec next_dst_def next_cache_def PROGPOW_REGS_def)

lemma unat_mod_of_nat: "n < 2 ^ 32 \<Longrightarrow> unat ((r :: u32) mod of_nat n) = unat r mod n"
  by (simp add: unat_mod unat_of_nat)

lemma rnd_below_at:
  "m < 2 ^ 32 \<Longrightarrow> rnd_below m (gen_at p n c d) = (unat (spec_draw p n) mod m, gen_at p (Suc n) c d)"
  by (simp add: rnd_below_def gen_at_draws unat_mod_of_nat)

lemma shuffle_at:
  "i < 32 \<Longrightarrow>
   shuffle_seqs i \<lparr>rnd_state = spec_state p (2 * (31 - i)), mix_seq_dst = xs, mix_seq_cache = ys,
       mix_seq_dst_cnt = d, mix_seq_cache_cnt = c\<rparr> =
     \<lparr>rnd_state = spec_state p 62,
      mix_seq_dst = fold (\<lambda>i xs. swap_ints xs i (unat (spec_draw p (2 * (31 - i))) mod (i + 1))) (rev [1..<Suc i]) xs,
      mix_seq_cache = fold (\<lambda>i xs. swap_ints xs i (unat (spec_draw p (2 * (31 - i) + 1)) mod (i + 1))) (rev [1..<Suc i]) ys,
      mix_seq_dst_cnt = d, mix_seq_cache_cnt = c\<rparr>"
proof (induction i arbitrary: xs ys)
  case (Suc i)
  have n: "Suc (Suc (2 * (30 - i))) = 2 * (31 - i)" using Suc.prems by simp
  have m: "unat ((r :: u32) mod of_nat (Suc i + 1)) = unat r mod (Suc i + 1)" for r
    by (rule unat_mod_of_nat) (use Suc.prems in simp)
  have "i < 32" using Suc.prems by simp
  note IH = Suc.IH [OF this]
  have "rev [1..<Suc (Suc i)] = Suc i # rev [1..<Suc i]" by simp
  then show ?case
    using IH
    by (simp add: rnd_below_def rnd_def kiss99_spec Let_def n m [simplified] del: upt_Suc)
qed simp

lemma spec_words:
  "(ucast p :: u32) = of_nat (unat (p :: u64) mod 2 ^ 32)"
  "(ucast (drop_bit 32 p) :: u32) = of_nat (unat (p :: u64) div 2 ^ 32)"
  by (simp_all add: word_unat_eq_iff unsigned_ucast_eq unat_of_nat take_bit_eq_mod drop_bit_eq_div unat_div)

lemma seed_rnd_spec: "seed_rnd p = spec_state p 0"
proof -
  let ?lo = "of_nat (unat p mod 2 ^ 32) :: u32" and ?hi = "of_nat (unat p div 2 ^ 32) :: u32"
  have "spec_hash p 1 = fnv1a 0x811c9dc5 ?lo" "spec_hash p 2 = fnv1a (spec_hash p 1) ?hi"
    "spec_hash p 3 = fnv1a (spec_hash p 2) ?lo" "spec_hash p 4 = fnv1a (spec_hash p 3) ?hi"
    by (simp_all add: spec_hash_def fnv1a_def Let_def)
  then show ?thesis
    unfolding seed_rnd_def Let_def unfolding spec_words(2) unfolding spec_words(1)
    by (simp add: spec_state_def)
qed

lemma init_seqs_at: "init_seqs p = gen_at p 62 0 0"
  using shuffle_at [of 31 p "[0..<32]" "[0..<32]" 0 0]
  by (simp add: init_seqs_def seed_rnd_spec gen_at_def spec_shuffle_def PROGPOW_REGS_def)


lemma other_register:
  assumes "a < 32" "q < 31"
  shows "filter (\<lambda>x. x \<noteq> a) [0..<32] ! q = (if a \<le> q then q + 1 else q)"
proof -
  have "[0..<32] = [0..<a] @ a # [Suc a..<32]"
    using assms(1) upt_add_eq_append [of 0 a "32 - a"] by (simp add: upt_conv_Cons del: upt_Suc)
  moreover have "filter (\<lambda>x. x \<noteq> a) [0..<a] = [0..<a]" "filter (\<lambda>x. x \<noteq> a) [Suc a..<32] = [Suc a..<32]"
    by (auto intro: filter_True)
  ultimately have "filter (\<lambda>x. x \<noteq> a) [0..<32] = [0..<a] @ [Suc a..<32]" by simp
  then show ?thesis using assms by (simp add: nth_append del: upt_Suc)
qed

lemma gen_cache_at:
  "i < 11 \<Longrightarrow> gen_cache i (gen_at p (62 + 4 * i) i (2 * i)) =
     (spec_cache p i, gen_at p (Suc (62 + 4 * i)) (Suc i) (Suc (2 * i)))"
  by (simp add: gen_cache_def gen_at_draws spec_cache_def)

lemma math_srcs_filter:
  "m < 992 \<Longrightarrow> math_srcs m = (m mod 32, filter (\<lambda>x. x \<noteq> m mod 32) [0..<32] ! (m div 32))"
  by (simp add: math_srcs_def PROGPOW_REGS_def Let_def other_register less_mult_imp_div_less del: upt_Suc)

lemma gen_math_draws:
  "gen_math i (gen_at p b c d) =
     (let m = math_srcs (unat (spec_draw p b) mod 992)
      in (RandMath i (fst m) (snd m) (spec_draw p (Suc b)) (spec_dst p d) (spec_draw p (Suc (Suc b))),
          gen_at p (Suc (Suc (Suc b))) c (Suc d)))"
  by (simp add: gen_math_def rnd_below_at gen_at_draws PROGPOW_REGS_def Let_def)

lemma gen_math_at:
  "gen_math i (gen_at p (62 + 3 * i + min (i + 1) 11) c (i + min (i + 1) 11)) =
     (spec_math p i, gen_at p (62 + 3 * i + min (i + 1) 11 + 3) c (Suc (i + min (i + 1) 11)))"
  by (simp add: gen_math_draws spec_math_def Let_def math_srcs_filter del: upt_Suc)

abbreviation spec_iter :: "u64 \<Rightarrow> nat \<Rightarrow> instr list" where
  "spec_iter p i \<equiv> (if i < 11 then [spec_cache p i, spec_math p i] else [spec_math p i])"

lemma gen_step_at:
  assumes "i < 20"
  shows "gen_step i (gen_at p (62 + 3 * i + min i 11) (min i 11) (i + min i 11)) =
     (spec_iter p i, gen_at p (62 + 3 * Suc i + min (Suc i) 11) (min (Suc i) 11) (Suc i + min (Suc i) 11))"
proof (cases "i < 11")
  case True
  then have "gen_math i (gen_at p (63 + 4 * i) (Suc i) (Suc (2 * i))) =
      (spec_math p i, gen_at p (66 + 4 * i) (Suc i) (Suc (Suc (2 * i))))"
    using gen_math_at [of i p "Suc i"] by (simp add: algebra_simps mult_2_right)
  with True gen_cache_at [of i p] show ?thesis
    by (simp add: gen_step_def PROGPOW_CNT_CACHE_def PROGPOW_CNT_MATH_def algebra_simps mult_2_right)
next
  case False
  then have "min i 11 = 11" "min (Suc i) 11 = 11" by simp_all
  with False assms gen_math_at [of i p 11] show ?thesis
    by (simp add: gen_step_def PROGPOW_CNT_CACHE_def PROGPOW_CNT_MATH_def algebra_simps del: min_Suc_numeral)
qed

lemma gen_body_at:
  "i \<le> 20 \<Longrightarrow> gen_body i (gen_at p (62 + 3 * i + min i 11) (min i 11) (i + min i 11)) =
     (concat (map (spec_iter p) [i..<20]), gen_at p 133 11 31)"
proof (induction "20 - i" arbitrary: i)
  case 0
  then show ?case by (simp add: gen_body.simps PROGPOW_CNT_CACHE_def PROGPOW_CNT_MATH_def)
next
  case (Suc n)
  then have i: "i < 20" "n = 20 - Suc i" "Suc i \<le> 20" by simp_all
  note IH = Suc.hyps(1) [OF i(2,3)]
  show ?case
    using i(1) IH
    by (subst gen_body.simps)
      (simp add: gen_step_at [OF i(1)] PROGPOW_CNT_MATH_def upt_conv_Cons del: upt_Suc)
qed

lemma gen_loads_at:
  "gen_loads 1 (gen_at p 134 11 31) =
     (map (\<lambda>k. DagMerge k (spec_dst p (30 + k)) (spec_draw p (133 + k))) [1..<4], gen_at p 137 11 34)"
  by (simp add: gen_loads.simps PROGPOW_DAG_LOADS_def gen_at_draws upt_conv_Cons del: upt_Suc)

lemma getProg_spec: "getProg p = spec_prog p"
  using gen_body_at [of 0 p]
  by (simp add: getProg_def init_seqs_at gen_at_draws gen_loads_at [simplified] spec_prog_def del: upt_Suc)

section \<open>The text is made of statements\<close>

definition merge_exp :: "cprim \<Rightarrow> cprim \<Rightarrow> u32 \<Rightarrow> cexp" where
  "merge_exp a b r =
     (let k = r mod 4; n = CLit (unat (drop_bit 16 r mod 31 + 1)) in
      if k = 0 then CBin XOR_O (CCall2 ROTR_F a n) b
      else if k = 1 then CBin XOR_O (CCall2 ROTL_F a n) b
      else if k = 2 then CBin ADD_O (CParen MUL_O a (CLit 33)) b
      else CBin MUL_O (CParen XOR_O a b) (CLit 33))"

definition math_exp :: "cprim \<Rightarrow> cprim \<Rightarrow> u32 \<Rightarrow> cexp" where
  "math_exp a b r =
     (let k = r mod 11 in
      if k = 0 then CPrim (CCall2 ROTL_F a b)
      else if k = 1 then CBin AND_O a b
      else if k = 2 then CBin ADD_O a b
      else if k = 3 then CBin ADD_O (CCall POPCOUNT_F a) (CCall POPCOUNT_F b)
      else if k = 4 then CBin ADD_O (CCall CLZ_F a) (CCall CLZ_F b)
      else if k = 5 then CPrim (CCall2 ROTR_F a b)
      else if k = 6 then CPrim (CCall2 MUL_HI_F a b)
      else if k = 7 then CBin OR_O a b
      else if k = 8 then CBin MUL_O a b
      else if k = 9 then CBin XOR_O a b
      else CPrim (CCall2 MIN_F a b))"

fun instr_stmts :: "instr \<Rightarrow> cstmt list" where
  "instr_stmts (CacheLoad i src dst r) =
     [SRemark (''cache load '' @ to_string i), SOffset (CBin MOD_O (CMix src) CWords), SDataCache,
      SMix dst (merge_exp (CMix dst) CData r)]"
| "instr_stmts (RandMath i src1 src2 r1 dst r2) =
     [SRemark (''random math '' @ to_string i), SData (math_exp (CMix src1) (CMix src2) r1),
      SMix dst (merge_exp (CMix dst) CData r2)]"
| "instr_stmts (DagMerge k dst r) = [SMix dst (merge_exp (CMix dst) (CDagWord k) r)]"

definition hack_stmts :: "cstmt list" where
  "hack_stmts = [SRemark ''hack to prevent compiler from reordering LD and usage'', SFence]"

definition load_stmts :: "cstmt list" where
  "load_stmts = [SOffsetMod CElements,
     SOffset (CSum (CTimes COffset CLanes) (CMod (CParen XOR_O CLane CLoop) CLanes)), SDagLoad]"

definition prog_stmts :: "instr list \<times> instr list \<Rightarrow> cstmt list" where
  "prog_stmts prog = load_stmts @ hack_stmts @ concat (map instr_stmts (fst prog)) @
     SRemark ''consume global load data'' # hack_stmts @ concat (map instr_stmts (snd prog))"

lemma u32_mod_cases:
  "(r :: u32) mod 4 = 0 \<or> r mod 4 = 1 \<or> r mod 4 = 2 \<or> r mod 4 = 3"
  "(r :: u32) mod 11 \<in> {0, 1, 2, 3, 4, 5, 6, 7, 8, 9, 10}"
proof -
  have "unat (r mod 4) < 4" using unat_mod [of r 4] by simp
  then have "unat (r mod 4) \<in> {0, 1, 2, 3}" by auto
  then show "r mod 4 = 0 \<or> r mod 4 = 1 \<or> r mod 4 = 2 \<or> r mod 4 = 3"
    by (auto simp: word_unat_eq_iff)
  have "unat (r mod 11) < 11" using unat_mod [of r 11] by simp
  then have "unat (r mod 11) \<in> {0, 1, 2, 3, 4, 5, 6, 7, 8, 9, 10}" 
    by (simp flip: lessThan_iff add: lessThan_nat_numeral lessThan_Suc) blast
  then show "r mod 11 \<in> {0, 1, 2, 3, 4, 5, 6, 7, 8, 9, 10}"
    by (auto simp: word_unat_eq_iff)
qed

lemma to_string_33: "to_string 33 = ''33''"
  by code_simp

lemma merge_text: "merge (show_prim (CMix d)) (show_prim b) r = show_stmt kern (SMix d (merge_exp (CMix d) b r))"
  using u32_mod_cases(1) [of r]
  by (elim disjE) (simp_all add: merge_def merge_exp_def stmt_line_def to_string_33)

lemma math_text: "math ''data'' (show_prim a) (show_prim b) r = show_stmt kern (SData (math_exp a b r))"
  using u32_mod_cases(2) [of r]
  by (elim insertE) (simp_all add: math_def math_exp_def stmt_line_def)

lemmas merge_texts = merge_text [of _ CData, simplified] merge_text [of _ "CDagWord k" for k, simplified]

lemma show_stmts_simps [simp]:
  "show_stmts kern [] = []"
  "show_stmts kern (s # ss) = show_stmt kern s @ show_stmts kern ss"
  "show_stmts kern (ss @ ts) = show_stmts kern ss @ show_stmts kern ts"
  by (simp_all add: show_stmts_def)

lemma show_instr_stmts: "show_instr i = show_stmts kern (instr_stmts i)"
  using math_text [of "CMix a" "CMix b" for a b, simplified]
  by (cases i) (simp_all add: mix_reg_def merge_texts stmt_line_def)

lemma show_prog_stmts: "show_prog is = show_stmts kern (concat (map instr_stmts is))"
  by (induction "is") (simp_all add: show_prog_def show_instr_stmts [of _ kern])

lemma kern_hack_stmts: "kern_hack kern = show_stmts kern hack_stmts"
  by (simp add: kern_hack_def hack_stmts_def stmt_line_def)

lemma kern_load_stmts: "kern_global_load kern = kern_share kern @ show_stmts kern (load_stmts @ hack_stmts)"
  by (simp add: kern_global_load_def load_stmts_def kern_hack_stmts stmt_line_def)

lemma getKern_stmts:
  "getKern bn kern = kern_macros kern @ kern_params @ kern_signature kern (prog_seed_of bn) @
     kern_share kern @ show_stmts kern (prog_stmts (spec_prog (prog_seed_of bn))) @
     stmt_line ''}'' @ stmt_line []"
  by (simp add: getKern_renders kern_load_stmts show_prog_stmts [of _ kern] prog_stmts_def
        kern_consume_head_def kern_hack_stmts getProg_spec)
    (simp add: stmt_line_def)


section \<open>The statements run the program\<close>

lemma eval_merge_exp:
  assumes "eval_prim kern env vs a = Some x" "eval_prim kern env vs b = Some y"
  shows "eval_exp kern env vs (merge_exp a b r) = Some (merge_val kern x y r)"
  using assms by (simp add: merge_exp_def merge_val_def Let_def lift2_opt_def)

lemma eval_math_exp:
  assumes "eval_prim kern env vs a = Some x" "eval_prim kern env vs b = Some y"
  shows "eval_exp kern env vs (math_exp a b r) = Some (math_val kern x y r)"
  using assms by (simp add: math_exp_def math_val_def Let_def lift2_opt_def)

lemma exec_stmts_simps [simp]:
  "exec_stmts kern env [] vs = Some vs"
  "exec_stmts kern env (s # ss) vs = Option.bind (exec_stmt kern env s vs) (exec_stmts kern env ss)"
  by (simp_all add: exec_stmts_def)

lemma exec_stmts_append:
  "exec_stmts kern env (ss @ ts) vs = Option.bind (exec_stmts kern env ss vs) (exec_stmts kern env ts)"
proof (induction ss arbitrary: vs)
  case (Cons s ss)
  then show ?case by (cases "exec_stmt kern env s vs") simp_all
qed simp

fun instr_ok :: "instr \<Rightarrow> bool" where
  "instr_ok (CacheLoad i src dst r) = (src < PROGPOW_REGS \<and> dst < PROGPOW_REGS)"
| "instr_ok (RandMath i src1 src2 r1 dst r2) =
     (src1 < PROGPOW_REGS \<and> src2 < PROGPOW_REGS \<and> dst < PROGPOW_REGS)"
| "instr_ok (DagMerge k dst r) = (k < PROGPOW_DAG_LOADS \<and> dst < PROGPOW_REGS)"

lemma exec_instr_stmts:
  assumes "instr_ok i" "length (lv_mix vs) = PROGPOW_REGS"
    and "length (le_cache env) = PROGPOW_CACHE_BYTES div 4" "length (lv_dag vs) = PROGPOW_DAG_LOADS"
  shows "\<exists>vs'. exec_stmts kern env (instr_stmts i) vs = Some vs' \<and> lv_dag vs' = lv_dag vs \<and>
    lv_mix vs' = exec_instr kern (le_cache env) (lv_dag vs) i (lv_mix vs)"
proof (cases i)
  case (CacheLoad k src dst r)
  have "unat (x mod 4096) = unat x mod 4096" for x :: u32 by (simp add: unat_mod)
  with CacheLoad assms show ?thesis
    by (simp add: nth_opt_def lift2_opt_def eval_merge_exp PROGPOW_CACHE_BYTES_def)
next
  case (RandMath k src1 src2 r1 dst r2)
  then show ?thesis using assms by (simp add: nth_opt_def eval_merge_exp eval_math_exp)
next
  case (DagMerge k dst r)
  then show ?thesis using assms by (simp add: nth_opt_def eval_merge_exp)
qed

lemma exec_instrs_stmts:
  assumes "\<forall>i\<in>set is. instr_ok i" "length (lv_mix vs) = PROGPOW_REGS"
    and "length (le_cache env) = PROGPOW_CACHE_BYTES div 4" "length (lv_dag vs) = PROGPOW_DAG_LOADS"
  shows "\<exists>vs'. exec_stmts kern env (concat (map instr_stmts is)) vs = Some vs' \<and> lv_dag vs' = lv_dag vs \<and>
    lv_mix vs' = fold (exec_instr kern (le_cache env) (lv_dag vs)) is (lv_mix vs)"
  using assms
proof (induction "is" arbitrary: vs)
  case (Cons i "is")
  obtain v where v: "exec_stmts kern env (instr_stmts i) vs = Some v" "lv_dag v = lv_dag vs"
      "lv_mix v = exec_instr kern (le_cache env) (lv_dag vs) i (lv_mix vs)"
    using exec_instr_stmts [of i vs env kern] Cons.prems by auto
  then show ?case using Cons.IH [of v] Cons.prems by (simp add: exec_stmts_append)
qed simp

definition lane_ready :: "lane_env \<Rightarrow> lane_vars \<Rightarrow> bool" where
  "lane_ready env vs \<longleftrightarrow> length (lv_mix vs) = PROGPOW_REGS \<and>
     length (le_cache env) = PROGPOW_CACHE_BYTES div 4 \<and> le_elements env \<noteq> 0 \<and>
     unat (le_elements env) * PROGPOW_LANES \<le> 2 ^ 32 \<and>
     unat (le_elements env) * PROGPOW_LANES \<le> length (le_dag env) \<and>
     (\<forall>e\<in>set (le_dag env). length e = PROGPOW_DAG_LOADS)"

lemma exec_load_stmts:
  assumes "lane_ready env vs"
  shows "\<exists>vs'. exec_stmts kern env (load_stmts @ hack_stmts) vs = Some vs' \<and> lv_mix vs' = lv_mix vs \<and>
    lv_dag vs' = le_dag env ! unat (dag_index (le_elements env) (le_loop env) (le_lane env) (lv_offset vs)) \<and>
    length (lv_dag vs') = PROGPOW_DAG_LOADS"
proof -
  let ?i = "dag_index (le_elements env) (le_loop env) (le_lane env) (lv_offset vs)"
  have "unat ?i < length (le_dag env)"
    using assms dag_index_bound(2) [of "le_elements env" "le_loop env" "le_lane env" "lv_offset vs"]
    by (auto simp: lane_ready_def)
  then show ?thesis
    using assms by (simp add: load_stmts_def hack_stmts_def lane_ready_def lift2_opt_def nth_opt_def
        dag_index_def PROGPOW_LANES_def)
qed

lemma spec_shuffle_range: "par < 2 \<Longrightarrow> k < 32 \<Longrightarrow> spec_shuffle par p ! k < 32"
proof -
  assume "par < 2" and k: "k < 32"
  have "mix_seq_dst (init_seqs p) = spec_shuffle 0 p" "mix_seq_cache (init_seqs p) = spec_shuffle 1 p"
    by (simp_all add: init_seqs_at gen_at_def)
  note facts = init_seqs_facts(1-4) [of p, unfolded this PROGPOW_REGS_def]
  from \<open>par < 2\<close> have "par = 0 \<or> par = 1" by auto
  then have "length (spec_shuffle par p) = 32" "set (spec_shuffle par p) = {..<32}"
    using facts by blast+
  with k nth_mem [of k "spec_shuffle par p"] show ?thesis by simp
qed

lemma spec_prog_ok: "\<forall>i \<in> set (fst (spec_prog p)) \<union> set (snd (spec_prog p)). instr_ok i"
proof -
  have m: "m div 32 < 31" "m div 32 < 32" if "m < 992" for m :: nat
    using that by (simp_all add: less_mult_imp_div_less)
  have "instr_ok (spec_math p i)" for i
    by (simp add: spec_math_def Let_def other_register m spec_shuffle_range PROGPOW_REGS_def del: upt_Suc)
  then show ?thesis
    by (auto simp: spec_prog_def spec_cache_def spec_shuffle_range PROGPOW_REGS_def PROGPOW_DAG_LOADS_def
        split: if_splits)
qed

lemma exec_prog_stmts:
  assumes "lane_ready env vs"
  shows "map_option lv_mix (exec_stmts kern env (prog_stmts (spec_prog p)) vs) =
    Some (progPowLane kern (spec_prog p) (le_elements env) (le_dag env) (le_cache env) (le_loop env)
      (lv_offset vs) (le_lane env) (lv_mix vs))"
proof -
  note ok = spec_prog_ok [of p]
  have cache: "length (le_cache env) = PROGPOW_CACHE_BYTES div 4" using assms by (simp add: lane_ready_def)
  obtain v where v: "exec_stmts kern env (load_stmts @ hack_stmts) vs = Some v" "lv_mix v = lv_mix vs"
      "lv_dag v = le_dag env ! unat (dag_index (le_elements env) (le_loop env) (le_lane env) (lv_offset vs))"
      "length (lv_dag v) = PROGPOW_DAG_LOADS"
    using exec_load_stmts [OF assms] by blast
  have len: "length (lv_mix v) = PROGPOW_REGS" using v assms by (simp add: lane_ready_def)
  obtain w where w: "exec_stmts kern env (concat (map instr_stmts (fst (spec_prog p)))) v = Some w"
      "lv_dag w = lv_dag v" "lv_mix w = fold (exec_instr kern (le_cache env) (lv_dag v)) (fst (spec_prog p)) (lv_mix v)"
    using exec_instrs_stmts [of "fst (spec_prog p)" v env kern] ok len cache v(4) by auto
  have len': "length (lv_mix w) = PROGPOW_REGS" using len by (simp add: w(3) length_fold_update)
  obtain x where x: "exec_stmts kern env (concat (map instr_stmts (snd (spec_prog p)))) w = Some x"
      "lv_mix x = fold (exec_instr kern (le_cache env) (lv_dag v)) (snd (spec_prog p)) (lv_mix w)"
    using exec_instrs_stmts [of "snd (spec_prog p)" w env kern] ok len' cache v(4) w(2) by auto
  have "exec_stmts kern env (SRemark t # hack_stmts @ ss) w = exec_stmts kern env ss w" for t ss
    by (simp add: hack_stmts_def)
  moreover have "prog_stmts (spec_prog p) = (load_stmts @ hack_stmts) @ concat (map instr_stmts (fst (spec_prog p))) @
      (SRemark ''consume global load data'' # hack_stmts @ concat (map instr_stmts (snd (spec_prog p))))"
    by (simp add: prog_stmts_def)
  ultimately show ?thesis
    using v w x by (simp only: exec_stmts_append Option.bind.bind_lunit option.map progPowLane_def Let_def)
qed

section \<open>Properties\<close>

text \<open>
  C1: the generated source text computes the ProgPoW inner loop.  For either flavour and every
  block, what \<open>getKern\<close> streams out is the fixed prologue followed by statements \<open>ss\<close> whose
  execution by a lane, for every DAG, cache, loop number and register file of the declared sizes,
  stays inside all arrays and leaves in \<^verbatim>\<open>mix\<close> the result of the period's program \<open>spec_prog\<close>, the
  program stated directly over the KISS99 stream of the period: its destinations, sources, loads,
  operations and merges are those the numbers of that stream select.
\<close>

theorem generated_code_correct:
  "\<exists>ss. getKern bn kern = kern_macros kern @ kern_params @ kern_signature kern (bn div 10) @
       kern_share kern @ show_stmts kern ss @ stmt_line ''}'' @ stmt_line [] \<and>
     (\<forall>env vs. lane_ready env vs \<longrightarrow>
        map_option lv_mix (exec_stmts kern env ss vs) =
        Some (progPowLane kern (spec_prog (bn div 10)) (le_elements env) (le_dag env) (le_cache env)
          (le_loop env) (lv_offset vs) (le_lane env) (lv_mix vs)))"
proof -
  have "prog_seed_of bn = bn div 10" by (simp add: prog_seed_of_def PROGPOW_PERIOD_def)
  then show ?thesis
    using getKern_stmts [of bn kern] exec_prog_stmts [of _ _ kern "bn div 10"] by auto
qed

theorem generated_code_correct_witness:
  "\<exists>ss. getKern 30 KERNEL_CL = kern_macros KERNEL_CL @ kern_params @ kern_signature KERNEL_CL 3 @
       kern_share KERNEL_CL @ show_stmts KERNEL_CL ss @ stmt_line ''}'' @ stmt_line [] \<and>
     map_option lv_mix (exec_stmts KERNEL_CL
         \<lparr>le_loop = 2, le_lane = 5, le_elements = 5, le_dag = replicate 80 [1, 2, 3, 4], le_cache = replicate 4096 9\<rparr>
         ss \<lparr>lv_mix = replicate 32 6, lv_offset = 77, lv_data = 0, lv_dag = []\<rparr>) =
     Some (progPowLane KERNEL_CL (spec_prog 3) 5 (replicate 80 [1, 2, 3, 4]) (replicate 4096 9) 2 77 5 (replicate 32 6))"
proof -
  have ready: "lane_ready
      \<lparr>le_loop = 2, le_lane = 5, le_elements = 5, le_dag = replicate 80 [1, 2, 3, 4], le_cache = replicate 4096 9\<rparr>
      \<lparr>lv_mix = replicate 32 6, lv_offset = 77, lv_data = 0, lv_dag = []\<rparr>"
    by (simp add: lane_ready_def progpow_params)
  show ?thesis
    using generated_code_correct [of 30 KERNEL_CL] ready by fastforce
qed

end
