(* ===== verification/ClKernel.thy ===== *)
theory ClKernel
  imports Kernel
begin

unbundle bit_operations_syntax

text \<open>
  The parts of \<^verbatim>\<open>libethash-cl/CLMiner_kernel.cl\<close> that \<^verbatim>\<open>Kernel\<close> shares with the CUDA kernel, as OpenCL has them: its own copies of the
  tables, of Keccak and of the generator that fills the registers, and the exchange of the DAG offset through local memory.
  The lanes of a group are threads here, with the barrier of the generated loop as the only synchronisation; one
  theorem shows that \<^verbatim>\<open>Kernel\<close> is right about them when lanes run in lock step, another what may happen when they do not.
\<close>

section \<open>Copies of the shared functions\<close>

definition cl_keccakf_rndc :: "u32 list" where
  "cl_keccakf_rndc = [
    0x00000001, 0x00008082, 0x0000808a, 0x80008000, 0x0000808b, 0x80000001,
    0x80008081, 0x00008009, 0x0000008a, 0x00000088, 0x80008009, 0x8000000a,
    0x8000808b, 0x0000008b, 0x00008089, 0x00008003, 0x00008002, 0x00000080,
    0x0000800a, 0x8000000a, 0x80008081, 0x00008080, 0x80000001, 0x80008008]"

definition cl_keccakf_rotc :: "u32 list" where
  "cl_keccakf_rotc = [
    1,  3,  6,  10, 15, 21, 28, 36, 45, 55, 2,  14,
    27, 41, 56, 8,  25, 43, 62, 18, 39, 61, 20, 44]"

definition cl_keccakf_piln :: "nat list" where
  "cl_keccakf_piln = [
    10, 7,  11, 17, 18, 3, 5,  16, 8,  21, 24, 4,
    15, 23, 19, 13, 12, 2, 20, 14, 22, 9,  6,  1]"

definition cl_keccak_f800_round :: "nat \<Rightarrow> u32 list \<Rightarrow> u32 list" where
  "cl_keccak_f800_round r st =
     (let st1 = theta800 st;
          st2 = rho_pi (zip cl_keccakf_piln cl_keccakf_rotc) (st1 ! 1) st1;
          st3 = st2[3 := st2 ! 3 XOR 0x79938B61];
          st4 = st3[10 := st3 ! 10 XOR ((st3 ! 19 AND 0x000000FF) OR (st3 ! 24 AND 0x0000FF00) OR
                                        (st3 ! 6 AND 0x00FF0000) OR (st3 ! 14 AND 0xFF000000))];
          st5 = chi800 st4
      in st5[0 := st5 ! 0 XOR cl_keccakf_rndc ! r])"

definition cl_keccak_f800 :: "u32 list \<Rightarrow> u64 \<Rightarrow> u32 list \<Rightarrow> u64" where
  "cl_keccak_f800 g_header seed digest =
     (let st = fold cl_keccak_f800_round [0..<21] (keccak_f800_in g_header seed digest);
          st = cl_keccak_f800_round 21 st;
          res = push_bit 32 (ucast (st ! 1)) OR ucast (st ! 0) :: u64
      in word_of_le (rev (word_to_le res)))"

text \<open>The macro \<open>fnv1a\<close> has no casts: with a 64-bit argument the product is computed in 64 bits and truncated by the assignment.\<close>

definition cl_fnv1a64 :: "u32 \<Rightarrow> u64 \<Rightarrow> u32" where
  "cl_fnv1a64 h d = ucast ((ucast h XOR d) * 0x1000193)"

definition cl_fnv1a :: "u32 \<Rightarrow> u32 \<Rightarrow> u32" where
  "cl_fnv1a h d = (h XOR d) * 0x1000193"

definition cl_kiss99 :: "kiss99_t \<Rightarrow> u32 \<times> kiss99_t" where
  "cl_kiss99 st =
     (let z = 36969 * (k_z st AND 65535) + drop_bit 16 (k_z st);
          w = 18000 * (k_w st AND 65535) + drop_bit 16 (k_w st);
          MWC = push_bit 16 z + w;
          jsr = k_jsr st XOR push_bit 17 (k_jsr st);
          jsr = jsr XOR drop_bit 13 jsr;
          jsr = jsr XOR push_bit 5 jsr;
          jcong = 69069 * k_jcong st + 1234567
      in ((MWC XOR jcong) + jsr, \<lparr>k_z = z, k_w = w, k_jsr = jsr, k_jcong = jcong\<rparr>))"

fun cl_kiss_fill :: "nat \<Rightarrow> kiss99_t \<Rightarrow> u32 list" where
  "cl_kiss_fill 0 st = []"
| "cl_kiss_fill (Suc n) st = (let (x, st1) = cl_kiss99 st in x # cl_kiss_fill n st1)"

definition cl_fill_mix :: "u64 \<Rightarrow> u32 \<Rightarrow> u32 list" where
  "cl_fill_mix seed lane_id =
     (let z = cl_fnv1a64 0x811c9dc5 seed;
          w = cl_fnv1a64 z (drop_bit 32 seed);
          jsr = cl_fnv1a w lane_id;
          jcong = cl_fnv1a jsr lane_id
      in cl_kiss_fill PROGPOW_REGS \<lparr>k_z = z, k_w = w, k_jsr = jsr, k_jcong = jcong\<rparr>)"

lemma cl_round_eq: "cl_keccak_f800_round = keccak_f800_round"
  by (intro ext) (simp add: cl_keccak_f800_round_def keccak_f800_round_def tweak800_def Let_def
      cl_keccakf_rndc_def keccakf_rndc_def cl_keccakf_rotc_def keccakf_rotc_def cl_keccakf_piln_def keccakf_piln_def)

lemma cl_keccak_f800_eq: "cl_keccak_f800 header seed digest = keccak_f800 KERNEL_CL header seed digest"
  by (simp add: cl_keccak_f800_def keccak_f800_def keccak_f800_out_def cl_round_eq Let_def)

lemma cl_fnv1a64_eq: "cl_fnv1a64 h d = fnv1a h (ucast d)"
proof -
  have m: "ucast (a * b :: u64) = (ucast a * ucast b :: u32)" for a b
    by (simp add: word_unat_eq_iff unsigned_ucast_eq unat_word_ariths take_bit_eq_mod mod_mod_cancel mod_simps)
  have "ucast (ucast h XOR d :: u64) = h XOR ucast d"
    by (rule bit_word_eqI) (auto simp: bit_ucast_iff bit_xor_iff)
  then show ?thesis by (simp add: cl_fnv1a64_def fnv1a_def m)
qed

lemma cl_kiss_fill_eq: "cl_kiss_fill n st = kiss_fill n st"
proof (induction n arbitrary: st)
  case (Suc n)
  have "cl_kiss99 st = kiss99 st" by (simp add: cl_kiss99_def kiss99_def Let_def)
  then show ?case using Suc by (simp add: split_def Let_def)
qed simp

lemma cl_fill_mix_eq: "cl_fill_mix = fill_mix"
  by (intro ext) (simp add: cl_fill_mix_def fill_mix_def Let_def cl_kiss_fill_eq cl_fnv1a64_eq cl_fnv1a_def fnv1a_def)


section \<open>The lanes as threads\<close>

text \<open>
  A lane is before the write to \<^verbatim>\<open>share[group_id]\<close> of its loop, at the barrier, or past it and before the read; the rest of the
  loop only touches the registers of the lane and belongs to the read.  \<open>wg_share\<close> is the group's slot.
\<close>

datatype lane_pc = Writes | Waits | Reads

record lane =
  ln_loop :: nat
  ln_pc :: lane_pc
  ln_mix :: "u32 list"

record work_group =
  wg_share :: u64
  wg_lanes :: "lane list"

definition wg_start :: "u64 \<Rightarrow> u32 list list \<Rightarrow> work_group" where
  "wg_start share mixes = \<lparr>wg_share = share, wg_lanes = map (\<lambda>m. \<lparr>ln_loop = 0, ln_pc = Writes, ln_mix = m\<rparr>) mixes\<rparr>"

definition lane_write :: "nat \<Rightarrow> work_group \<Rightarrow> work_group" where
  "lane_write i w =
     (let l = wg_lanes w ! i in
      w\<lparr>wg_share := (if i = ln_loop l mod PROGPOW_LANES then ucast (ln_mix l ! 0) else wg_share w),
        wg_lanes := (wg_lanes w)[i := l\<lparr>ln_pc := Waits\<rparr>]\<rparr>)"

definition lane_read :: "instr list \<times> instr list \<Rightarrow> u32 \<Rightarrow> u32 list list \<Rightarrow> u32 list \<Rightarrow> nat \<Rightarrow> work_group \<Rightarrow> work_group" where
  "lane_read prog elems g_dag c_dag i w =
     (let l = wg_lanes w ! i in
      w\<lparr>wg_lanes := (wg_lanes w)[i := l\<lparr>ln_loop := ln_loop l + 1, ln_pc := Writes,
        ln_mix := progPowLane KERNEL_CL prog elems g_dag c_dag (of_nat (ln_loop l)) (ucast (wg_share w)) (of_nat i) (ln_mix l)\<rparr>]\<rparr>)"

definition barrier_pass :: "work_group \<Rightarrow> work_group" where
  "barrier_pass w = w\<lparr>wg_lanes := map (\<lambda>l. l\<lparr>ln_pc := Reads\<rparr>) (wg_lanes w)\<rparr>"

text \<open>
  The steps; with \<open>lock_step\<close> no lane starts the next loop before all have read the slot, as on a device that runs the lanes
  of a group together.
\<close>

inductive wg_step :: "bool \<Rightarrow> instr list \<times> instr list \<Rightarrow> u32 \<Rightarrow> u32 list list \<Rightarrow> u32 list \<Rightarrow> work_group \<Rightarrow> work_group \<Rightarrow> bool"
  for lock_step prog elems g_dag c_dag where
  ws_write: "i < length (wg_lanes w) \<Longrightarrow> ln_pc (wg_lanes w ! i) = Writes \<Longrightarrow> ln_loop (wg_lanes w ! i) < PROGPOW_CNT_DAG \<Longrightarrow>
    (lock_step \<Longrightarrow> \<forall>l \<in> set (wg_lanes w). ln_pc l \<noteq> Reads) \<Longrightarrow> wg_step lock_step prog elems g_dag c_dag w (lane_write i w)"
| ws_barrier: "\<forall>l \<in> set (wg_lanes w). ln_pc l = Waits \<Longrightarrow> wg_step lock_step prog elems g_dag c_dag w (barrier_pass w)"
| ws_read: "i < length (wg_lanes w) \<Longrightarrow> ln_pc (wg_lanes w ! i) = Reads \<Longrightarrow>
    wg_step lock_step prog elems g_dag c_dag w (lane_read prog elems g_dag c_dag i w)"

inductive_cases wg_stepE: "wg_step lock_step prog elems g_dag c_dag w v"

definition wg_done :: "work_group \<Rightarrow> bool" where
  "wg_done w \<longleftrightarrow> (\<forall>l \<in> set (wg_lanes w). ln_loop l = PROGPOW_CNT_DAG \<and> ln_pc l = Writes)"

text \<open>The registers of all lanes after \<open>n\<close> loops as \<^verbatim>\<open>Kernel\<close> has them, and the value the slot has to have in loop \<open>n\<close>.\<close>

definition mixes_after :: "instr list \<times> instr list \<Rightarrow> u32 \<Rightarrow> u32 list list \<Rightarrow> u32 list \<Rightarrow> u32 list list \<Rightarrow> nat \<Rightarrow> u32 list list" where
  "mixes_after prog elems g_dag c_dag mixes n =
     fold (\<lambda>l. progPowLoop KERNEL_CL prog elems g_dag c_dag (of_nat l)) [0..<n] mixes"

definition slot_value :: "u32 list list \<Rightarrow> nat \<Rightarrow> u64" where
  "slot_value mixes n = ucast (mixes ! (n mod PROGPOW_LANES) ! 0)"

section \<open>Progress\<close>

text \<open>How many barriers a lane has passed; the same number for all lanes, in lock step or not.\<close>

definition ln_round :: "lane \<Rightarrow> nat" where
  "ln_round l = ln_loop l + (if ln_pc l = Reads then 1 else 0)"

definition lane_ok :: "nat \<Rightarrow> lane \<Rightarrow> bool" where
  "lane_ok k l \<longleftrightarrow> ln_round l = k \<and> ln_loop l \<le> PROGPOW_CNT_DAG \<and> (ln_pc l \<noteq> Writes \<longrightarrow> ln_loop l < PROGPOW_CNT_DAG)"

definition rounds_ok :: "nat \<Rightarrow> work_group \<Rightarrow> bool" where
  "rounds_ok k w \<longleftrightarrow> list_all (lane_ok k) (wg_lanes w)"

lemma rounds_ok_start: "rounds_ok 0 (wg_start share mixes)"
  by (simp add: rounds_ok_def wg_start_def lane_ok_def ln_round_def list_all_iff)

lemma list_all_update: "list_all P xs \<Longrightarrow> P y \<Longrightarrow> list_all P (xs[i := y])"
  using set_update_subset_insert [of xs i y] by (auto simp: list_all_iff)

lemma rounds_ok_nth: "rounds_ok k w \<Longrightarrow> i < length (wg_lanes w) \<Longrightarrow> lane_ok k (wg_lanes w ! i)"
  by (simp add: rounds_ok_def list_all_length)

lemma rounds_ok_write:
  assumes "rounds_ok k w" "i < length (wg_lanes w)" "ln_pc (wg_lanes w ! i) = Writes" "ln_loop (wg_lanes w ! i) < PROGPOW_CNT_DAG"
  shows "rounds_ok k (lane_write i w)"
  using assms rounds_ok_nth [OF assms(1,2)]
  by (simp add: rounds_ok_def lane_write_def Let_def lane_ok_def ln_round_def list_all_update)

lemma rounds_ok_barrier:
  assumes "rounds_ok k w" "\<forall>l \<in> set (wg_lanes w). ln_pc l = Waits"
  shows "rounds_ok (k + 1) (barrier_pass w)"
  using assms by (auto simp: rounds_ok_def barrier_pass_def lane_ok_def ln_round_def list_all_iff)

lemma rounds_ok_read:
  assumes "rounds_ok k w" "i < length (wg_lanes w)" "ln_pc (wg_lanes w ! i) = Reads"
  shows "rounds_ok k (lane_read prog elems g_dag c_dag i w)"
  using assms rounds_ok_nth [OF assms(1,2)]
  by (simp add: rounds_ok_def lane_read_def Let_def lane_ok_def ln_round_def list_all_update)

lemma rounds_ok_step: "wg_step ls prog elems g_dag c_dag w v \<Longrightarrow> rounds_ok k w \<Longrightarrow> \<exists>k. rounds_ok k v"
  by (erule wg_stepE) (blast intro: rounds_ok_write rounds_ok_barrier rounds_ok_read)+

lemma rounds_ok_reachable: "(wg_step ls prog elems g_dag c_dag)\<^sup>*\<^sup>* (wg_start share mixes) w \<Longrightarrow> \<exists>k. rounds_ok k w"
  by (induction rule: rtranclp_induct) (use rounds_ok_start rounds_ok_step in blast)+

lemma lane_cases:
  assumes "lane_ok k l"
  obtains "ln_pc l = Reads" | "ln_pc l = Writes" "ln_loop l < PROGPOW_CNT_DAG" | "ln_pc l = Waits" "ln_loop l = k" "k < PROGPOW_CNT_DAG"
    | "ln_pc l = Writes" "ln_loop l = PROGPOW_CNT_DAG" "k = PROGPOW_CNT_DAG"
  using assms by (cases "ln_pc l"; cases "ln_loop l < PROGPOW_CNT_DAG") (auto simp: lane_ok_def ln_round_def)

text \<open>Some step is possible until all lanes are through.\<close>

lemma wg_enabled:
  assumes "rounds_ok k w" "\<not> wg_done w"
  shows "\<exists>v. wg_step ls prog elems g_dag c_dag w v"
proof (cases "\<exists>l \<in> set (wg_lanes w). ln_pc l = Reads")
  case True
  then obtain i where "i < length (wg_lanes w)" "ln_pc (wg_lanes w ! i) = Reads" by (auto simp: in_set_conv_nth)
  then show ?thesis using ws_read by blast
next
  case nr: False
  have ok: "lane_ok k l" if "l \<in> set (wg_lanes w)" for l using assms(1) that by (simp add: rounds_ok_def list_all_iff)
  show ?thesis
  proof (cases "\<exists>l \<in> set (wg_lanes w). ln_pc l = Writes \<and> ln_loop l < PROGPOW_CNT_DAG")
    case True
    then obtain i where "i < length (wg_lanes w)" "ln_pc (wg_lanes w ! i) = Writes" "ln_loop (wg_lanes w ! i) < PROGPOW_CNT_DAG"
      by (auto simp: in_set_conv_nth)
    then show ?thesis using nr ws_write by blast
  next
    case nw: False
    have "ln_pc l = Waits" if "k \<noteq> PROGPOW_CNT_DAG" "l \<in> set (wg_lanes w)" for l
      using ok [OF that(2)] by (rule lane_cases) (use that nr nw in auto)
    moreover have "ln_loop l = PROGPOW_CNT_DAG \<and> ln_pc l = Writes" if "k = PROGPOW_CNT_DAG" "l \<in> set (wg_lanes w)" for l
      using ok [OF that(2)] by (rule lane_cases) (use that nr nw in auto)
    ultimately show ?thesis using assms(2) ws_barrier by (metis wg_done_def)
  qed
qed

text \<open>Every step brings the group closer to its end.\<close>

definition ln_rank :: "lane \<Rightarrow> nat" where
  "ln_rank l = 3 * (PROGPOW_CNT_DAG - ln_loop l) - (case ln_pc l of Writes \<Rightarrow> 0 | Waits \<Rightarrow> 1 | Reads \<Rightarrow> 2)"

definition wg_rank :: "work_group \<Rightarrow> nat" where
  "wg_rank w = sum_list (map ln_rank (wg_lanes w))"

lemma sum_list_update_less:
  "i < length xs \<Longrightarrow> f y < f (xs ! i) \<Longrightarrow> sum_list (map f (xs[i := y])) < (sum_list (map f xs) :: nat)"
  by (induction xs arbitrary: i) (auto split: nat.split)

lemma sum_list_map_less: "xs \<noteq> [] \<Longrightarrow> (\<And>x. x \<in> set xs \<Longrightarrow> f x < (g x :: nat)) \<Longrightarrow> sum_list (map f xs) < sum_list (map g xs)"
proof (induction xs)
  case (Cons x xs)
  then show ?case by (cases "xs = []") (simp_all add: add_less_mono)
qed simp

lemma wg_rank_decreases:
  assumes "wg_step ls prog elems g_dag c_dag w v" "rounds_ok k w" "wg_lanes w \<noteq> []"
  shows "wg_rank v < wg_rank w"
  using assms(1)
proof (cases rule: wg_step.cases)
  case (ws_write i)
  then show ?thesis
    by (auto simp: wg_rank_def lane_write_def Let_def ln_rank_def intro!: sum_list_update_less)
next
  case ws_barrier
  have "ln_loop l < PROGPOW_CNT_DAG" if "l \<in> set (wg_lanes w)" for l
    using assms(2) ws_barrier that by (auto simp: rounds_ok_def list_all_iff lane_ok_def)
  then have "ln_rank (l\<lparr>ln_pc := Reads\<rparr>) < ln_rank l" if "l \<in> set (wg_lanes w)" for l
    using ws_barrier that by (fastforce simp: ln_rank_def)
  then show ?thesis using ws_barrier assms(3) by (simp add: wg_rank_def barrier_pass_def comp_def sum_list_map_less)
next
  case (ws_read i)
  have "ln_loop (wg_lanes w ! i) < PROGPOW_CNT_DAG" using rounds_ok_nth [OF assms(2)] ws_read by (simp add: lane_ok_def)
  then show ?thesis using ws_read
    by (auto simp: wg_rank_def lane_read_def Let_def ln_rank_def intro!: sum_list_update_less)
qed

section \<open>Lock step\<close>

lemma mixes_after_simps:
  "mixes_after prog elems g_dag c_dag mixes 0 = mixes"
  "mixes_after prog elems g_dag c_dag mixes (Suc n) =
     progPowLoop KERNEL_CL prog elems g_dag c_dag (of_nat n) (mixes_after prog elems g_dag c_dag mixes n)"
  by (simp_all add: mixes_after_def)

lemma slot_offset: "ucast (slot_value mixes n) = load_offset KERNEL_CL (of_nat n) mixes" if "n < 2 ^ 32"
proof -
  have "unat (of_nat n :: u32) = n" using that by (simp add: unsigned_of_nat take_bit_nat_eq_self)
  moreover have "ucast (ucast x :: u64) = x" for x :: u32 by (rule bit_word_eqI) (auto simp: bit_ucast_iff)
  ultimately show ?thesis by (simp add: load_offset_kern [of KERNEL_CL] load_offset_def shfl_offset_def slot_value_def)
qed

lemma mixes_after_lane:
  assumes "i < PROGPOW_LANES" "n < PROGPOW_CNT_DAG"
  shows "mixes_after prog elems g_dag c_dag mixes (Suc n) ! i =
    progPowLane KERNEL_CL prog elems g_dag c_dag (of_nat n) (ucast (slot_value (mixes_after prog elems g_dag c_dag mixes n) n)) (of_nat i)
      (mixes_after prog elems g_dag c_dag mixes n ! i)"
  using assms by (simp add: mixes_after_simps progPowLoop_def slot_offset PROGPOW_CNT_DAG_def)

text \<open>The invariant of lock step after \<open>k\<close> barriers, for the registers \<open>M n\<close> after \<open>n\<close> loops.\<close>

definition lock_ok :: "(nat \<Rightarrow> u32 list list) \<Rightarrow> nat \<Rightarrow> work_group \<Rightarrow> bool" where
  "lock_ok M k w \<longleftrightarrow> rounds_ok k w \<and> length (wg_lanes w) = PROGPOW_LANES \<and>
     (\<forall>i < PROGPOW_LANES. ln_mix (wg_lanes w ! i) = M (ln_loop (wg_lanes w ! i)) ! i) \<and>
     ((\<exists>l \<in> set (wg_lanes w). ln_pc l = Reads) \<longrightarrow> wg_share w = slot_value (M (k - 1)) (k - 1)) \<and>
     (ln_pc (wg_lanes w ! (k mod PROGPOW_LANES)) = Waits \<longrightarrow> wg_share w = slot_value (M k) k)"

lemma lanes_positive [simp]: "k mod PROGPOW_LANES < PROGPOW_LANES"
  by (simp add: PROGPOW_LANES_def)

lemma lock_ok_write:
  assumes "lock_ok M k w" "i < length (wg_lanes w)" "ln_pc (wg_lanes w ! i) = Writes" "ln_loop (wg_lanes w ! i) < PROGPOW_CNT_DAG"
    "\<forall>l \<in> set (wg_lanes w). ln_pc l \<noteq> Reads"
  shows "lock_ok M k (lane_write i w)"
proof -
  have w: "rounds_ok k w" "length (wg_lanes w) = PROGPOW_LANES" "\<forall>i < PROGPOW_LANES. ln_mix (wg_lanes w ! i) = M (ln_loop (wg_lanes w ! i)) ! i"
    "ln_pc (wg_lanes w ! (k mod PROGPOW_LANES)) = Waits \<longrightarrow> wg_share w = slot_value (M k) k"
    using assms(1) by (auto simp: lock_ok_def)
  have k: "ln_loop (wg_lanes w ! i) = k" using rounds_ok_nth [OF w(1) assms(2)] assms(3) by (simp add: lane_ok_def ln_round_def)
  have nr: "\<forall>l \<in> set (wg_lanes (lane_write i w)). ln_pc l \<noteq> Reads"
    using assms(5) set_update_subset_insert [of "wg_lanes w" i] by (fastforce simp: lane_write_def Let_def)
  have m: "\<forall>j < PROGPOW_LANES. ln_mix (wg_lanes (lane_write i w) ! j) = M (ln_loop (wg_lanes (lane_write i w) ! j)) ! j"
    using w(2,3) assms(2) by (auto simp: lane_write_def Let_def nth_list_update)
  have s: "ln_pc (wg_lanes (lane_write i w) ! (k mod PROGPOW_LANES)) = Waits \<longrightarrow> wg_share (lane_write i w) = slot_value (M k) k"
    using w(2,3,4) assms(2) k by (auto simp: lane_write_def Let_def nth_list_update slot_value_def)
  show ?thesis using rounds_ok_write [OF w(1) assms(2-4)] w(2) m nr s by (simp add: lock_ok_def lane_write_def Let_def)
qed

lemma lock_ok_barrier:
  assumes "lock_ok M k w" "\<forall>l \<in> set (wg_lanes w). ln_pc l = Waits"
  shows "lock_ok M (k + 1) (barrier_pass w)"
proof -
  have w: "rounds_ok k w" "length (wg_lanes w) = PROGPOW_LANES" "\<forall>i < PROGPOW_LANES. ln_mix (wg_lanes w ! i) = M (ln_loop (wg_lanes w ! i)) ! i"
    "wg_share w = slot_value (M k) k"
    using assms by (auto simp: lock_ok_def)
  have "ln_pc (wg_lanes (barrier_pass w) ! (j mod PROGPOW_LANES)) = Reads" for j using w(2) by (simp add: barrier_pass_def)
  then show ?thesis using rounds_ok_barrier [OF w(1) assms(2)] w(2-4) by (simp add: lock_ok_def) (simp add: barrier_pass_def)
qed

lemma lock_ok_read:
  assumes "lock_ok M k w" "i < length (wg_lanes w)" "ln_pc (wg_lanes w ! i) = Reads"
    "\<And>n. n < PROGPOW_CNT_DAG \<Longrightarrow> M (Suc n) ! i = progPowLane KERNEL_CL prog elems g_dag c_dag (of_nat n) (ucast (slot_value (M n) n)) (of_nat i) (M n ! i)"
  shows "lock_ok M k (lane_read prog elems g_dag c_dag i w)"
proof -
  let ?v = "lane_read prog elems g_dag c_dag i w"
  have w: "rounds_ok k w" "length (wg_lanes w) = PROGPOW_LANES" "\<forall>i < PROGPOW_LANES. ln_mix (wg_lanes w ! i) = M (ln_loop (wg_lanes w ! i)) ! i"
    "wg_share w = slot_value (M (k - 1)) (k - 1)" "ln_pc (wg_lanes w ! (k mod PROGPOW_LANES)) = Waits \<longrightarrow> wg_share w = slot_value (M k) k"
    using assms(1-3) by (auto simp: lock_ok_def dest: nth_mem)
  have k: "ln_loop (wg_lanes w ! i) = k - 1" "k - 1 < PROGPOW_CNT_DAG"
    using rounds_ok_nth [OF w(1) assms(2)] assms(3) by (auto simp: lane_ok_def ln_round_def)
  have "\<forall>j < PROGPOW_LANES. ln_mix (wg_lanes ?v ! j) = M (ln_loop (wg_lanes ?v ! j)) ! j"
    using w(2,3,4) assms(2) k assms(4) [OF k(2)] by (auto simp: lane_read_def Let_def nth_list_update)
  moreover have "ln_pc (wg_lanes ?v ! (k mod PROGPOW_LANES)) = Waits \<longrightarrow> wg_share ?v = slot_value (M k) k"
    using w(2,5) assms(2) by (auto simp: lane_read_def Let_def nth_list_update)
  ultimately show ?thesis using rounds_ok_read [OF w(1) assms(2,3)] w(2,4) by (simp add: lock_ok_def lane_read_def Let_def)
qed

lemma lock_ok_reachable:
  assumes "(wg_step True prog elems g_dag c_dag)\<^sup>*\<^sup>* (wg_start share mixes) w" "length mixes = PROGPOW_LANES"
  shows "\<exists>k. lock_ok (mixes_after prog elems g_dag c_dag mixes) k w"
  using assms(1)
proof (induction rule: rtranclp_induct)
  case base
  have "lock_ok (mixes_after prog elems g_dag c_dag mixes) 0 (wg_start share mixes)"
    using assms(2) rounds_ok_start by (simp add: lock_ok_def) (auto simp: wg_start_def mixes_after_simps PROGPOW_LANES_def)
  then show ?case ..
next
  case (step w v)
  then obtain k where k: "lock_ok (mixes_after prog elems g_dag c_dag mixes) k w" by blast
  then have len: "length (wg_lanes w) = PROGPOW_LANES" by (simp add: lock_ok_def)
  show ?case
    using step.hyps(2)
  proof (cases rule: wg_step.cases)
    case (ws_write i)
    then show ?thesis using lock_ok_write [OF k] by blast
  next
    case ws_barrier
    then show ?thesis using lock_ok_barrier [OF k] by blast
  next
    case (ws_read i)
    then show ?thesis using lock_ok_read [OF k, of i prog elems g_dag c_dag] mixes_after_lane len by metis
  qed
qed

text \<open>
  C7: The exchange of the DAG offset through local memory.  When the lanes of an OpenCL group run in lock step, every schedule gives each
  lane, after each of its loops, the registers that \<^verbatim>\<open>Kernel\<close> computes for it, so at the end those of \<open>mix_rounds\<close>;
  and no schedule gets stuck or goes on for ever before that.
\<close>

theorem lock_step_mixes:
  assumes "(wg_step True prog elems g_dag c_dag)\<^sup>*\<^sup>* (wg_start share mixes) w" "length mixes = PROGPOW_LANES"
  shows "(\<forall>i < PROGPOW_LANES. ln_mix (wg_lanes w ! i) = mixes_after prog elems g_dag c_dag mixes (ln_loop (wg_lanes w ! i)) ! i) \<and>
    (wg_done w \<longrightarrow> map ln_mix (wg_lanes w) = mix_rounds KERNEL_CL prog elems g_dag c_dag mixes) \<and>
    (\<not> wg_done w \<longrightarrow> (\<exists>v. wg_step True prog elems g_dag c_dag w v)) \<and>
    (\<forall>v. wg_step True prog elems g_dag c_dag w v \<longrightarrow> wg_rank v < wg_rank w)"
proof -
  obtain k where k: "lock_ok (mixes_after prog elems g_dag c_dag mixes) k w" using lock_ok_reachable [OF assms] by blast
  have "map ln_mix (wg_lanes w) = mix_rounds KERNEL_CL prog elems g_dag c_dag mixes" if d: "wg_done w"
  proof (rule nth_equalityI)
    have "length (mixes_after prog elems g_dag c_dag mixes n) = PROGPOW_LANES" for n
      by (cases n) (simp_all add: mixes_after_simps assms(2))
    then show "length (map ln_mix (wg_lanes w)) = length (mix_rounds KERNEL_CL prog elems g_dag c_dag mixes)"
      using k by (simp add: lock_ok_def mix_rounds_def mixes_after_def)
    fix i
    assume "i < length (map ln_mix (wg_lanes w))"
    then show "map ln_mix (wg_lanes w) ! i = mix_rounds KERNEL_CL prog elems g_dag c_dag mixes ! i"
      using k d by (simp add: lock_ok_def wg_done_def mix_rounds_def mixes_after_def)
  qed
  moreover have "wg_lanes w \<noteq> []" "rounds_ok k w" using k by (auto simp: lock_ok_def PROGPOW_LANES_def)
  ultimately show ?thesis
    using k wg_enabled [of k w True prog elems g_dag c_dag] wg_rank_decreases [of True prog elems g_dag c_dag w _ k]
    by (simp add: lock_ok_def)
qed

text \<open>The first lane of a group has written; the program is that of block 0.\<close>

theorem lock_step_mixes_witness:
  "ln_mix (wg_lanes (lane_write 0 (wg_start 0 (replicate PROGPOW_LANES [7]))) ! 3) = [7]"
proof -
  let ?m = "replicate PROGPOW_LANES [7] :: u32 list list" and ?step = "wg_step True (getProg 0) 1 [] []"
  have "?step (wg_start 0 ?m) (lane_write 0 (wg_start 0 ?m))"
    by (rule ws_write) (auto simp: wg_start_def PROGPOW_LANES_def PROGPOW_CNT_DAG_def)
  then show ?thesis
    using lock_step_mixes [of "getProg 0" 1 "[]" "[]" 0 ?m "lane_write 0 (wg_start 0 ?m)"]
    by (auto simp: lane_write_def Let_def wg_start_def PROGPOW_LANES_def mixes_after_simps)
qed

section \<open>Without lock step\<close>

text \<open>All lanes have written in the first loop; the first \<open>n\<close> of them.\<close>

definition wg_written :: "u64 \<Rightarrow> u32 list list \<Rightarrow> nat \<Rightarrow> work_group" where
  "wg_written share mixes n = \<lparr>wg_share = (if 0 < n then slot_value mixes 0 else share),
     wg_lanes = map (\<lambda>i. \<lparr>ln_loop = 0, ln_pc = (if i < n then Waits else Writes), ln_mix = mixes ! i\<rparr>) [0..<length mixes]\<rparr>"

lemma wg_written_reachable:
  "n \<le> length mixes \<Longrightarrow> (wg_step ls prog elems g_dag c_dag)\<^sup>*\<^sup>* (wg_start share mixes) (wg_written share mixes n)"
proof (induction n)
  case 0
  have "wg_start share mixes = wg_written share mixes 0"
    by (simp add: wg_start_def wg_written_def) (rule nth_equalityI; simp)
  then show ?case by simp
next
  case (Suc n)
  let ?w = "wg_written share mixes n"
  have l: "wg_lanes ?w ! n = \<lparr>ln_loop = 0, ln_pc = Writes, ln_mix = mixes ! n\<rparr>" using Suc.prems by (simp add: wg_written_def)
  have "wg_lanes (lane_write n ?w) = wg_lanes (wg_written share mixes (Suc n))"
    by (rule nth_equalityI) (use Suc.prems in \<open>auto simp: lane_write_def Let_def wg_written_def nth_list_update\<close>)
  moreover have "wg_share (lane_write n ?w) = wg_share (wg_written share mixes (Suc n))"
    by (simp add: lane_write_def Let_def l) (auto simp: wg_written_def slot_value_def)
  ultimately have "lane_write n ?w = wg_written share mixes (Suc n)" by simp
  moreover have "wg_step ls prog elems g_dag c_dag ?w (lane_write n ?w)"
    using Suc.prems by (intro ws_write) (auto simp: wg_written_def PROGPOW_CNT_DAG_def)
  ultimately show ?case using Suc by (simp add: rtranclp.rtrancl_into_rtrancl)
qed

text \<open>
  The barrier alone does not order the read of one loop and the write of the next.  Whenever the first register of lane 1
  after its first loop differs from that of lane 0 before it, lane 1 can overwrite the slot while lane 0 has passed the barrier but
  has not read yet, and lane 0 then takes its DAG offset from the wrong lane.
\<close>

lemma offset_race:
  assumes "length mixes = PROGPOW_LANES"
    "progPowLane KERNEL_CL prog elems g_dag c_dag 0 (load_offset KERNEL_CL 0 mixes) 1 (mixes ! 1) ! 0 \<noteq> mixes ! 0 ! 0"
  shows "\<exists>w. (wg_step False prog elems g_dag c_dag)\<^sup>*\<^sup>* (wg_start share mixes) w \<and>
    ln_pc (wg_lanes w ! 0) = Reads \<and> ln_loop (wg_lanes w ! 0) = 0 \<and> ucast (wg_share w) \<noteq> load_offset KERNEL_CL 0 mixes"
proof -
  let ?step = "wg_step False prog elems g_dag c_dag"
  let ?w1 = "wg_written share mixes PROGPOW_LANES"
  let ?w2 = "barrier_pass ?w1"
  let ?w3 = "lane_read prog elems g_dag c_dag 1 ?w2"
  let ?w4 = "lane_write 1 ?w3"
  have one: "Suc 0 < length mixes" "0 < length mixes" using assms(1) by (simp_all add: PROGPOW_LANES_def)
  have "?step\<^sup>*\<^sup>* (wg_start share mixes) ?w1" by (rule wg_written_reachable) (simp add: assms(1))
  moreover have "?step ?w1 ?w2" by (rule ws_barrier) (auto simp: wg_written_def assms(1))
  moreover have "?step ?w2 ?w3" using one by (intro ws_read) (simp_all add: barrier_pass_def wg_written_def)
  moreover have "?step ?w3 ?w4"
    using one by (intro ws_write) (simp_all add: lane_read_def Let_def barrier_pass_def wg_written_def PROGPOW_CNT_DAG_def)
  ultimately have "?step\<^sup>*\<^sup>* (wg_start share mixes) ?w4" by (meson rtranclp.rtrancl_into_rtrancl)
  moreover have off: "load_offset KERNEL_CL 0 mixes = mixes ! 0 ! 0"
    by (simp add: load_offset_kern [of KERNEL_CL] load_offset_def shfl_offset_def)
  have u: "ucast (ucast x :: u64) = x" for x :: u32 by (rule bit_word_eqI) (auto simp: bit_ucast_iff)
  have "ucast (wg_share ?w4) = progPowLane KERNEL_CL prog elems g_dag c_dag 0 (load_offset KERNEL_CL 0 mixes) 1 (mixes ! 1) ! 0"
    using one by (simp add: lane_write_def lane_read_def Let_def barrier_pass_def wg_written_def slot_value_def u off PROGPOW_LANES_def)
  moreover have "ln_pc (wg_lanes ?w4 ! 0) = Reads" "ln_loop (wg_lanes ?w4 ! 0) = 0"
    using one by (simp_all add: lane_write_def lane_read_def Let_def barrier_pass_def wg_written_def)
  ultimately show ?thesis using assms(2) off by metis
qed

text \<open>Sixteen lanes whose first registers are their numbers, and a loop that only loads.\<close>

lemma offset_race_example:
  "\<exists>w. (wg_step False ([], []) 1 (replicate 16 [0, 0, 0, 0]) [])\<^sup>*\<^sup>* (wg_start 0 (map (\<lambda>i. [of_nat i]) [0..<PROGPOW_LANES])) w \<and>
     ucast (wg_share w) \<noteq> load_offset KERNEL_CL 0 (map (\<lambda>i. [of_nat i]) [0..<PROGPOW_LANES])"
  using offset_race [of "map (\<lambda>i. [of_nat i]) [0..<PROGPOW_LANES]" "([], [])" 1 "replicate 16 [0, 0, 0, 0]" "[]" 0]
  by (auto simp: progPowLane_def PROGPOW_LANES_def)

section \<open>The layout of the local memory\<close>

text \<open>
  Each group of a work group has one structure \<open>shuffle_t\<close>, sixteen words followed by eight double words, for its seed and its
  digests; the generated loop gets the double words of the first structure and uses one of them per group.
\<close>

definition shuffle_size :: nat where "shuffle_size = 4 * PROGPOW_LANES + 8 * (PROGPOW_LANES div 2)"

definition digest_address :: "nat \<Rightarrow> nat \<Rightarrow> nat" where
  "digest_address group_id lane_id = shuffle_size * group_id + 4 * lane_id"

definition seed_address :: "nat \<Rightarrow> nat" where
  "seed_address group_id = shuffle_size * group_id + 4 * PROGPOW_LANES"

definition loop_address :: "nat \<Rightarrow> nat" where
  "loop_address group_id = seed_address 0 + 8 * group_id"

lemmas layout = shuffle_size_def digest_address_def seed_address_def loop_address_def PROGPOW_LANES_def

text \<open>
  The slots of the loop differ between groups and stay inside the local array, beyond the eight declared double words when there
  are more groups.  The slot of the first group is the place of its seed, which lane 0 overwrites in the first loop with no
  barrier after the other lanes have read it; with seventeen groups or more it is also the seed of another group.
\<close>

lemma loop_slots:
  "loop_address g = loop_address k \<longleftrightarrow> g = k" "g < groups \<Longrightarrow> loop_address g + 8 \<le> shuffle_size * groups"
  "loop_address g = seed_address k \<longleftrightarrow> g = 16 * k"
  by (auto simp: layout)

end
