(* ===== verification/Keccak.thy ===== *)
theory Keccak
  imports Prelude
begin

unbundle bit_operations_syntax

text \<open>
  The hash functions of \<^verbatim>\<open>libethash/sha3.c\<close> and \<^verbatim>\<open>libdevcore/SHA3.cpp\<close> (two copies of the same
  code; the second also instantiates SHAKE and further digest sizes).  The permutation works on
  the 200 state bytes read as 25 little-endian words; \<open>hash\<close> is the absorbing and squeezing loop
  with its argument checks.  It is shown to be the sponge over the padded message.
\<close>

section \<open>The permutation\<close>

definition rho :: "nat list" where
  "rho = [1, 3, 6, 10, 15, 21, 28, 36, 45, 55, 2, 14, 27, 41, 56, 8, 25, 43, 62, 18, 39, 61, 20, 44]"

definition keccak_pi :: "nat list" where
  "keccak_pi = [10, 7, 11, 17, 18, 3, 5, 16, 8, 21, 24, 4, 15, 23, 19, 13, 12, 2, 20, 14, 22, 9, 6, 1]"

definition RC :: "u64 list" where
  "RC = [1, 0x8082, 0x800000000000808a, 0x8000000080008000,
    0x808b, 0x80000001, 0x8000000080008081, 0x8000000000008009,
    0x8a, 0x88, 0x80008009, 0x8000000a,
    0x8000808b, 0x800000000000008b, 0x8000000000008089, 0x8000000000008003,
    0x8000000000008002, 0x8000000000000080, 0x800a, 0x800000008000000a,
    0x8000000080008081, 0x8000000000008080, 0x80000001, 0x8000000080008008]"

text \<open>\<^verbatim>\<open>rol(x, s)\<close> on a 64-bit word for the shift amounts 1 to 62 that occur.\<close>

definition rol :: "u64 \<Rightarrow> nat \<Rightarrow> u64" where
  "rol x s = push_bit s x OR drop_bit (64 - s) x"

definition theta :: "u64 list \<Rightarrow> u64 list" where
  "theta a =
     (let b = map (\<lambda>x. fold (\<lambda>y acc. acc XOR a ! (x + y)) [0, 5, 10, 15, 20] 0) [0..<5] in
      fold (\<lambda>x a. fold (\<lambda>y a. a[y + x := a ! (y + x) XOR (b ! ((x + 4) mod 5) XOR rol (b ! ((x + 1) mod 5)) 1)])
              [0, 5, 10, 15, 20] a) [0..<5] a)"

fun rho_pi_steps :: "(nat \<times> nat) list \<Rightarrow> u64 \<Rightarrow> u64 list \<Rightarrow> u64 list" where
  "rho_pi_steps [] t a = a"
| "rho_pi_steps ((p, r) # ps) t a = rho_pi_steps ps (a ! p) (a[p := rol t r])"

definition chi :: "u64 list \<Rightarrow> u64 list" where
  "chi a =
     fold (\<lambda>y a. let b = map (\<lambda>x. a ! (y + x)) [0..<5] in
             fold (\<lambda>x a. a[y + x := b ! x XOR (NOT (b ! ((x + 1) mod 5)) AND b ! ((x + 2) mod 5))]) [0..<5] a)
       [0, 5, 10, 15, 20] a"

definition keccak_round :: "nat \<Rightarrow> u64 list \<Rightarrow> u64 list" where
  "keccak_round i a =
     (let a1 = theta a;
          a2 = rho_pi_steps (zip keccak_pi rho) (a1 ! 1) a1;
          a3 = chi a2
      in a3[0 := a3 ! 0 XOR RC ! i])"

text \<open>The cast of the state bytes to words and back.\<close>

definition state_words :: "bytes \<Rightarrow> u64 list" where
  "state_words st = map (\<lambda>i. word_of_le (take 8 (drop (8 * i) st))) [0..<25]"

definition state_bytes :: "u64 list \<Rightarrow> bytes" where
  "state_bytes ws = concat (map word_to_le ws)"

definition keccakf :: "bytes \<Rightarrow> bytes" where
  "keccakf st = state_bytes (fold keccak_round [0..<24] (state_words st))"

section \<open>The sponge\<close>

definition Plen :: nat where "Plen = 200"

definition xorin :: "bytes \<Rightarrow> bytes \<Rightarrow> nat \<Rightarrow> bytes" where
  "xorin dst src len = fold (\<lambda>i d. d[i := d ! i XOR src ! i]) [0..<len] dst"

text \<open>\<^verbatim>\<open>foldP(in, inlen, xorin)\<close>: consumes whole blocks and leaves the rest of the input.  Every
  instance has a positive rate; with rate 0 the source loop would not end.\<close>

function absorb :: "nat \<Rightarrow> bytes \<Rightarrow> bytes \<Rightarrow> bytes \<times> bytes" where
  "absorb rate a inp =
     (if 0 < rate \<and> rate \<le> length inp then absorb rate (keccakf (xorin a inp rate)) (drop rate inp)
      else (a, inp))"
  by pat_completeness auto
termination by (relation "measure (\<lambda>(r, a, i). length i)") auto

declare absorb.simps [simp del]

text \<open>\<^verbatim>\<open>foldP(out, outlen, setout)\<close> and the final \<^verbatim>\<open>setout\<close>.\<close>

function squeeze :: "nat \<Rightarrow> bytes \<Rightarrow> nat \<Rightarrow> bytes" where
  "squeeze rate a outlen =
     (if 0 < rate \<and> rate \<le> outlen then take rate a @ squeeze rate (keccakf a) (outlen - rate)
      else take outlen a)"
  by pat_completeness auto
termination by (relation "measure (\<lambda>(r, a, l). l)") auto

declare squeeze.simps [simp del]

text \<open>The result is \<open>None\<close> for the return value \<open>-1\<close>; pointers that may be \<open>NULL\<close> are options.\<close>

definition keccak_hash :: "bytes option \<Rightarrow> nat \<Rightarrow> bytes option \<Rightarrow> nat \<Rightarrow> nat \<Rightarrow> byte \<Rightarrow> bytes option" where
  "keccak_hash out outlen inp inlen rate delim =
     (if out = None \<or> (inp = None \<and> inlen \<noteq> 0) \<or> Plen \<le> rate then None
      else
        let data = (case inp of None \<Rightarrow> [] | Some bs \<Rightarrow> take inlen bs);
            (a1, rest) = absorb rate (replicate Plen 0) data;
            a2 = a1[length rest := a1 ! length rest XOR delim];
            a3 = a2[rate - 1 := a2 ! (rate - 1) XOR 0x80];
            a4 = keccakf (xorin a3 rest (length rest))
        in Some (squeeze rate a4 outlen))"

definition defsha3 :: "nat \<Rightarrow> bytes option \<Rightarrow> nat \<Rightarrow> bytes option \<Rightarrow> nat \<Rightarrow> bytes option" where
  "defsha3 bits out outlen inp inlen =
     (if bits div 8 < outlen then None
      else keccak_hash out outlen inp inlen (200 - bits div 4) 0x01)"

definition defshake :: "nat \<Rightarrow> bytes option \<Rightarrow> nat \<Rightarrow> bytes option \<Rightarrow> nat \<Rightarrow> bytes option" where
  "defshake bits out outlen inp inlen = keccak_hash out outlen inp inlen (200 - bits div 4) 0x1f"

definition sha3_256 where "sha3_256 = defsha3 256"
definition sha3_512 where "sha3_512 = defsha3 512"

text \<open>\<^verbatim>\<open>SHA3_256(ret, data, size)\<close> and \<^verbatim>\<open>SHA3_512\<close> ignore the return value and leave the buffer as it
  was when the call fails.\<close>

definition SHA3_256 :: "bytes \<Rightarrow> bytes \<Rightarrow> bytes" where
  "SHA3_256 ret data = (case sha3_256 (Some ret) 32 (Some data) (length data) of None \<Rightarrow> ret | Some h \<Rightarrow> h)"

definition SHA3_512 :: "bytes \<Rightarrow> bytes \<Rightarrow> bytes" where
  "SHA3_512 ret data = (case sha3_512 (Some ret) 64 (Some data) (length data) of None \<Rightarrow> ret | Some h \<Rightarrow> h)"

text \<open>\<^verbatim>\<open>dev::sha3(bytesConstRef, bytesRef)\<close> and the convenience form that returns an \<^verbatim>\<open>h256\<close>.\<close>

definition dev_sha3_ref :: "bytes \<Rightarrow> bytes \<Rightarrow> bool \<times> bytes" where
  "dev_sha3_ref inp out =
     (if length out \<noteq> 32 then (False, out)
      else (True, case sha3_256 (Some out) 32 (if inp = [] then None else Some inp) (length inp) of
                    None \<Rightarrow> out | Some h \<Rightarrow> h))"

definition dev_sha3 :: "bytes \<Rightarrow> bytes" where
  "dev_sha3 inp = snd (dev_sha3_ref inp (replicate 32 0))"

text \<open>The copy of the permutation in \<^verbatim>\<open>libdevcore/SHA3.cpp\<close> has tables of its own, and more instances.\<close>

definition dev_rho :: "nat list" where
  "dev_rho = [1, 3, 6, 10, 15, 21, 28, 36, 45, 55, 2, 14, 27, 41, 56, 8, 25, 43, 62, 18, 39, 61, 20, 44]"

definition dev_pi :: "nat list" where
  "dev_pi = [10, 7, 11, 17, 18, 3, 5, 16, 8, 21, 24, 4, 15, 23, 19, 13, 12, 2, 20, 14, 22, 9, 6, 1]"

definition dev_RC :: "u64 list" where
  "dev_RC = [1, 0x8082, 0x800000000000808a, 0x8000000080008000,
    0x808b, 0x80000001, 0x8000000080008081, 0x8000000000008009,
    0x8a, 0x88, 0x80008009, 0x8000000a,
    0x8000808b, 0x800000000000008b, 0x8000000000008089, 0x8000000000008003,
    0x8000000000008002, 0x8000000000000080, 0x800a, 0x800000008000000a,
    0x8000000080008081, 0x8000000000008080, 0x80000001, 0x8000000080008008]"

definition dev_round :: "nat \<Rightarrow> u64 list \<Rightarrow> u64 list" where
  "dev_round i a =
     (let a1 = theta a;
          a2 = rho_pi_steps (zip dev_pi dev_rho) (a1 ! 1) a1;
          a3 = chi a2
      in a3[0 := a3 ! 0 XOR dev_RC ! i])"

definition dev_keccakf :: "bytes \<Rightarrow> bytes" where
  "dev_keccakf st = state_bytes (fold dev_round [0..<24] (state_words st))"

definition sha3_224 where "sha3_224 = defsha3 224"
definition sha3_384 where "sha3_384 = defsha3 384"
definition shake128 where "shake128 = defshake 128"
definition shake256 where "shake256 = defshake 256"


section \<open>Shapes\<close>

lemma length_theta [shape_simps]: "length (theta a) = length a"
  unfolding theta_def Let_def by (intro length_fold_update) simp

lemma length_rho_pi_steps [shape_simps]: "length (rho_pi_steps ps t a) = length a"
  by (induction ps t a rule: rho_pi_steps.induct) simp_all

lemma length_chi [shape_simps]: "length (chi a) = length a"
  unfolding chi_def Let_def by (intro length_fold_update) simp

lemma length_keccak_round [shape_simps]: "length (keccak_round i a) = length a"
  by (simp add: keccak_round_def Let_def shape_simps)

lemma length_keccak_rounds: "length (fold keccak_round is a) = length a"
  by (rule length_fold_update) (rule length_keccak_round)

lemma length_keccakf [simp]: "length (keccakf st) = 200"
proof -
  have "length (state_bytes ws) = 8 * length ws" for ws
    by (induction ws) (simp_all add: state_bytes_def)
  then show ?thesis by (simp add: keccakf_def length_keccak_rounds state_words_def)
qed

lemma length_xorin [simp]: "length (xorin a src len) = length a"
  unfolding xorin_def by (rule length_fold_update) simp

lemma nth_xorin:
  assumes "len \<le> length a" "i < length a"
  shows "xorin a src len ! i = (if i < len then a ! i XOR src ! i else a ! i)"
  using assms
proof (induction len)
  case (Suc len)
  have "xorin a src (Suc len) = (xorin a src len)[len := xorin a src len ! len XOR src ! len]"
    by (simp add: xorin_def)
  with Suc show ?case by (auto simp: nth_list_update less_Suc_eq)
qed (simp add: xorin_def)

section \<open>The sponge construction\<close>

text \<open>Padding to whole blocks: the domain bits, zeros, and the final bit of the block.\<close>

definition keccak_pad :: "nat \<Rightarrow> byte \<Rightarrow> bytes \<Rightarrow> bytes" where
  "keccak_pad rate delim msg =
     (let q = rate - length msg mod rate in
      msg @ (if q = 1 then [delim XOR 0x80] else [delim] @ replicate (q - 2) 0 @ [0x80]))"

definition sponge_step :: "nat \<Rightarrow> bytes \<Rightarrow> bytes \<Rightarrow> bytes" where
  "sponge_step rate block st = keccakf (map2 (XOR) (take rate st) block @ drop rate st)"

lemma length_sponge_step [simp]: "length (sponge_step rate block st) = 200"
  by (simp add: sponge_step_def)

function sponge_blocks :: "nat \<Rightarrow> bytes \<Rightarrow> bytes list" where
  "sponge_blocks rate xs =
     (if 0 < rate \<and> rate \<le> length xs then take rate xs # sponge_blocks rate (drop rate xs) else [])"
  by pat_completeness auto
termination by (relation "measure (\<lambda>(r, i). length i)") auto

declare sponge_blocks.simps [simp del]

definition sponge :: "nat \<Rightarrow> byte \<Rightarrow> bytes \<Rightarrow> bytes" where
  "sponge rate delim msg = fold (sponge_step rate) (sponge_blocks rate (keccak_pad rate delim msg)) (replicate 200 0)"

lemma keccak_pad_drop:
  assumes "0 < rate" "rate \<le> length msg"
  shows "take rate (keccak_pad rate delim msg) = take rate msg"
    and "drop rate (keccak_pad rate delim msg) = keccak_pad rate delim (drop rate msg)"
    and "rate \<le> length (keccak_pad rate delim msg)"
  using assms by (simp_all add: keccak_pad_def Let_def le_mod_geq)

lemma length_keccak_pad_last:
  assumes "length msg < rate"
  shows "length (keccak_pad rate delim msg) = rate"
  using assms by (auto simp: keccak_pad_def Let_def)

lemma nth_keccak_pad_last:
  assumes "length msg < rate" "i < rate"
  shows "keccak_pad rate delim msg ! i =
    (if i < length msg then msg ! i
     else (if i = length msg then delim else 0) XOR (if i = rate - 1 then 0x80 else 0))"
proof (cases "rate - length msg = 1")
  case True
  then show ?thesis using assms by (auto simp: keccak_pad_def nth_append)
next
  case False
  define k where "k = rate - length msg - 2"
  have r: "rate = length msg + k + 2" using assms False by (simp add: k_def)
  show ?thesis
    using assms False by (auto simp: keccak_pad_def Let_def nth_append nth_Cons r split: nat.splits)
qed

lemma xorin_block:
  assumes "length a = 200" "0 < rate" "rate < 200" "rate \<le> length inp"
  shows "keccakf (xorin a inp rate) = sponge_step rate (take rate inp) a"
proof -
  have "xorin a inp rate = map2 (XOR) (take rate a) (take rate inp) @ drop rate a"
    using assms by (intro nth_equalityI) (auto simp: nth_xorin nth_append)
  then show ?thesis by (simp add: sponge_step_def)
qed

lemma final_block:
  fixes delim :: byte
  assumes "length a = 200" "0 < rate" "rate < 200" "length rest < rate"
  defines "a2 \<equiv> a[length rest := a ! length rest XOR delim]"
  defines "a3 \<equiv> a2[rate - 1 := a2 ! (rate - 1) XOR 0x80]"
  shows "keccakf (xorin a3 rest (length rest)) = sponge_step rate (keccak_pad rate delim rest) a"
proof -
  have len: "length a3 = 200" using assms(1) by (simp add: a3_def a2_def)
  have "xorin a3 rest (length rest) = map2 (XOR) (take rate a) (keccak_pad rate delim rest) @ drop rate a"
  proof (rule nth_equalityI)
    fix i assume "i < length (xorin a3 rest (length rest))"
    then have i: "i < 200" by (simp add: len)
    have "xorin a3 rest (length rest) ! i =
        (if i < length rest then a ! i XOR rest ! i
         else if i < rate then a ! i XOR keccak_pad rate delim rest ! i else a ! i)"
      using assms(1-4) i by (auto simp: nth_xorin len a3_def a2_def nth_list_update nth_keccak_pad_last xor.assoc)
    then show "xorin a3 rest (length rest) ! i =
        (map2 (XOR) (take rate a) (keccak_pad rate delim rest) @ drop rate a) ! i"
      using assms(1-4) i by (auto simp: nth_append length_keccak_pad_last nth_keccak_pad_last)
  qed (use assms(1-4) in \<open>simp add: len length_keccak_pad_last\<close>)
  then show ?thesis by (simp add: sponge_step_def)
qed

lemma absorb_sponge:
  assumes "length a = 200" "0 < rate" "rate < 200"
  shows "let (a1, rest) = absorb rate a inp;
             a2 = a1[length rest := a1 ! length rest XOR delim];
             a3 = a2[rate - 1 := a2 ! (rate - 1) XOR 0x80]
         in keccakf (xorin a3 rest (length rest)) =
            fold (sponge_step rate) (sponge_blocks rate (keccak_pad rate delim inp)) a"
  using assms
proof (induction rate a inp rule: absorb.induct)
  case (1 rate a inp)
  show ?case
  proof (cases "rate \<le> length inp")
    case True
    have "absorb rate a inp = absorb rate (keccakf (xorin a inp rate)) (drop rate inp)"
      using True 1 by (subst absorb.simps) simp
    moreover have "sponge_blocks rate (keccak_pad rate delim inp) =
        take rate inp # sponge_blocks rate (keccak_pad rate delim (drop rate inp))"
      using True 1 by (subst sponge_blocks.simps) (simp add: keccak_pad_drop)
    ultimately show ?thesis
      using True 1 by (simp add: xorin_block)
  next
    case False
    have "sponge_blocks rate (keccak_pad rate delim inp) = [keccak_pad rate delim inp]"
      using False 1 by (subst sponge_blocks.simps) (simp add: length_keccak_pad_last sponge_blocks.simps)
    moreover have "absorb rate a inp = (a, inp)"
      using False by (subst absorb.simps) simp
    ultimately show ?thesis
      using final_block [of a rate inp delim] False 1 by (simp add: Let_def)
  qed
qed


lemma keccak_hash_sponge:
  assumes "0 < rate" "rate < 200"
  shows "keccak_hash (Some out) outlen (Some inp) (length inp) rate delim =
    Some (squeeze rate (sponge rate delim inp) outlen)"
  using absorb_sponge [of "replicate 200 0" rate inp delim] assms
  by (simp add: keccak_hash_def Plen_def sponge_def split_def Let_def)

lemma length_squeeze:
  assumes "length a = 200" "0 < rate" "rate < 200"
  shows "length (squeeze rate a n) = n"
  using assms
proof (induction rate a n rule: squeeze.induct)
  case (1 rate a n)
  then show ?case by (subst squeeze.simps) auto
qed

lemma squeeze_prefix:
  assumes "length a = 200" "0 < rate" "rate < 200" "m \<le> n"
  shows "squeeze rate a m = take m (squeeze rate a n)"
  using assms
proof (induction rate a n arbitrary: m rule: squeeze.induct)
  case (1 rate a n)
  show ?case
  proof (cases "rate \<le> n")
    case False
    have short: "squeeze rate a k = take k a" if "k \<le> n" for k
      using False that by (subst squeeze.simps) simp
    show ?thesis using "1.prems" by (simp add: short)
  next
    case True
    with "1.prems" have n: "squeeze rate a n = take rate a @ squeeze rate (keccakf a) (n - rate)"
      by (subst squeeze.simps) simp
    show ?thesis
    proof (cases "rate \<le> m")
      case True
      have "squeeze rate a m = take rate a @ squeeze rate (keccakf a) (m - rate)"
        using True "1.prems" by (subst squeeze.simps) simp
      moreover have "squeeze rate (keccakf a) (m - rate) = take (m - rate) (squeeze rate (keccakf a) (n - rate))"
        using True \<open>rate \<le> n\<close> "1.prems" by (intro "1.IH") auto
      ultimately show ?thesis using True "1.prems" by (simp add: n min_def)
    next
      case False
      then show ?thesis using "1.prems" by (subst squeeze.simps) (simp add: n)
    qed
  qed
qed

lemma length_sponge [simp]: "0 < rate \<Longrightarrow> length (sponge rate delim msg) = 200"
proof -
  assume "0 < rate"
  have "length (fold (sponge_step rate) bs st) = 200" if "length st = 200" for bs st
    using that by (induction bs arbitrary: st) simp_all
  then show ?thesis by (simp add: sponge_def)
qed

section \<open>Digest interface\<close>

text \<open>What the clients of the hash rely on: a total function of the input bytes with a digest of
  fixed length, whatever the destination buffer held before.\<close>

locale digest =
  fixes hash_into :: "bytes \<Rightarrow> bytes \<Rightarrow> bytes" and len :: nat
  assumes digest_length: "length (hash_into ret data) = len"
    and digest_ignores_buffer: "hash_into ret data = hash_into ret' data"
begin

definition iter :: "nat \<Rightarrow> bytes \<Rightarrow> bytes" where
  "iter n seed = ((\<lambda>h. hash_into h h) ^^ n) seed"

lemma length_iter: "length seed = len \<Longrightarrow> length (iter n seed) = len"
  by (induction n) (simp_all add: iter_def digest_length)

lemma iter_add: "iter (m + n) seed = iter m (iter n seed)"
  by (simp add: iter_def funpow_add)

end

lemma SHA3_256_sponge: "SHA3_256 ret data = squeeze 136 (sponge 136 1 data) 32"
  by (simp add: SHA3_256_def sha3_256_def defsha3_def keccak_hash_sponge)

lemma SHA3_512_sponge: "SHA3_512 ret data = squeeze 72 (sponge 72 1 data) 64"
  by (simp add: SHA3_512_def sha3_512_def defsha3_def keccak_hash_sponge)

interpretation keccak256: digest SHA3_256 32
  by unfold_locales (simp_all add: SHA3_256_sponge length_squeeze)

interpretation keccak512: digest SHA3_512 64
  by unfold_locales (simp_all add: SHA3_512_sponge length_squeeze)

lemma dev_sha3_eq: "dev_sha3 inp = SHA3_256 ret inp"
proof (cases "inp = []")
  case True
  have "keccak_hash out outlen None 0 rate delim = keccak_hash out outlen (Some []) 0 rate delim"
    for out outlen rate delim
    by (simp add: keccak_hash_def)
  with True show ?thesis
    unfolding dev_sha3_def dev_sha3_ref_def SHA3_256_sponge
    by (simp add: sha3_256_def defsha3_def keccak_hash_sponge [where inp = "[]", simplified])
next
  case False
  then show ?thesis
    unfolding dev_sha3_def dev_sha3_ref_def SHA3_256_sponge
    by (simp add: sha3_256_def defsha3_def keccak_hash_sponge)
qed

lemma dev_keccakf_eq: "dev_keccakf = keccakf"
proof -
  have "dev_rho = rho" "dev_pi = keccak_pi" "dev_RC = RC"
    by (simp_all add: dev_rho_def rho_def dev_pi_def keccak_pi_def dev_RC_def RC_def)
  then have "dev_round = keccak_round" by (intro ext) (simp add: dev_round_def keccak_round_def)
  then show ?thesis by (intro ext) (simp add: dev_keccakf_def keccakf_def)
qed

lemma dev_instances_sponge:
  "n \<le> 28 \<Longrightarrow> sha3_224 (Some out) n (Some inp) (length inp) = Some (squeeze 144 (sponge 144 1 inp) n)"
  "n \<le> 48 \<Longrightarrow> sha3_384 (Some out) n (Some inp) (length inp) = Some (squeeze 104 (sponge 104 1 inp) n)"
  "shake128 (Some out) n (Some inp) (length inp) = Some (squeeze 168 (sponge 168 0x1f inp) n)"
  "shake256 (Some out) n (Some inp) (length inp) = Some (squeeze 136 (sponge 136 0x1f inp) n)"
  by (simp_all add: sha3_224_def sha3_384_def shake128_def shake256_def defsha3_def defshake_def keccak_hash_sponge)

section \<open>Properties\<close>

text \<open>
  C12: \<open>hash\<close> is the sponge: for every instance rate the in-place absorbing loop with its separate
  padding steps equals absorbing the blocks of the padded message, and what it writes are the
  first \<open>outlen\<close> bytes of the squeezed stream, so a shorter request gives a prefix of a longer one.
\<close>

theorem hash_is_sponge:
  assumes "0 < rate" "rate < 200" "n \<le> outlen"
  shows "keccak_hash (Some out) outlen (Some inp) (length inp) rate delim =
      Some (squeeze rate (sponge rate delim inp) outlen) \<and>
    length (squeeze rate (sponge rate delim inp) outlen) = outlen \<and>
    keccak_hash (Some out) n (Some inp) (length inp) rate delim =
      Some (take n (squeeze rate (sponge rate delim inp) outlen))"
  using assms squeeze_prefix [of "sponge rate delim inp" rate n outlen]
  by (simp add: keccak_hash_sponge length_squeeze)

theorem hash_is_sponge_witness:
  "keccak_hash (Some []) 32 (Some [1, 2]) 2 136 1 = Some (squeeze 136 (sponge 136 1 [1, 2]) 32)"
  using hash_is_sponge [of 136 0 32 "[]" "[1, 2]" 1] by (simp add: numeral_2_eq_2)

text \<open>
  The argument checks: \<open>sha3_<bits>\<close> fails exactly when more than \<open>bits/8\<close> bytes are asked for
  or a needed pointer is null, and otherwise delivers exactly the bytes asked for.
\<close>

theorem sha3_failure:
  assumes "bits \<in> {224, 256, 384, 512}"
  shows "defsha3 bits out outlen inp inlen = None \<longleftrightarrow>
      bits div 8 < outlen \<or> out = None \<or> (inp = None \<and> inlen \<noteq> 0)"
  using assms by (auto simp: defsha3_def keccak_hash_def Plen_def Let_def split_def)

theorem sha3_failure_witness:
  "defsha3 256 (Some []) 33 (Some []) 0 = None"
  using sha3_failure [of 256 "Some []" 33 "Some []" 0] by simp

end
