(* ===== verification/Ethash.thy ===== *)
theory Ethash
  imports Keccak DataSizes
begin

unbundle bit_operations_syntax

text \<open>
  The light client of \<^verbatim>\<open>libethash/internal.c\<close> with its headers \<^verbatim>\<open>ethash.h\<close>, \<^verbatim>\<open>internal.h\<close> and
  \<^verbatim>\<open>fnv.h\<close>: sizes of an epoch, seed hash, cache generation, DAG items and the hash over them, on a
  little-endian host (the \<^verbatim>\<open>fix_endian\<close> macros are identities there).  A node is its sixteen 32-bit
  words; the two nodes of the mix are kept as one array of 32 words, as the code indexes them.
\<close>

section \<open>Parameters\<close>

definition ETHASH_EPOCH_LENGTH :: nat where "ETHASH_EPOCH_LENGTH = 8000"
definition ETHASH_MIX_BYTES :: nat where "ETHASH_MIX_BYTES = 128"
definition ETHASH_DATASET_PARENTS :: nat where "ETHASH_DATASET_PARENTS = 256"
definition ETHASH_CACHE_ROUNDS :: nat where "ETHASH_CACHE_ROUNDS = 3"
definition ETHASH_ACCESSES :: nat where "ETHASH_ACCESSES = 64"
definition NODE_WORDS :: nat where "NODE_WORDS = 64 div 4"
definition MIX_WORDS :: nat where "MIX_WORDS = ETHASH_MIX_BYTES div 4"
definition MIX_NODES :: nat where "MIX_NODES = MIX_WORDS div NODE_WORDS"
definition FNV_PRIME :: u32 where "FNV_PRIME = 0x01000193"

lemmas ethash_params = ETHASH_EPOCH_LENGTH_def ETHASH_MIX_BYTES_def ETHASH_DATASET_PARENTS_def
  ETHASH_CACHE_ROUNDS_def ETHASH_ACCESSES_def NODE_WORDS_def MIX_WORDS_def MIX_NODES_def

definition fnv_hash :: "u32 \<Rightarrow> u32 \<Rightarrow> u32" where
  "fnv_hash x y = x * FNV_PRIME XOR y"

section \<open>Errors\<close>

text \<open>A failed \<^verbatim>\<open>assert\<close>, a null pointer that is dereferenced, a loop that never ends, and a write outside a buffer.\<close>

datatype ethash_error = AssertFailed | NullDeref | NeverReturns | BufferOverrun

section \<open>Sizes and seed of an epoch\<close>

definition ethash_get_datasize :: "nat \<Rightarrow> ethash_error + nat" where
  "ethash_get_datasize block_number =
     (if block_number div ETHASH_EPOCH_LENGTH < 2048 then Inr (dag_sizes ! (block_number div ETHASH_EPOCH_LENGTH))
      else Inl AssertFailed)"

definition ethash_get_cachesize :: "nat \<Rightarrow> ethash_error + nat" where
  "ethash_get_cachesize block_number =
     (if block_number div ETHASH_EPOCH_LENGTH < 2048 then Inr (cache_sizes ! (block_number div ETHASH_EPOCH_LENGTH))
      else Inl AssertFailed)"

text \<open>The loop counter of \<open>ethash_get_seedhash\<close> has 32 bits and is compared with a 64-bit bound, so
  the loop ends only for bounds below \<open>2^32\<close>.\<close>

definition ethash_get_seedhash :: "nat \<Rightarrow> ethash_error + bytes" where
  "ethash_get_seedhash block_number =
     (let epochs = block_number div ETHASH_EPOCH_LENGTH in
      if epochs < 2 ^ 32 then Inr (((\<lambda>ret. SHA3_256 ret ret) ^^ epochs) (replicate 32 0))
      else Inl NeverReturns)"

section \<open>Nodes\<close>

type_synonym node = "u32 list"

definition node_bytes :: "node \<Rightarrow> bytes" where
  "node_bytes ws = concat (map word_to_le ws)"

definition node_of_bytes :: "bytes \<Rightarrow> node" where
  "node_of_bytes bs = map (\<lambda>i. word_of_le (take 4 (drop (4 * i) bs))) [0..<length bs div 4]"

definition sha3_node :: "bytes \<Rightarrow> node" where
  "sha3_node data = node_of_bytes (SHA3_512 (replicate 64 0) data)"

section \<open>Light cache\<close>

text \<open>First pass: each node is the hash of the one before it.\<close>

fun cache_chain :: "nat \<Rightarrow> node \<Rightarrow> node list" where
  "cache_chain 0 x = []"
| "cache_chain (Suc n) x = x # cache_chain n (sha3_node (node_bytes x))"

definition cache_round_step :: "nat \<Rightarrow> nat \<Rightarrow> node list \<Rightarrow> node list" where
  "cache_round_step num_nodes i nodes =
     (let idx = unat (nodes ! i ! 0) mod num_nodes;
          data = nodes ! ((num_nodes - 1 + i) mod 2 ^ 32 mod num_nodes);
          data' = map (\<lambda>w. data ! w XOR nodes ! idx ! w) [0..<NODE_WORDS]
      in nodes[i := sha3_node (node_bytes data')])"

text \<open>\<open>None\<close> is the result false.  With no nodes at all the first write would already lie outside the buffer.\<close>

definition ethash_compute_cache_nodes :: "nat \<Rightarrow> bytes \<Rightarrow> ethash_error + node list option" where
  "ethash_compute_cache_nodes cache_size seed =
     (if cache_size mod 64 \<noteq> 0 then Inr None
      else
        let num_nodes = (cache_size div 64) mod 2 ^ 32;
            nodes0 = cache_chain num_nodes (sha3_node (take 32 seed))
        in if num_nodes = 0 then Inl BufferOverrun
           else Inr (Some (fold (\<lambda>j nodes. fold (cache_round_step num_nodes) [0..<num_nodes] nodes)
                   [0..<ETHASH_CACHE_ROUNDS] nodes0)))"

record ethash_light =
  cache :: "node list"
  cache_size :: nat
  block_number :: nat

text \<open>The two allocations may fail; \<open>alloc_light\<close> and \<open>alloc_cache\<close> say whether they succeed.\<close>

definition ethash_light_new_internal :: "bool \<Rightarrow> bool \<Rightarrow> nat \<Rightarrow> bytes \<Rightarrow> ethash_error + ethash_light option" where
  "ethash_light_new_internal alloc_light alloc_cache sz seed =
     (if \<not> alloc_light then Inr None
      else if \<not> alloc_cache then Inr None
      else bindE (ethash_compute_cache_nodes sz seed) (\<lambda>r.
             case r of
               None \<Rightarrow> Inr None
             | Some nodes \<Rightarrow> Inr (Some \<lparr>cache = nodes, cache_size = sz, block_number = 0\<rparr>)))"

definition ethash_light_new :: "bool \<Rightarrow> bool \<Rightarrow> nat \<Rightarrow> ethash_error + ethash_light" where
  "ethash_light_new alloc_light alloc_cache bn =
     bindE (ethash_get_seedhash bn) (\<lambda>seedhash.
     bindE (ethash_get_cachesize bn) (\<lambda>sz.
     bindE (ethash_light_new_internal alloc_light alloc_cache sz seedhash) (\<lambda>r.
       case r of
         None \<Rightarrow> Inl NullDeref
       | Some ret \<Rightarrow> Inr (ret\<lparr>block_number := bn\<rparr>))))"

section \<open>DAG items\<close>

definition num_parent_nodes :: "ethash_light \<Rightarrow> nat" where
  "num_parent_nodes light = (cache_size light div 64) mod 2 ^ 32"

definition dag_parent :: "ethash_light \<Rightarrow> u32 \<Rightarrow> nat \<Rightarrow> node \<Rightarrow> node" where
  "dag_parent light node_index i ret =
     (let parent_index = unat (fnv_hash (node_index XOR of_nat i) (ret ! (i mod NODE_WORDS))) mod num_parent_nodes light;
          parent = cache light ! parent_index
      in map (\<lambda>w. fnv_hash (ret ! w) (parent ! w)) [0..<NODE_WORDS])"

definition ethash_calculate_dag_item :: "ethash_light \<Rightarrow> u32 \<Rightarrow> node" where
  "ethash_calculate_dag_item light node_index =
     (let init = cache light ! (unat node_index mod num_parent_nodes light);
          ret0 = init[0 := init ! 0 XOR node_index];
          ret1 = sha3_node (node_bytes ret0);
          ret2 = fold (dag_parent light node_index) [0..<ETHASH_DATASET_PARENTS] ret1
      in sha3_node (node_bytes ret2))"

section \<open>The hash\<close>

record ethash_return_value =
  result :: bytes
  mix_hash :: bytes
  success :: bool

definition dag_node_of :: "node list option \<Rightarrow> ethash_light \<Rightarrow> u32 \<Rightarrow> nat \<Rightarrow> node" where
  "dag_node_of full_nodes light index n =
     (case full_nodes of
        Some nodes \<Rightarrow> nodes ! unat (of_nat MIX_NODES * index + of_nat n)
      | None \<Rightarrow> ethash_calculate_dag_item light (index * of_nat MIX_NODES + of_nat n))"

text \<open>One access: both nodes of the mix absorb their node of the page.\<close>

definition mix_access :: "node list option \<Rightarrow> ethash_light \<Rightarrow> nat \<Rightarrow> u32 \<Rightarrow> nat \<Rightarrow> u32 list \<Rightarrow> u32 list" where
  "mix_access full_nodes light num_full_pages s0 i mix =
     (let index = fnv_hash (s0 XOR of_nat i) (mix ! (i mod MIX_WORDS)) mod of_nat num_full_pages in
      fold (\<lambda>n mix. let dag_node = dag_node_of full_nodes light index n in
              fold (\<lambda>w mix. mix[n * NODE_WORDS + w := fnv_hash (mix ! (n * NODE_WORDS + w)) (dag_node ! w)])
                [0..<NODE_WORDS] mix)
        [0..<MIX_NODES] mix)"

definition compress_step :: "nat \<Rightarrow> u32 list \<Rightarrow> u32 list" where
  "compress_step w mix =
     (let r0 = mix ! w;
          r1 = r0 * FNV_PRIME XOR mix ! (w + 1);
          r2 = r1 * FNV_PRIME XOR mix ! (w + 2);
          r3 = r2 * FNV_PRIME XOR mix ! (w + 3)
      in mix[w div 4 := r3])"

definition compress_mix :: "u32 list \<Rightarrow> u32 list" where
  "compress_mix mix = take (MIX_WORDS div 4) (fold compress_step (map (\<lambda>k. 4 * k) [0..<MIX_WORDS div 4]) mix)"

definition ethash_hash :: "node list option \<Rightarrow> ethash_light \<Rightarrow> nat \<Rightarrow> bytes \<Rightarrow> u64 \<Rightarrow> (bytes \<times> bytes) option" where
  "ethash_hash full_nodes light full_size header_hash nonce =
     (if full_size mod MIX_WORDS \<noteq> 0 then None
      else
        let s_mix = sha3_node (take 32 header_hash @ word_to_le nonce);
            mix0 = map (\<lambda>w. s_mix ! (w mod NODE_WORDS)) [0..<MIX_WORDS];
            page_size = 4 * MIX_WORDS;
            num_full_pages = (full_size div page_size) mod 2 ^ 32;
            mix1 = fold (mix_access full_nodes light num_full_pages (s_mix ! 0)) [0..<ETHASH_ACCESSES] mix0;
            cmix = node_bytes (compress_mix mix1)
        in Some (SHA3_256 (replicate 32 0) (node_bytes s_mix @ cmix), cmix))"

text \<open>When the hash fails the result fields stay uninitialised; they are shown as zeros.\<close>

definition ethash_light_compute_internal :: "ethash_light \<Rightarrow> nat \<Rightarrow> bytes \<Rightarrow> u64 \<Rightarrow> ethash_return_value" where
  "ethash_light_compute_internal light full_size header_hash nonce =
     (case ethash_hash None light full_size header_hash nonce of
        None \<Rightarrow> \<lparr>result = replicate 32 0, mix_hash = replicate 32 0, success = False\<rparr>
      | Some (r, m) \<Rightarrow> \<lparr>result = r, mix_hash = m, success = True\<rparr>)"

definition ethash_light_compute :: "ethash_light \<Rightarrow> bytes \<Rightarrow> u64 \<Rightarrow> ethash_error + ethash_return_value" where
  "ethash_light_compute light header_hash nonce =
     bindE (ethash_get_datasize (block_number light)) (\<lambda>full_size.
       Inr (ethash_light_compute_internal light full_size header_hash nonce))"


section \<open>Shapes\<close>

abbreviation is_node :: "node \<Rightarrow> bool" where
  "is_node ws \<equiv> length ws = NODE_WORDS"

lemma length_node_bytes [simp]: "length (node_bytes ws) = 4 * length ws"
  by (induction ws) (simp_all add: node_bytes_def)

lemma is_node_sha3_node [simp]: "length (sha3_node data) = NODE_WORDS"
  by (simp add: sha3_node_def node_of_bytes_def keccak512.digest_length NODE_WORDS_def)

lemma length_cache_chain [simp]: "length (cache_chain n x) = n"
  by (induction n arbitrary: x) simp_all

definition nodes_ok :: "node list \<Rightarrow> bool" where
  "nodes_ok nodes = list_all is_node nodes"

lemma cache_chain_nodes: "is_node x \<Longrightarrow> nodes_ok (cache_chain n x)"
  by (induction n arbitrary: x) (simp_all add: nodes_ok_def)

lemma length_cache_round_step [simp]: "length (cache_round_step n i nodes) = length nodes"
  by (simp add: cache_round_step_def Let_def)

lemma cache_round_step_nodes: "nodes_ok nodes \<Longrightarrow> nodes_ok (cache_round_step n i nodes)"
  by (cases "i < length nodes") (auto simp: cache_round_step_def Let_def nodes_ok_def list_all_length nth_list_update)

lemma cache_round_shape:
  "nodes_ok nodes \<Longrightarrow> length (fold (cache_round_step n) is nodes) = length nodes \<and> nodes_ok (fold (cache_round_step n) is nodes)"
  by (induction "is" arbitrary: nodes) (simp_all add: cache_round_step_nodes)

lemma cache_rounds_shape:
  "nodes_ok nodes \<Longrightarrow> length (fold (\<lambda>j. fold (cache_round_step n) is) js nodes) = length nodes \<and>
    nodes_ok (fold (\<lambda>j. fold (cache_round_step n) is) js nodes)"
  by (induction js arbitrary: nodes) (simp_all add: cache_round_shape)

text \<open>A light handler as \<open>ethash_light_new\<close> delivers it.\<close>

definition light_ok :: "ethash_light \<Rightarrow> bool" where
  "light_ok light \<longleftrightarrow> 0 < num_parent_nodes light \<and> length (cache light) = num_parent_nodes light \<and>
     nodes_ok (cache light)"

lemma compute_cache_nodes_shape:
  assumes "ethash_compute_cache_nodes sz seed = Inr (Some nodes)"
  shows "length nodes = (sz div 64) mod 2 ^ 32 \<and> nodes_ok nodes"
proof -
  let ?n = "(sz div 64) mod 2 ^ 32"
  have "nodes = fold (\<lambda>j. fold (cache_round_step ?n) [0..<?n]) [0..<ETHASH_CACHE_ROUNDS]
      (cache_chain ?n (sha3_node (take 32 seed)))"
    using assms by (simp add: ethash_compute_cache_nodes_def Let_def split: if_splits)
  then show ?thesis
    using cache_rounds_shape [OF cache_chain_nodes [OF is_node_sha3_node]] by simp
qed

lemma length_dag_parent [simp]: "length (dag_parent light k i ret) = NODE_WORDS"
  by (simp add: dag_parent_def Let_def)

lemma is_node_dag_item [simp]: "is_node (ethash_calculate_dag_item light k)"
  by (simp add: ethash_calculate_dag_item_def Let_def)

lemma length_mix_access [simp]: "length (mix_access full light p s i mix) = length mix"
  unfolding mix_access_def Let_def by (intro length_fold_update) simp

section \<open>Compression in place\<close>

text \<open>The compression overwrites the mix from the front while it reads ahead; it reads every word
  before it is overwritten.\<close>

definition reduce4 :: "u32 list \<Rightarrow> nat \<Rightarrow> u32" where
  "reduce4 mix k = fnv_hash (fnv_hash (fnv_hash (mix ! (4 * k)) (mix ! (4 * k + 1))) (mix ! (4 * k + 2))) (mix ! (4 * k + 3))"

lemma compress_steps:
  assumes "4 * n \<le> length mix"
  shows "fold compress_step (map (\<lambda>k. 4 * k) [0..<n]) mix = map (reduce4 mix) [0..<n] @ drop n mix"
  using assms
proof (induction n)
  case (Suc n)
  let ?m = "map (reduce4 mix) [0..<n] @ drop n mix"
  have ahead: "?m ! j = mix ! j" if "n \<le> j" "j < length mix" for j
    using that by (simp add: nth_append)
  have "compress_step (4 * n) ?m = ?m[n := reduce4 mix n]"
    using Suc.prems by (simp add: compress_step_def Let_def reduce4_def fnv_hash_def ahead del: nth_append_length)
  also have "\<dots> = map (reduce4 mix) [0..<Suc n] @ drop (Suc n) mix"
    using Suc.prems by (simp add: list_update_append Cons_nth_drop_Suc [symmetric])
  finally show ?case using Suc by simp
qed simp

lemma compress_mix_eq:
  "length mix = MIX_WORDS \<Longrightarrow> compress_mix mix = map (reduce4 mix) [0..<8]"
  unfolding compress_mix_def by (subst compress_steps) (simp_all add: ethash_params)

section \<open>Full and light evaluation\<close>

definition full_dag :: "ethash_light \<Rightarrow> nat \<Rightarrow> node list" where
  "full_dag light n = map (\<lambda>k. ethash_calculate_dag_item light (of_nat k)) [0..<n]"

lemma dag_node_of_full:
  assumes "0 < pages" "MIX_NODES * pages \<le> 2 ^ 32" "n < MIX_NODES"
  shows "dag_node_of (Some (full_dag light (MIX_NODES * pages))) light (x mod of_nat pages) n =
    dag_node_of None light (x mod of_nat pages) n"
proof -
  let ?i = "x mod (of_nat pages :: u32)"
  have "pages < 2 ^ 32" using assms(1,2) by (simp add: ethash_params)
  then have i: "unat ?i < pages"
    using assms(1) by (simp add: unat_mod unat_of_nat)
  then have "unat ?i * 2 + n < 2 * pages" "2 * pages \<le> 2 ^ 32"
    using assms by (simp_all add: ethash_params)
  moreover from this have "unat (2 * ?i + of_nat n) = 2 * unat ?i + n"
    by (simp add: unat_word_ariths unat_of_nat)
  ultimately show ?thesis
    using assms by (simp add: dag_node_of_def full_dag_def ethash_params mult.commute)
qed


lemma mix_access_full:
  assumes "0 < pages" "MIX_NODES * pages \<le> 2 ^ 32"
  shows "mix_access (Some (full_dag light (MIX_NODES * pages))) light pages s0 i mix = mix_access None light pages s0 i mix"
  unfolding mix_access_def Let_def
  by (rule fold_cong) (simp_all add: dag_node_of_full [OF assms])

lemma light_new_ok:
  assumes "bn div ETHASH_EPOCH_LENGTH < 2048"
  shows "\<exists>light. ethash_light_new True True bn = Inr light \<and> light_ok light \<and> block_number light = bn \<and>
    cache_size light = cache_sizes ! (bn div ETHASH_EPOCH_LENGTH) \<and> num_parent_nodes light = cache_size light div 64"
proof -
  let ?e = "bn div ETHASH_EPOCH_LENGTH"
  let ?sz = "cache_sizes ! ?e"
  have sz: "?sz mod 64 = 0" "?sz < 2 ^ 29" "64 \<le> ?sz"
    using cache_sizes_dvd [OF assms] cache_sizes_less [OF assms] cache_sizes_nth [OF assms] by auto
  then have n: "0 < ?sz div 64" "?sz div 64 mod 2 ^ 32 = ?sz div 64" by auto
  from sz obtain nodes where nodes: "ethash_compute_cache_nodes ?sz (((\<lambda>ret. SHA3_256 ret ret) ^^ ?e) (replicate 32 0)) = Inr (Some nodes)"
    using n by (auto simp: ethash_compute_cache_nodes_def Let_def)
  have "ethash_light_new True True bn = Inr \<lparr>cache = nodes, cache_size = ?sz, block_number = bn\<rparr>"
    using assms nodes by (simp add: ethash_light_new_def ethash_get_seedhash_def ethash_get_cachesize_def
        ethash_light_new_internal_def Let_def)
  then show ?thesis
    using compute_cache_nodes_shape [OF nodes] n by (simp add: light_ok_def num_parent_nodes_def)
qed

lemma light_new_compute:
  assumes "bn div ETHASH_EPOCH_LENGTH < 2048"
  shows "\<exists>light r. ethash_light_new True True bn = Inr light \<and> light_ok light \<and>
    64 * length (cache light) = cache_sizes ! (bn div ETHASH_EPOCH_LENGTH) \<and>
    ethash_light_compute light header nonce = Inr r \<and> success r \<and> length (result r) = 32 \<and> length (mix_hash r) = 32"
proof -
  obtain light where l: "ethash_light_new True True bn = Inr light" "light_ok light" "block_number light = bn"
      "cache_size light = cache_sizes ! (bn div ETHASH_EPOCH_LENGTH)" "num_parent_nodes light = cache_size light div 64"
    using light_new_ok [OF assms] by blast
  have "dag_sizes ! (bn div ETHASH_EPOCH_LENGTH) mod MIX_WORDS = 0"
    using dag_sizes_dvd [OF assms] by (auto simp: ethash_params elim!: dvdE)
  moreover have len: "length (fold (mix_access None light p s) is mix) = length mix" for p s "is" mix
    by (rule length_fold_update) simp
  ultimately obtain r where "ethash_light_compute light header nonce = Inr r" "success r"
      "length (result r) = 32" "length (mix_hash r) = 32"
    using assms l(3)
    by (simp add: ethash_light_compute_def ethash_get_datasize_def ethash_light_compute_internal_def
        ethash_hash_def Let_def compress_mix_eq len keccak256.digest_length MIX_WORDS_def ETHASH_MIX_BYTES_def)
  moreover have "64 * length (cache light) = cache_sizes ! (bn div ETHASH_EPOCH_LENGTH)"
    using l(2,4,5) cache_sizes_dvd [OF assms] by (simp add: light_ok_def)
  ultimately show ?thesis using l by blast
qed

section \<open>Properties\<close>

text \<open>
  C13: evaluating the hash with the light cache gives the same result as evaluating it on the full
  DAG, when the DAG holds the items of that cache and the page numbers fit 32 bits.
\<close>

theorem light_full_agree:
  assumes "0 < full_size div 128" "full_size div 128 \<le> 2 ^ 31"
  shows "ethash_hash (Some (full_dag light (MIX_NODES * (full_size div 128)))) light full_size header nonce =
    ethash_hash None light full_size header nonce"
proof -
  let ?p = "full_size div 128"
  have p: "?p mod 2 ^ 32 = ?p" "MIX_NODES * ?p \<le> 2 ^ 32" using assms by (simp_all add: ethash_params)
  note eq = mix_access_full [OF assms(1) p(2)]
  have "fold (mix_access (Some (full_dag light (MIX_NODES * ?p))) light ?p s) is mix = fold (mix_access None light ?p s) is mix" for s "is" mix
    by (rule fold_cong) (simp_all add: eq fun_eq_iff)
  with p(1) show ?thesis
    by (simp add: ethash_hash_def Let_def ethash_params)
qed

theorem light_full_agree_witness:
  "ethash_hash (Some (full_dag \<lparr>cache = [replicate 16 1], cache_size = 64, block_number = 0\<rparr> (MIX_NODES * (256 div 128))))
      \<lparr>cache = [replicate 16 1], cache_size = 64, block_number = 0\<rparr> 256 (replicate 32 0) 5 =
    ethash_hash None \<lparr>cache = [replicate 16 1], cache_size = 64, block_number = 0\<rparr> 256 (replicate 32 0) 5"
  by (rule light_full_agree) simp_all

text \<open>
  C14: for every block of the 2048 tabulated epochs, creating the light handler succeeds (given
  memory) and yields a well-formed cache of the tabulated size; computing with it succeeds for every header
  and nonce and gives a 32-byte result and a 32-byte mix hash.
\<close>

theorem light_client_total:
  assumes "bn div ETHASH_EPOCH_LENGTH < 2048"
  shows "\<exists>light r. ethash_light_new True True bn = Inr light \<and> light_ok light \<and>
    64 * length (cache light) = cache_sizes ! (bn div ETHASH_EPOCH_LENGTH) \<and>
    ethash_light_compute light header nonce = Inr r \<and> success r \<and> length (result r) = 32 \<and> length (mix_hash r) = 32"
  using assms by (rule light_new_compute)

theorem light_client_total_witness:
  "\<exists>light r. ethash_light_new True True 2584000 = Inr light \<and> light_ok light \<and>
    64 * length (cache light) = cache_sizes ! (2584000 div ETHASH_EPOCH_LENGTH) \<and>
    ethash_light_compute light [] 0 = Inr r \<and> success r \<and> length (result r) = 32 \<and> length (mix_hash r) = 32"
  by (rule light_client_total) (simp add: ETHASH_EPOCH_LENGTH_def)

text \<open>
  The seed hashes form a chain: all blocks of an epoch have the same seed, and the seed of the
  next epoch is the hash of the previous one.
\<close>

theorem seedhash_chain:
  assumes "(bn + ETHASH_EPOCH_LENGTH) div ETHASH_EPOCH_LENGTH < 2 ^ 32" "k < ETHASH_EPOCH_LENGTH"
  shows "ethash_get_seedhash (ETHASH_EPOCH_LENGTH * (bn div ETHASH_EPOCH_LENGTH) + k) = ethash_get_seedhash bn \<and>
    ethash_get_seedhash (bn + ETHASH_EPOCH_LENGTH) = bindE (ethash_get_seedhash bn) (\<lambda>h. Inr (SHA3_256 h h))"
proof -
  have "(bn + 8000) div 8000 = Suc (bn div 8000)" by simp
  then show ?thesis
    using assms by (simp only: ethash_get_seedhash_def Let_def ETHASH_EPOCH_LENGTH_def) simp
qed

theorem seedhash_chain_witness:
  "ethash_get_seedhash 8005 = ethash_get_seedhash 8000"
  using seedhash_chain [of 8000 5] by (simp add: ETHASH_EPOCH_LENGTH_def)

text \<open>
  When memory runs out \<open>ethash_light_new\<close> does not return a null handler as its comment says:
  it writes the block number through the null pointer.
\<close>

theorem light_new_out_of_memory:
  assumes "bn div ETHASH_EPOCH_LENGTH < 2048" "\<not> (alloc_light \<and> alloc_cache)"
  shows "ethash_light_new alloc_light alloc_cache bn = Inl NullDeref"
  using assms by (auto simp: ethash_light_new_def ethash_get_seedhash_def ethash_get_cachesize_def
      ethash_light_new_internal_def Let_def)

theorem light_new_out_of_memory_witness:
  "ethash_light_new True False 0 = Inl NullDeref"
  by (rule light_new_out_of_memory) (simp_all add: ETHASH_EPOCH_LENGTH_def)

end
