(* ===== verification/DagKernel.thy ===== *)
theory DagKernel
  imports Ethash
begin

unbundle bit_operations_syntax

text \<open>
  DAG generation on the GPU: the OpenCL kernel \<open>ethash_calculate_dag_item\<close> of
  \<^verbatim>\<open>libethash-cl/CLMiner_kernel.cl\<close>, whose Keccak works on pairs of 32-bit words, and the CUDA kernel of
  \<^verbatim>\<open>libethash-cuda/CUDAMiner_cuda.cu\<close>, whose threads cooperate in groups of four through shuffles, with
  the host loops that launch them.  Both are compared with the light client's \<open>ethash_calculate_dag_item\<close>.
  The DAG is a list of nodes, \<open>None\<close> where nothing has been written; the lanes of a group of four run in
  lock step, which the full-mask shuffles enforce.
\<close>

section \<open>Keccak of the OpenCL kernel\<close>

text \<open>A \<open>uint2\<close>: low half \<open>x\<close> and high half \<open>y\<close>.\<close>

type_synonym uint2 = "u32 \<times> u32"

definition xor2 :: "uint2 \<Rightarrow> uint2 \<Rightarrow> uint2" where
  "xor2 a b = (fst a XOR fst b, snd a XOR snd b)"

text \<open>The portable \<open>ROL2\<close>, for counts other than 0 and 32, at which C leaves its shifts undefined and which the Keccak
  rounds do not use; the other two variants use intrinsics of the vendors for the same rotation.\<close>

definition ROL2 :: "uint2 \<Rightarrow> nat \<Rightarrow> uint2" where
  "ROL2 v n =
     (let x = fst v; y = snd v in
      if n \<le> 32 then (push_bit n x OR drop_bit (32 - n) y, push_bit n y OR drop_bit (32 - n) x)
      else (push_bit (n - 32) y OR drop_bit (64 - n) x, push_bit (n - 32) x OR drop_bit (64 - n) y))"

definition bitselect :: "u32 \<Rightarrow> u32 \<Rightarrow> u32 \<Rightarrow> u32" where
  "bitselect a b c = (a AND NOT c) OR (b AND c)"

definition bitselect2 :: "uint2 \<Rightarrow> uint2 \<Rightarrow> uint2 \<Rightarrow> uint2" where
  "bitselect2 a b c = (bitselect (fst a) (fst b) (fst c), bitselect (snd a) (snd b) (snd c))"

definition Keccak_f1600_RC :: "uint2 list" where
  "Keccak_f1600_RC =
    [(0x00000001, 0x00000000), (0x00008082, 0x00000000), (0x0000808a, 0x80000000), (0x80008000, 0x80000000),
     (0x0000808b, 0x00000000), (0x80000001, 0x00000000), (0x80008081, 0x80000000), (0x00008009, 0x80000000),
     (0x0000008a, 0x00000000), (0x00000088, 0x00000000), (0x80008009, 0x00000000), (0x8000000a, 0x00000000),
     (0x8000808b, 0x00000000), (0x0000008b, 0x80000000), (0x00008089, 0x80000000), (0x00008003, 0x80000000),
     (0x00008002, 0x80000000), (0x00000080, 0x80000000), (0x0000800a, 0x00000000), (0x8000000a, 0x80000000),
     (0x80008081, 0x80000000), (0x00008080, 0x80000000), (0x80000001, 0x00000000), (0x80008008, 0x80000000)]"

definition xor_into :: "uint2 list \<Rightarrow> nat \<Rightarrow> uint2 \<Rightarrow> uint2 list" where
  "xor_into a i u = a[i := xor2 (a ! i) u]"

definition cl_theta :: "uint2 list \<Rightarrow> uint2 list" where
  "cl_theta a =
     (let t0 = xor2 (xor2 (xor2 (xor2 (a ! 0) (a ! 5)) (a ! 10)) (a ! 15)) (a ! 20);
          t1 = xor2 (xor2 (xor2 (xor2 (a ! 1) (a ! 6)) (a ! 11)) (a ! 16)) (a ! 21);
          t2 = xor2 (xor2 (xor2 (xor2 (a ! 2) (a ! 7)) (a ! 12)) (a ! 17)) (a ! 22);
          t3 = xor2 (xor2 (xor2 (xor2 (a ! 3) (a ! 8)) (a ! 13)) (a ! 18)) (a ! 23);
          t4 = xor2 (xor2 (xor2 (xor2 (a ! 4) (a ! 9)) (a ! 14)) (a ! 19)) (a ! 24);
          u = xor2 t4 (ROL2 t1 1);
          a = xor_into (xor_into (xor_into (xor_into (xor_into a 0 u) 5 u) 10 u) 15 u) 20 u;
          u = xor2 t0 (ROL2 t2 1);
          a = xor_into (xor_into (xor_into (xor_into (xor_into a 1 u) 6 u) 11 u) 16 u) 21 u;
          u = xor2 t1 (ROL2 t3 1);
          a = xor_into (xor_into (xor_into (xor_into (xor_into a 2 u) 7 u) 12 u) 17 u) 22 u;
          u = xor2 t2 (ROL2 t4 1);
          a = xor_into (xor_into (xor_into (xor_into (xor_into a 3 u) 8 u) 13 u) 18 u) 23 u;
          u = xor2 t3 (ROL2 t0 1)
      in xor_into (xor_into (xor_into (xor_into (xor_into a 4 u) 9 u) 14 u) 19 u) 24 u)"

definition cl_rho_pi :: "uint2 list \<Rightarrow> uint2 list" where
  "cl_rho_pi a =
     [a ! 0, ROL2 (a ! 6) 44, ROL2 (a ! 12) 43, ROL2 (a ! 18) 21, ROL2 (a ! 24) 14,
      ROL2 (a ! 3) 28, ROL2 (a ! 9) 20, ROL2 (a ! 10) 3, ROL2 (a ! 16) 45, ROL2 (a ! 22) 61,
      ROL2 (a ! 1) 1, ROL2 (a ! 7) 6, ROL2 (a ! 13) 25, ROL2 (a ! 19) 8, ROL2 (a ! 20) 18,
      ROL2 (a ! 4) 27, ROL2 (a ! 5) 36, ROL2 (a ! 11) 10, ROL2 (a ! 17) 15, ROL2 (a ! 23) 56,
      ROL2 (a ! 2) 62, ROL2 (a ! 8) 55, ROL2 (a ! 14) 39, ROL2 (a ! 15) 41, ROL2 (a ! 21) 2]"

text \<open>\<open>chi(a, n, t)\<close> writes five words of \<open>a\<close>.\<close>

definition cl_chi :: "nat \<Rightarrow> uint2 list \<Rightarrow> uint2 list \<Rightarrow> uint2 list" where
  "cl_chi n t a =
     a[n := bitselect2 (xor2 (t ! n) (t ! (n + 2))) (t ! n) (t ! (n + 1)),
       n + 1 := bitselect2 (xor2 (t ! (n + 1)) (t ! (n + 3))) (t ! (n + 1)) (t ! (n + 2)),
       n + 2 := bitselect2 (xor2 (t ! (n + 2)) (t ! (n + 4))) (t ! (n + 2)) (t ! (n + 3)),
       n + 3 := bitselect2 (xor2 (t ! (n + 3)) (t ! n)) (t ! (n + 3)) (t ! (n + 4)),
       n + 4 := bitselect2 (xor2 (t ! (n + 4)) (t ! (n + 1))) (t ! (n + 4)) (t ! n)]"

definition cl_keccak_f1600_round :: "nat \<Rightarrow> uint2 list \<Rightarrow> uint2 list" where
  "cl_keccak_f1600_round r a =
     (let a = cl_theta a;
          t = cl_rho_pi a;
          a = cl_chi 0 t a;
          a = a[0 := xor2 (a ! 0) (Keccak_f1600_RC ! r)]
      in cl_chi 20 t (cl_chi 15 t (cl_chi 10 t (cl_chi 5 t a))))"

text \<open>The loop ends only when \<open>isolate\<close> is not zero; the host passes \<open>~0u\<close>.\<close>

definition keccak_f1600_no_absorb :: "u32 \<Rightarrow> uint2 list \<Rightarrow> uint2 list option" where
  "keccak_f1600_no_absorb isolate a =
     (if isolate = 0 then None else Some (fold cl_keccak_f1600_round [0..<24] a))"

definition cl_SHA3_512 :: "u32 \<Rightarrow> uint2 list \<Rightarrow> uint2 list option" where
  "cl_SHA3_512 isolate s =
     keccak_f1600_no_absorb isolate (take 8 s @ (0x00000001, 0x80000000) # replicate 16 (0, 0))"

section \<open>The OpenCL kernel\<close>

text \<open>The union \<open>hash200_t\<close> seen as words and as pairs; only its first 64 bytes are used between the
  hashes.\<close>

definition words_of_uint2s :: "uint2 list \<Rightarrow> u32 list" where
  "words_of_uint2s ps = concat (map (\<lambda>p. [fst p, snd p]) ps)"

definition uint2s_of_words :: "u32 list \<Rightarrow> uint2 list" where
  "uint2s_of_words ws = map (\<lambda>i. (ws ! (2 * i), ws ! (2 * i + 1))) [0..<length ws div 2]"

definition cl_sha3_node :: "u32 \<Rightarrow> u32 list \<Rightarrow> u32 list option" where
  "cl_sha3_node isolate ws =
     (case cl_SHA3_512 isolate (uint2s_of_words ws) of None \<Rightarrow> None | Some s \<Rightarrow> Some (words_of_uint2s (take 8 s)))"

text \<open>A \<open>uint4\<close> of a node, the update of one, and \<open>fnv4\<close> on it.\<close>

definition uint4 :: "nat \<Rightarrow> node \<Rightarrow> u32 list" where
  "uint4 w n = take 4 (drop (4 * w) n)"

definition set_uint4 :: "nat \<Rightarrow> u32 list \<Rightarrow> node \<Rightarrow> node" where
  "set_uint4 w v n = take (4 * w) n @ v @ drop (4 * w + 4) n"

definition fnv4 :: "u32 list \<Rightarrow> u32 list \<Rightarrow> u32 list" where
  "fnv4 a b = map2 (\<lambda>x y. x * 0x01000193 XOR y) a b"

definition cl_parent :: "nat \<Rightarrow> node list \<Rightarrow> u32 \<Rightarrow> nat \<Rightarrow> node \<Rightarrow> node" where
  "cl_parent LIGHT_WORDS g_light node_index i n =
     (let parent_index = unat ((node_index XOR of_nat i) * 0x01000193 XOR n ! (i mod 16)) mod LIGHT_WORDS in
      fold (\<lambda>w n. set_uint4 w (fnv4 (uint4 w n) (uint4 w (g_light ! parent_index))) n) [0..<4] n)"

definition cl_dag_node :: "nat \<Rightarrow> node list \<Rightarrow> u32 \<Rightarrow> u32 \<Rightarrow> node option" where
  "cl_dag_node LIGHT_WORDS g_light isolate node_index =
     (let n = g_light ! (unat node_index mod LIGHT_WORDS);
          n = n[0 := n ! 0 XOR node_index]
      in case cl_sha3_node isolate n of
           None \<Rightarrow> None
         | Some n \<Rightarrow> cl_sha3_node isolate (fold (cl_parent LIGHT_WORDS g_light node_index) [0..<256] n))"

text \<open>One work item: beyond \<open>PROGPOW_DAG_BYTES\<close> nothing is written; the product with the size of a node has the 64 bits of
  the device's \<^verbatim>\<open>size_t\<close> and cannot wrap.  \<open>None\<close> is the endless loop.\<close>

definition cl_calculate_dag_item :: "nat \<Rightarrow> nat \<Rightarrow> node list \<Rightarrow> u32 \<Rightarrow> u32 \<Rightarrow> nat \<Rightarrow> node option list \<Rightarrow> node option list option" where
  "cl_calculate_dag_item LIGHT_WORDS PROGPOW_DAG_BYTES g_light isolate start gid g_dag =
     (let node_index = start + of_nat gid in
      if PROGPOW_DAG_BYTES \<le> unat node_index * 64 then Some g_dag
      else case cl_dag_node LIGHT_WORDS g_light isolate node_index of
             None \<Rightarrow> None
           | Some n \<Rightarrow> Some (g_dag[unat node_index := Some n]))"


section \<open>Launches from the host\<close>

text \<open>Running a list of steps that may fail.\<close>

primrec run_all :: "('i \<Rightarrow> 's \<Rightarrow> 's option) \<Rightarrow> 'i list \<Rightarrow> 's \<Rightarrow> 's option" where
  "run_all f [] s = Some s"
| "run_all f (x # xs) s = (case f x s of None \<Rightarrow> None | Some s' \<Rightarrow> run_all f xs s')"

text \<open>One launch of the OpenCL kernel over \<open>globalWorkSize\<close> work items, and the loop of \<open>CLMiner::init\<close> with its
  32-bit start offsets.\<close>

definition cl_launch :: "nat \<Rightarrow> nat \<Rightarrow> node list \<Rightarrow> u32 \<Rightarrow> nat \<Rightarrow> u32 \<Rightarrow> node option list \<Rightarrow> node option list option" where
  "cl_launch LIGHT_WORDS PROGPOW_DAG_BYTES g_light isolate globalWorkSize start =
     run_all (cl_calculate_dag_item LIGHT_WORDS PROGPOW_DAG_BYTES g_light isolate start) [0..<globalWorkSize]"

definition full_runs :: "nat \<Rightarrow> nat \<Rightarrow> nat" where
  "full_runs work n = (work div n + (if 0 < work mod n then 1 else 0)) mod 2 ^ 32"

definition cl_generate_dag :: "nat \<Rightarrow> nat \<Rightarrow> node list \<Rightarrow> nat \<Rightarrow> nat \<Rightarrow> node option list \<Rightarrow> node option list option" where
  "cl_generate_dag LIGHT_WORDS PROGPOW_DAG_BYTES g_light dagBytes globalWorkSize =
     (let work = (dagBytes div 64) mod 2 ^ 32 in
      run_all (\<lambda>i. cl_launch LIGHT_WORDS PROGPOW_DAG_BYTES g_light (NOT 0) globalWorkSize (of_nat i * of_nat globalWorkSize))
        [0..<full_runs work globalWorkSize])"

section \<open>The CUDA kernel\<close>

definition cuda_piln :: "nat list" where
  "cuda_piln = [10, 7, 11, 17, 18, 3, 5, 16, 8, 21, 24, 4, 15, 23, 19, 13, 12, 2, 20, 14, 22, 9, 6, 1]"

definition cuda_rotc :: "nat list" where
  "cuda_rotc = [1, 3, 6, 10, 15, 21, 28, 36, 45, 55, 2, 14, 27, 41, 56, 8, 25, 43, 62, 18, 39, 61, 20, 44]"

definition cuda_rndc :: "u64 list" where
  "cuda_rndc =
    [0x0000000000000001, 0x0000000000008082, 0x800000000000808A, 0x8000000080008000, 0x000000000000808B, 0x0000000080000001,
     0x8000000080008081, 0x8000000000008009, 0x000000000000008A, 0x0000000000000088, 0x0000000080008009, 0x000000008000000A,
     0x000000008000808B, 0x800000000000008B, 0x8000000000008089, 0x8000000000008003, 0x8000000000008002, 0x8000000000000080,
     0x000000000000800A, 0x800000008000000A, 0x8000000080008081, 0x8000000000008080, 0x0000000080000001, 0x8000000080008008]"

text \<open>\<open>ROTL64\<close> is the rotation \<open>rol\<close>.\<close>

definition cuda_keccak_f1600_round :: "nat \<Rightarrow> u64 list \<Rightarrow> u64 list" where
  "cuda_keccak_f1600_round r st =
     (let bc = map (\<lambda>i. st ! i XOR st ! (i + 5) XOR st ! (i + 10) XOR st ! (i + 15) XOR st ! (i + 20)) [0..<5];
          st = fold (\<lambda>i st. let t = bc ! ((i + 4) mod 5) XOR rol (bc ! ((i + 1) mod 5)) 1 in
                 fold (\<lambda>j st. st[j + i := st ! (j + i) XOR t]) [0, 5, 10, 15, 20] st) [0..<5] st;
          st = rho_pi_steps (zip cuda_piln cuda_rotc) (st ! 1) st;
          st = fold (\<lambda>j st. let bc = map (\<lambda>i. st ! (j + i)) [0..<5] in
                 fold (\<lambda>i st. st[j + i := st ! (j + i) XOR (NOT (bc ! ((i + 1) mod 5)) AND bc ! ((i + 2) mod 5))]) [0..<5] st)
                 [0, 5, 10, 15, 20] st
      in st[0 := st ! 0 XOR cuda_rndc ! r])"

definition cuda_keccak_f1600 :: "u64 list \<Rightarrow> u64 list" where
  "cuda_keccak_f1600 st = fold cuda_keccak_f1600_round [0..<24] (take 8 st @ 0x8000000000000001 # replicate 16 0)"

text \<open>The union seen as 64-bit words, low word first.\<close>

definition uint64s_of_words :: "u32 list \<Rightarrow> u64 list" where
  "uint64s_of_words ws = map (\<lambda>i. push_bit 32 (ucast (ws ! (2 * i + 1))) OR ucast (ws ! (2 * i))) [0..<length ws div 2]"

definition words_of_uint64s :: "u64 list \<Rightarrow> u32 list" where
  "words_of_uint64s qs = concat (map (\<lambda>q. [ucast q, ucast (drop_bit 32 q)]) qs)"

definition cuda_sha3_node :: "u32 list \<Rightarrow> u32 list" where
  "cuda_sha3_node ws = words_of_uint64s (take 8 (cuda_keccak_f1600 (uint64s_of_words ws)))"

text \<open>One parent for each of the four lanes: lane \<open>t\<close>'s parent is loaded by all lanes together, a \<open>uint4\<close> each, and
  lane \<open>t\<close> takes the parts from the other lanes.\<close>

definition cuda_parents :: "nat \<Rightarrow> node list \<Rightarrow> u64 list \<Rightarrow> nat \<Rightarrow> node list \<Rightarrow> node list" where
  "cuda_parents light_words g_light node_index i dag_node =
     (let parent_index = map (\<lambda>l. unat (ucast (node_index ! l XOR of_nat i) * 0x01000193 XOR dag_node ! l ! (i mod 16)) mod light_words) [0..<4]
      in fold (\<lambda>t dag_node.
           let shuffle_index = parent_index ! t;
               p4 = map (\<lambda>thread_id. uint4 thread_id (g_light ! shuffle_index)) [0..<4]
           in fold (\<lambda>w dag_node. dag_node[t := set_uint4 w (fnv4 (uint4 w (dag_node ! t)) (p4 ! w)) (dag_node ! t)]) [0..<4] dag_node)
         [0..<4] dag_node)"

definition cuda_store :: "nat \<Rightarrow> u64 list \<Rightarrow> node list \<Rightarrow> nat \<Rightarrow> node option list \<Rightarrow> node option list" where
  "cuda_store dag_bytes node_index dag_node t g_dag =
     (let shuffle_index = ucast (node_index ! t) :: u32;
          s = map (\<lambda>w. uint4 w (dag_node ! t)) [0..<4]
      in if unat shuffle_index * 64 < dag_bytes
         then g_dag[unat shuffle_index := Some (concat (map (\<lambda>thread_id. s ! thread_id) [0..<4]))] else g_dag)"

text \<open>The four threads of a group: they leave together, or their shuffles are undefined.\<close>

definition cuda_quad :: "nat \<Rightarrow> nat \<Rightarrow> node list \<Rightarrow> u64 \<Rightarrow> node option list \<Rightarrow> node option list option" where
  "cuda_quad light_words dag_bytes g_light base g_dag =
     (let node_index = map (\<lambda>l. base + of_nat l) [0..<4];
          num_nodes = dag_bytes div 64;
          num_nodes_rounded = ((num_nodes + 3) div 4) * 4
      in if list_all (\<lambda>k. num_nodes_rounded \<le> unat k) node_index then Some g_dag
         else if list_ex (\<lambda>k. num_nodes_rounded \<le> unat k) node_index then None
         else
           let dag_node = map (\<lambda>k. let n = g_light ! (unat k mod light_words) in n[0 := n ! 0 XOR ucast k]) node_index;
               dag_node = map cuda_sha3_node dag_node;
               dag_node = fold (cuda_parents light_words g_light node_index) [0..<256] dag_node;
               dag_node = map cuda_sha3_node dag_node
           in Some (fold (cuda_store dag_bytes node_index dag_node) [0..<4] g_dag))"

text \<open>One launch: every block, every group of four threads of it; an incomplete group cannot shuffle.\<close>

definition cuda_launch :: "nat \<Rightarrow> nat \<Rightarrow> node list \<Rightarrow> nat \<Rightarrow> nat \<Rightarrow> u32 \<Rightarrow> node option list \<Rightarrow> node option list option" where
  "cuda_launch light_words dag_bytes g_light blocks threads start g_dag =
     (if threads mod 4 \<noteq> 0 then None
      else run_all (\<lambda>(b, q). cuda_quad light_words dag_bytes g_light (ucast start + of_nat b * of_nat threads + of_nat (4 * q)))
             (List.product [0..<blocks] [0..<threads div 4]) g_dag)"

definition ethash_generate_dag :: "nat \<Rightarrow> node list \<Rightarrow> nat \<Rightarrow> u32 \<Rightarrow> u32 \<Rightarrow> node option list \<Rightarrow> node option list option" where
  "ethash_generate_dag dag_bytes light light_words blocks threads =
     (let work = dag_bytes div 64 in
      run_all (\<lambda>i. cuda_launch light_words dag_bytes light (unat blocks) (unat threads) (of_nat i * blocks * threads))
        [0..<full_runs work (unat (blocks * threads))])"

section \<open>The permutation in closed form\<close>

lemma list25E:
  assumes "length a = 25"
  obtains a0 a1 a2 a3 a4 a5 a6 a7 a8 a9 a10 a11 a12 a13 a14 a15 a16 a17 a18 a19 a20 a21 a22 a23 a24 where
    "a = [a0, a1, a2, a3, a4, a5, a6, a7, a8, a9, a10, a11, a12, a13, a14, a15, a16, a17, a18, a19, a20, a21, a22, a23, a24]"
proof -
  have "[0..<25] = [0, 1, 2, 3, 4, 5, 6, 7, 8, 9, 10, 11, 12, 13, 14, 15, 16, 17, 18, 19, 20, 21, 22, 23, 24]"
    by (simp add: upt_rec)
  then have "a = map ((!) a) [0, 1, 2, 3, 4, 5, 6, 7, 8, 9, 10, 11, 12, 13, 14, 15, 16, 17, 18, 19, 20, 21, 22, 23, 24]"
    using assms map_nth [of a] by simp
  then show thesis unfolding list.map by (rule that)
qed

definition column :: "u64 list \<Rightarrow> nat \<Rightarrow> u64" where
  "column a x = a ! x XOR a ! (x + 5) XOR a ! (x + 10) XOR a ! (x + 15) XOR a ! (x + 20)"

lemma theta_map:
  assumes "length a = 25"
  shows "theta a = map (\<lambda>j. a ! j XOR (column a ((j + 4) mod 5) XOR rol (column a ((j + 1) mod 5)) 1)) [0..<25]"
  by (rule list25E [OF assms]) (simp add: theta_def Let_def upt_rec column_def xor.assoc)

lemma rho_pi_map:
  assumes "length a = 25"
  shows "rho_pi_steps (zip keccak_pi rho) (a ! 1) a =
    [a ! 0, rol (a ! 6) 44, rol (a ! 12) 43, rol (a ! 18) 21, rol (a ! 24) 14,
     rol (a ! 3) 28, rol (a ! 9) 20, rol (a ! 10) 3, rol (a ! 16) 45, rol (a ! 22) 61,
     rol (a ! 1) 1, rol (a ! 7) 6, rol (a ! 13) 25, rol (a ! 19) 8, rol (a ! 20) 18,
     rol (a ! 4) 27, rol (a ! 5) 36, rol (a ! 11) 10, rol (a ! 17) 15, rol (a ! 23) 56,
     rol (a ! 2) 62, rol (a ! 8) 55, rol (a ! 14) 39, rol (a ! 15) 41, rol (a ! 21) 2]"
  by (rule list25E [OF assms]) (simp add: keccak_pi_def rho_def)

definition chi_at :: "u64 list \<Rightarrow> nat \<Rightarrow> u64" where
  "chi_at t j = t ! j XOR (NOT (t ! (j - j mod 5 + (j + 1) mod 5)) AND t ! (j - j mod 5 + (j + 2) mod 5))"

lemma chi_map:
  assumes "length a = 25"
  shows "chi a = map (chi_at a) [0..<25]"
  by (rule list25E [OF assms]) (simp add: chi_def Let_def upt_rec chi_at_def)

section \<open>Pairs as 64-bit words\<close>

definition of_uint2 :: "uint2 \<Rightarrow> u64" where
  "of_uint2 p = push_bit 32 (ucast (snd p)) OR ucast (fst p)"

lemma bit_of_uint2: "bit (of_uint2 p) k \<longleftrightarrow> k < 64 \<and> (if k < 32 then bit (fst p) k else bit (snd p) (k - 32))"
  by (auto simp: of_uint2_def bit_or_iff bit_push_bit_iff bit_ucast_iff dest: bit_imp_le_length)

lemma of_xor2 [simp]: "of_uint2 (xor2 a b) = of_uint2 a XOR of_uint2 b"
  by (rule bit_word_eqI) (auto simp: bit_of_uint2 xor2_def bit_xor_iff)

lemma of_bitselect2 [simp]:
  "of_uint2 (bitselect2 (xor2 a c) a b) = of_uint2 a XOR (NOT (of_uint2 b) AND of_uint2 c)"
  by (rule bit_word_eqI)
    (auto simp: bit_of_uint2 bitselect2_def bitselect_def xor2_def bit_xor_iff bit_or_iff bit_and_iff bit_not_iff)

lemma of_ROL2 [simp]: "0 < n \<Longrightarrow> n < 64 \<Longrightarrow> of_uint2 (ROL2 v n) = rol (of_uint2 v) n"
  by (rule bit_word_eqI)
    (auto simp: bit_of_uint2 ROL2_def rol_def Let_def bit_or_iff bit_push_bit_iff bit_drop_bit_eq
      add.commute dest: bit_imp_le_length)


lemma cl_theta_abs:
  assumes "length a = 25"
  shows "map of_uint2 (cl_theta a) = theta (map of_uint2 a)"
proof -
  have t: "theta (map of_uint2 a) = map (\<lambda>j. map of_uint2 a ! j XOR (column (map of_uint2 a) ((j + 4) mod 5) XOR
      rol (column (map of_uint2 a) ((j + 1) mod 5)) 1)) [0..<25]"
    by (rule theta_map) (use assms in simp)
  show ?thesis unfolding t
    by (rule list25E [OF assms]) (simp add: cl_theta_def Let_def xor_into_def column_def upt_rec xor.assoc)
qed

lemma cl_rho_pi_abs:
  assumes "length a = 25"
  shows "map of_uint2 (cl_rho_pi a) = rho_pi_steps (zip keccak_pi rho) (map of_uint2 a ! 1) (map of_uint2 a)"
proof -
  have "length (map of_uint2 a) = 25" using assms by simp
  from rho_pi_map [OF this] show ?thesis using assms by (simp add: cl_rho_pi_def del: One_nat_def)
qed

lemma cl_chi_abs:
  assumes "length a = 25" "length t = 25"
  shows "map of_uint2 (cl_chi 20 t (cl_chi 15 t (cl_chi 10 t (cl_chi 5 t ((cl_chi 0 t a)[0 := xor2 (cl_chi 0 t a ! 0) c]))))) =
    (chi (map of_uint2 t))[0 := chi (map of_uint2 t) ! 0 XOR of_uint2 c]"
  by (rule list25E [OF assms(1)], rule list25E [OF assms(2)])
    (simp add: chi_map cl_chi_def chi_at_def upt_rec)

lemma RC_abs: "r < 24 \<Longrightarrow> of_uint2 (Keccak_f1600_RC ! r) = RC ! r"
proof -
  assume r: "r < 24"
  have len: "length Keccak_f1600_RC = 24" by (simp add: Keccak_f1600_RC_def)
  have "map of_uint2 Keccak_f1600_RC = RC" by (simp add: Keccak_f1600_RC_def RC_def of_uint2_def push_bit_eq_mult)
  then show ?thesis using nth_map [of r Keccak_f1600_RC of_uint2] r len by simp
qed

lemma length_cl_theta: "length (cl_theta a) = length a"
  by (simp add: cl_theta_def Let_def xor_into_def)

lemma cl_round_abs:
  assumes "length a = 25" "r < 24"
  shows "map of_uint2 (cl_keccak_f1600_round r a) = keccak_round r (map of_uint2 a)" "length (cl_keccak_f1600_round r a) = 25"
proof -
  have l: "length (cl_theta a) = 25" "length (cl_rho_pi (cl_theta a)) = 25"
    using assms(1) by (simp_all add: length_cl_theta cl_rho_pi_def)
  have t: "theta (map of_uint2 a) ! 1 = map of_uint2 (cl_theta a) ! 1" by (simp only: cl_theta_abs [OF assms(1)])
  show "map of_uint2 (cl_keccak_f1600_round r a) = keccak_round r (map of_uint2 a)"
    unfolding cl_keccak_f1600_round_def keccak_round_def Let_def cl_chi_abs [OF l] RC_abs [OF assms(2)] cl_rho_pi_abs [OF l(1)] cl_theta_abs [OF assms(1)] ..
  show "length (cl_keccak_f1600_round r a) = 25"
    using l(1) by (simp add: cl_keccak_f1600_round_def Let_def cl_chi_def)
qed

lemma cl_rounds_abs:
  assumes "length a = 25" "\<forall>r \<in> set rs. r < 24"
  shows "map of_uint2 (fold cl_keccak_f1600_round rs a) = fold keccak_round rs (map of_uint2 a) \<and>
    length (fold cl_keccak_f1600_round rs a) = 25"
  using assms by (induction rs arbitrary: a) (simp_all add: cl_round_abs)

section \<open>One block of SHA3-512\<close>

lemma chunk_concat:
  "\<forall>x \<in> set xs. length x = k \<Longrightarrow> i < length xs \<Longrightarrow> take k (drop (k * i) (concat xs)) = xs ! i"
proof (induction xs arbitrary: i)
  case (Cons x xs)
  then show ?case by (cases i) simp_all
qed simp

lemma state_words_bytes: "length ws = 25 \<Longrightarrow> state_words (state_bytes ws) = ws"
  unfolding state_words_def state_bytes_def
  by (rule nth_equalityI) (simp_all add: chunk_concat [of "map word_to_le ws" 8, simplified])

lemma node_of_node_bytes: "node_of_bytes (node_bytes ws) = ws"
proof -
  have "take 4 (drop (4 * i) (node_bytes ws)) = word_to_le (ws ! i)" if "i < length ws" for i
    using that chunk_concat [of "map word_to_le ws" 4 i] by (simp add: node_bytes_def)
  then show ?thesis by (intro nth_equalityI) (simp_all add: node_of_bytes_def)
qed

lemma sponge_blocks_single: "length xs = 72 \<Longrightarrow> sponge_blocks 72 xs = [xs]"
  using sponge_blocks.simps [of 72 xs] sponge_blocks.simps [of 72 "[]"] by simp

lemma zero_words: "concat (map word_to_le (replicate n (0 :: u64))) = replicate (8 * n) 0"
proof -
  have "word_to_le (0 :: u64) = replicate 8 0" by (simp add: word_to_le_def map_replicate_const)
  then show ?thesis by (induction n) (simp_all add: replicate_add)
qed

lemma SHA3_512_block:
  assumes "length data = 64"
  shows "SHA3_512 ret data = take 64 (keccakf (data @ [1] @ replicate 6 0 @ [0x80] @ replicate 128 0))"
proof -
  have p: "keccak_pad 72 1 data = data @ [1] @ replicate 6 0 @ [0x80]" (is "_ = ?p")
    using assms by (simp add: keccak_pad_def)
  have b: "sponge_blocks 72 ?p = [?p]"
    using assms by (intro sponge_blocks_single) simp
  have "map2 (XOR) (replicate 72 0) ?p = ?p"
    using assms by (intro nth_equalityI) simp_all
  then have "sponge 72 1 data = keccakf (?p @ replicate 128 0)"
    by (simp only: sponge_def p b fold.simps comp_def id_def sponge_step_def) simp
  then show ?thesis by (simp add: SHA3_512_sponge squeeze.simps [of 72 _ 64])
qed

lemma state_bytes_pairs: "state_bytes (map of_uint2 ps) = node_bytes (words_of_uint2s ps)"
  by (induction ps) (simp_all add: state_bytes_def node_bytes_def words_of_uint2s_def of_uint2_def word_to_le_concat)

lemma words_of_uint2s_of_words: "even (length ws) \<Longrightarrow> words_of_uint2s (uint2s_of_words ws) = ws"
proof (induction ws rule: induct_list012)
  case (3 x y zs)
  have "uint2s_of_words (x # y # zs) = (x, y) # uint2s_of_words zs"
  proof (rule nth_equalityI)
    fix i assume "i < length (uint2s_of_words (x # y # zs))"
    then show "uint2s_of_words (x # y # zs) ! i = ((x, y) # uint2s_of_words zs) ! i"
      by (cases i) (simp_all add: uint2s_of_words_def del: upt_Suc)
  qed (simp add: uint2s_of_words_def)
  then show ?case using 3 by (simp add: words_of_uint2s_def)
qed (simp_all add: words_of_uint2s_def uint2s_of_words_def)

lemma length_words_of_uint2s [simp]: "length (words_of_uint2s ps) = 2 * length ps"
  by (induction ps) (simp_all add: words_of_uint2s_def)

lemma take_words_of_uint2s: "words_of_uint2s (take k ps) = take (2 * k) (words_of_uint2s ps)"
proof (induction ps arbitrary: k)
  case (Cons p ps)
  then show ?case by (cases k) (simp_all add: words_of_uint2s_def)
qed (simp add: words_of_uint2s_def)

lemma take_node_bytes: "node_bytes (take k ws) = take (4 * k) (node_bytes ws)"
proof (induction ws arbitrary: k)
  case (Cons p ps)
  then show ?case by (cases k) (simp_all add: node_bytes_def)
qed (simp add: node_bytes_def)

text \<open>The hash of a node in terms of the 25 words of the state.\<close>

lemma sha3_node_state:
  assumes "length ps = 8"
  shows "sha3_node (node_bytes (words_of_uint2s ps)) =
    node_of_bytes (take 64 (state_bytes (fold keccak_round [0..<24]
      (map of_uint2 ps @ 0x8000000000000001 # replicate 16 0))))"
proof -
  let ?q = "map of_uint2 ps @ 0x8000000000000001 # replicate 16 0"
  have replicate6: "replicate 6 x = [x, x, x, x, x, x]" for x :: byte by (simp add: eval_nat_numeral)
  have "word_to_le (0x8000000000000001 :: u64) = [1] @ replicate 6 0 @ [0x80]"
    by (simp add: word_to_le_def upt_rec drop_bit_numeral_bit0 drop_bit_numeral_bit1 replicate6)
  then have st: "state_bytes ?q = node_bytes (words_of_uint2s ps) @ [1] @ replicate 6 0 @ [0x80] @ replicate 128 0"
    using state_bytes_pairs [of ps] zero_words [of 16] by (simp add: state_bytes_def)
  have "length ?q = 25" using assms by simp
  then have "keccakf (state_bytes ?q) = state_bytes (fold keccak_round [0..<24] ?q)"
    by (simp add: keccakf_def state_words_bytes)
  then show ?thesis
    using SHA3_512_block [of "node_bytes (words_of_uint2s ps)"] assms by (simp add: sha3_node_def st)
qed

section \<open>The kernels compute the host's items\<close>

lemma cl_sha3_node_eq:
  assumes "isolate \<noteq> 0" "length ws = 16"
  shows "cl_sha3_node isolate ws = Some (sha3_node (node_bytes ws))"
proof -
  let ?ps = "uint2s_of_words ws"
  let ?a = "?ps @ (0x00000001, 0x80000000) # replicate 16 (0, 0)"
  define st where "st = fold cl_keccak_f1600_round [0..<24] ?a"
  have ps: "length ?ps = 8" "words_of_uint2s ?ps = ws"
    using assms(2) by (simp add: uint2s_of_words_def, simp add: words_of_uint2s_of_words)
  have "of_uint2 (0x00000001, 0x80000000) = 0x8000000000000001" "of_uint2 (0, 0) = 0" by (simp_all add: of_uint2_def push_bit_eq_mult)
  then have "map of_uint2 st = fold keccak_round [0..<24] (map of_uint2 ?ps @ 0x8000000000000001 # replicate 16 0)" "length st = 25"
    using cl_rounds_abs [of ?a "[0..<24]"] ps(1) by (simp_all add: st_def)
  then have "sha3_node (node_bytes ws) = node_of_bytes (take 64 (node_bytes (words_of_uint2s st)))"
    using sha3_node_state [OF ps(1)] ps(2) state_bytes_pairs [of st] by simp
  also have "\<dots> = words_of_uint2s (take 8 st)"
    using take_node_bytes [of 16 "words_of_uint2s st"] node_of_node_bytes [of "take 16 (words_of_uint2s st)"]
    by (simp add: take_words_of_uint2s)
  finally show ?thesis using assms(1) ps(1) by (simp add: cl_sha3_node_def cl_SHA3_512_def keccak_f1600_no_absorb_def st_def)
qed

lemma list16E:
  assumes "length a = 16"
  obtains a0 a1 a2 a3 a4 a5 a6 a7 a8 a9 a10 a11 a12 a13 a14 a15 where
    "a = [a0, a1, a2, a3, a4, a5, a6, a7, a8, a9, a10, a11, a12, a13, a14, a15]"
proof -
  have "[0..<16] = [0, 1, 2, 3, 4, 5, 6, 7, 8, 9, 10, 11, 12, 13, 14, 15]" by (simp add: upt_rec)
  then have "a = map ((!) a) [0, 1, 2, 3, 4, 5, 6, 7, 8, 9, 10, 11, 12, 13, 14, 15]" using assms map_nth [of a] by simp
  then show thesis unfolding list.map by (rule that)
qed

text \<open>Four \<open>fnv4\<close> updates are the word-wise FNV of the host.\<close>

definition fnv_node :: "node \<Rightarrow> node \<Rightarrow> node" where
  "fnv_node n p = map (\<lambda>w. fnv_hash (n ! w) (p ! w)) [0..<NODE_WORDS]"

lemma fnv_node_uint4s:
  assumes "length n = 16" "length p = 16"
  shows "fold (\<lambda>w n. set_uint4 w (fnv4 (uint4 w n) (uint4 w p)) n) [0..<4] n = fnv_node n p"
  by (rule list16E [OF assms(1)], rule list16E [OF assms(2)])
    (simp add: fnv_node_def NODE_WORDS_def fnv_hash_def FNV_PRIME_def upt_rec set_uint4_def uint4_def fnv4_def)

lemma uint4s_concat: "length n = 16 \<Longrightarrow> concat (map (\<lambda>k. uint4 k n) [0..<4]) = n"
  by (erule list16E) (simp add: uint4_def upt_rec)

lemma uint4s_store: "length n = 16 \<Longrightarrow> concat (map ((!) (map (\<lambda>k. uint4 k n) [0..<4])) [0..<4]) = n"
proof -
  assume n: "length n = 16"
  have "map ((!) (map (\<lambda>k. uint4 k n) [0..<4])) [0..<4] = map (\<lambda>k. uint4 k n) [0..<4]" by (intro nth_equalityI) simp_all
  then show ?thesis using uint4s_concat [OF n] by (simp only:)
qed

lemma dag_parent_fnv:
  "dag_parent light k i n = fnv_node n (cache light ! (unat (fnv_hash (k XOR of_nat i) (n ! (i mod 16))) mod num_parent_nodes light))"
  by (simp add: dag_parent_def fnv_node_def NODE_WORDS_def Let_def)

lemma cache_node:
  assumes "light_ok light"
  shows "length (cache light ! (j mod num_parent_nodes light)) = 16"
  using assms by (simp add: light_ok_def nodes_ok_def list_all_length NODE_WORDS_def)

lemma cl_parent_eq:
  assumes "light_ok light" "length n = 16"
  shows "cl_parent (num_parent_nodes light) (cache light) k i n = dag_parent light k i n"
  using fnv_node_uint4s [OF assms(2) cache_node [OF assms(1)]]
  by (simp add: cl_parent_def dag_parent_fnv fnv_hash_def FNV_PRIME_def)

lemma dag_parents_fold:
  assumes "light_ok light" "length n = 16"
  shows "fold (cl_parent (num_parent_nodes light) (cache light) k) is n = fold (dag_parent light k) is n \<and>
    length (fold (dag_parent light k) is n) = 16"
  using assms(2)
proof (induction "is" arbitrary: n)
  case (Cons i "is")
  have "length (dag_parent light k i n) = 16" by (simp add: NODE_WORDS_def)
  then show ?case using Cons cl_parent_eq [OF assms(1)] by simp
qed simp

lemma cl_dag_node_eq:
  assumes "light_ok light" "isolate \<noteq> 0"
  shows "cl_dag_node (num_parent_nodes light) (cache light) isolate k = Some (ethash_calculate_dag_item light k)"
proof -
  define n where "n = cache light ! (unat k mod num_parent_nodes light)"
  have "length (n[0 := n ! 0 XOR k]) = 16" using cache_node [OF assms(1)] by (simp add: n_def)
  moreover have s: "length (sha3_node (node_bytes (n[0 := n ! 0 XOR k]))) = 16" by (simp add: NODE_WORDS_def)
  ultimately show ?thesis
    using dag_parents_fold [OF assms(1) s, of k "[0..<256]"] cl_sha3_node_eq [OF assms(2)]
    by (simp add: cl_dag_node_def ethash_calculate_dag_item_def ETHASH_DATASET_PARENTS_def Let_def n_def)
qed

lemma cuda_theta:
  assumes "length st = 25"
  shows "(let bc = map (\<lambda>i. st ! i XOR st ! (i + 5) XOR st ! (i + 10) XOR st ! (i + 15) XOR st ! (i + 20)) [0..<5] in
    fold (\<lambda>i st. let t = bc ! ((i + 4) mod 5) XOR rol (bc ! ((i + 1) mod 5)) 1 in
      fold (\<lambda>j st. st[j + i := st ! (j + i) XOR t]) [0, 5, 10, 15, 20] st) [0..<5] st) = theta st"
  by (rule list25E [OF assms]) (simp add: theta_def Let_def upt_rec xor.assoc)

lemma cuda_chi:
  assumes "length st = 25"
  shows "fold (\<lambda>j st. let bc = map (\<lambda>i. st ! (j + i)) [0..<5] in
      fold (\<lambda>i st. st[j + i := st ! (j + i) XOR (NOT (bc ! ((i + 1) mod 5)) AND bc ! ((i + 2) mod 5))]) [0..<5] st)
      [0, 5, 10, 15, 20] st = chi st"
  by (rule list25E [OF assms]) (simp add: chi_def Let_def upt_rec)

lemma cuda_round_eq:
  assumes "length st = 25"
  shows "cuda_keccak_f1600_round r st = keccak_round r st"
proof -
  have c: "cuda_piln = keccak_pi" "cuda_rotc = rho" "cuda_rndc = RC"
    by (simp_all add: cuda_piln_def keccak_pi_def cuda_rotc_def rho_def cuda_rndc_def RC_def)
  have l: "length (rho_pi_steps (zip keccak_pi rho) (theta st ! 1) (theta st)) = 25" using assms by (simp add: shape_simps)
  show ?thesis
    unfolding cuda_keccak_f1600_round_def keccak_round_def c
    using cuda_theta [OF assms] cuda_chi [OF l] by (simp only: Let_def)
qed

lemma cuda_rounds_eq:
  "length st = 25 \<Longrightarrow> fold cuda_keccak_f1600_round rs st = fold keccak_round rs st"
  by (induction rs arbitrary: st) (simp_all add: cuda_round_eq shape_simps)

lemma uint64s_pairs: "uint64s_of_words ws = map of_uint2 (uint2s_of_words ws)"
  by (simp add: uint64s_of_words_def uint2s_of_words_def of_uint2_def)

lemma of_uint2_halves: "of_uint2 (ucast q, ucast (drop_bit 32 q)) = q"
  by (rule bit_word_eqI) (auto simp: bit_of_uint2 bit_ucast_iff bit_drop_bit_eq)

lemma words_of_uint64s_bytes: "words_of_uint64s qs = node_of_bytes (state_bytes qs)"
proof -
  let ?ps = "map (\<lambda>q. (ucast q, ucast (drop_bit 32 q))) qs"
  have "map of_uint2 ?ps = qs" by (simp add: comp_def of_uint2_halves)
  then have "state_bytes qs = node_bytes (words_of_uint2s ?ps)" using state_bytes_pairs [of ?ps] by simp
  then show ?thesis by (simp add: node_of_node_bytes words_of_uint2s_def words_of_uint64s_def comp_def)
qed

lemma take_state_bytes: "take (8 * k) (state_bytes qs) = state_bytes (take k qs)"
proof (induction qs arbitrary: k)
  case (Cons q qs)
  then show ?case by (cases k) (simp_all add: state_bytes_def)
qed (simp add: state_bytes_def)

lemma cuda_sha3_node_eq:
  assumes "length ws = 16"
  shows "cuda_sha3_node ws = sha3_node (node_bytes ws)"
proof -
  let ?ps = "uint2s_of_words ws"
  have ps: "length ?ps = 8" "words_of_uint2s ?ps = ws"
    using assms by (simp add: uint2s_of_words_def, simp add: words_of_uint2s_of_words)
  let ?r = "fold keccak_round [0..<24] (map of_uint2 ?ps @ 0x8000000000000001 # replicate 16 0)"
  have "cuda_keccak_f1600 (uint64s_of_words ws) = ?r"
    using ps(1) cuda_rounds_eq [of "map of_uint2 ?ps @ 0x8000000000000001 # replicate 16 0"]
    by (simp add: cuda_keccak_f1600_def uint64s_pairs)
  then show ?thesis
    using sha3_node_state [OF ps(1)] take_state_bytes [of 8 ?r] ps(2) by (simp add: cuda_sha3_node_def words_of_uint64s_bytes)
qed

text \<open>One shuffle round for lane \<open>t\<close>.\<close>

lemma lane_update:
  assumes "t < length ns"
  shows "fold (\<lambda>w ns. ns[t := f w (ns ! t)]) ws ns = ns[t := fold f ws (ns ! t)]"
  using assms by (induction ws arbitrary: ns) simp_all

lemma fold_lanes4:
  assumes "length ns = 4"
  shows "fold (\<lambda>t ns. ns[t := f t (ns ! t)]) [0..<4] ns = map (\<lambda>t. f t (ns ! t)) [0..<4]"
proof -
  obtain a b c d where "ns = [a, b, c, d]" using assms by (auto simp: numeral_eq_Suc length_Suc_conv)
  then show ?thesis by (simp add: upt_rec)
qed

lemma cuda_parents_eq:
  assumes "light_ok light" "length ns = 4" "\<forall>n \<in> set ns. length n = 16" "length idx = 4"
  shows "cuda_parents (num_parent_nodes light) (cache light) idx i ns =
    map (\<lambda>l. dag_parent light (ucast (idx ! l)) i (ns ! l)) [0..<4]"
proof -
  define pi where "pi = map (\<lambda>l. unat (ucast (idx ! l XOR of_nat i) * 0x01000193 XOR ns ! l ! (i mod 16)) mod num_parent_nodes light) [0..<4]"
  define upd where "upd = (\<lambda>t n. fold (\<lambda>w n. set_uint4 w (fnv4 (uint4 w n) (uint4 w (cache light ! (pi ! t)))) n) [0..<4] n)"
  have p4: "map (\<lambda>k. uint4 k n) [0..<4] ! w = uint4 w n" if "w \<in> set [0..<4]" for w n using that by simp
  have step: "fold (\<lambda>w ns. ns[t := set_uint4 w (fnv4 (uint4 w (ns ! t)) (map (\<lambda>k. uint4 k (cache light ! (pi ! t))) [0..<4] ! w)) (ns ! t)]) [0..<4] ns' =
      ns'[t := upd t (ns' ! t)]" if "t \<in> set [0..<4]" "length ns' = 4" for t ns'
  proof -
    have "fold (\<lambda>w ns. ns[t := set_uint4 w (fnv4 (uint4 w (ns ! t)) (map (\<lambda>k. uint4 k (cache light ! (pi ! t))) [0..<4] ! w)) (ns ! t)]) [0..<4] ns' =
        fold (\<lambda>w ns. ns[t := set_uint4 w (fnv4 (uint4 w (ns ! t)) (uint4 w (cache light ! (pi ! t)))) (ns ! t)]) [0..<4] ns'"
      by (rule fold_cong) (simp_all add: p4)
    then show ?thesis
      using that lane_update [of t ns' "\<lambda>w n. set_uint4 w (fnv4 (uint4 w n) (uint4 w (cache light ! (pi ! t)))) n"] by (simp add: upd_def)
  qed
  have outer: "fold (\<lambda>t ns. fold (\<lambda>w ns. ns[t := set_uint4 w (fnv4 (uint4 w (ns ! t)) (map (\<lambda>k. uint4 k (cache light ! (pi ! t))) [0..<4] ! w)) (ns ! t)]) [0..<4] ns) ts ns' =
      fold (\<lambda>t ns. ns[t := upd t (ns ! t)]) ts ns'" if "set ts \<subseteq> set [0..<4]" "length ns' = 4" for ts ns'
    using that by (induction ts arbitrary: ns') (simp_all add: step)
  have "upd t (ns ! t) = dag_parent light (ucast (idx ! t)) i (ns ! t)" if "t < 4" for t
  proof -
    have n: "length (ns ! t) = 16" using that assms(2,3) by simp
    have "ucast (idx ! t XOR of_nat i) = (ucast (idx ! t) XOR of_nat i :: u32)" by (rule bit_word_eqI) (simp add: bit_simps)
    then show ?thesis
      using that fnv_node_uint4s [OF n cache_node [OF assms(1)]]
      by (simp add: upd_def pi_def dag_parent_fnv fnv_hash_def FNV_PRIME_def)
  qed
  then show ?thesis
    unfolding cuda_parents_def pi_def [symmetric] Let_def outer [OF subset_refl assms(2)]
    using fold_lanes4 [OF assms(2), of upd] by simp
qed

lemma cuda_parents_fold:
  assumes "light_ok light" "length ns = 4" "\<forall>n \<in> set ns. length n = 16" "length idx = 4"
  shows "fold (cuda_parents (num_parent_nodes light) (cache light) idx) is ns =
    map (\<lambda>l. fold (dag_parent light (ucast (idx ! l))) is (ns ! l)) [0..<4]"
  using assms(2,3)
proof (induction "is" arbitrary: ns)
  case Nil
  then show ?case using map_nth [of ns] by simp
next
  case (Cons i "is")
  let ?ns = "map (\<lambda>l. dag_parent light (ucast (idx ! l)) i (ns ! l)) [0..<4]"
  have "length ?ns = 4" "\<forall>n \<in> set ?ns. length n = 16" by (auto simp: NODE_WORDS_def)
  from Cons.IH [OF this] show ?case
    using cuda_parents_eq [OF assms(1) Cons.prems assms(4), of i] by (simp add: upt_rec)
qed

definition item_start :: "ethash_light \<Rightarrow> nat \<Rightarrow> u32 \<Rightarrow> node" where
  "item_start light j k = (let n = cache light ! (j mod num_parent_nodes light) in n[0 := n ! 0 XOR k])"

lemma length_item_start: "light_ok light \<Longrightarrow> length (item_start light j k) = 16"
  using cache_node [of light j] by (simp add: item_start_def Let_def)

lemma dag_item_start:
  "ethash_calculate_dag_item light k =
    sha3_node (node_bytes (fold (dag_parent light k) [0..<256] (sha3_node (node_bytes (item_start light (unat k) k)))))"
  by (simp add: ethash_calculate_dag_item_def item_start_def ETHASH_DATASET_PARENTS_def Let_def)

lemma cuda_lanes:
  assumes "light_ok light" "length idx = 4" "\<forall>k \<in> set idx. unat k < 2 ^ 32"
  shows "map cuda_sha3_node (fold (cuda_parents (num_parent_nodes light) (cache light) idx) [0..<256]
      (map cuda_sha3_node (map (\<lambda>k. let n = cache light ! (unat k mod num_parent_nodes light) in n[0 := n ! 0 XOR ucast k]) idx))) =
    map (\<lambda>k. ethash_calculate_dag_item light (ucast k)) idx"
proof -
  let ?ns = "map (\<lambda>k. sha3_node (node_bytes (item_start light (unat k) (ucast k)))) idx"
  have ns: "map cuda_sha3_node (map (\<lambda>k. let n = cache light ! (unat k mod num_parent_nodes light) in n[0 := n ! 0 XOR ucast k]) idx) = ?ns"
    using cuda_sha3_node_eq [OF length_item_start [OF assms(1)]] by (simp add: item_start_def)
  have l: "length ?ns = 4" "\<forall>n \<in> set ?ns. length n = 16" using assms(2) by (auto simp: NODE_WORDS_def)
  have f: "length (fold (dag_parent light k) [0..<256] (sha3_node (node_bytes (item_start light j k')))) = 16" for j k k'
    using dag_parents_fold [OF assms(1), of "sha3_node (node_bytes (item_start light j k'))" k "[0..<256]"] by (simp add: NODE_WORDS_def)
  have u: "unat (ucast k :: u32) = unat k" if "k \<in> set idx" for k
    using that assms(3) by (simp add: unsigned_ucast_eq take_bit_nat_eq_self)
  have idx: "idx = map ((!) idx) [0..<4]" using assms(2) map_nth [of idx] by simp
  have "map cuda_sha3_node (map (\<lambda>l. fold (dag_parent light (ucast (idx ! l))) [0..<256] (?ns ! l)) [0..<4]) =
      map (\<lambda>l. ethash_calculate_dag_item light (ucast (idx ! l))) [0..<4]"
    using assms(2) u by (simp add: cuda_sha3_node_eq [OF f] dag_item_start)
  also have "\<dots> = map (\<lambda>k. ethash_calculate_dag_item light (ucast k)) idx" by (subst (2) idx) simp
  finally show ?thesis unfolding ns cuda_parents_fold [OF assms(1) l assms(2), of "[0..<256]"] .
qed

definition dag_filled :: "ethash_light \<Rightarrow> nat \<Rightarrow> node option list \<Rightarrow> nat set \<Rightarrow> node option list \<Rightarrow> bool" where
  "dag_filled light M g0 D g \<longleftrightarrow> length g = length g0 \<and>
     (\<forall>k < length g0. g ! k = (if k \<in> D \<and> 64 * k < M then Some (ethash_calculate_dag_item light (of_nat k)) else g0 ! k))"

lemma run_all_filled:
  assumes "\<And>x g D. x \<in> set xs \<Longrightarrow> dag_filled light M g0 D g \<Longrightarrow> \<exists>g'. f x g = Some g' \<and> dag_filled light M g0 (D \<union> E x) g'"
    "dag_filled light M g0 D g"
  shows "\<exists>g'. run_all f xs g = Some g' \<and> dag_filled light M g0 (D \<union> (\<Union>x \<in> set xs. E x)) g'"
  using assms
proof (induction xs arbitrary: D g)
  case (Cons x xs)
  obtain g1 where g1: "f x g = Some g1" "dag_filled light M g0 (D \<union> E x) g1" using Cons.prems by force
  have "\<exists>g'. run_all f xs g1 = Some g' \<and> dag_filled light M g0 (D \<union> E x \<union> (\<Union>x \<in> set xs. E x)) g'"
    using Cons.IH [OF _ g1(2)] Cons.prems(1) by simp
  then show ?case using g1(1) by (simp add: Un_assoc)
qed simp

lemma cl_item_filled:
  assumes "light_ok light" "isolate \<noteq> 0" "dag_filled light M g0 D g" "length g0 \<le> 2 ^ 32" "M \<le> 64 * length g0"
  shows "\<exists>g'. cl_calculate_dag_item (num_parent_nodes light) M (cache light) isolate start gid g = Some g' \<and>
    dag_filled light M g0 (D \<union> {unat (start + of_nat gid)}) g'"
proof (cases "M \<le> unat (start + of_nat gid) * 64")
  case True
  then show ?thesis using assms(3) by (auto simp: cl_calculate_dag_item_def dag_filled_def)
next
  case False
  let ?k = "start + of_nat gid :: u32"
  have k: "unat ?k < length g0" using False assms(5) by simp
  have "cl_calculate_dag_item (num_parent_nodes light) M (cache light) isolate start gid g =
      Some (g[unat ?k := Some (ethash_calculate_dag_item light ?k)])"
    using False cl_dag_node_eq [OF assms(1,2), of ?k] by (simp add: cl_calculate_dag_item_def Let_def)
  moreover have "dag_filled light M g0 (D \<union> {unat ?k}) (g[unat ?k := Some (ethash_calculate_dag_item light ?k)])"
    using False assms(3) k by (auto simp: dag_filled_def nth_list_update)
  ultimately show ?thesis by blast
qed

lemma cl_launch_filled:
  assumes "light_ok light" "isolate \<noteq> 0" "dag_filled light M g0 D g" "length g0 \<le> 2 ^ 32" "M \<le> 64 * length g0"
  shows "\<exists>g'. cl_launch (num_parent_nodes light) M (cache light) isolate n start g = Some g' \<and>
    dag_filled light M g0 (D \<union> (\<Union>gid < n. {unat (start + of_nat gid)})) g'"
proof -
  have "\<exists>g'. run_all (cl_calculate_dag_item (num_parent_nodes light) M (cache light) isolate start) [0..<n] g = Some g' \<and>
      dag_filled light M g0 (D \<union> (\<Union>gid \<in> set [0..<n]. {unat (start + of_nat gid)})) g'"
    by (rule run_all_filled [OF _ assms(3)]) (rule cl_item_filled [OF assms(1,2) _ assms(4,5)])
  then show ?thesis by (simp add: cl_launch_def atLeast0LessThan)
qed

lemma full_runs_eq:
  assumes "0 < n" "work < 2 ^ 32"
  shows "full_runs work n = work div n + (if 0 < work mod n then 1 else 0)"
proof -
  have "work div n + (if 0 < work mod n then 1 else 0) \<le> work"
  proof (cases "n = 1")
    case False
    have "work div n * n + work mod n = work" by simp
    moreover have "work div n * 2 \<le> work div n * n" using False assms(1) by (intro mult_le_mono2) simp
    ultimately show ?thesis using assms(1) by (cases "work div n") auto
  qed simp
  then show ?thesis using assms(2) by (simp add: full_runs_def)
qed

lemma full_runs_cover: "0 < n \<Longrightarrow> k < work \<Longrightarrow> work < 2 ^ 32 \<Longrightarrow> k div n < full_runs work n"
proof -
  assume a: "0 < n" "k < work" "work < 2 ^ 32"
  have "k div n \<le> work div n" using a(2) by (simp add: div_le_mono)
  moreover have "k div n < work div n" if "work mod n = 0"
  proof -
    obtain m where "work = n * m" using \<open>work mod n = 0\<close> by (auto simp: mod_eq_0_iff_dvd)
    then show ?thesis using a(1,2) by (simp add: less_mult_imp_div_less mult.commute)
  qed
  ultimately show ?thesis by (auto simp: full_runs_eq [OF a(1,3)])
qed

lemma full_runs_start: "0 < n \<Longrightarrow> work < 2 ^ 32 \<Longrightarrow> i < full_runs work n \<Longrightarrow> i * n < work"
proof -
  assume a: "0 < n" "work < 2 ^ 32" "i < full_runs work n"
  have w: "work div n * n + work mod n = work" by simp
  show ?thesis
  proof (cases "work mod n = 0")
    case True
    then have "Suc i * n \<le> work div n * n" using a by (intro mult_le_mono1) (simp add: full_runs_eq)
    then show ?thesis using a(1) w by (simp only: mult_Suc)
  next
    case False
    then have "i * n \<le> work div n * n" using a by (intro mult_le_mono1) (simp add: full_runs_eq)
    then show ?thesis using False w by linarith
  qed
qed

lemma unat_u32: "k < 2 ^ 32 \<Longrightarrow> unat (of_nat k :: u32) = k"
  by (simp add: unsigned_of_nat take_bit_nat_eq_self)

lemma unat_u64: "k < 2 ^ 64 \<Longrightarrow> unat (of_nat k :: u64) = k"
  by (simp add: unsigned_of_nat take_bit_nat_eq_self)

lemma ucast_u64_nat: "ucast (of_nat k :: u64) = (of_nat k :: u32)"
  by (rule bit_word_eqI) (simp add: bit_simps)

lemma dag_filled_final:
  assumes "dag_filled light M g0 D g" "{..<length g0} \<subseteq> D"
  shows "length g = length g0 \<and>
    (\<forall>k < length g0. g ! k = (if 64 * k < M then Some (ethash_calculate_dag_item light (of_nat k)) else g0 ! k))"
  using assms by (auto simp: dag_filled_def)

lemma cl_generate_filled:
  assumes "light_ok light" "0 < n" "length g0 = dagBytes div 64" "dagBytes div 64 < 2 ^ 32" "M \<le> 64 * (dagBytes div 64)"
  shows "\<exists>g. cl_generate_dag (num_parent_nodes light) M (cache light) dagBytes n g0 = Some g \<and> length g = length g0 \<and>
    (\<forall>k < length g0. g ! k = (if 64 * k < M then Some (ethash_calculate_dag_item light (of_nat k)) else g0 ! k))"
proof -
  let ?E = "\<lambda>i. \<Union>gid < n. {unat (of_nat i * of_nat n + of_nat gid :: u32)}"
  let ?r = "full_runs (dagBytes div 64) n"
  have "dag_filled light M g0 {} g0" by (simp add: dag_filled_def)
  then have "\<exists>g. run_all (\<lambda>i. cl_launch (num_parent_nodes light) M (cache light) (NOT 0) n (of_nat i * of_nat n)) [0..<?r] g0 = Some g \<and>
      dag_filled light M g0 ({} \<union> (\<Union>i \<in> set [0..<?r]. ?E i)) g"
    using cl_launch_filled [OF assms(1), of "NOT 0" M g0 _ _ n] assms(3-5) by (intro run_all_filled) auto
  then obtain g where g: "cl_generate_dag (num_parent_nodes light) M (cache light) dagBytes n g0 = Some g"
      "dag_filled light M g0 (\<Union>i < ?r. ?E i) g"
    using assms(4) by (auto simp: cl_generate_dag_def Let_def atLeast0LessThan)
  have "k \<in> (\<Union>i < ?r. ?E i)" if "k < length g0" for k
  proof -
    have "of_nat (k div n) * of_nat n + of_nat (k mod n) = (of_nat (k div n * n + k mod n) :: u32)" by (simp only: of_nat_add of_nat_mult)
    then have "unat (of_nat (k div n) * of_nat n + of_nat (k mod n) :: u32) = k" using that assms(3,4) by (simp add: unat_u32)
    moreover have "k div n < ?r" "k mod n < n" using full_runs_cover [OF assms(2)] that assms(2,3,4) by auto
    ultimately show ?thesis by blast
  qed
  then have "{..<length g0} \<subseteq> (\<Union>i < ?r. ?E i)" by blast
  from dag_filled_final [OF g(2) this] g(1) show ?thesis by blast
qed

lemma dag_filled_stores:
  assumes "dag_filled light (64 * N) g0 D g" "length g0 = N"
    "\<And>t h. t < m \<Longrightarrow> store t h = (if B + t < N then h[B + t := Some (ethash_calculate_dag_item light (of_nat (B + t)))] else h)"
  shows "dag_filled light (64 * N) g0 (D \<union> {B..<B + m}) (fold store [0..<m] g)"
proof -
  have "n \<le> m \<Longrightarrow> dag_filled light (64 * N) g0 (D \<union> {B..<B + n}) (fold store [0..<n] g)" for n
  proof (induction n)
    case (Suc n)
    let ?h = "fold store [0..<n] g"
    have f: "fold store [0..<Suc n] g = (if B + n < N then ?h[B + n := Some (ethash_calculate_dag_item light (of_nat (B + n)))] else ?h)"
      using Suc.prems assms(3) [of n ?h] by simp
    show ?case unfolding f using Suc assms(2) by (auto simp: dag_filled_def nth_list_update)
  qed (simp add: assms(1))
  then show ?thesis by simp
qed

lemma cuda_quad_filled:
  assumes "light_ok light" "dag_filled light (64 * N) g0 D g" "length g0 = N" "N < 2 ^ 32 - 4" "B mod 4 = 0" "B < 2 ^ 63"
  shows "\<exists>g'. cuda_quad (num_parent_nodes light) (64 * N) (cache light) (of_nat B) g = Some g' \<and>
    dag_filled light (64 * N) g0 (D \<union> {B..<B + 4}) g'"
proof -
  let ?R = "((N + 3) div 4) * 4"
  define idx where "idx = map (\<lambda>l. of_nat B + of_nat l :: u64) [0..<4]"
  have idx: "idx ! l = of_nat (B + l)" "unat (idx ! l) = B + l" if "l < 4" for l
    using that assms(6) unat_u64 [of "B + l"] by (simp_all add: idx_def del: of_nat_add) (simp_all only: of_nat_add)
  have R: "N \<le> ?R" "?R \<le> N + 3" "?R mod 4 = 0" by (linarith, linarith, simp)
  have set: "set idx = {idx ! 0, idx ! 1, idx ! 2, idx ! 3}" by (auto simp: idx_def upt_rec)
  have all: "list_all (\<lambda>k. ?R \<le> unat k) idx \<longleftrightarrow> ?R \<le> B" "list_ex (\<lambda>k. ?R \<le> unat k) idx \<longleftrightarrow> ?R \<le> B + 3"
    unfolding list_all_iff list_ex_iff set using idx(2) [of 0] idx(2) [of 1] idx(2) [of 2] idx(2) [of 3] by auto
  show ?thesis
  proof (cases "?R \<le> B")
    case True
    then have "cuda_quad (num_parent_nodes light) (64 * N) (cache light) (of_nat B) g = Some g"
      using all by (simp add: cuda_quad_def Let_def idx_def)
    moreover have "dag_filled light (64 * N) g0 (D \<union> {B..<B + 4}) g"
      using assms(2,3) True R(1) by (auto simp: dag_filled_def)
    ultimately show ?thesis by blast
  next
    case False
    then have B: "B + 3 < ?R" using assms(5) R(3) by presburger
    let ?ns = "map (\<lambda>k. ethash_calculate_dag_item light (ucast k)) idx"
    have len: "length idx = 4" by (simp add: idx_def)
    have "\<forall>k \<in> set idx. unat k < 2 ^ 32" unfolding set using idx(2) [of 0] idx(2) [of 1] idx(2) [of 2] idx(2) [of 3] B R(2) assms(4) by auto
    note lanes = cuda_lanes [OF assms(1) len this]
    have "cuda_quad (num_parent_nodes light) (64 * N) (cache light) (of_nat B) g =
        Some (fold (cuda_store (64 * N) idx ?ns) [0..<4] g)"
      using all B False lanes by (simp add: cuda_quad_def Let_def idx_def [symmetric])
    moreover have store: "cuda_store (64 * N) idx ?ns t h =
        (if B + t < N then h[B + t := Some (ethash_calculate_dag_item light (of_nat (B + t)))] else h)" if "t < 4" for t h
    proof -
      have "ucast (idx ! t) = (of_nat (B + t) :: u32)" "B + t < 2 ^ 32"
        using idx(1) [OF that] that B R(2) assms(4) by (simp_all add: ucast_u64_nat del: of_nat_add)
      then show ?thesis
        using that len unat_u32 [of "B + t"] uint4s_store [of "ethash_calculate_dag_item light (of_nat (B + t))"]
        by (auto simp: cuda_store_def Let_def NODE_WORDS_def simp del: of_nat_add)
    qed
    ultimately show ?thesis using dag_filled_stores [OF assms(2,3), of 4 "cuda_store (64 * N) idx ?ns" B] by auto
  qed
qed

lemma cuda_launch_filled:
  assumes "light_ok light" "dag_filled light (64 * N) g0 D g" "length g0 = N" "N < 2 ^ 32 - 4" "T mod 4 = 0" "S mod 4 = 0"
    "S < 2 ^ 32" "0 < T" "blocks * T < 2 ^ 32"
  shows "\<exists>g'. cuda_launch (num_parent_nodes light) (64 * N) (cache light) blocks T (of_nat S) g = Some g' \<and>
    dag_filled light (64 * N) g0 (D \<union> (\<Union>(b, q) \<in> set (List.product [0..<blocks] [0..<T div 4]). {S + b * T + 4 * q..<S + b * T + 4 * q + 4})) g'"
proof -
  have q: "\<exists>g'. cuda_quad (num_parent_nodes light) (64 * N) (cache light) (ucast (of_nat S :: u32) + of_nat b * of_nat T + of_nat (4 * q)) h = Some g' \<and>
      dag_filled light (64 * N) g0 (D' \<union> {S + b * T + 4 * q..<S + b * T + 4 * q + 4}) g'"
    if "b < blocks" "q < T div 4" "dag_filled light (64 * N) g0 D' h" for b q h D'
  proof -
    have "ucast (of_nat S :: u32) = (of_nat S :: u64)" using assms(7) by (simp add: word_unat_eq_iff unsigned_ucast_eq unsigned_of_nat take_bit_nat_eq_self)
    then have e: "ucast (of_nat S :: u32) + of_nat b * of_nat T + of_nat (4 * q) = (of_nat (S + b * T + 4 * q) :: u64)" by simp
    have "Suc b * T \<le> blocks * T" using that(1) by (intro mult_le_mono1) simp
    moreover have "4 * q < T" using that(2) by linarith
    ultimately have lt: "S + b * T + 4 * q < 2 ^ 63" using assms(7,9) by simp
    have "(S + b * T + 4 * q) mod 4 = 0" using assms(5,6) by (auto simp: mod_eq_0_iff_dvd)
    then show ?thesis unfolding e using lt by (rule cuda_quad_filled [OF assms(1) that(3) assms(3,4)])
  qed
  have "\<exists>g'. run_all (\<lambda>(b, q). cuda_quad (num_parent_nodes light) (64 * N) (cache light) (ucast (of_nat S :: u32) + of_nat b * of_nat T + of_nat (4 * q)))
       (List.product [0..<blocks] [0..<T div 4]) g = Some g' \<and>
    dag_filled light (64 * N) g0 (D \<union> (\<Union>x \<in> set (List.product [0..<blocks] [0..<T div 4]). case x of (b, q) \<Rightarrow> {S + b * T + 4 * q..<S + b * T + 4 * q + 4})) g'"
    by (rule run_all_filled [OF _ assms(2)]) (use q in \<open>auto simp del: of_nat_mult\<close>)
  then show ?thesis using assms(5) by (simp add: cuda_launch_def)
qed

lemma cuda_index_cover:
  assumes "T mod 4 = 0" "0 < b * T"
  shows "k \<in> (\<Union>(c, q) \<in> set (List.product [0..<b] [0..<T div 4]).
    {k div (b * T) * (b * T) + c * T + 4 * q..<k div (b * T) * (b * T) + c * T + 4 * q + 4})"
proof -
  define r where "r = k mod (b * T)"
  have k: "k = k div (b * T) * (b * T) + r" unfolding r_def by (rule div_mult_mod_eq [symmetric])
  have "r < b * T" using assms(2) by (simp add: r_def)
  then have c: "r div T < b" by (simp add: less_mult_imp_div_less)
  have T: "0 < T" using assms(2) by simp
  then have m: "r mod T < T" by simp
  have q: "r mod T div 4 < T div 4" 
  proof -
    have "x div 4 < T div 4" if "x < T" for x using that assms(1) by presburger
    then show ?thesis using m .
  qed
  have "r = r div T * T + 4 * (r mod T div 4) + r mod T mod 4" "r mod T mod 4 < 4" by simp_all
  then have "k \<in> {k div (b * T) * (b * T) + r div T * T + 4 * (r mod T div 4)..<
      k div (b * T) * (b * T) + r div T * T + 4 * (r mod T div 4) + 4}"
    using k unfolding atLeastLessThan_iff by linarith
  moreover have "(r div T, r mod T div 4) \<in> set (List.product [0..<b] [0..<T div 4])" using c q by auto
  ultimately show ?thesis by blast
qed

lemma cuda_generate_filled:
  assumes "light_ok light" "length g0 = N" "N < 2 ^ 32 - 4" "unat threads mod 4 = 0" "0 < unat blocks * unat threads"
    "unat blocks * unat threads < 2 ^ 32"
  shows "ethash_generate_dag (64 * N) (cache light) (num_parent_nodes light) blocks threads g0 = Some (map Some (full_dag light N))"
proof -
  define n where "n = unat blocks * unat threads"
  let ?r = "full_runs N n"
  let ?E = "\<lambda>i. \<Union>(b, q) \<in> set (List.product [0..<unat blocks] [0..<unat threads div 4]).
      {i * n + b * unat threads + 4 * q..<i * n + b * unat threads + 4 * q + 4}"
  have n: "0 < n" "n < 2 ^ 32" "blocks * threads = of_nat n" "n mod 4 = 0"
    using assms(4-6) by (auto simp: n_def mod_eq_0_iff_dvd)
  have un: "unat (blocks * threads) = n" using n(2,3) by (simp add: unat_u32)
  have N: "N < 2 ^ 32" using assms(3) by simp
  have start: "of_nat i * blocks * threads = (of_nat (i * n) :: u32)" for i by (simp add: mult.assoc n(3))
  have "\<exists>g. run_all (\<lambda>i. cuda_launch (num_parent_nodes light) (64 * N) (cache light) (unat blocks) (unat threads) (of_nat i * blocks * threads)) [0..<?r] g0 = Some g \<and>
      dag_filled light (64 * N) g0 ({} \<union> (\<Union>i \<in> set [0..<?r]. ?E i)) g"
  proof (rule run_all_filled)
    fix i g D assume i: "i \<in> set [0..<?r]" and g: "dag_filled light (64 * N) g0 D g"
    have "i * n < N" using i full_runs_start [OF n(1) N] by simp
    then show "\<exists>g'. cuda_launch (num_parent_nodes light) (64 * N) (cache light) (unat blocks) (unat threads) (of_nat i * blocks * threads) g = Some g' \<and>
        dag_filled light (64 * N) g0 (D \<union> ?E i) g'"
      unfolding start using assms(4-6) n(4) N
      by (intro cuda_launch_filled [OF assms(1) g assms(2,3)]) (auto simp: mod_eq_0_iff_dvd)
  qed (simp add: dag_filled_def)
  then obtain g where g: "ethash_generate_dag (64 * N) (cache light) (num_parent_nodes light) blocks threads g0 = Some g"
      "dag_filled light (64 * N) g0 (\<Union>i < ?r. ?E i) g"
    by (auto simp: ethash_generate_dag_def Let_def un atLeast0LessThan)
  have "{..<length g0} \<subseteq> (\<Union>i < ?r. ?E i)"
    using cuda_index_cover [OF assms(4,5)] full_runs_cover [OF n(1) _ N] assms(2) unfolding n_def by blast
  from dag_filled_final [OF g(2) this] have "g = map Some (full_dag light N)"
    using assms(2) by (intro nth_equalityI) (simp_all add: full_dag_def)
  with g(1) show ?thesis by simp
qed

section \<open>Properties\<close>

text \<open>A number becomes a macro of the OpenCL source through a parameter of type \<open>unsigned\<close>.\<close>

definition macro_value :: "nat \<Rightarrow> nat" where
  "macro_value v = v mod 2 ^ 32"

text \<open>
  C27: for every tabulated epoch the CUDA DAG generation terminates without undefined shuffles and leaves
  in the buffer exactly the DAG of the light client, for all launch shapes with a thread count divisible
  by four whose product with the block count fits 32 bits.
\<close>

theorem cuda_dag_is_full_dag:
  assumes "ethash_light_new True True bn = Inr light" "ethash_get_datasize bn = Inr dag_bytes" "unat threads mod 4 = 0"
    "0 < unat blocks * unat threads" "unat blocks * unat threads < 2 ^ 32"
  shows "ethash_generate_dag dag_bytes (cache light) (num_parent_nodes light) blocks threads (replicate (dag_bytes div 64) None) =
    Some (map Some (full_dag light (dag_bytes div 64)))"
proof -
  have e: "bn div ETHASH_EPOCH_LENGTH < 2048" "dag_bytes = dag_sizes ! (bn div ETHASH_EPOCH_LENGTH)"
    using assms(2) by (auto simp: ethash_get_datasize_def split: if_splits)
  have "light_ok light" using light_new_ok [OF e(1)] assms(1) by auto
  moreover have d: "64 * (dag_bytes div 64) = dag_bytes" "dag_bytes < 2 ^ 35"
    using dag_sizes_dvd [OF e(1)] dag_sizes_less [OF e(1)] e(2) by (auto elim!: dvdE)
  moreover have "dag_bytes div 64 < 2 ^ 32 - 4" using d(2) by simp
  ultimately show ?thesis
    using cuda_generate_filled [of light "replicate (dag_bytes div 64) None" "dag_bytes div 64" threads blocks] assms(3-5) by simp
qed

theorem cuda_dag_is_full_dag_witness:
  "\<exists>light. ethash_light_new True True 0 = Inr light \<and>
    ethash_generate_dag (dag_sizes ! 0) (cache light) (num_parent_nodes light) 8192 128 (replicate (dag_sizes ! 0 div 64) None) =
      Some (map Some (full_dag light (dag_sizes ! 0 div 64)))"
proof -
  obtain light where "ethash_light_new True True 0 = Inr light" using light_new_ok [of 0] by auto
  then show ?thesis
    using cuda_dag_is_full_dag [of 0 light "dag_sizes ! 0" 128 8192] by (simp add: ethash_get_datasize_def)
qed

text \<open>
  C28: the OpenCL DAG generation writes the node of the light client wherever \<open>64 * k\<close> is below the DAG size
  reduced to 32 bits, and nothing elsewhere: up to epoch 384 that is the whole DAG, from epoch 385 on
  the DAG stays incomplete.
\<close>

theorem cl_dag_truncated:
  assumes "ethash_light_new True True bn = Inr light" "ethash_get_datasize bn = Inr dagBytes" "0 < n"
  shows "\<exists>g. cl_generate_dag (num_parent_nodes light) (macro_value dagBytes) (cache light) dagBytes n (replicate (dagBytes div 64) None) = Some g \<and>
    length g = dagBytes div 64 \<and>
    (\<forall>k < dagBytes div 64. g ! k = (if 64 * k < dagBytes mod 2 ^ 32 then Some (ethash_calculate_dag_item light (of_nat k)) else None)) \<and>
    (if bn div ETHASH_EPOCH_LENGTH \<le> 384 then g = map Some (full_dag light (dagBytes div 64)) else last g = None)"
proof -
  let ?e = "bn div ETHASH_EPOCH_LENGTH" and ?N = "dagBytes div 64"
  have e: "?e < 2048" "dagBytes = dag_sizes ! ?e"
    using assms(2) by (auto simp: ethash_get_datasize_def split: if_splits)
  have l: "light_ok light" using light_new_ok [OF e(1)] assms(1) by auto
  have d: "64 * ?N = dagBytes" "dagBytes < 2 ^ 30 + 2 ^ 23 * ?e" "2 ^ 30 + 2 ^ 23 * ?e \<le> dagBytes + 14000"
    using dag_sizes_dvd [OF e(1)] dag_sizes_nth [OF e(1)] e(2) by (auto elim!: dvdE)
  have "macro_value dagBytes \<le> 64 * ?N" unfolding d(1) macro_value_def by (rule mod_less_eq_dividend)
  moreover have "?N < 2 ^ 32" using dag_sizes_less [OF e(1)] e(2) by simp
  ultimately obtain g where g: "cl_generate_dag (num_parent_nodes light) (macro_value dagBytes) (cache light) dagBytes n (replicate ?N None) = Some g"
      "length g = ?N"
      "\<forall>k < ?N. g ! k = (if 64 * k < dagBytes mod 2 ^ 32 then Some (ethash_calculate_dag_item light (of_nat k)) else None)"
    using cl_generate_filled [OF l assms(3), of "replicate ?N None" dagBytes "macro_value dagBytes"] by (auto simp: macro_value_def)
  have "if ?e \<le> 384 then g = map Some (full_dag light ?N) else last g = None"
  proof (cases "?e \<le> 384")
    case True
    have "64 * k < dagBytes mod 2 ^ 32" if "k < ?N" for k
    proof -
      have "dagBytes < 2 ^ 32" using d(2) True by simp
      then show ?thesis using that d(1) by simp
    qed
    then have "g = map Some (full_dag light ?N)" using g(2,3) by (intro nth_equalityI) (simp_all add: full_dag_def)
    then show ?thesis using True by simp
  next
    case False
    then have big: "2 ^ 32 + 64 \<le> dagBytes" using d(3) by simp
    have "dagBytes mod 2 ^ 32 < 2 ^ 32" by simp
    with big d(1) have "\<not> 64 * (?N - 1) < dagBytes mod 2 ^ 32" "?N - 1 < ?N" "?N \<noteq> 0" by linarith+
    then have "last g = None" using g(2,3) by (simp add: last_conv_nth flip: length_greater_0_conv)
    then show ?thesis using False by simp
  qed
  with g show ?thesis by blast
qed

theorem cl_dag_truncated_witness:
  "\<exists>light g. ethash_light_new True True 3080000 = Inr light \<and>
    cl_generate_dag (num_parent_nodes light) (macro_value (dag_sizes ! 385)) (cache light) (dag_sizes ! 385) 524288
      (replicate (dag_sizes ! 385 div 64) None) = Some g \<and> last g = None"
proof -
  obtain light where "ethash_light_new True True 3080000 = Inr light"
    using light_new_ok [of 3080000] by (auto simp: ETHASH_EPOCH_LENGTH_def)
  then show ?thesis
    using cl_dag_truncated [of 3080000 light "dag_sizes ! 385" 524288]
    by (auto simp: ethash_get_datasize_def ETHASH_EPOCH_LENGTH_def)
qed

end
