(* ===== verification/CudaHelper.thy ===== *)
theory CudaHelper
  imports Kernel DagKernel
begin

unbundle bit_operations_syntax

text \<open>
  The device functions of \<^verbatim>\<open>libethash-cuda/cuda_helper.h\<close>: 64-bit words as pairs of 32-bit registers, rotations, byte order,
  carries, bit fields and the comparison of a hash with a target.  Most of them are inline assembly, so the PTX
  instructions they use come first, as the instruction set describes them: shift counts beyond the width give zero, the \<open>wrap\<close>
  funnel shifts reduce the count modulo 32 and the \<open>clamp\<close> ones limit it to 32, \<open>.cc\<close> instructions leave a carry that the
  following \<open>c\<close> instruction adds or subtracts.  Where the header has several versions of a function for different devices each is
  a definition, and the facts compare all of them with the operations on 64-bit words.
\<close>

section \<open>PTX instructions\<close>

definition mov_pack :: "u32 \<Rightarrow> u32 \<Rightarrow> u64" where
  "mov_pack lo hi = push_bit 32 (ucast hi) OR ucast lo"

definition mov_lo :: "u64 \<Rightarrow> u32" where "mov_lo x = ucast x"
definition mov_hi :: "u64 \<Rightarrow> u32" where "mov_hi x = ucast (drop_bit 32 x)"

definition shl32 :: "u32 \<Rightarrow> u32 \<Rightarrow> u32" where "shl32 x n = push_bit (unat n) x"
definition shr32 :: "u32 \<Rightarrow> u32 \<Rightarrow> u32" where "shr32 x n = drop_bit (unat n) x"
definition shl64 :: "u64 \<Rightarrow> u32 \<Rightarrow> u64" where "shl64 x n = push_bit (unat n) x"
definition shr64 :: "u64 \<Rightarrow> u32 \<Rightarrow> u64" where "shr64 x n = drop_bit (unat n) x"

definition funnel_l :: "u32 \<Rightarrow> u32 \<Rightarrow> nat \<Rightarrow> u32" where
  "funnel_l a b n = push_bit n b OR drop_bit (32 - n) a"

definition funnel_r :: "u32 \<Rightarrow> u32 \<Rightarrow> nat \<Rightarrow> u32" where
  "funnel_r a b n = push_bit (32 - n) b OR drop_bit n a"

definition shf_l_wrap :: "u32 \<Rightarrow> u32 \<Rightarrow> u32 \<Rightarrow> u32" where "shf_l_wrap a b c = funnel_l a b (unat (c AND 31))"
definition shf_r_wrap :: "u32 \<Rightarrow> u32 \<Rightarrow> u32 \<Rightarrow> u32" where "shf_r_wrap a b c = funnel_r a b (unat (c AND 31))"
definition shf_l_clamp :: "u32 \<Rightarrow> u32 \<Rightarrow> u32 \<Rightarrow> u32" where "shf_l_clamp a b c = funnel_l a b (min (unat c) 32)"
definition shf_r_clamp :: "u32 \<Rightarrow> u32 \<Rightarrow> u32 \<Rightarrow> u32" where "shf_r_clamp a b c = funnel_r a b (min (unat c) 32)"

text \<open>Instructions with \<open>.cc\<close> give the result and the carry (or borrow); \<^const>\<open>mul_hi\<close> is the one of the search kernel.\<close>

definition add_cc :: "u32 \<Rightarrow> u32 \<Rightarrow> u32 \<times> bool" where "add_cc a b = (a + b, 2 ^ 32 \<le> unat a + unat b)"
definition addc :: "bool \<Rightarrow> u32 \<Rightarrow> u32 \<Rightarrow> u32" where "addc cc a b = a + b + of_bool cc"
definition sub_cc :: "u32 \<Rightarrow> u32 \<Rightarrow> u32 \<times> bool" where "sub_cc a b = (a - b, a < b)"
definition subc :: "bool \<Rightarrow> u32 \<Rightarrow> u32 \<Rightarrow> u32" where "subc cc a b = a - (b + of_bool cc)"
definition mul_lo :: "u32 \<Rightarrow> u32 \<Rightarrow> u32" where "mul_lo a b = a * b"
definition mad_lo_cc :: "u32 \<Rightarrow> u32 \<Rightarrow> u32 \<Rightarrow> u32 \<times> bool" where "mad_lo_cc a b c = add_cc (mul_lo a b) c"
definition madc_lo :: "bool \<Rightarrow> u32 \<Rightarrow> u32 \<Rightarrow> u32 \<Rightarrow> u32" where "madc_lo cc a b c = addc cc (mul_lo a b) c"
definition madc_hi :: "bool \<Rightarrow> u32 \<Rightarrow> u32 \<Rightarrow> u32 \<Rightarrow> u32" where "madc_hi cc a b c = addc cc (mul_hi a b) c"

text \<open>Bit fields: position and length are the low bytes of the operands; bits beyond the word are dropped.\<close>

definition bfe_u32 :: "u32 \<Rightarrow> u32 \<Rightarrow> u32 \<Rightarrow> u32" where
  "bfe_u32 a b c = take_bit (unat (c AND 255)) (drop_bit (unat (b AND 255)) a)"

definition bfi_b32 :: "u32 \<Rightarrow> u32 \<Rightarrow> u32 \<Rightarrow> u32 \<Rightarrow> u32" where
  "bfi_b32 a b c d =
     (let m = push_bit (unat (c AND 255)) (mask (unat (d AND 255)))
      in (push_bit (unat (c AND 255)) a AND m) OR (b AND NOT m))"

section \<open>32-bit rotations and byte order\<close>

text \<open>The shifts of C are undefined, here \<open>None\<close>, for a count that is not below the width of the operand; the operands of
  \<^verbatim>\<open>|\<close> and the two components of a pair are all evaluated.  Counts are not negative.\<close>

definition c_shl :: "nat \<Rightarrow> 'a::len word \<Rightarrow> 'a word option" where
  "c_shl n x = (if n < LENGTH('a) then Some (push_bit n x) else None)"

definition c_shr :: "nat \<Rightarrow> 'a::len word \<Rightarrow> 'a word option" where
  "c_shr n x = (if n < LENGTH('a) then Some (drop_bit n x) else None)"

definition c_or :: "'a::len word option \<Rightarrow> 'a word option \<Rightarrow> 'a word option" where
  "c_or x y = Option.bind x (\<lambda>a. Option.bind y (\<lambda>b. Some (a OR b)))"

definition c_pair :: "u32 option \<Rightarrow> u32 option \<Rightarrow> uint2 option" where
  "c_pair x y = Option.bind x (\<lambda>a. Option.bind y (\<lambda>b. Some (a, b)))"

lemmas c_shifts = c_shl_def c_shr_def c_or_def c_pair_def

definition ROTL32c :: "u32 \<Rightarrow> nat \<Rightarrow> u32 option" where
  "ROTL32c x n = c_or (c_shl n x) (c_shr (32 - n) x)"

definition ROTR32c :: "u32 \<Rightarrow> nat \<Rightarrow> u32 option" where
  "ROTR32c x n = c_or (c_shr n x) (c_shl (32 - n) x)"

text \<open>The versions for devices with a funnel shifter: \<^verbatim>\<open>__funnelshift_l(lo, hi, n)\<close> and \<^verbatim>\<open>__funnelshift_r\<close>.\<close>

definition ROTL32_funnel :: "u32 \<Rightarrow> u32 \<Rightarrow> u32" where
  "ROTL32_funnel x n = shf_l_wrap x x n"

definition ROTR32_funnel :: "u32 \<Rightarrow> u32 \<Rightarrow> u32" where
  "ROTR32_funnel x n = shf_r_wrap x x n"

definition MAKE_ULONGLONG :: "u32 \<Rightarrow> u32 \<Rightarrow> u64" where
  "MAKE_ULONGLONG LO HI = mov_pack LO HI"

definition REPLACE_HIWORD :: "u64 \<Rightarrow> u32 \<Rightarrow> u64" where
  "REPLACE_HIWORD x y = mov_pack (mov_lo x) y"

definition REPLACE_LOWORD :: "u64 \<Rightarrow> u32 \<Rightarrow> u64" where
  "REPLACE_LOWORD x y = mov_pack y (mov_hi x)"

definition swab32_device :: "u32 \<Rightarrow> u32" where
  "swab32_device x = byte_perm x x 0x0123"

definition swab32_host :: "u32 \<Rightarrow> u32" where
  "swab32_host x =
     (push_bit 24 x AND 0xff000000) OR (push_bit 8 x AND 0x00ff0000) OR (drop_bit 8 x AND 0x0000ff00) OR (drop_bit 24 x AND 0x000000ff)"

definition HIWORD :: "u64 \<Rightarrow> u32" where "HIWORD x = mov_hi x"
definition LOWORD :: "u64 \<Rightarrow> u32" where "LOWORD x = mov_lo x"

definition swab64_device :: "u64 \<Rightarrow> u64" where
  "swab64_device x =
     (let tx = byte_perm (mov_lo x) 0 0x0123; ty = byte_perm (mov_hi x) 0 0x0123 in mov_pack ty tx)"

definition swab64_host :: "u64 \<Rightarrow> u64" where
  "swab64_host x =
     drop_bit 56 (x AND 0xff00000000000000) OR drop_bit 40 (x AND 0x00ff000000000000) OR
     drop_bit 24 (x AND 0x0000ff0000000000) OR drop_bit 8 (x AND 0x000000ff00000000) OR
     push_bit 8 (x AND 0x00000000ff000000) OR push_bit 24 (x AND 0x0000000000ff0000) OR
     push_bit 40 (x AND 0x000000000000ff00) OR push_bit 56 (x AND 0x00000000000000ff)"

section \<open>Bitwise functions\<close>

definition xor1 :: "u64 \<Rightarrow> u64 \<Rightarrow> u64" where
  "xor1 a b = a XOR b"

definition xor8 :: "u64 \<Rightarrow> u64 \<Rightarrow> u64 \<Rightarrow> u64 \<Rightarrow> u64 \<Rightarrow> u64 \<Rightarrow> u64 \<Rightarrow> u64 \<Rightarrow> u64" where
  "xor8 a b c d e f g h =
     (let r = g XOR h; r = r XOR f; r = r XOR e; r = r XOR d; r = r XOR c; r = r XOR b in r XOR a)"

definition xandx :: "u64 \<Rightarrow> u64 \<Rightarrow> u64 \<Rightarrow> u64" where
  "xandx a b c = (let r = b XOR c; n = r AND a in n XOR c)"

definition andor :: "u64 \<Rightarrow> u64 \<Rightarrow> u64 \<Rightarrow> u64" where
  "andor a b c = (let m = a AND b; n = a OR b; r = n AND c in r OR m)"

definition shr_t64 :: "u64 \<Rightarrow> u32 \<Rightarrow> u64" where "shr_t64 x n = shr64 x n"
definition shl_t64 :: "u64 \<Rightarrow> u32 \<Rightarrow> u64" where "shl_t64 x n = shl64 x n"

definition xor3b :: "u32 \<Rightarrow> u32 \<Rightarrow> u32 \<Rightarrow> u32" where
  "xor3b a b c = (let t1 = b XOR c in a XOR t1)"

definition shr_t32 :: "u32 \<Rightarrow> u32 \<Rightarrow> u32" where "shr_t32 x n = shr32 x n"
definition shl_t32 :: "u32 \<Rightarrow> u32 \<Rightarrow> u32" where "shl_t32 x n = shl32 x n"

definition andor32 :: "u32 \<Rightarrow> u32 \<Rightarrow> u32 \<Rightarrow> u32" where
  "andor32 a b c = (let m = a AND b; n = a OR b; k = n AND c in m OR k)"

definition bfe :: "u32 \<Rightarrow> u32 \<Rightarrow> u32 \<Rightarrow> u32" where
  "bfe x pos numBits = bfe_u32 x pos numBits"

definition bfi :: "u32 \<Rightarrow> u32 \<Rightarrow> u32 \<Rightarrow> u32 \<Rightarrow> u32" where
  "bfi x a pos numBits = bfi_b32 x a pos numBits"

section \<open>64-bit rotations\<close>

text \<open>The three versions \<open>USE_ROT_ASM_OPT\<close> chooses from, and the macro of the host; the offset is an \<open>int\<close> in a 32-bit register.\<close>

definition ROTR64_1 :: "u64 \<Rightarrow> u32 \<Rightarrow> u64" where
  "ROTR64_1 x offset =
     (let lo = mov_lo x; hi = mov_hi x in
      if sint offset < 32 then mov_pack (shf_r_wrap lo hi offset) (shf_r_wrap hi lo offset)
      else mov_pack (shf_r_wrap hi lo offset) (shf_r_wrap lo hi offset))"

definition ROTR64_2 :: "u64 \<Rightarrow> u32 \<Rightarrow> u64" where
  "ROTR64_2 x offset = (let lhs = shr64 x offset; roff = 64 - offset; r = shl64 x roff in r + lhs)"

definition ROTR64_host :: "u64 \<Rightarrow> nat \<Rightarrow> u64 option" where
  "ROTR64_host x n = c_or (c_shr n x) (c_shl (64 - n) x)"

definition ROTL64_1 :: "u64 \<Rightarrow> u32 \<Rightarrow> u64" where
  "ROTL64_1 x offset =
     (let lo = mov_lo x; hi = mov_hi x in
      if 32 \<le> sint offset then mov_pack (shf_l_wrap lo hi offset) (shf_l_wrap hi lo offset)
      else mov_pack (shf_l_wrap hi lo offset) (shf_l_wrap lo hi offset))"

definition ROTL64_2 :: "u64 \<Rightarrow> u32 \<Rightarrow> u64" where
  "ROTL64_2 x offset = (let lhs = shl64 x offset; roff = 64 - offset; r = shr64 x roff in lhs + r)"

definition ROTL64_3 :: "u64 \<Rightarrow> u32 \<Rightarrow> u64" where
  "ROTL64_3 x offset =
     (let tl = mov_lo x; th = mov_hi x; vl = shf_l_wrap tl th offset; vh = shf_l_wrap th tl offset
      in if offset < 32 then mov_pack vh vl else mov_pack vl vh)"

definition ROTL64_host :: "u64 \<Rightarrow> nat \<Rightarrow> u64 option" where
  "ROTL64_host x n = c_or (c_shl n x) (c_shr (64 - n) x)"

definition SWAPDWORDS :: "u64 \<Rightarrow> u64" where
  "SWAPDWORDS x = mov_pack (mov_hi x) (mov_lo x)"

definition SWAPDWORDS_rot :: "u64 \<Rightarrow> u64" where
  "SWAPDWORDS_rot x = ROTL64_2 x 32"

section \<open>Pairs and quadruples of registers\<close>

type_synonym quad = "u32 \<times> u32 \<times> u32 \<times> u32"

definition LOHI :: "u64 \<Rightarrow> u32 \<times> u32" where "LOHI x = (mov_lo x, mov_hi x)"
definition devectorize :: "uint2 \<Rightarrow> u64" where "devectorize x = mov_pack (fst x) (snd x)"
definition vectorize :: "u64 \<Rightarrow> uint2" where "vectorize x = (mov_lo x, mov_hi x)"

fun devectorize2 :: "quad \<Rightarrow> uint2 \<times> uint2" where
  "devectorize2 (x, y, z, w) = ((x, y), (z, w))"

fun vectorize2 :: "uint2 \<Rightarrow> uint2 \<Rightarrow> quad" where
  "vectorize2 (xx, xy) (yx, yy) = (xx, xy, yx, yy)"

fun vectorize2_one :: "uint2 \<Rightarrow> quad" where
  "vectorize2_one (xx, xy) = (xx, xy, xx, xy)"

definition vectorize4 :: "u64 \<Rightarrow> u64 \<Rightarrow> quad" where
  "vectorize4 x y = (mov_lo x, mov_hi x, mov_lo y, mov_hi y)"

fun devectorize4 :: "quad \<Rightarrow> u64 \<times> u64" where
  "devectorize4 (x, y, z, w) = (mov_pack x y, mov_pack z w)"

definition vectorizelow :: "u32 \<Rightarrow> uint2" where "vectorizelow v = (v, 0)"
definition vectorizehigh :: "u32 \<Rightarrow> uint2" where "vectorizehigh v = (0, v)"

subsection \<open>Operators\<close>

definition xor2_u32 :: "uint2 \<Rightarrow> u32 \<Rightarrow> uint2" where "xor2_u32 a b = (fst a XOR b, snd a)"
definition xor_pair :: "uint2 \<Rightarrow> uint2 \<Rightarrow> uint2" where "xor_pair a b = (fst a XOR fst b, snd a XOR snd b)"
definition and_pair :: "uint2 \<Rightarrow> uint2 \<Rightarrow> uint2" where "and_pair a b = (fst a AND fst b, snd a AND snd b)"
definition or_pair :: "uint2 \<Rightarrow> uint2 \<Rightarrow> uint2" where "or_pair a b = (fst a OR fst b, snd a OR snd b)"
definition not_pair :: "uint2 \<Rightarrow> uint2" where "not_pair a = (NOT (fst a), NOT (snd a))"

definition add_pair :: "uint2 \<Rightarrow> uint2 \<Rightarrow> uint2" where
  "add_pair a b = (let (x, cc) = add_cc (fst a) (fst b) in (x, addc cc (snd a) (snd b)))"

definition add_pair_u32 :: "uint2 \<Rightarrow> u32 \<Rightarrow> uint2" where
  "add_pair_u32 a b = (let (x, cc) = add_cc (fst a) b in (x, addc cc (snd a) 0))"

definition sub_pair_u32 :: "uint2 \<Rightarrow> u32 \<Rightarrow> uint2" where
  "sub_pair_u32 a b = (let (x, cc) = sub_cc (fst a) b in (x, subc cc (snd a) 0))"

definition sub_pair :: "uint2 \<Rightarrow> uint2 \<Rightarrow> uint2" where
  "sub_pair a b = (let (x, cc) = sub_cc (fst a) (fst b) in (x, subc cc (snd a) (snd b)))"

fun xor_quad :: "quad \<Rightarrow> quad \<Rightarrow> quad" where
  "xor_quad (ax, ay, az, aw) (bx, by', bz, bw) = (ax XOR bx, ay XOR by', az XOR bz, aw XOR bw)"

fun and_quad :: "quad \<Rightarrow> quad \<Rightarrow> quad" where
  "and_quad (ax, ay, az, aw) (bx, by', bz, bw) = (ax AND bx, ay AND by', az AND bz, aw AND bw)"

fun or_quad :: "quad \<Rightarrow> quad \<Rightarrow> quad" where
  "or_quad (ax, ay, az, aw) (bx, by', bz, bw) = (ax OR bx, ay OR by', az OR bz, aw OR bw)"

fun not_quad :: "quad \<Rightarrow> quad" where
  "not_quad (ax, ay, az, aw) = (NOT ax, NOT ay, NOT az, NOT aw)"

fun xor_quad_pair :: "quad \<Rightarrow> uint2 \<Rightarrow> quad" where
  "xor_quad_pair (ax, ay, az, aw) (bx, by') = (ax XOR bx, ay XOR by', az XOR bx, aw XOR by')"

text \<open>\<open>operator*\<close>, register by register: \<open>%0\<close> and \<open>%1\<close> are the result, \<open>%2\<close> to \<open>%5\<close> the halves of the factors.\<close>

definition mul_pair :: "uint2 \<Rightarrow> uint2 \<Rightarrow> uint2" where
  "mul_pair a b =
     (let r0 = mul_lo (fst a) (fst b);
          r1 = mul_hi (fst a) (fst b);
          (r1, cc) = mad_lo_cc (snd a) (fst b) r1;
          r1 = madc_lo cc (snd a) (snd b) r1
      in (r0, r1))"

subsection \<open>Rotations of pairs\<close>

definition ROR2_asm :: "uint2 \<Rightarrow> u32 \<Rightarrow> uint2" where
  "ROR2_asm a offset =
     (if sint offset < 32 then (shf_r_wrap (fst a) (snd a) offset, shf_r_wrap (snd a) (fst a) offset)
      else (shf_r_wrap (snd a) (fst a) offset, shf_r_wrap (fst a) (snd a) offset))"

definition ROR2_c :: "uint2 \<Rightarrow> nat \<Rightarrow> uint2 option" where
  "ROR2_c v n =
     (if n \<le> 32 then c_pair (c_or (c_shr n (fst v)) (c_shl (32 - n) (snd v))) (c_or (c_shr n (snd v)) (c_shl (32 - n) (fst v)))
      else c_pair (c_or (c_shr (n - 32) (snd v)) (c_shl (64 - n) (fst v))) (c_or (c_shr (n - 32) (fst v)) (c_shl (64 - n) (snd v))))"

definition ROL8_32 :: "u32 \<Rightarrow> u32" where "ROL8_32 x = byte_perm x x 0x2103"
definition ROL16_32 :: "u32 \<Rightarrow> u32" where "ROL16_32 x = byte_perm x x 0x1032"
definition ROL24_32 :: "u32 \<Rightarrow> u32" where "ROL24_32 x = byte_perm x x 0x0321"

definition ROR8 :: "uint2 \<Rightarrow> uint2" where "ROR8 a = (byte_perm (snd a) (fst a) 0x0765, byte_perm (snd a) (fst a) 0x4321)"
definition ROR16 :: "uint2 \<Rightarrow> uint2" where "ROR16 a = (byte_perm (snd a) (fst a) 0x1076, byte_perm (snd a) (fst a) 0x5432)"
definition ROR24 :: "uint2 \<Rightarrow> uint2" where "ROR24 a = (byte_perm (snd a) (fst a) 0x2107, byte_perm (snd a) (fst a) 0x6543)"
definition ROL8 :: "uint2 \<Rightarrow> uint2" where "ROL8 a = (byte_perm (snd a) (fst a) 0x6543, byte_perm (snd a) (fst a) 0x2107)"
definition ROL16 :: "uint2 \<Rightarrow> uint2" where "ROL16 a = (byte_perm (snd a) (fst a) 0x5432, byte_perm (snd a) (fst a) 0x1076)"
definition ROL24 :: "uint2 \<Rightarrow> uint2" where "ROL24 a = (byte_perm (snd a) (fst a) 0x4321, byte_perm (snd a) (fst a) 0x0765)"

definition ROL2_asm :: "uint2 \<Rightarrow> u32 \<Rightarrow> uint2" where
  "ROL2_asm a offset =
     (if 32 \<le> sint offset then (shf_l_wrap (fst a) (snd a) offset, shf_l_wrap (snd a) (fst a) offset)
      else (shf_l_wrap (snd a) (fst a) offset, shf_l_wrap (fst a) (snd a) offset))"

definition ROL2_c :: "uint2 \<Rightarrow> nat \<Rightarrow> uint2 option" where
  "ROL2_c v n =
     (if n \<le> 32 then c_pair (c_or (c_shl n (fst v)) (c_shr (32 - n) (snd v))) (c_or (c_shl n (snd v)) (c_shr (32 - n) (fst v)))
      else c_pair (c_or (c_shl (n - 32) (snd v)) (c_shr (64 - n) (fst v))) (c_or (c_shl (n - 32) (fst v)) (c_shr (64 - n) (snd v))))"

text \<open>
  The two versions of the OpenCL kernel that use vendor instructions; \<open>amd_bitalign\<close> is the function of the extension
  \<open>cl_amd_media_ops\<close>, which shifts the word made of its first two arguments.
\<close>

definition ROL2_cl_nvidia :: "uint2 \<Rightarrow> u32 \<Rightarrow> uint2" where
  "ROL2_cl_nvidia a offset =
     (if 32 \<le> sint offset then (shf_l_wrap (fst a) (snd a) offset, shf_l_wrap (snd a) (fst a) offset)
      else (shf_l_wrap (snd a) (fst a) offset, shf_l_wrap (fst a) (snd a) offset))"

definition amd_bitalign :: "u32 \<Rightarrow> u32 \<Rightarrow> u32 \<Rightarrow> u32" where
  "amd_bitalign src0 src1 src2 = ucast (drop_bit (unat (src2 AND 31)) (push_bit 32 (ucast src0) OR ucast src1 :: u64))"

definition ROL2_cl_amd :: "uint2 \<Rightarrow> nat \<Rightarrow> uint2" where
  "ROL2_cl_amd vv r =
     (if r \<le> 32 then (amd_bitalign (fst vv) (snd vv) (of_nat (32 - r)), amd_bitalign (snd vv) (fst vv) (of_nat (32 - r)))
      else (amd_bitalign (snd vv) (fst vv) (of_nat (64 - r)), amd_bitalign (fst vv) (snd vv) (of_nat (64 - r))))"

text \<open>A 64-bit word as four 16-bit registers.\<close>

definition short_at :: "u64 \<Rightarrow> nat \<Rightarrow> u16" where
  "short_at x i = ucast (drop_bit (16 * i) x)"

definition mov_shorts :: "u16 \<Rightarrow> u16 \<Rightarrow> u16 \<Rightarrow> u16 \<Rightarrow> u64" where
  "mov_shorts x y z w = ucast x OR push_bit 16 (ucast y) OR push_bit 32 (ucast z) OR push_bit 48 (ucast w)"

definition ROTR16 :: "u64 \<Rightarrow> u64" where
  "ROTR16 x = mov_shorts (short_at x 1) (short_at x 2) (short_at x 3) (short_at x 0)"

definition ROTL16 :: "u64 \<Rightarrow> u64" where
  "ROTL16 x = mov_shorts (short_at x 3) (short_at x 0) (short_at x 1) (short_at x 2)"

definition SWAPINT2 :: "uint2 \<Rightarrow> uint2" where "SWAPINT2 x = (snd x, fst x)"
definition SWAPDWORDS2 :: "uint2 \<Rightarrow> uint2" where "SWAPDWORDS2 x = (snd x, fst x)"

fun SWAPDWORDS2_quad :: "quad \<Rightarrow> quad" where
  "SWAPDWORDS2_quad (x, y, z, w) = (y, x, w, z)"

subsection \<open>Shifts of pairs\<close>

definition SHL2_asm :: "uint2 \<Rightarrow> u32 \<Rightarrow> uint2" where
  "SHL2_asm a offset =
     (let (r2, r3) = (if sint offset < 32 then (fst a, snd a) else (snd a, fst a))
      in (shl32 r2 offset, shf_l_clamp r2 r3 offset))"

definition SHL2_c :: "uint2 \<Rightarrow> nat \<Rightarrow> uint2 option" where
  "SHL2_c a offset =
     (if offset \<le> 32 then c_pair (c_shl offset (fst a)) (c_or (c_shl offset (snd a)) (c_shr (32 - offset) (fst a)))
      else c_pair (Some 0) (c_shl (offset - 32) (fst a)))"

definition SHR2_asm :: "uint2 \<Rightarrow> u32 \<Rightarrow> uint2" where
  "SHR2_asm a offset =
     (if sint offset < 32 then (shf_r_clamp (fst a) (snd a) offset, shr32 (snd a) offset)
      else (shf_l_clamp (snd a) (fst a) offset, shl32 (fst a) offset))"

definition SHR2_c :: "uint2 \<Rightarrow> nat \<Rightarrow> uint2 option" where
  "SHR2_c a offset =
     (if offset \<le> 32 then c_pair (c_or (c_shr offset (fst a)) (c_shl (32 - offset) (snd a))) (c_shr offset (snd a))
      else c_pair (c_shr (offset - 32) (snd a)) (Some 0))"

subsection \<open>Swapped pairs, halves, multiply and add\<close>

definition devectorizeswap :: "uint2 \<Rightarrow> u64" where
  "devectorizeswap v = MAKE_ULONGLONG (swab32_device (snd v)) (swab32_device (fst v))"

definition vectorizeswap :: "u64 \<Rightarrow> uint2" where
  "vectorizeswap v = (let (y, x) = LOHI v in (swab32_device x, swab32_device y))"

definition devectorize16 :: "u16 \<times> u16 \<Rightarrow> u32" where
  "devectorize16 x = push_bit 16 (ucast (snd x)) OR ucast (fst x)"

definition vectorize16 :: "u32 \<Rightarrow> u16 \<times> u16" where
  "vectorize16 x = (ucast x, ucast (drop_bit 16 x))"

fun mul4 :: "quad \<Rightarrow> quad" where
  "mul4 (x, y, z, w) = (mul_lo x y, mul_hi x y, mul_lo z w, mul_hi z w)"

fun add4 :: "quad \<Rightarrow> quad \<Rightarrow> quad" where
  "add4 (ax, ay, az, aw) (bx, by', bz, bw) =
     (let (r0, cc) = add_cc ax bx; r1 = addc cc ay by'; (r2, cc) = add_cc az bz; r3 = addc cc aw bw in (r0, r1, r2, r3))"

fun madd4 :: "quad \<Rightarrow> quad \<Rightarrow> quad" where
  "madd4 (ax, ay, az, aw) (bx, by', bz, bw) =
     (let (r0, cc) = mad_lo_cc ax ay bx; r1 = madc_hi cc ax ay by'; (r2, cc) = mad_lo_cc az aw bz; r3 = madc_hi cc az aw bw
      in (r0, r1, r2, r3))"

fun madd4long :: "u64 \<times> u64 \<Rightarrow> u64 \<times> u64 \<Rightarrow> u64 \<times> u64" where
  "madd4long (ax, ay) (bx, by') =
     (let a0 = mov_lo ax; a1 = mov_hi ax; a2 = mov_lo ay; a3 = mov_hi ay;
          b0 = mov_lo bx; b1 = mov_hi bx; b2 = mov_lo by'; b3 = mov_hi by';
          (b0, cc) = mad_lo_cc a0 a1 b0; b1 = madc_hi cc a0 a1 b1;
          (b2, cc) = mad_lo_cc a2 a3 b2; b3 = madc_hi cc a2 a3 b3
      in (mov_pack b0 b1, mov_pack b2 b3))"

text \<open>The comparison of a hash with a target, from the most significant word on.\<close>

fun below_from :: "u32 list \<Rightarrow> u32 list \<Rightarrow> nat \<Rightarrow> bool" where
  "below_from hash target 0 = (if target ! 0 < hash ! 0 then False else True)"
| "below_from hash target (Suc i) =
     (if target ! Suc i < hash ! Suc i then False else if hash ! Suc i < target ! Suc i then True else below_from hash target i)"

definition cuda_hashisbelowtarget :: "u32 list \<Rightarrow> u32 list \<Rightarrow> bool" where
  "cuda_hashisbelowtarget hash target = below_from hash target 7"

definition madd4long2 :: "u64 \<times> u64 \<Rightarrow> u64 \<times> u64 \<Rightarrow> u64 \<times> u64" where
  "madd4long2 a b = madd4long a b"

section \<open>Registers and bits\<close>

lemma bit_mov_pack: "bit (mov_pack lo hi) k \<longleftrightarrow> k < 64 \<and> (if k < 32 then bit lo k else bit hi (k - 32))"
  by (auto simp: mov_pack_def bit_or_iff bit_push_bit_iff bit_ucast_iff dest: bit_imp_le_length)

lemma bit_mov_lo: "bit (mov_lo x) k \<longleftrightarrow> k < 32 \<and> bit x k"
  by (auto simp: mov_lo_def bit_ucast_iff)

lemma bit_mov_hi: "bit (mov_hi x) k \<longleftrightarrow> k < 32 \<and> bit x (k + 32)"
  by (auto simp: mov_hi_def bit_ucast_iff bit_drop_bit_eq add.commute)

lemma bit_funnel_l: "n \<le> 32 \<Longrightarrow> bit (funnel_l a b n) k \<longleftrightarrow> k < 32 \<and> (if k < n then bit a (k + 32 - n) else bit b (k - n))"
  by (auto simp: funnel_l_def bit_or_iff bit_push_bit_iff bit_drop_bit_eq add.commute dest: bit_imp_le_length)

lemma bit_funnel_r: "n \<le> 32 \<Longrightarrow> bit (funnel_r a b n) k \<longleftrightarrow> k < 32 \<and> (if k + n < 32 then bit a (k + n) else bit b (k + n - 32))"
  by (auto simp: funnel_r_def bit_or_iff bit_push_bit_iff bit_drop_bit_eq add.commute dest: bit_imp_le_length)

lemma bit_rol: "0 < n \<Longrightarrow> n < 64 \<Longrightarrow> bit (rol x n) k \<longleftrightarrow> k < 64 \<and> (if k < n then bit x (64 + k - n) else bit x (k - n))"
  by (auto simp: rol_def bit_or_iff bit_push_bit_iff bit_drop_bit_eq add.commute dest: bit_imp_le_length)

lemmas register_bits = bit_mov_pack bit_mov_lo bit_mov_hi bit_funnel_l bit_funnel_r bit_rol

lemma mov_pack_inverse [simp]: "mov_lo (mov_pack lo hi) = lo" "mov_hi (mov_pack lo hi) = hi" "mov_pack (mov_lo x) (mov_hi x) = x"
  by (rule bit_word_eqI; auto simp: register_bits dest: bit_imp_le_length)+

lemma devectorize_of_uint2: "devectorize v = of_uint2 v"
  by (simp add: devectorize_def mov_pack_def of_uint2_def)

text \<open>The offsets below 64 in a register.\<close>

lemma offset_table:
  "list_all (\<lambda>n. unat ((of_nat n :: u32) AND 31) = n mod 32 \<and> sint (of_nat n :: u32) = int n \<and> unat (of_nat n :: u32) = n \<and>
     unat (64 - of_nat n :: u32) = 64 - n) [0..<64]"
  by code_simp

lemma offset_register:
  assumes "n < 64"
  shows "unat ((of_nat n :: u32) AND 31) = n mod 32" "sint (of_nat n :: u32) = int n" "unat (of_nat n :: u32) = n"
    "unat (64 - of_nat n :: u32) = 64 - n" "(of_nat n :: u32) < 32 \<longleftrightarrow> n < 32"
  using offset_table assms by (auto simp: list_all_iff word_less_nat_alt)

lemma mod32: "n < (64 :: nat) \<Longrightarrow> n mod 32 = (if n < 32 then n else n - 32)"
  by (simp add: mod_if)

section \<open>Rotations\<close>

text \<open>What the callers of a 64-bit rotation rely on.\<close>

locale left_rotation =
  fixes rotl :: "u64 \<Rightarrow> u32 \<Rightarrow> u64"
  assumes rotl_rol: "0 < n \<Longrightarrow> n < 64 \<Longrightarrow> rotl x (of_nat n) = rol x n"
begin

lemma rotl_rotl:
  assumes "0 < n" "0 < m" "n + m < 64"
  shows "rotl (rotl x (of_nat n)) (of_nat m) = rotl x (of_nat (n + m))"
proof -
  have "rotl (rotl x (of_nat n)) (of_nat m) = rol (rol x n) m" using assms by (simp add: rotl_rol)
  moreover have "rotl x (of_nat (n + m)) = rol x (n + m)" by (rule rotl_rol) (use assms in linarith)+
  moreover have "rol (rol x n) m = rol x (n + m)"
    by (rule bit_word_eqI) (use assms in \<open>auto simp: bit_rol add.commute\<close>)
  ultimately show ?thesis by simp
qed

lemma rotl_inverse:
  assumes "0 < n" "n < 64"
  shows "rotl (rotl x (of_nat n)) (of_nat (64 - n)) = x"
proof -
  have "rotl (rotl x (of_nat n)) (of_nat (64 - n)) = rol (rol x n) (64 - n)"
    using assms by (simp only: rotl_rol diff_less zero_less_diff zero_less_numeral)
  also have "\<dots> = x"
    by (rule bit_word_eqI) (use assms in \<open>auto simp: bit_rol\<close>)
  finally show ?thesis .
qed

end

interpretation rot1: left_rotation ROTL64_1
  by unfold_locales
    (rule bit_word_eqI, auto simp: ROTL64_1_def Let_def offset_register shf_l_wrap_def mod32 register_bits)

interpretation rot2: left_rotation ROTL64_2
proof
  fix n :: nat and x :: u64
  assume n: "0 < n" "n < 64"
  have "push_bit n x AND drop_bit (64 - n) x = 0"
    by (rule bit_word_eqI) (use n in \<open>auto simp: bit_and_iff bit_push_bit_iff bit_drop_bit_eq dest: bit_imp_le_length\<close>)
  then show "ROTL64_2 x (of_nat n) = rol x n"
    using n by (simp add: ROTL64_2_def shl64_def shr64_def offset_register rol_def disjunctive_add_eq_or)
qed

interpretation rot3: left_rotation ROTL64_3
  by unfold_locales
    (rule bit_word_eqI, auto simp: ROTL64_3_def Let_def offset_register shf_l_wrap_def mod32 register_bits)

lemma ROTL64_host_rol: "ROTL64_host x n = (if 0 < n \<and> n < 64 then Some (rol x n) else None)"
  by (simp add: ROTL64_host_def rol_def c_shifts)

interpretation rot_host: left_rotation "\<lambda>x n. the (ROTL64_host x (unat n))"
  by unfold_locales (simp add: ROTL64_host_rol offset_register)

text \<open>Rotations to the right.\<close>

definition ror :: "u64 \<Rightarrow> nat \<Rightarrow> u64" where
  "ror x n = drop_bit n x OR push_bit (64 - n) x"

lemma bit_ror: "n < 64 \<Longrightarrow> bit (ror x n) k \<longleftrightarrow> k < 64 \<and> (if k + n < 64 then bit x (k + n) else bit x (k + n - 64))"
  by (auto simp: ror_def bit_or_iff bit_push_bit_iff bit_drop_bit_eq add.commute dest: bit_imp_le_length)

lemma ror_rol: "0 < n \<Longrightarrow> n < 64 \<Longrightarrow> ror x n = rol x (64 - n)"
  by (simp add: ror_def rol_def or.commute)

lemma ROTR64_host_ror: "ROTR64_host x n = (if 0 < n \<and> n < 64 then Some (ror x n) else None)"
  by (simp add: ROTR64_host_def ror_def c_shifts)

lemma ROTR64_versions:
  assumes "0 < n" "n < 64"
  shows "ROTR64_1 x (of_nat n) = ror x n" "ROTR64_2 x (of_nat n) = ror x n"
proof -
  show "ROTR64_1 x (of_nat n) = ror x n"
    by (rule bit_word_eqI) (use assms in \<open>auto simp: ROTR64_1_def Let_def offset_register shf_r_wrap_def mod32 register_bits bit_ror\<close>)
  have "push_bit (64 - n) x AND drop_bit n x = 0"
    by (rule bit_word_eqI) (use assms in \<open>auto simp: bit_and_iff bit_push_bit_iff bit_drop_bit_eq dest: bit_imp_le_length\<close>)
  then show "ROTR64_2 x (of_nat n) = ror x n"
    using assms by (simp add: ROTR64_2_def shl64_def shr64_def offset_register ror_def disjunctive_add_eq_or or.commute)
qed

text \<open>The counts for which the portable versions of the rotations and shifts of pairs are defined.\<close>

definition c_count :: "nat \<Rightarrow> bool" where
  "c_count n \<longleftrightarrow> 0 < n \<and> n < 64 \<and> n \<noteq> 32"

lemma rol_0: "rol x 0 = x"
  by (rule bit_word_eqI) (auto simp: rol_def bit_or_iff bit_drop_bit_eq dest: bit_imp_le_length)

lemma asm_rotations:
  assumes "n < 64"
  shows "devectorize (ROL2_asm v (of_nat n)) = rol (devectorize v) n"
    "devectorize (ROR2_asm v (of_nat n)) = ror (devectorize v) n"
proof -
  have h: "bit (rol x n) k \<longleftrightarrow> k < 64 \<and> (if k < n then bit x (64 + k - n) else bit x (k - n))" for x k
    using assms by (auto simp: rol_def bit_or_iff bit_push_bit_iff bit_drop_bit_eq add.commute dest: bit_imp_le_length)
  show "devectorize (ROL2_asm v (of_nat n)) = rol (devectorize v) n"
    by (rule bit_word_eqI)
      (use assms in \<open>auto simp: ROL2_asm_def devectorize_def offset_register shf_l_wrap_def mod32 bit_mov_pack bit_funnel_l h add.commute\<close>)
  show "devectorize (ROR2_asm v (of_nat n)) = ror (devectorize v) n"
    by (rule bit_word_eqI) (use assms in \<open>auto simp: ROR2_asm_def devectorize_def offset_register shf_r_wrap_def mod32 register_bits bit_ror\<close>)
qed

lemma portable_rotations:
  "map_option devectorize (ROL2_c v n) = (if c_count n then Some (rol (devectorize v) n) else None)"
  "map_option devectorize (ROR2_c v n) = (if c_count n then Some (ror (devectorize v) n) else None)"
proof -
  have none: "ROL2_c v n = None" "ROR2_c v n = None" if "\<not> c_count n"
    using that by (auto simp: ROL2_c_def ROR2_c_def c_shifts c_count_def)
  have "map_option devectorize (ROL2_c v n) = Some (rol (devectorize v) n)" if "c_count n"
    unfolding ROL2_c_def using that
    by (simp add: c_shifts c_count_def)
      (intro conjI impI bit_word_eqI; auto simp: devectorize_def register_bits bit_or_iff bit_push_bit_iff bit_drop_bit_eq add.commute dest: bit_imp_le_length)
  moreover have "map_option devectorize (ROR2_c v n) = Some (ror (devectorize v) n)" if "c_count n"
    unfolding ROR2_c_def using that
    by (simp add: c_shifts c_count_def)
      (intro conjI impI bit_word_eqI; auto simp: devectorize_def register_bits bit_ror bit_or_iff bit_push_bit_iff bit_drop_bit_eq add.commute dest: bit_imp_le_length)
  ultimately show "map_option devectorize (ROL2_c v n) = (if c_count n then Some (rol (devectorize v) n) else None)"
      "map_option devectorize (ROR2_c v n) = (if c_count n then Some (ror (devectorize v) n) else None)"
    using none by auto
qed

section \<open>Bytes\<close>

lemma le_inject: "word_to_le (x :: u64) = word_to_le y \<longleftrightarrow> x = y" "word_to_le (a :: u32) = word_to_le b \<longleftrightarrow> a = b"
  by (auto dest: arg_cong [where f = "word_of_le :: bytes \<Rightarrow> u64"] arg_cong [where f = "word_of_le :: bytes \<Rightarrow> u32"])

lemma le_mov_pack: "word_to_le (mov_pack lo hi) = word_to_le lo @ word_to_le hi"
  by (simp add: mov_pack_def word_to_le_concat)

lemma le_byte_perm:
  "word_to_le (byte_perm x y s) = map (\<lambda>i. (word_to_le x @ word_to_le y) ! unat (drop_bit (4 * i) s AND 7)) [0..<4]"
  by (simp add: byte_perm_def)

lemma bytes4: obtains b0 b1 b2 b3 where "word_to_le (x :: u32) = [b0, b1, b2, b3]"
  by (simp add: word_to_le_def nat_upt_4)

lemma le_rol:
  assumes "0 < i" "i < 8"
  shows "word_to_le (rol x (8 * i)) = drop (8 - i) (word_to_le x) @ take (8 - i) (word_to_le x)"
proof (rule nth_equalityI)
  fix j
  assume "j < length (word_to_le (rol x (8 * i)))"
  then have j: "j < 8" by simp
  show "word_to_le (rol x (8 * i)) ! j = (drop (8 - i) (word_to_le x) @ take (8 - i) (word_to_le x)) ! j"
    by (rule bit_word_eqI)
      (use assms j in \<open>auto simp: nth_append nth_word_to_le bit_ucast_iff bit_drop_bit_eq bit_rol algebra_simps\<close>)
qed (use assms in simp)

lemma byte_rotations:
  "devectorize (ROL8 a) = rol (devectorize a) 8" "devectorize (ROL16 a) = rol (devectorize a) 16" "devectorize (ROL24 a) = rol (devectorize a) 24"
  "devectorize (ROR8 a) = ror (devectorize a) 8" "devectorize (ROR16 a) = ror (devectorize a) 16" "devectorize (ROR24 a) = ror (devectorize a) 24"
proof -
  obtain x0 x1 x2 x3 where x: "word_to_le (fst a) = [x0, x1, x2, x3]" by (rule bytes4)
  obtain y0 y1 y2 y3 where y: "word_to_le (snd a) = [y0, y1, y2, y3]" by (rule bytes4)
  note r = le_inject(1) [symmetric] devectorize_def le_mov_pack le_byte_perm nat_upt_4 x y ror_rol
  show "devectorize (ROL8 a) = rol (devectorize a) 8" using le_rol [of 1 "devectorize a"] by (simp add: r ROL8_def)
  show "devectorize (ROL16 a) = rol (devectorize a) 16" using le_rol [of 2 "devectorize a"] by (simp add: r ROL16_def)
  show "devectorize (ROL24 a) = rol (devectorize a) 24" using le_rol [of 3 "devectorize a"] by (simp add: r ROL24_def)
  show "devectorize (ROR8 a) = ror (devectorize a) 8" using le_rol [of 7 "devectorize a"] by (simp add: r ROR8_def)
  show "devectorize (ROR16 a) = ror (devectorize a) 16" using le_rol [of 6 "devectorize a"] by (simp add: r ROR16_def)
  show "devectorize (ROR24 a) = ror (devectorize a) 24" using le_rol [of 5 "devectorize a"] by (simp add: r ROR24_def)
qed

lemma bit_short_at: "bit (short_at x i) k \<longleftrightarrow> k < 16 \<and> bit x (16 * i + k)"
  by (auto simp: short_at_def bit_ucast_iff bit_drop_bit_eq)

lemma bit_mov_shorts:
  "bit (mov_shorts x y z w) k \<longleftrightarrow> k < 64 \<and>
     (if k < 16 then bit x k else if k < 32 then bit y (k - 16) else if k < 48 then bit z (k - 32) else bit w (k - 48))"
  by (auto simp: mov_shorts_def bit_or_iff bit_push_bit_iff bit_ucast_iff dest: bit_imp_le_length)

lemma short_rotations: "ROTL16 x = rol x 16" "ROTR16 x = ror x 16"
  by (rule bit_word_eqI; auto simp: ROTL16_def ROTR16_def bit_mov_shorts bit_short_at bit_rol bit_ror add.commute)+

text \<open>Host and device reverse the bytes.\<close>

lemma byte_masks:
  "(0xff000000 :: u32) = push_bit 24 (mask 8)" "(0x00ff0000 :: u32) = push_bit 16 (mask 8)"
  "(0x0000ff00 :: u32) = push_bit 8 (mask 8)" "(0x000000ff :: u32) = mask 8"
  "(0xff00000000000000 :: u64) = push_bit 56 (mask 8)" "(0x00ff000000000000 :: u64) = push_bit 48 (mask 8)"
  "(0x0000ff0000000000 :: u64) = push_bit 40 (mask 8)" "(0x000000ff00000000 :: u64) = push_bit 32 (mask 8)"
  "(0x00000000ff000000 :: u64) = push_bit 24 (mask 8)" "(0x0000000000ff0000 :: u64) = push_bit 16 (mask 8)"
  "(0x000000000000ff00 :: u64) = push_bit 8 (mask 8)" "(0x00000000000000ff :: u64) = mask 8"
  by code_simp+

lemmas byte_bits = bit_ucast_iff bit_or_iff bit_and_iff bit_push_bit_iff bit_drop_bit_eq bit_mask_iff

lemma swab32_host_bytes: "word_to_le (swab32_host x) = rev (word_to_le x)"
proof -
  have "ucast (drop_bit 0 (swab32_host x)) = (ucast (drop_bit 24 x) :: byte)"
    "ucast (drop_bit 8 (swab32_host x)) = (ucast (drop_bit 16 x) :: byte)"
    "ucast (drop_bit 16 (swab32_host x)) = (ucast (drop_bit 8 x) :: byte)"
    "ucast (drop_bit 24 (swab32_host x)) = (ucast (drop_bit 0 x) :: byte)"
    unfolding swab32_host_def byte_masks
    by (rule bit_word_eqI; auto simp: byte_bits)+
  then show ?thesis by (simp add: word_to_le_def nat_upt_4)
qed

lemma upt8: "[0..<8] = [0, 1, 2, 3, 4, 5, 6, 7 :: nat]" by (simp add: upt_rec)

lemma swab64_host_bytes: "word_to_le (swab64_host x) = rev (word_to_le x)"
proof -
  have "ucast (drop_bit 0 (swab64_host x)) = (ucast (drop_bit 56 x) :: byte)"
    "ucast (drop_bit 8 (swab64_host x)) = (ucast (drop_bit 48 x) :: byte)"
    "ucast (drop_bit 16 (swab64_host x)) = (ucast (drop_bit 40 x) :: byte)"
    "ucast (drop_bit 24 (swab64_host x)) = (ucast (drop_bit 32 x) :: byte)"
    "ucast (drop_bit 32 (swab64_host x)) = (ucast (drop_bit 24 x) :: byte)"
    "ucast (drop_bit 40 (swab64_host x)) = (ucast (drop_bit 16 x) :: byte)"
    "ucast (drop_bit 48 (swab64_host x)) = (ucast (drop_bit 8 x) :: byte)"
    "ucast (drop_bit 56 (swab64_host x)) = (ucast (drop_bit 0 x) :: byte)"
    unfolding swab64_host_def byte_masks
    by (rule bit_word_eqI; auto simp: byte_bits)+
  then show ?thesis by (simp add: word_to_le_def upt8)
qed

lemma swab32_device_bytes: "word_to_le (swab32_device x) = rev (word_to_le x)"
  by (rule bytes4 [of x]) (simp add: swab32_device_def le_byte_perm nat_upt_4)

lemma swab64_device_bytes: "word_to_le (swab64_device x) = rev (word_to_le x)"
proof -
  have "word_to_le x = word_to_le (mov_lo x) @ word_to_le (mov_hi x)" using le_mov_pack [of "mov_lo x" "mov_hi x"] by simp
  then show ?thesis
    by (rule_tac bytes4 [of "mov_lo x"], rule_tac bytes4 [of "mov_hi x"])
      (simp add: swab64_device_def Let_def le_mov_pack le_byte_perm nat_upt_4)
qed

lemma byte_swaps:
  "swab32_device x = swab32_host x" "swab64_device y = swab64_host y"
  "swab32_device (swab32_device x) = x" "swab64_device (swab64_device y) = y"
  by (simp_all add: le_inject [symmetric] swab32_device_bytes swab64_device_bytes swab32_host_bytes swab64_host_bytes)

lemma swab32_kernel: "swab32_device x = cuda_swab32 x"
  by (simp add: le_inject [symmetric] swab32_device_bytes cuda_swab32_rev)

text \<open>Packing and unpacking are inverse.\<close>

lemma vector_round_trips:
  "devectorize (vectorize x) = x" "vectorize (devectorize v) = v"
  "devectorize4 (vectorize4 x y) = (x, y)" "devectorize2 (vectorize2 v w) = (v, w)" "vectorize2_one v = vectorize2 v v"
  "devectorizeswap (vectorizeswap x) = x" "vectorizeswap (devectorizeswap v) = v"
  by (cases v; cases w; simp add: devectorize_def vectorize_def vectorize4_def devectorizeswap_def vectorizeswap_def
      LOHI_def MAKE_ULONGLONG_def byte_swaps(3))+

lemma devectorizeswap_swab64: "devectorizeswap v = swab64_device (devectorize v)"
proof -
  have "word_to_le (devectorizeswap v) = word_to_le (swab64_device (devectorize v))"
    by (simp add: devectorizeswap_def MAKE_ULONGLONG_def devectorize_def le_mov_pack swab32_device_bytes swab64_device_bytes)
  then show ?thesis by (simp add: le_inject)
qed

lemma halves_round_trips: "devectorize16 (vectorize16 x) = x" "vectorize16 (devectorize16 h) = h"
proof -
  show "devectorize16 (vectorize16 x) = x"
    by (rule bit_word_eqI) (auto simp: devectorize16_def vectorize16_def byte_bits)
  have "fst (vectorize16 (devectorize16 h)) = fst h" "snd (vectorize16 (devectorize16 h)) = snd h"
    by (rule bit_word_eqI; auto simp: devectorize16_def vectorize16_def byte_bits dest: bit_imp_le_length)+
  then show "vectorize16 (devectorize16 h) = h" by (rule prod_eqI)
qed

lemma word_parts:
  "HIWORD (MAKE_ULONGLONG lo hi) = hi" "LOWORD (MAKE_ULONGLONG lo hi) = lo" "MAKE_ULONGLONG (LOWORD x) (HIWORD x) = x"
  "HIWORD (REPLACE_HIWORD x y) = y" "LOWORD (REPLACE_HIWORD x y) = LOWORD x"
  "LOWORD (REPLACE_LOWORD x y) = y" "HIWORD (REPLACE_LOWORD x y) = HIWORD x" "LOHI x = (LOWORD x, HIWORD x)"
  by (simp_all add: HIWORD_def LOWORD_def MAKE_ULONGLONG_def REPLACE_HIWORD_def REPLACE_LOWORD_def LOHI_def)

text \<open>Bitwise operators on pairs, quadruples and words.\<close>

lemma bitwise_pairs:
  "devectorize (xor_pair v w) = xor1 (devectorize v) (devectorize w)" "devectorize (and_pair v w) = devectorize v AND devectorize w"
  "devectorize (or_pair v w) = devectorize v OR devectorize w" "devectorize (not_pair v) = NOT (devectorize v)"
  "devectorize (xor2_u32 v c) = devectorize v XOR ucast c" "devectorize (vectorizelow c) = ucast c"
  "devectorize (vectorizehigh c) = push_bit 32 (ucast c)"
  by (rule bit_word_eqI; auto simp: devectorize_def xor_pair_def and_pair_def or_pair_def not_pair_def xor2_u32_def vectorizelow_def
      vectorizehigh_def xor1_def register_bits bit_xor_iff bit_not_iff byte_bits dest: bit_imp_le_length)+

lemma bitwise_quads:
  "devectorize2 (xor_quad p q) = (xor_pair (fst (devectorize2 p)) (fst (devectorize2 q)), xor_pair (snd (devectorize2 p)) (snd (devectorize2 q)))"
  "devectorize2 (and_quad p q) = (and_pair (fst (devectorize2 p)) (fst (devectorize2 q)), and_pair (snd (devectorize2 p)) (snd (devectorize2 q)))"
  "devectorize2 (or_quad p q) = (or_pair (fst (devectorize2 p)) (fst (devectorize2 q)), or_pair (snd (devectorize2 p)) (snd (devectorize2 q)))"
  "devectorize2 (not_quad p) = (not_pair (fst (devectorize2 p)), not_pair (snd (devectorize2 p)))"
  "xor_quad_pair p v = xor_quad p (vectorize2_one v)"
  by (cases p; cases q; cases v; simp add: xor_pair_def and_pair_def or_pair_def not_pair_def)+

lemma bit_functions:
  "bit (xandx a b c) k \<longleftrightarrow> (if bit a k then bit b k else bit c k)"
  "bit (andor a b c) k \<longleftrightarrow> bit a k \<and> bit b k \<or> bit a k \<and> bit c k \<or> bit b k \<and> bit c k"
  "bit (andor32 x y z) k \<longleftrightarrow> bit x k \<and> bit y k \<or> bit x k \<and> bit z k \<or> bit y k \<and> bit z k"
  "xor8 a b c d e f g h = a XOR b XOR c XOR d XOR e XOR f XOR g XOR h" "xor3b x y z = x XOR y XOR z"
  by (auto simp: xandx_def andor_def andor32_def xor8_def xor3b_def Let_def bit_and_iff bit_or_iff bit_xor_iff ac_simps)

lemma dword_swaps:
  "SWAPDWORDS x = rol x 32" "SWAPDWORDS_rot x = rol x 32" "devectorize (SWAPDWORDS2 v) = SWAPDWORDS (devectorize v)"
  "SWAPINT2 v = SWAPDWORDS2 v" "SWAPDWORDS2_quad (vectorize2 v w) = vectorize2 (SWAPDWORDS2 v) (SWAPDWORDS2 w)"
proof -
  show "SWAPDWORDS x = rol x 32" by (rule bit_word_eqI) (auto simp: SWAPDWORDS_def register_bits add.commute)
  show "SWAPDWORDS_rot x = rol x 32" using rot2.rotl_rol [of 32 x] by (simp add: SWAPDWORDS_rot_def)
  show "devectorize (SWAPDWORDS2 v) = SWAPDWORDS (devectorize v)" by (simp add: devectorize_def SWAPDWORDS2_def SWAPDWORDS_def)
  show "SWAPINT2 v = SWAPDWORDS2 v" by (simp add: SWAPINT2_def SWAPDWORDS2_def)
  show "SWAPDWORDS2_quad (vectorize2 v w) = vectorize2 (SWAPDWORDS2 v) (SWAPDWORDS2 w)" by (cases v; cases w) (simp add: SWAPDWORDS2_def)
qed

lemma bfi_bfe:
  assumes "p + n \<le> 32"
  shows "bfe (bfi x a (of_nat p) (of_nat n)) (of_nat p) (of_nat n) = take_bit n x"
    "k < p \<or> p + n \<le> k \<Longrightarrow> bit (bfi x a (of_nat p) (of_nat n)) k = bit a k"
proof -
  have m: "unat ((of_nat j :: u32) AND 255) = j" if "j \<le> 32" for j
  proof -
    have "list_all (\<lambda>j. unat ((of_nat j :: u32) AND 255) = j) [0..<33]" by code_simp
    then show ?thesis using that by (auto simp: list_all_iff)
  qed
  have "p \<le> 32" "n \<le> 32" using assms by simp_all
  note d = m [OF this(1)] m [OF this(2)]
  show "bfe (bfi x a (of_nat p) (of_nat n)) (of_nat p) (of_nat n) = take_bit n x"
    by (rule bit_word_eqI) (use assms in \<open>auto simp: bfe_def bfi_def bfe_u32_def bfi_b32_def d Let_def bit_take_bit_iff bit_not_iff byte_bits\<close>)
  show "k < p \<or> p + n \<le> k \<Longrightarrow> bit (bfi x a (of_nat p) (of_nat n)) k = bit a k"
    using assms by (auto simp: bfi_def bfi_b32_def d Let_def bit_not_iff byte_bits dest: bit_imp_le_length)
qed

lemma wrap_index: "n < 32 \<Longrightarrow> k < 32 \<Longrightarrow> (k + n) mod 32 = (if k + n < 32 then k + n else k + n - (32 :: nat))"
  by (simp add: le_mod_geq)

lemma bit_rotates:
  assumes "n < 32"
  shows "bit (word_rotl n (x :: u32)) k \<longleftrightarrow> k < 32 \<and> (if k < n then bit x (k + 32 - n) else bit x (k - n))"
    "bit (word_rotr n (x :: u32)) k \<longleftrightarrow> k < 32 \<and> (if k + n < 32 then bit x (k + n) else bit x (k + n - 32))"
  using assms by (auto simp: bit_word_rotl_iff bit_word_rotr_iff wrap_index le_mod_geq)

lemma rotations_32:
  "ROTL32_funnel x n = ROTL32 x n" "ROTL32c x k = (if 0 < k \<and> k < 32 then Some (ROTL32 x (of_nat k)) else None)"
  "ROTR32_funnel x n = ROTR32 x n" "ROTR32c x k = (if 0 < k \<and> k < 32 then Some (ROTR32 x (of_nat k)) else None)"
proof -
  have f: "funnel_l x x j = word_rotl j x" "funnel_r x x j = word_rotr j x" if "j < 32" for j
    by (rule bit_word_eqI; use that in \<open>auto simp: bit_funnel_l bit_funnel_r bit_rotates\<close>)+
  have m: "unat (n AND 31) = unat n mod 32"
    using take_bit_eq_mask [of 5 "unat n"] by (simp add: unsigned_and_eq mask_eq_exp_minus_1 take_bit_eq_mod)
  show "ROTL32_funnel x n = ROTL32 x n" "ROTR32_funnel x n = ROTR32 x n"
    by (simp_all add: ROTL32_funnel_def ROTR32_funnel_def shf_l_wrap_def shf_r_wrap_def ROTL32_def ROTR32_def m f)
  show "ROTL32c x k = (if 0 < k \<and> k < 32 then Some (ROTL32 x (of_nat k)) else None)"
      "ROTR32c x k = (if 0 < k \<and> k < 32 then Some (ROTR32 x (of_nat k)) else None)"
    using f [of k] by (auto simp: ROTL32c_def ROTR32c_def c_shifts funnel_l_def funnel_r_def ROTL32_def ROTR32_def offset_register or.commute)
qed

lemma le_rotl32:
  assumes "i < 4"
  shows "word_to_le (word_rotl (8 * i) (x :: u32)) = drop (4 - i) (word_to_le x) @ take (4 - i) (word_to_le x)"
proof (rule nth_equalityI)
  fix j
  assume "j < length (word_to_le (word_rotl (8 * i) x))"
  then have j: "j < 4" by simp
  show "word_to_le (word_rotl (8 * i) x) ! j = (drop (4 - i) (word_to_le x) @ take (4 - i) (word_to_le x)) ! j"
    by (rule bit_word_eqI)
      (use assms j in \<open>auto simp: nth_append nth_word_to_le bit_ucast_iff bit_drop_bit_eq bit_rotates algebra_simps\<close>)
qed (use assms in simp)

lemma byte_rotations_32: "ROL8_32 x = ROTL32 x 8" "ROL16_32 x = ROTL32 x 16" "ROL24_32 x = ROTL32 x 24"
proof -
  obtain x0 x1 x2 x3 where x: "word_to_le x = [x0, x1, x2, x3]" by (rule bytes4)
  note r = le_inject(2) [symmetric] le_byte_perm nat_upt_4 x ROTL32_def
  show "ROL8_32 x = ROTL32 x 8" using le_rotl32 [of 1 x] by (simp add: r ROL8_32_def)
  show "ROL16_32 x = ROTL32 x 16" using le_rotl32 [of 2 x] by (simp add: r ROL16_32_def)
  show "ROL24_32 x = ROTL32 x 24" using le_rotl32 [of 3 x] by (simp add: r ROL24_32_def)
qed

text \<open>The kernels' versions agree: the AMD one for a nonzero count, the portable one where it is defined; the Keccak rounds
  use no count of 0 or 32.\<close>

lemma amd_bitalign_funnel: "j < 32 \<Longrightarrow> amd_bitalign a b (of_nat j) = funnel_r b a j"
  by (rule bit_word_eqI)
    (auto simp: amd_bitalign_def mov_pack_def [symmetric] bit_ucast_iff bit_drop_bit_eq offset_register bit_mov_pack bit_funnel_r add.commute)

lemma ROL2_kernel_versions:
  assumes "0 < n" "n < 64"
  shows "ROL2_cl_nvidia v (of_nat n) = ROL2 v n" "ROL2_cl_amd v n = ROL2 v n" "ROL2_asm v (of_nat n) = ROL2 v n"
    "ROL2_c v n = (if n = 32 then None else Some (ROL2 v n))"
proof -
  show "ROL2_c v n = (if n = 32 then None else Some (ROL2 v n))"
    using assms by (auto simp: ROL2_c_def ROL2_def c_shifts Let_def)
  have "devectorize (ROL2 v n) = rol (devectorize v) n"
    by (rule bit_word_eqI)
      (use assms in \<open>auto simp: ROL2_def Let_def devectorize_def register_bits bit_or_iff bit_push_bit_iff bit_drop_bit_eq add.commute dest: bit_imp_le_length\<close>)
  then have "devectorize (ROL2_asm v (of_nat n)) = devectorize (ROL2 v n)" using asm_rotations [of n v] assms by simp
  then show "ROL2_asm v (of_nat n) = ROL2 v n" using vector_round_trips(2) by metis
  then show "ROL2_cl_nvidia v (of_nat n) = ROL2 v n" by (simp add: ROL2_cl_nvidia_def ROL2_asm_def)
  show "ROL2_cl_amd v n = ROL2 v n"
    using assms amd_bitalign_funnel [of "32 - n"] amd_bitalign_funnel [of "64 - n"]
    by (cases "n \<le> 32") (simp_all add: ROL2_cl_amd_def ROL2_def Let_def funnel_r_def)
qed

lemma ROL2_cl_amd_zero: "ROL2_cl_amd v 0 = (snd v, fst v)"
  using mov_pack_inverse(1) by (simp add: ROL2_cl_amd_def amd_bitalign_def mov_pack_def mov_lo_def)

text \<open>So the rotation of register pairs keeps the same contract.\<close>

interpretation rot_pair: left_rotation "\<lambda>x n. devectorize (ROL2_asm (vectorize x) n)"
proof
  fix n :: nat and x :: u64
  assume "0 < n" "n < 64"
  then show "devectorize (ROL2_asm (vectorize x) (of_nat n)) = rol x n"
    using asm_rotations(1) [of n "vectorize x"] by (simp add: vector_round_trips)
qed

section \<open>Arithmetic\<close>

lemma u32_bound: "unat (x :: u32) < 2 ^ 32"
  using unsigned_less [of x, where 'a = nat] by simp

lemma unat_ucast64: "unat (ucast (x :: u32) :: u64) = unat x"
  by (simp add: unsigned_ucast_eq take_bit_nat_eq_self less_trans [OF u32_bound])

lemma mov_pack_value: "mov_pack lo hi = of_nat (unat lo + 2 ^ 32 * unat hi)"
proof -
  have "push_bit 32 (ucast hi) AND (ucast lo :: u64) = 0"
    by (rule bit_word_eqI) (auto simp: bit_and_iff bit_push_bit_iff bit_ucast_iff dest: bit_imp_le_length)
  then have "mov_pack lo hi = push_bit 32 (ucast hi) + ucast lo"
    by (simp add: mov_pack_def disjunctive_add_eq_or)
  also have "\<dots> = of_nat (unat lo + 2 ^ 32 * unat hi)"
    by (simp add: push_bit_eq_mult unat_ucast64)
  finally show ?thesis .
qed

lemma pack_of_nat:
  assumes "l < 2 ^ 32"
  shows "mov_pack (of_nat l) (of_nat h) = of_nat (l + 2 ^ 32 * h)"
proof -
  have "l + 2 ^ 32 * (h mod 2 ^ 32) mod 2 ^ 64 = l + 2 ^ 32 * h mod (2 ^ 64 :: nat)" 
    using mult_mod_right [of "2 ^ 32 :: nat" h "2 ^ 32"] by simp
  then have "of_nat (l + 2 ^ 32 * (h mod 2 ^ 32)) = (of_nat (l + 2 ^ 32 * h) :: u64)"
    by (intro of_nat_eq_iff [THEN iffD2] word_of_nat_eq_iff [THEN iffD2]) (simp add: take_bit_eq_mod mod_simps)
  then show ?thesis using assms by (simp add: mov_pack_value unat_of_nat)
qed

lemma add_pair_correct: "devectorize (add_pair a b) = devectorize a + devectorize b"
proof -
  obtain ax ay bx yb where ab: "a = (ax, ay)" "b = (bx, yb)" by (cases a; cases b) auto
  define cc where "cc \<longleftrightarrow> 2 ^ 32 \<le> unat ax + unat bx"
  define l where "l = unat ax + unat bx - (if cc then 2 ^ 32 else 0)"
  have l: "l < 2 ^ 32" "unat ax + unat bx = l + (if cc then 2 ^ 32 else 0)"
    using u32_bound [of ax] u32_bound [of bx] by (auto simp: l_def cc_def)
  have x: "ax + bx = of_nat l"
  proof -
    have "ax + bx = of_nat (unat ax + unat bx)" by simp
    then show ?thesis unfolding l(2) by (simp split: if_splits)
  qed
  have y: "ay + yb + of_bool cc = of_nat (unat ay + unat yb + of_bool cc)" by simp
  have "devectorize (add_pair a b) = mov_pack (of_nat l) (of_nat (unat ay + unat yb + of_bool cc))"
    by (simp only: add_pair_def add_cc_def addc_def ab devectorize_def cc_def [symmetric] x y fst_conv snd_conv Let_def prod.case)
  also have "\<dots> = of_nat (l + 2 ^ 32 * (unat ay + unat yb + of_bool cc))" by (rule pack_of_nat) (rule l)
  also have "l + 2 ^ 32 * (unat ay + unat yb + of_bool cc) = (unat ax + 2 ^ 32 * unat ay) + (unat bx + 2 ^ 32 * unat yb)"
    using l(2) by (simp add: algebra_simps split: if_splits)
  finally show ?thesis by (simp only: of_nat_add devectorize_def mov_pack_value ab fst_conv snd_conv)
qed

lemma add_sub_pair: "add_pair (sub_pair a b) b = a"
proof -
  have "unat x < unat y \<longleftrightarrow> 2 ^ 32 \<le> unat (x - y) + unat y" for x y :: u32
    using u32_bound [of x] u32_bound [of y]
    by (cases "y \<le> x") (auto simp: unat_sub_if_size word_le_nat_alt word_size)
  then show ?thesis
    by (cases a; cases b) (simp add: add_pair_def sub_pair_def sub_cc_def add_cc_def addc_def subc_def word_less_nat_alt)
qed

lemma sub_pair_correct: "devectorize (sub_pair a b) = devectorize a - devectorize b"
  using arg_cong [OF add_sub_pair [of a b], of devectorize] by (simp add: add_pair_correct eq_diff_eq)

lemma pair_u32_correct:
  "devectorize (add_pair_u32 a b) = devectorize a + ucast b" "devectorize (sub_pair_u32 a b) = devectorize a - ucast b"
proof -
  have w: "devectorize (b, 0) = ucast b" by (simp add: devectorize_def mov_pack_def)
  have "add_pair_u32 a b = add_pair a (b, 0)" "sub_pair_u32 a b = sub_pair a (b, 0)"
    by (simp_all add: add_pair_u32_def add_pair_def sub_pair_u32_def sub_pair_def)
  then show "devectorize (add_pair_u32 a b) = devectorize a + ucast b" "devectorize (sub_pair_u32 a b) = devectorize a - ucast b"
    by (simp_all add: add_pair_correct sub_pair_correct w)
qed

lemma product_halves: "mul_lo a b = mov_lo (ucast a * ucast b)" "mul_hi a b = mov_hi (ucast a * ucast b)"
proof -
  show "mul_hi a b = mov_hi (ucast a * ucast b)" by (simp add: mul_hi_def mov_hi_def)
  have "unat (ucast a * ucast b :: u64) mod 2 ^ 32 = (unat a * unat b) mod 2 ^ 32"
    by (simp add: unat_word_ariths unat_ucast64 mod_mod_cancel)
  then show "mul_lo a b = mov_lo (ucast a * ucast b)"
    by (simp add: mul_lo_def mov_lo_def word_unat_eq_iff unsigned_ucast_eq take_bit_eq_mod unat_word_ariths)
qed

lemma lane_correct:
  "(let (r0, cc) = mad_lo_cc p q x in mov_pack r0 (madc_hi cc p q y)) = ucast p * ucast q + mov_pack x y"
proof -
  have "(let (r0, cc) = mad_lo_cc p q x in mov_pack r0 (madc_hi cc p q y)) = devectorize (add_pair (mul_lo p q, mul_hi p q) (x, y))"
    by (simp add: mad_lo_cc_def madc_hi_def add_pair_def devectorize_def add_cc_def)
  then show ?thesis by (simp add: add_pair_correct) (simp add: devectorize_def product_halves)
qed


lemma multiply_add:
  "devectorize4 (mul4 (x, y, z, w)) = (ucast x * ucast y, ucast z * ucast w)"
  "devectorize4 (add4 p q) = (fst (devectorize4 p) + fst (devectorize4 q), snd (devectorize4 p) + snd (devectorize4 q))"
  "devectorize4 (madd4 (x, y, z, w) q) = (ucast x * ucast y + fst (devectorize4 q), ucast z * ucast w + snd (devectorize4 q))"
proof -
  show "devectorize4 (mul4 (x, y, z, w)) = (ucast x * ucast y, ucast z * ucast w)" by (simp add: product_halves)
  obtain ax ay az aw where p: "p = (ax, ay, az, aw)" by (cases p) auto
  obtain bx yb bz bw where q: "q = (bx, yb, bz, bw)" by (cases q) auto
  show "devectorize4 (add4 p q) = (fst (devectorize4 p) + fst (devectorize4 q), snd (devectorize4 p) + snd (devectorize4 q))"
    using add_pair_correct [of "(ax, ay)" "(bx, yb)"] add_pair_correct [of "(az, aw)" "(bz, bw)"]
    by (simp add: p q add_pair_def devectorize_def add_cc_def Let_def)
  show "devectorize4 (madd4 (x, y, z, w) q) = (ucast x * ucast y + fst (devectorize4 q), ucast z * ucast w + snd (devectorize4 q))"
    using lane_correct [of x y bx yb] lane_correct [of z w bz bw]
    by (simp add: q mad_lo_cc_def add_cc_def Let_def)
qed

lemma madd4long_correct:
  "madd4long (ax, ay) (bx, yb) = (ucast (mov_lo ax) * ucast (mov_hi ax) + bx, ucast (mov_lo ay) * ucast (mov_hi ay) + yb)"
  using lane_correct [of "mov_lo ax" "mov_hi ax" "mov_lo bx" "mov_hi bx"] lane_correct [of "mov_lo ay" "mov_hi ay" "mov_lo yb" "mov_hi yb"]
  by (simp add: mad_lo_cc_def add_cc_def Let_def)

text \<open>
  The comment of \<open>operator*\<close> promises the low 64 bits of the product.  The last instruction adds the product of the two high
  halves instead of the low half of the first factor with the high half of the second: the result is right for 32-bit
  factors and wrong in general.
\<close>

lemma high_half:
  "(2 ^ 32 * ucast (p + q) :: u64) = 2 ^ 32 * (ucast (p :: u32) + ucast q)"
  "(2 ^ 32 * ucast (p * q) :: u64) = 2 ^ 32 * (ucast (p :: u32) * ucast q)"
proof -
  have m: "(2 ^ 32 * x) mod 2 ^ 64 = 2 ^ 32 * (x mod 2 ^ 32)" for x :: nat
    using mult_mod_right [of "2 ^ 32" x "2 ^ 32"] by simp
  have u: "unat (2 ^ 32 * y :: u64) = 2 ^ 32 * (unat y mod 2 ^ 32)" for y
    using m [of "unat y"] by (simp add: unat_word_ariths)
  have "unat (ucast (p + q) :: u64) mod 2 ^ 32 = unat (ucast p + ucast q :: u64) mod 2 ^ 32"
      "unat (ucast (p * q) :: u64) mod 2 ^ 32 = unat (ucast p * ucast q :: u64) mod 2 ^ 32"
    by (simp_all add: unat_word_ariths unat_ucast64 mod_mod_cancel)
  then show "(2 ^ 32 * ucast (p + q) :: u64) = 2 ^ 32 * (ucast p + ucast q)"
      "(2 ^ 32 * ucast (p * q) :: u64) = 2 ^ 32 * (ucast p * ucast q)"
    by (simp_all only: word_unat_eq_iff u)
qed

lemma devectorize_sum: "devectorize v = ucast (fst v) + 2 ^ 32 * ucast (snd v)"
  by (rule word_unat_eq_iff [THEN iffD2])
    (simp add: devectorize_def mov_pack_value unat_word_ariths unat_of_nat unat_ucast64)

lemma devectorize_inject: "devectorize v = devectorize w \<longleftrightarrow> v = w"
  using vector_round_trips(2) by metis

text \<open>The product as a pair of registers.\<close>

lemma product_pair:
  "devectorize a * devectorize b =
     devectorize (mul_lo (fst a) (fst b), mul_hi (fst a) (fst b) + mul_lo (snd a) (fst b) + mul_lo (fst a) (snd b))"
proof -
  have "(ucast (fst a) * ucast (fst b) :: u64) = devectorize (mul_lo (fst a) (fst b), mul_hi (fst a) (fst b))"
    by (simp add: devectorize_def product_halves)
  then have low: "(ucast (fst a) * ucast (fst b) :: u64) =
      ucast (mul_lo (fst a) (fst b)) + 2 ^ 32 * ucast (mul_hi (fst a) (fst b))"
    by (simp add: devectorize_sum)
  have "(a0 + h * a1) * (b0 + h * b1) = a0 * b0 + h * (a1 * b0) + h * (a0 * b1) + h * h * (a1 * b1)" for a0 a1 b0 b1 h :: u64
    by (simp add: algebra_simps)
  note expand = this
  have square: "(2 ^ 32 * 2 ^ 32 :: u64) = 0" by simp
  have "devectorize a * devectorize b =
      ucast (fst a) * ucast (fst b) + 2 ^ 32 * (ucast (snd a) * ucast (fst b)) + 2 ^ 32 * (ucast (fst a) * ucast (snd b))"
    unfolding devectorize_sum expand square by (simp only: mult_zero_left add_0_right)
  also have "\<dots> = ucast (mul_lo (fst a) (fst b)) + 2 ^ 32 * ucast (mul_hi (fst a) (fst b)) +
      2 ^ 32 * ucast (mul_lo (snd a) (fst b)) + 2 ^ 32 * ucast (mul_lo (fst a) (snd b))"
    unfolding low mul_lo_def high_half(2) ..
  also have "\<dots> = devectorize (mul_lo (fst a) (fst b), mul_hi (fst a) (fst b) + mul_lo (snd a) (fst b) + mul_lo (fst a) (snd b))"
    unfolding devectorize_sum fst_conv snd_conv by (simp only: high_half(1) distrib_left add.assoc)
  finally show ?thesis .
qed

lemma mul_pair_right:
  "devectorize (mul_pair a b) = devectorize a * devectorize b \<longleftrightarrow>
     snd a * snd b + of_bool (2 ^ 32 \<le> unat (snd a * fst b) + unat (mul_hi (fst a) (fst b))) = fst a * snd b"
proof -
  let ?h = "mul_hi (fst a) (fst b)"
  have cancel: "p + (q + h) + c = h + q + t \<longleftrightarrow> p + c = t" for p q h c t :: u32 by (simp add: algebra_simps)
  have "mul_pair a b = (mul_lo (fst a) (fst b),
      snd a * snd b + (snd a * fst b + ?h) + of_bool (2 ^ 32 \<le> unat (snd a * fst b) + unat ?h))"
    by (simp add: mul_pair_def mad_lo_cc_def madc_lo_def add_cc_def addc_def mul_lo_def)
  then show ?thesis unfolding product_pair devectorize_inject mul_lo_def by (simp only: prod.inject simp_thms cancel)
qed

lemma mul_pair_narrow:
  "snd a = 0 \<Longrightarrow> snd b = 0 \<Longrightarrow> devectorize (mul_pair a b) = devectorize a * devectorize b"
  using u32_bound [of "mul_hi (fst a) (fst b)"] by (simp add: mul_pair_right)

lemma mul_pair_wrong: "devectorize (mul_pair (1, 0) (0, 1)) = 0" "devectorize (1, 0) * devectorize (0, 1) = 2 ^ 32"
  by (simp_all add: mul_pair_def mul_lo_def mul_hi_def mad_lo_cc_def madc_lo_def add_cc_def addc_def devectorize_def mov_pack_value)

section \<open>Shifts\<close>

text \<open>
  The portable shifts agree with the 64-bit ones where they are defined.  The assembly versions do so below 32 (the right
  shift also at 32); from there on the clamped funnel shift returns the high half unshifted, whatever the count.
\<close>

lemma portable_shifts:
  "map_option devectorize (SHL2_c a n) = (if c_count n then Some (push_bit n (devectorize a)) else None)"
  "map_option devectorize (SHR2_c a n) = (if c_count n then Some (drop_bit n (devectorize a)) else None)"
proof -
  have none: "SHL2_c a n = None" "SHR2_c a n = None" if "\<not> c_count n"
    using that by (auto simp: SHL2_c_def SHR2_c_def c_shifts c_count_def)
  have "map_option devectorize (SHL2_c a n) = Some (push_bit n (devectorize a))" if "c_count n"
    unfolding SHL2_c_def using that
    by (simp add: c_shifts c_count_def)
      (intro conjI impI bit_word_eqI; auto simp: devectorize_def register_bits bit_or_iff bit_push_bit_iff bit_drop_bit_eq add.commute dest: bit_imp_le_length)
  moreover have "map_option devectorize (SHR2_c a n) = Some (drop_bit n (devectorize a))" if "c_count n"
    unfolding SHR2_c_def using that
    by (simp add: c_shifts c_count_def)
      (intro conjI impI bit_word_eqI; auto simp: devectorize_def register_bits bit_or_iff bit_push_bit_iff bit_drop_bit_eq add.commute dest: bit_imp_le_length)
  ultimately show "map_option devectorize (SHL2_c a n) = (if c_count n then Some (push_bit n (devectorize a)) else None)"
      "map_option devectorize (SHR2_c a n) = (if c_count n then Some (drop_bit n (devectorize a)) else None)"
    using none by auto
qed

lemma SHL2_asm_below_32: "n < 32 \<Longrightarrow> devectorize (SHL2_asm a (of_nat n)) = push_bit n (devectorize a)"
  by (cases a; rule bit_word_eqI)
    (auto simp: SHL2_asm_def offset_register shl32_def shf_l_clamp_def devectorize_def register_bits bit_push_bit_iff add.commute dest: bit_imp_le_length)

lemma shifts_asm_beyond:
  assumes "32 \<le> n" "n < 64"
  shows "SHL2_asm a (of_nat n) = (0, snd a)" "SHR2_asm a (of_nat n) = (snd a, 0)"
  using assms by (simp_all add: SHL2_asm_def SHR2_asm_def offset_register shl32_def shf_l_clamp_def funnel_l_def min_absorb2 push_bit_eq_0_iff)

lemma SHR2_asm_to_32: "n \<le> 32 \<Longrightarrow> devectorize (SHR2_asm a (of_nat n)) = drop_bit n (devectorize a)"
proof (cases "n = 32")
  case True
  have "devectorize (snd a, 0) = drop_bit 32 (devectorize a)"
    by (rule bit_word_eqI) (auto simp: devectorize_def register_bits bit_drop_bit_eq add.commute dest: bit_imp_le_length)
  then show ?thesis using True shifts_asm_beyond(2) [of 32 a] by simp
next
  case False
  assume "n \<le> 32"
  with False show ?thesis
    by (intro bit_word_eqI)
      (auto simp: SHR2_asm_def offset_register shr32_def shf_r_clamp_def devectorize_def register_bits bit_drop_bit_eq add.commute
        dest: bit_imp_le_length)
qed

section \<open>Comparison\<close>

text \<open>The value of an array of words, the least significant first.\<close>

primrec number :: "u32 list \<Rightarrow> nat" where
  "number [] = 0"
| "number (w # ws) = unat w + 2 ^ 32 * number ws"

lemma number_append: "number (ws @ [w]) = number ws + 2 ^ (32 * length ws) * unat w"
  by (induction ws) (simp_all add: algebra_simps power_add)

lemma number_bound: "number ws < 2 ^ (32 * length ws)"
proof (induction ws)
  case (Cons w ws)
  have "number (w # ws) < 2 ^ 32 * (number ws + 1)" using u32_bound [of w] by simp
  also have "\<dots> \<le> 2 ^ 32 * 2 ^ (32 * length ws)" using Cons.IH by (intro mult_le_mono2) simp
  finally show ?case by (simp add: power_add)
qed simp

lemma top_digit:
  assumes "(a :: nat) < m" "b < m"
  shows "a + m * x \<le> b + m * y \<longleftrightarrow> x < y \<or> (x = y \<and> a \<le> b)"
proof (cases x y rule: linorder_cases)
  case less
  then have "m * (x + 1) \<le> m * y" by (intro mult_le_mono2) simp
  then show ?thesis using assms less by simp
next
  case greater
  then have "m * (y + 1) \<le> m * x" by (intro mult_le_mono2) simp
  then show ?thesis using assms greater by simp
qed (use assms in simp)

lemma below_from_number:
  assumes "k < length hash" "k < length target"
  shows "below_from hash target k \<longleftrightarrow> number (take (Suc k) hash) \<le> number (take (Suc k) target)"
  using assms
proof (induction k)
  case 0
  then show ?case by (cases hash; cases target) (auto simp: word_le_nat_alt word_less_nat_alt)
next
  case (Suc k)
  have "number (take (Suc k) hash) < 2 ^ (32 * Suc k)" "number (take (Suc k) target) < 2 ^ (32 * Suc k)"
    using number_bound [of "take (Suc k) hash"] number_bound [of "take (Suc k) target"] Suc.prems by (simp_all add: min_absorb2)
  moreover have "number (take (Suc (Suc k)) ws) = number (take (Suc k) ws) + 2 ^ (32 * Suc k) * unat (ws ! Suc k)"
    if "Suc k < length ws" for ws
    using that by (simp add: take_Suc_conv_app_nth [of "Suc k"] number_append min_absorb2 del: take_Suc)
  ultimately show ?case
    using Suc by (auto simp: top_digit word_less_nat_alt word_unat_eq_iff)
qed

lemma cuda_hashisbelowtarget_number:
  "length hash = 8 \<Longrightarrow> length target = 8 \<Longrightarrow> cuda_hashisbelowtarget hash target \<longleftrightarrow> number hash \<le> number target"
  by (simp add: cuda_hashisbelowtarget_def below_from_number)

section \<open>Register pairs as 64-bit words\<close>

lemma rol_rotl:
  assumes "n < 64"
  shows "rol x n = word_rotl n x"
proof (cases "n = 0")
  case False
  have m: "(k + (64 - n)) mod 64 = (if k < n then 64 + k - n else k - n)" if "k < 64" for k
  proof (cases "k < n")
    case True
    then show ?thesis using assms by simp
  next
    case False
    then have "k + (64 - n) = (k - n) + 64" using assms by simp
    moreover have "k - n < 64" using that by simp
    ultimately show ?thesis using False by (simp only: mod_add_self2 mod_less if_False)
  qed
  show ?thesis
    by (rule bit_word_eqI) (use False assms m in \<open>simp add: bit_rol bit_word_rotl_iff\<close>)
next
  case True
  have "word_rotl 0 x = x" by (rule bit_word_eqI) (simp add: bit_word_rotl_iff)
  then show ?thesis using True by (simp add: rol_0)
qed

lemma ror_rotr:
  assumes "n < 64"
  shows "ror x n = word_rotr n x"
proof -
  have m: "(k + n) mod 64 = (if k + n < 64 then k + n else k + n - 64)" if "k < 64" for k
    using that assms by (simp add: le_mod_geq)
  show ?thesis
    by (rule bit_word_eqI) (use assms m in \<open>simp add: bit_ror bit_word_rotr_iff\<close>)
qed

lemma devectorize_eq: "devectorize v = x \<longleftrightarrow> v = vectorize x"
  using vector_round_trips(1,2) by metis

lemma vectorize_option: "map_option devectorize p = Some x \<longleftrightarrow> p = Some (vectorize x)"
  by (cases p) (simp_all only: option.map option.inject option.distinct devectorize_eq)



end
