(* ===== verification/CommonData.thy ===== *)
theory CommonData
  imports Prelude
begin

unbundle bit_operations_syntax

text \<open>
  Hexadecimal and big-endian conversions of \<^verbatim>\<open>libdevcore/CommonData.{h,cpp}\<close>.  The integer template
  parameter of the big-endian functions is the number of bits of the type, or \<open>None\<close> for the
  unbounded \<^verbatim>\<open>bigint\<close>.
\<close>

section \<open>Hexadecimal\<close>

datatype WhenError = DontThrow | Throw
datatype HexPrefix = DontAdd | Add
datatype data_error = BadHexCharacter

definition hex_char :: "nat \<Rightarrow> char" where
  "hex_char d = ''0123456789abcdef'' ! d"

text \<open>Stream output in base 16, without padding.\<close>

fun hex_string :: "nat \<Rightarrow> string" where
  "hex_string n = (if n < 16 then [hex_char n] else hex_string (n div 16) @ [hex_char (n mod 16)])"

declare hex_string.simps [simp del]

text \<open>\<^verbatim>\<open>std::setw(w)\<close> with fill character \<open>0\<close>.\<close>

definition setw0 :: "nat \<Rightarrow> string \<Rightarrow> string" where
  "setw0 w s = replicate (w - length s) (CHR ''0'') @ s"

definition toHex :: "bytes \<Rightarrow> nat \<Rightarrow> HexPrefix \<Rightarrow> string" where
  "toHex data w pre =
     (let ret = concat (map (\<lambda>ii. setw0 (if ii \<noteq> 0 then 2 else w) (hex_string (unat (data ! ii)))) [0..<length data])
      in if pre = Add then ''0x'' @ ret else ret)"

definition toHex_u64 :: "u64 \<Rightarrow> string" where
  "toHex_u64 n = setw0 16 (hex_string (unat n))"

text \<open>Value of a hexadecimal character; \<open>None\<close> is the return value \<open>-1\<close> or the exception.\<close>

definition fromHex_char :: "char \<Rightarrow> nat option" where
  "fromHex_char c =
     (let i = (of_char c :: nat) in
      if 48 \<le> i \<and> i \<le> 57 then Some (i - 48)
      else if 97 \<le> i \<and> i \<le> 102 then Some (i - 97 + 10)
      else if 65 \<le> i \<and> i \<le> 70 then Some (i - 65 + 10)
      else None)"

text \<open>\<^verbatim>\<open>_s[i]\<close> at the end of the string is the terminating null.\<close>

definition char_at :: "string \<Rightarrow> nat \<Rightarrow> char" where
  "char_at s i = (if i < length s then s ! i else CHR 0x00)"

definition bad_hex :: "WhenError \<Rightarrow> data_error + bytes" where
  "bad_hex t = (if t = Throw then Inl BadHexCharacter else Inr [])"

function fromHex_pairs :: "string \<Rightarrow> WhenError \<Rightarrow> nat \<Rightarrow> bytes \<Rightarrow> data_error + bytes" where
  "fromHex_pairs s t i ret =
     (if i < length s then
        (case (fromHex_char (char_at s i), fromHex_char (char_at s (i + 1))) of
           (Some h, Some l) \<Rightarrow> fromHex_pairs s t (i + 2) (ret @ [of_nat (h * 16 + l)])
         | _ \<Rightarrow> bad_hex t)
      else Inr ret)"
  by pat_completeness auto
termination by (relation "measure (\<lambda>(s, t, i, r). length s - i)") auto

declare fromHex_pairs.simps [simp del]

definition fromHex :: "string \<Rightarrow> WhenError \<Rightarrow> data_error + bytes" where
  "fromHex s t =
     (let k = (if char_at s 0 = CHR ''0'' \<and> char_at s 1 = CHR ''x'' then 2 else 0) in
      if length s mod 2 \<noteq> 0 then
        (case fromHex_char (char_at s k) of
           Some h \<Rightarrow> fromHex_pairs s t (k + 1) [of_nat h]
         | None \<Rightarrow> bad_hex t)
      else fromHex_pairs s t k [])"

definition asBytes :: "string \<Rightarrow> bytes" where
  "asBytes s = map (\<lambda>c. of_nat (of_char c)) s"

definition asString :: "bytes \<Rightarrow> string" where
  "asString bs = map (\<lambda>b. char_of (unat b)) bs"

section \<open>Escaping\<close>

definition prettyEscapes :: "char \<rightharpoonup> char" where
  "prettyEscapes = map_of [(CHR 0x0D, CHR ''r''), (CHR 0x0A, CHR ''n''), (CHR 0x09, CHR ''t''), (CHR 0x0B, CHR ''v'')]"

text \<open>\<^verbatim>\<open>char\<close> is signed: bytes from 0x80 compare below the space.\<close>

definition escape_char :: "bool \<Rightarrow> char \<Rightarrow> string" where
  "escape_char all i =
     (if i = CHR 0x22 \<and> \<not> all then [CHR 0x5C, CHR 0x22]
      else if i = CHR 0x5C \<and> \<not> all then [CHR 0x5C, CHR 0x5C]
      else if prettyEscapes i \<noteq> None \<and> \<not> all then [CHR 0x5C, the (prettyEscapes i)]
      else if of_char i < (32 :: nat) \<or> (128 :: nat) \<le> of_char i \<or> all then
        [CHR 0x5C, CHR ''x'', hex_char (of_char i div 16), hex_char (of_char i mod 16)]
      else [i])"

definition escaped :: "string \<Rightarrow> bool \<Rightarrow> string" where
  "escaped s all = [CHR 0x22] @ concat (map (escape_char all) s) @ [CHR 0x22]"

section \<open>Big-endian integers\<close>

definition wrap_bits :: "nat option \<Rightarrow> nat \<Rightarrow> nat" where
  "wrap_bits w n = (case w of None \<Rightarrow> n | Some b \<Rightarrow> n mod 2 ^ b)"

text \<open>\<^verbatim>\<open>toBigEndian(_val, o_out)\<close> for an output of the given size, filled from the end.\<close>

fun toBigEndian :: "nat \<Rightarrow> nat \<Rightarrow> bytes" where
  "toBigEndian 0 val = []"
| "toBigEndian (Suc n) val = toBigEndian n (val div 256) @ [of_nat (val mod 256)]"

definition fromBigEndian :: "nat option \<Rightarrow> bytes \<Rightarrow> nat" where
  "fromBigEndian w bs = foldl (\<lambda>ret i. wrap_bits w (ret * 256 + unat i)) 0 bs"

fun bytesRequired :: "nat \<Rightarrow> nat" where
  "bytesRequired i = (if i \<noteq> 0 then Suc (bytesRequired (i div 256)) else 0)"

declare bytesRequired.simps [simp del]

definition toCompactBigEndian :: "nat \<Rightarrow> nat \<Rightarrow> bytes" where
  "toCompactBigEndian val mn = toBigEndian (max mn (bytesRequired val)) val"

definition toHex_u256 :: "nat \<Rightarrow> HexPrefix \<Rightarrow> string" where
  "toHex_u256 val pre =
     (let str = toHex (toBigEndian 32 val) 2 DontAdd in if pre = Add then ''0x'' @ str else str)"

section \<open>Facts\<close>

lemma length_toBigEndian [simp]: "length (toBigEndian n v) = n"
  by (induction n arbitrary: v) simp_all

definition be_value :: "bytes \<Rightarrow> nat" where
  "be_value bs = foldl (\<lambda>r b. r * 256 + unat b) 0 bs"

lemma be_value_simps [simp]: "be_value [] = 0" "be_value (bs @ [b]) = be_value bs * 256 + unat b"
  by (simp_all add: be_value_def)

lemma unat_byte_less [simp]: "unat (b :: byte) < 256"
  using unsigned_less [of b] by simp

lemma be_value_less: "be_value bs < 256 ^ length bs"
proof (induction bs rule: rev_induct)
  case (snoc b bs)
  then have "Suc (be_value bs) * 256 \<le> 256 ^ length bs * 256" by (intro mult_le_mono) simp_all
  then show ?case using unat_byte_less [of b] by (simp del: unat_byte_less)
qed simp

lemma be_value_Cons: "be_value (b # bs) = unat b * 256 ^ length bs + be_value bs"
proof (induction bs rule: rev_induct)
  case (snoc x xs)
  have "be_value (b # xs @ [x]) = be_value (b # xs) * 256 + unat x"
    by (metis append_Cons be_value_simps(2))
  then show ?case using snoc by (simp add: algebra_simps)
qed (simp add: be_value_def)

lemma be_value_toBigEndian [simp]: "be_value (toBigEndian n v) = v mod 256 ^ n"
proof (induction n arbitrary: v)
  case (Suc n)
  have "v mod 256 < 256" by simp
  then have "unat (of_nat (v mod 256) :: byte) = v mod 256"
    by (simp add: unat_of_nat)
  then show ?case using Suc by (simp add: mod_mult2_eq mult.commute)
qed simp

lemma toBigEndian_be_value [simp]: "toBigEndian (length bs) (be_value bs) = bs"
  by (induction bs rule: rev_induct) simp_all

lemma be_value_inject: "length xs = length ys \<Longrightarrow> be_value xs = be_value ys \<longleftrightarrow> xs = ys"
  by (metis toBigEndian_be_value)

lemma fromBigEndian_be_value: "fromBigEndian w bs = wrap_bits w (be_value bs)"
proof (induction bs rule: rev_induct)
  case Nil
  then show ?case by (simp add: fromBigEndian_def wrap_bits_def split: option.splits)
next
  case (snoc b bs)
  then have "fromBigEndian w (bs @ [b]) = wrap_bits w (wrap_bits w (be_value bs) * 256 + unat b)"
    by (simp add: fromBigEndian_def)
  also have "\<dots> = wrap_bits w (be_value bs * 256 + unat b)"
    by (cases w) (simp_all add: wrap_bits_def, metis mod_add_left_eq mod_mult_left_eq)
  finally show ?case by simp
qed

lemma fromBigEndian_exact: "w = None \<or> (\<exists>b. w = Some b \<and> 8 * length bs \<le> b) \<Longrightarrow> fromBigEndian w bs = be_value bs"
proof -
  assume w: "w = None \<or> (\<exists>b. w = Some b \<and> 8 * length bs \<le> b)"
  have "be_value bs < 2 ^ b" if "8 * length bs \<le> b" for b
  proof -
    have "(256 :: nat) ^ length bs = 2 ^ (8 * length bs)" by (simp add: power_mult)
    also have "\<dots> \<le> 2 ^ b" using that by simp
    finally show ?thesis using be_value_less [of bs] by linarith
  qed
  with w show ?thesis by (auto simp: fromBigEndian_be_value wrap_bits_def)
qed

lemma bytesRequired_0 [simp]: "bytesRequired 0 = 0"
  by (simp add: bytesRequired.simps)

lemma bytesRequired_bounds:
  "v < 256 ^ bytesRequired v" "v \<noteq> 0 \<Longrightarrow> 256 ^ (bytesRequired v - 1) \<le> v"
proof (induction v rule: bytesRequired.induct)
  case (1 v)
  { case 1
    show ?case
    proof (cases "v = 0")
      case False
      with "1.IH"(1) have "v div 256 < 256 ^ bytesRequired (v div 256)" by simp
      with False show ?thesis by (subst bytesRequired.simps) (simp add: div_less_iff_less_mult mult.commute)
    qed simp }
  { case 2
    show ?case
    proof (cases "v div 256 = 0")
      case True
      with 2 show ?thesis by (subst bytesRequired.simps) simp
    next
      case False
      have "256 ^ (bytesRequired (v div 256) - 1) \<le> v div 256" using "1.IH"(2) 2 False by simp
      then have "256 * 256 ^ (bytesRequired (v div 256) - 1) \<le> v" by linarith
      moreover from False have "bytesRequired (v div 256) = Suc (bytesRequired (v div 256) - 1)"
        by (subst (1 2) bytesRequired.simps) simp
      ultimately have "256 ^ bytesRequired (v div 256) \<le> v" by (metis power_Suc)
      with 2 show ?thesis by (subst bytesRequired.simps) simp
    qed }
qed


lemma be_value_compact: "be_value (toCompactBigEndian v mn) = v"
proof -
  have "v < 256 ^ bytesRequired v" by (rule bytesRequired_bounds)
  also have "\<dots> \<le> 256 ^ max mn (bytesRequired v)" by (simp add: power_increasing)
  finally show ?thesis by (simp add: toCompactBigEndian_def)
qed

lemma length_compact: "length (toCompactBigEndian v 0) = bytesRequired v"
  by (simp add: toCompactBigEndian_def)

lemma hd_compact:
  assumes "v \<noteq> 0"
  shows "toCompactBigEndian v 0 \<noteq> [] \<and> hd (toCompactBigEndian v 0) \<noteq> 0"
proof (cases "toCompactBigEndian v 0")
  case Nil
  then show ?thesis using be_value_compact [of v 0] assms by simp
next
  case (Cons b bs)
  then have len: "length bs = bytesRequired v - 1" using length_compact [of v] by simp
  have "be_value bs < 256 ^ (bytesRequired v - 1)" using be_value_less [of bs] len by simp
  moreover have "v = unat b * 256 ^ length bs + be_value bs"
    using be_value_compact [of v 0] Cons by (simp add: be_value_Cons)
  ultimately have "unat b \<noteq> 0"
    using bytesRequired_bounds(2) [OF assms] by (intro notI) simp
  with Cons show ?thesis by (auto simp: unat_eq_0)
qed

subsection \<open>Hexadecimal round trip\<close>

lemma fromHex_char_hex_char [simp]:
  assumes "d < 16"
  shows "fromHex_char (hex_char d) = Some d"
proof -
  have "d \<in> set [0..<16]" using assms by simp
  moreover have "list_all (\<lambda>d. fromHex_char (hex_char d) = Some d) [0..<16]" by code_simp
  ultimately show ?thesis by (simp only: list_all_iff)
qed

lemma hex_string_byte:
  assumes "n < 256"
  shows "setw0 2 (hex_string n) = [hex_char (n div 16), hex_char (n mod 16)]"
proof (cases "n < 16")
  case True
  have "hex_char 0 = CHR ''0''" by (simp add: hex_char_def)
  with True show ?thesis by (simp add: setw0_def hex_string.simps [of n] numeral_2_eq_2)
next
  case False
  with assms have "n div 16 < 16" by (simp add: less_mult_imp_div_less)
  with False show ?thesis by (simp add: setw0_def hex_string.simps [of n] hex_string.simps [of "n div 16"])
qed

definition hex_pairs :: "bytes \<Rightarrow> string" where
  "hex_pairs bs = concat (map (\<lambda>b. [hex_char (unat b div 16), hex_char (unat b mod 16)]) bs)"

lemma toHex_pairs: "toHex data 2 pre = (if pre = Add then ''0x'' else []) @ hex_pairs data"
proof -
  have "map (\<lambda>ii. setw0 (if ii \<noteq> 0 then 2 else 2) (hex_string (unat (data ! ii)))) [0..<length data] =
      map (\<lambda>b. [hex_char (unat b div 16), hex_char (unat b mod 16)]) data"
    by (intro nth_equalityI) (simp_all add: hex_string_byte)
  then show ?thesis by (simp add: toHex_def hex_pairs_def)
qed

lemma length_hex_pairs [simp]: "length (hex_pairs bs) = 2 * length bs"
  by (induction bs) (simp_all add: hex_pairs_def)

lemma hex_pairs_nth:
  "i < length bs \<Longrightarrow> hex_pairs bs ! (2 * i) = hex_char (unat (bs ! i) div 16) \<and>
     hex_pairs bs ! (2 * i + 1) = hex_char (unat (bs ! i) mod 16)"
proof (induction bs arbitrary: i)
  case (Cons b bs)
  have h: "hex_pairs (b # bs) = hex_char (unat b div 16) # hex_char (unat b mod 16) # hex_pairs bs"
    by (simp add: hex_pairs_def)
  show ?case using Cons by (cases i) (simp_all add: h)
qed simp

lemma fromHex_pairs_hex:
  assumes "length s = k + 2 * length bs" "drop k s = hex_pairs bs" "j \<le> length bs"
  shows "fromHex_pairs s t (k + 2 * j) ret = Inr (ret @ drop j bs)"
  using assms(3)
proof (induction "length bs - j" arbitrary: j ret rule: less_induct)
  case less
  show ?case
  proof (cases "j = length bs")
    case True
    then show ?thesis by (subst fromHex_pairs.simps) (simp add: assms(1))
  next
    case False
    with less.prems have j: "j < length bs" by simp
    have at: "char_at s (k + i) = hex_pairs bs ! i" if "i < 2 * length bs" for i
    proof -
      have "s ! (k + i) = drop k s ! i" using that assms(1) by simp
      then show ?thesis using that assms(1) by (simp add: char_at_def assms(2))
    qed
    have b: "of_nat (unat (bs ! j) div 16 * 16 + unat (bs ! j) mod 16) = bs ! j" by simp
    have d: "unat (bs ! j) div 16 < 16" by (simp add: less_mult_imp_div_less)
    have "fromHex_pairs s t (k + 2 * j) ret = fromHex_pairs s t (k + 2 * Suc j) (ret @ [bs ! j])"
      using j at [of "2 * j"] at [of "2 * j + 1"] hex_pairs_nth [OF j] d
      by (subst fromHex_pairs.simps) (simp add: assms(1) b add.assoc del: of_nat_add of_nat_mult)
    also have "\<dots> = Inr ((ret @ [bs ! j]) @ drop (Suc j) bs)"
      using j by (intro less.hyps) simp_all
    finally show ?thesis using j by (simp add: Cons_nth_drop_Suc)
  qed
qed

lemma hex_char_not_x: "d < 16 \<Longrightarrow> hex_char d \<noteq> CHR ''x''"
  using fromHex_char_hex_char [of d] by (auto simp: fromHex_char_def)

lemma fromHex_toHex: "fromHex (toHex bs 2 pre) t = Inr bs"
proof (cases pre)
  case Add
  then have s: "toHex bs 2 pre = CHR ''0'' # CHR ''x'' # hex_pairs bs" by (simp add: toHex_pairs)
  show ?thesis
    unfolding fromHex_def s using fromHex_pairs_hex [of "CHR ''0'' # CHR ''x'' # hex_pairs bs" 2 bs 0 t "[]"]
    by (simp add: char_at_def)
next
  case DontAdd
  then have s: "toHex bs 2 pre = hex_pairs bs" by (simp add: toHex_pairs)
  have "\<not> (char_at (hex_pairs bs) 0 = CHR ''0'' \<and> char_at (hex_pairs bs) 1 = CHR ''x'')"
    using hex_pairs_nth [of 0 bs] hex_char_not_x [of "unat (bs ! 0) mod 16"] by (cases bs) (auto simp: char_at_def)
  then show ?thesis
    unfolding fromHex_def s using fromHex_pairs_hex [of "hex_pairs bs" 0 bs 0 t "[]"] by auto
qed


definition all_hex :: "string \<Rightarrow> bool" where
  "all_hex s = list_all (\<lambda>c. fromHex_char c \<noteq> None) s"

lemma fromHex_pairs_step:
  assumes "even (length s - i)" "i < length s"
  shows "drop i s = s ! i # s ! Suc i # drop (i + 2) s" "even (length s - (i + 2))"
    and "fromHex_pairs s t i ret =
      (case (fromHex_char (s ! i), fromHex_char (s ! Suc i)) of
         (Some h, Some l) \<Rightarrow> fromHex_pairs s t (i + 2) (ret @ [of_nat (h * 16 + l)])
       | _ \<Rightarrow> bad_hex t)"
proof -
  have i: "Suc i < length s"
    using assms by (cases "length s = Suc i") auto
  then show "drop i s = s ! i # s ! Suc i # drop (i + 2) s" by (simp add: Cons_nth_drop_Suc)
  show "even (length s - (i + 2))" using assms i by auto
  have "char_at s i = s ! i" "char_at s (i + 1) = s ! Suc i" using i by (simp_all add: char_at_def)
  then show "fromHex_pairs s t i ret =
      (case (fromHex_char (s ! i), fromHex_char (s ! Suc i)) of
         (Some h, Some l) \<Rightarrow> fromHex_pairs s t (i + 2) (ret @ [of_nat (h * 16 + l)])
       | _ \<Rightarrow> bad_hex t)"
    using assms(2) by (simp add: fromHex_pairs.simps [of s t i])
qed

lemma fromHex_pairs_bad:
  assumes "even (length s - i)" "\<not> all_hex (drop i s)"
  shows "fromHex_pairs s t i ret = bad_hex t"
  using assms
proof (induction "length s - i" arbitrary: i ret rule: less_induct)
  case less
  then have i: "i < length s" by (cases "i < length s") (simp_all add: all_hex_def)
  note step = fromHex_pairs_step [OF less.prems(1) i]
  show ?case
  proof (cases "fromHex_char (s ! i) = None \<or> fromHex_char (s ! Suc i) = None")
    case True
    then show ?thesis by (auto simp: step(3) split: option.splits)
  next
    case False
    then have "\<not> all_hex (drop (i + 2) s)" using less.prems(2) by (auto simp: step(1) all_hex_def)
    then have "fromHex_pairs s t (i + 2) ret' = bad_hex t" for ret'
      using i step(2) by (intro less.hyps) auto
    with False show ?thesis by (auto simp: step(3))
  qed
qed

lemma fromHex_pairs_good:
  assumes "even (length s - i)" "all_hex (drop i s)"
  shows "\<exists>bs. fromHex_pairs s t i ret = Inr (ret @ bs) \<and> 2 * length bs = length s - i"
  using assms
proof (induction "length s - i" arbitrary: i ret rule: less_induct)
  case less
  show ?case
  proof (cases "i < length s")
    case False
    then show ?thesis by (subst fromHex_pairs.simps) simp
  next
    case True
    note step = fromHex_pairs_step [OF less.prems(1) True]
    obtain h l where hl: "fromHex_char (s ! i) = Some h" "fromHex_char (s ! Suc i) = Some l"
      using less.prems(2) by (auto simp: step(1) all_hex_def)
    have "all_hex (drop (i + 2) s)" "i < i + 2" using less.prems(2) by (simp_all add: step(1) all_hex_def)
    then obtain bs where "fromHex_pairs s t (i + 2) (ret @ [of_nat (h * 16 + l)]) = Inr ((ret @ [of_nat (h * 16 + l)]) @ bs)"
        "2 * length bs = length s - (i + 2)"
      using less.hyps [OF _ step(2), of "ret @ [of_nat (h * 16 + l)]"] diff_less_mono2 [of i "i + 2" "length s"] True by blast
    moreover have "Suc i < length s" using less.prems(1) True by (cases "length s = Suc i") auto
    ultimately show ?thesis
      by (intro exI [of _ "of_nat (h * 16 + l) # bs"]) (simp add: step(3) hl)
  qed
qed

text \<open>The digits of a hex string: what follows an optional prefix.\<close>

definition hex_digits :: "string \<Rightarrow> string" where
  "hex_digits s = (if char_at s 0 = CHR ''0'' \<and> char_at s 1 = CHR ''x'' then drop 2 s else s)"

lemma even_hex_digits: "even (length (hex_digits s)) = even (length s)"
  by (cases s; cases "tl s") (auto simp: hex_digits_def char_at_def)

lemma fromHex_outcome:
  assumes "even (length s)"
  shows "fromHex s t = (if all_hex (hex_digits s) then fromHex s Throw else bad_hex t)"
    and "all_hex (hex_digits s) \<Longrightarrow> \<exists>bs. fromHex s t = Inr bs \<and> 2 * length bs = length (hex_digits s)"
proof -
  define k where "k = (if char_at s 0 = CHR ''0'' \<and> char_at s 1 = CHR ''x'' then 2 else 0 :: nat)"
  have f: "fromHex s t' = fromHex_pairs s t' k []" for t'
    using assms by (simp add: fromHex_def k_def Let_def even_iff_mod_2_eq_zero)
  have hd: "hex_digits s = drop k s" by (simp add: hex_digits_def k_def)
  have ev: "even (length s - k)" using assms by (auto simp: k_def)
  show "\<exists>bs. fromHex s t = Inr bs \<and> 2 * length bs = length (hex_digits s)" if "all_hex (hex_digits s)"
    using fromHex_pairs_good [OF ev, of t "[]"] that by (simp add: f hd)
  have same: "fromHex_pairs s t i ret = fromHex_pairs s Throw i ret" if "all_hex (drop i s)" "even (length s - i)" for i ret
    using that
  proof (induction "length s - i" arbitrary: i ret rule: less_induct)
    case less
    show ?case
    proof (cases "i < length s")
      case False
      then show ?thesis by (simp add: fromHex_pairs.simps [of s _ i])
    next
      case True
      note step = fromHex_pairs_step [OF less.prems(2) True]
      obtain h l where hl: "fromHex_char (s ! i) = Some h" "fromHex_char (s ! Suc i) = Some l"
        using less.prems(1) by (auto simp: step(1) all_hex_def)
      have "fromHex_pairs s t (i + 2) ret' = fromHex_pairs s Throw (i + 2) ret'" for ret'
        using True less.prems(1) step(2) by (intro less.hyps) (auto simp: step(1) all_hex_def)
      then show ?thesis by (simp add: step(3) hl)
    qed
  qed
  show "fromHex s t = (if all_hex (hex_digits s) then fromHex s Throw else bad_hex t)"
    using fromHex_pairs_bad [OF ev] same [OF _ ev] by (auto simp: f hd)
qed

section \<open>Properties\<close>

text \<open>
  Printing bytes as hexadecimal and reading them back is the identity, with and without the
  \<open>0x\<close> prefix and in both error modes.
\<close>

theorem hex_roundtrip: "fromHex (toHex bs 2 pre) t = Inr bs"
  by (rule fromHex_toHex)

text \<open>
  Reading a string of even length fails exactly when a character after the optional prefix is
  not hexadecimal: it then throws, or in the non-throwing mode returns no bytes at all (the header
  comment says bad characters are replaced by zeros); otherwise it yields one byte per two digits.
\<close>

theorem fromHex_failure:
  assumes "even (length s)"
  shows "(fromHex s Throw = Inl BadHexCharacter \<longleftrightarrow> \<not> all_hex (hex_digits s)) \<and>
    (\<not> all_hex (hex_digits s) \<longrightarrow> fromHex s DontThrow = Inr []) \<and>
    (all_hex (hex_digits s) \<longrightarrow> (\<exists>bs. fromHex s DontThrow = Inr bs \<and> 2 * length bs = length (hex_digits s)))"
  using fromHex_outcome(1) [OF assms, of Throw] fromHex_outcome(1) [OF assms, of DontThrow]
    fromHex_outcome(2) [OF assms, of Throw] fromHex_outcome(2) [OF assms, of DontThrow]
  by (auto simp: bad_hex_def)

theorem fromHex_failure_witness: "fromHex ''12g4'' DontThrow = Inr []"
proof -
  have "\<not> all_hex (hex_digits ''12g4'')" by code_simp
  then show ?thesis using fromHex_failure [of "''12g4''"] by simp
qed

text \<open>
  Big-endian encoding: decoding what was encoded gives the value back (modulo the size of the
  output, and modulo the integer type), encoding what was decoded gives the bytes back, and the
  compact form is the shortest one, without a leading zero byte.
\<close>

theorem big_endian_roundtrip:
  assumes "v \<noteq> 0" "8 * length bs \<le> b"
  shows "fromBigEndian None (toBigEndian n v) = v mod 256 ^ n \<and>
    toBigEndian (length bs) (fromBigEndian (Some b) bs) = bs \<and>
    fromBigEndian None (toCompactBigEndian v 0) = v \<and> hd (toCompactBigEndian v 0) \<noteq> 0 \<and>
    (\<forall>cs. fromBigEndian None cs = v \<longrightarrow> length (toCompactBigEndian v 0) \<le> length cs)"
proof -
  have short: "bytesRequired v \<le> length cs" if "be_value cs = v" for cs
  proof (rule ccontr)
    assume "\<not> bytesRequired v \<le> length cs"
    then have "(256 :: nat) ^ length cs \<le> 256 ^ (bytesRequired v - 1)" by (intro power_increasing) simp_all
    with bytesRequired_bounds(2) [OF assms(1)] be_value_less [of cs] that show False by linarith
  qed
  have "fromBigEndian (Some b) bs = be_value bs" using assms(2) by (simp add: fromBigEndian_exact)
  with short show ?thesis
    using hd_compact [OF assms(1)] by (auto simp: fromBigEndian_exact be_value_compact length_compact)
qed

theorem big_endian_roundtrip_witness:
  "fromBigEndian None (toCompactBigEndian 1000 0) = 1000"
  using big_endian_roundtrip [of 1000 "[]" 8 2] by simp

end
