(* ===== verification/FixedHash.thy ===== *)
theory FixedHash
  imports CommonData
begin

unbundle bit_operations_syntax

text \<open>
  The fixed-size hash container of \<^verbatim>\<open>libdevcore/FixedHash.h\<close>: a \<^verbatim>\<open>FixedHash<N>\<close> is a list of \<open>N\<close>
  bytes, big-endian.  The comparison operators are shown to be the numeric order of the value,
  which is what the miner uses to compare a hash with the boundary.
\<close>

type_synonym h256 = bytes

definition h256_zero :: h256 where "h256_zero = replicate 32 0"

section \<open>Construction\<close>

datatype ConstructFromHashType = AlignLeft | AlignRight | FailIfDifferent

text \<open>\<^verbatim>\<open>m_data[_t == AlignRight ? N - 1 - i : i] = _h[_t == AlignRight ? M - 1 - i : i]\<close> for \<open>i < c\<close>.\<close>

definition copy_aligned :: "ConstructFromHashType \<Rightarrow> nat \<Rightarrow> nat \<Rightarrow> bytes \<Rightarrow> bytes \<Rightarrow> bytes" where
  "copy_aligned t n c src dst =
     fold (\<lambda>i d. d[(if t = AlignRight then n - 1 - i else i) := src ! (if t = AlignRight then length src - 1 - i else i)])
       [0..<c] dst"

definition FixedHash_of_hash :: "nat \<Rightarrow> bytes \<Rightarrow> ConstructFromHashType \<Rightarrow> bytes" where
  "FixedHash_of_hash n h t = copy_aligned t n (min (length h) n) h (replicate n 0)"

definition FixedHash_of_bytes :: "nat \<Rightarrow> bytes \<Rightarrow> ConstructFromHashType \<Rightarrow> bytes" where
  "FixedHash_of_bytes n b t =
     (if length b = n then b
      else if t \<noteq> FailIfDifferent then copy_aligned t n (min (length b) n) b (replicate n 0)
      else replicate n 0)"

definition FixedHash_of_string :: "nat \<Rightarrow> string \<Rightarrow> data_error + bytes" where
  "FixedHash_of_string n s = bindE (fromHex s Throw) (\<lambda>b. Inr (FixedHash_of_bytes n b FailIfDifferent))"

definition FixedHash_of_arith :: "nat \<Rightarrow> nat \<Rightarrow> bytes" where
  "FixedHash_of_arith n v = toBigEndian n v"

definition FixedHash_to_arith :: "nat \<Rightarrow> bytes \<Rightarrow> nat" where
  "FixedHash_to_arith n h = fromBigEndian (Some (n * 8)) h"

section \<open>Operators\<close>

definition hash_bool :: "bytes \<Rightarrow> bool" where
  "hash_bool h = list_ex (\<lambda>b. b \<noteq> 0) h"

fun hash_less :: "bytes \<Rightarrow> bytes \<Rightarrow> bool" where
  "hash_less (a # as) (c # cs) = (if a < c then True else if c < a then False else hash_less as cs)"
| "hash_less _ _ = False"

definition hash_eq :: "bytes \<Rightarrow> bytes \<Rightarrow> bool" where "hash_eq a c \<longleftrightarrow> a = c"
definition hash_ge :: "bytes \<Rightarrow> bytes \<Rightarrow> bool" where "hash_ge a c \<longleftrightarrow> \<not> hash_less a c"
definition hash_le :: "bytes \<Rightarrow> bytes \<Rightarrow> bool" where "hash_le a c \<longleftrightarrow> hash_eq a c \<or> hash_less a c"
definition hash_gt :: "bytes \<Rightarrow> bytes \<Rightarrow> bool" where "hash_gt a c \<longleftrightarrow> \<not> hash_le a c"

text \<open>The specialised equality of \<^verbatim>\<open>h256\<close> compares four 64-bit words.\<close>

definition h256_eq :: "h256 \<Rightarrow> h256 \<Rightarrow> bool" where
  "h256_eq a c = list_all (\<lambda>i. (word_of_le (take 8 (drop (8 * i) a)) :: u64) = word_of_le (take 8 (drop (8 * i) c))) [0..<4]"

definition hash_xor :: "bytes \<Rightarrow> bytes \<Rightarrow> bytes" where "hash_xor a c = map2 (XOR) a c"
definition hash_or :: "bytes \<Rightarrow> bytes \<Rightarrow> bytes" where "hash_or a c = map2 (OR) a c"
definition hash_and :: "bytes \<Rightarrow> bytes \<Rightarrow> bytes" where "hash_and a c = map2 (AND) a c"
definition hash_not :: "bytes \<Rightarrow> bytes" where "hash_not a = map (\<lambda>b. NOT b) a"

text \<open>\<^verbatim>\<open>for (unsigned i = size; i > 0 && !++m_data[--i]; ) {}\<close>.\<close>

fun hash_inc_from :: "nat \<Rightarrow> bytes \<Rightarrow> bytes" where
  "hash_inc_from 0 h = h"
| "hash_inc_from (Suc i) h =
     (let h' = h[i := h ! i + 1] in if h' ! i = 0 then hash_inc_from i h' else h')"

definition hash_inc :: "bytes \<Rightarrow> bytes" where
  "hash_inc h = hash_inc_from (length h) h"

definition hash_hex :: "bytes \<Rightarrow> string" where
  "hash_hex h = toHex h 2 DontAdd"

definition hash_abridged :: "bytes \<Rightarrow> string" where
  "hash_abridged h = toHex (take 4 h) 2 DontAdd @ [CHR 0xE2, CHR 0x80, CHR 0xA6]"

text \<open>Stream output, and the text of a list of hashes.\<close>

definition hash_stream :: "bytes \<Rightarrow> string" where
  "hash_stream h = concat (map (\<lambda>b. setw0 2 (hex_string (unat b))) h)"

definition hashes_toString :: "h256 list \<Rightarrow> string" where
  "hashes_toString hs = ''[ '' @ concat (map (\<lambda>h. hash_abridged h @ '', '') hs) @ '']''"

text \<open>Random content: \<open>draw\<close> is one draw of \<^verbatim>\<open>std::uniform_int_distribution<uint16_t>(0, 255)\<close> from the engine.\<close>

fun hash_randomize :: "('g \<Rightarrow> u16 \<times> 'g) \<Rightarrow> bytes \<Rightarrow> 'g \<Rightarrow> bytes \<times> 'g" where
  "hash_randomize draw [] g = ([], g)"
| "hash_randomize draw (_ # h) g = (let (x, g1) = draw g; (h', g2) = hash_randomize draw h g1 in (ucast x # h', g2))"

definition hash_random :: "('g \<Rightarrow> u16 \<times> 'g) \<Rightarrow> nat \<Rightarrow> 'g \<Rightarrow> bytes \<times> 'g" where
  "hash_random draw n g = hash_randomize draw (replicate n 0) g"

definition hash_clear :: "bytes \<Rightarrow> bytes" where
  "hash_clear h = replicate (length h) 0"

section \<open>Facts\<close>

text \<open>A hash is printed the same way by the stream operator and by \<open>hex\<close>, and can be read back from either.\<close>

lemma hash_stream_hex: "hash_stream h = hash_hex h"
proof -
  have "map (\<lambda>b. setw0 2 (hex_string (unat b))) h = map (\<lambda>i. setw0 2 (hex_string (unat (h ! i)))) [0..<length h]"
    by (rule nth_equalityI) simp_all
  then show ?thesis by (simp add: hash_stream_def hash_hex_def toHex_def)
qed

text \<open>A random hash has the right size, and every value in the range of the distribution is kept.\<close>

lemma hash_randomize_range:
  assumes "\<And>g. unat (fst (draw g)) < 256"
  shows "length (fst (hash_randomize draw h g)) = length h"
    and "i < length h \<Longrightarrow> \<exists>g'. unat (fst (hash_randomize draw h g) ! i) = unat (fst (draw g'))"
proof (induction h arbitrary: g i)
  case (Cons b h)
  {
    case 1
    show ?case using Cons.IH(1) [of "snd (draw g)"] by (simp add: split_def Let_def)
  next
    case 2
    have "unat (ucast (fst (draw g)) :: byte) = unat (fst (draw g))"
      using assms [of g] by (simp add: unsigned_ucast_eq take_bit_nat_eq_self)
    then show ?case using 2 Cons.IH(2) [of _ "snd (draw g)"] by (cases i) (auto simp: split_def Let_def)
  }
qed simp_all

lemma hash_less_value: "length a = length c \<Longrightarrow> hash_less a c \<longleftrightarrow> be_value a < be_value c"
proof (induction a c rule: list_induct2)
  case (Cons x xs y ys)
  let ?w = "256 ^ length ys :: nat"
  have b: "be_value xs < ?w" "be_value ys < ?w" using be_value_less [of xs] be_value_less [of ys] Cons.hyps by simp_all
  have lt: "u * ?w + p < v * ?w + q" if "u < v" "p < ?w" for u v p q :: nat
  proof -
    have "Suc u * ?w \<le> v * ?w" using that(1) by (intro mult_le_mono1) simp
    with that(2) show ?thesis by simp
  qed
  consider "x < y" | "y < x" | "x = y" by fastforce
  then show ?case
  proof cases
    case 1
    then have "unat x < unat y" by (simp add: word_less_nat_alt)
    with 1 lt [OF this b(1), of "be_value ys"] show ?thesis by (simp add: be_value_Cons Cons.hyps)
  next
    case 2
    then have "unat y < unat x" by (simp add: word_less_nat_alt)
    with 2 lt [OF this b(2), of "be_value xs"] show ?thesis by (auto simp: be_value_Cons Cons.hyps)
  next
    case 3
    then show ?thesis using Cons by (simp add: be_value_Cons)
  qed
qed simp

lemma be_value_append: "be_value (xs @ ys) = be_value xs * 256 ^ length ys + be_value ys"
  by (induction ys rule: rev_induct) (simp_all add: algebra_simps flip: append_assoc)

lemma be_value_zeros [simp]: "be_value (replicate n 0) = 0"
  by (induction n) (simp_all add: be_value_Cons)

lemma length_copy_aligned [simp]: "length (copy_aligned t n c src dst) = length dst"
  unfolding copy_aligned_def by (rule length_fold_update) simp

lemma nth_copy_left:
  assumes "t \<noteq> AlignRight" "k < length dst" "c \<le> length dst"
  shows "copy_aligned t n c src dst ! k = (if k < c then src ! k else dst ! k)"
  using assms
proof (induction c)
  case (Suc c)
  have "copy_aligned t n (Suc c) src dst = (copy_aligned t n c src dst)[c := src ! c]"
    using Suc.prems by (simp add: copy_aligned_def)
  with Suc show ?case by (auto simp: nth_list_update less_Suc_eq)
qed (simp add: copy_aligned_def)

lemma nth_copy_right:
  assumes "k < n" "length dst = n" "c \<le> n" "c \<le> length src"
  shows "copy_aligned AlignRight n c src dst ! k = (if n - c \<le> k then src ! (length src + k - n) else dst ! k)"
  using assms
proof (induction c)
  case (Suc c)
  have "copy_aligned AlignRight n (Suc c) src dst =
      (copy_aligned AlignRight n c src dst)[n - 1 - c := src ! (length src - 1 - c)]"
    by (simp add: copy_aligned_def)
  moreover have "length src + k - n = length src - 1 - c" if "k = n - 1 - c" using that Suc.prems by simp
  moreover have "n - Suc c \<le> k \<longleftrightarrow> n - c \<le> k \<or> k = n - 1 - c" using Suc.prems by auto
  ultimately show ?case using Suc by (auto simp: nth_list_update)
qed (simp add: copy_aligned_def)

lemma copy_left:
  "t \<noteq> AlignRight \<Longrightarrow> copy_aligned t n (min (length h) n) h (replicate n 0) = take n h @ replicate (n - length h) 0"
  by (intro nth_equalityI) (auto simp: nth_copy_left nth_append min_def)

lemma copy_right:
  "copy_aligned AlignRight n (min (length h) n) h (replicate n 0) = replicate (n - length h) 0 @ drop (length h - n) h"
  by (intro nth_equalityI) (auto simp: nth_copy_right nth_append min_def add.commute)

lemma be_value_drop: "be_value (drop (length h - n) h) = be_value h mod 256 ^ n"
proof (cases "length h \<le> n")
  case True
  have "be_value h < 256 ^ length h" by (rule be_value_less)
  also have "\<dots> \<le> 256 ^ n" using True by (simp add: power_increasing)
  finally show ?thesis using True by simp
next
  case False
  then have l: "length (drop (length h - n) h) = n" by simp
  have "be_value h = be_value (take (length h - n) h) * 256 ^ n + be_value (drop (length h - n) h)"
    by (metis append_take_drop_id be_value_append l)
  then show ?thesis using be_value_less [of "drop (length h - n) h"] l by simp
qed

lemma length_hash_inc_from [simp]: "length (hash_inc_from i h) = length h"
  by (induction i h rule: hash_inc_from.induct) (auto simp: Let_def)

lemma unat_byte_inc: "unat (b + 1 :: byte) = (if b + 1 = 0 then 0 else unat b + 1)" "b + 1 = (0 :: byte) \<longleftrightarrow> unat b = 255"
proof -
  have m: "unat (b + 1) = (unat b + 1) mod 256" by (simp add: unat_word_ariths)
  then show *: "b + 1 = 0 \<longleftrightarrow> unat b = 255"
    using unat_byte_less [of b] by (cases "unat b = 255") (auto simp: unat_eq_0 [symmetric])
  show "unat (b + 1) = (if b + 1 = 0 then 0 else unat b + 1)"
    using m * unat_byte_less [of b] by (auto simp del: unat_byte_less)
qed

lemma hash_inc_from_value:
  "\<exists>zs. hash_inc_from (length xs) (xs @ ys) = zs @ ys \<and> length zs = length xs \<and>
     be_value zs = (be_value xs + 1) mod 256 ^ length xs"
proof (induction xs arbitrary: ys rule: rev_induct)
  case (snoc b xs)
  have h: "(xs @ [b] @ ys)[length xs := b + 1] = xs @ [b + 1] @ ys" by simp
  show ?case
  proof (cases "b + 1 = 0")
    case True
    have "hash_inc_from (length (xs @ [b])) ((xs @ [b]) @ ys) = hash_inc_from (length xs) (xs @ 0 # ys)"
      using True by (simp add: Let_def)
    moreover from snoc obtain zs where "hash_inc_from (length xs) (xs @ 0 # ys) = zs @ 0 # ys"
        "length zs = length xs" "be_value zs = (be_value xs + 1) mod 256 ^ length xs" by blast
    moreover have "be_value (xs @ [b]) + 1 = (be_value xs + 1) * 256"
      using True unat_byte_inc(2) [of b] by simp
    moreover have "(be_value xs + 1) * 256 mod 256 ^ length (xs @ [b]) = ((be_value xs + 1) mod 256 ^ length xs) * 256"
      by (simp only: length_append_singleton power_Suc mult.commute [of 256] mult_mod_left [symmetric])
    ultimately show ?thesis by (intro exI [of _ "zs @ [0]"]) (simp del: power_Suc)
  next
    case False
    have "be_value (xs @ [b + 1]) < 256 ^ length (xs @ [b])"
      using be_value_less [of "xs @ [b + 1]"] by simp
    then show ?thesis
      using False unat_byte_inc(1) [of b] by (intro exI [of _ "xs @ [b + 1]"]) (simp add: Let_def)
  qed
qed simp

lemma be_value_hash_inc: "be_value (hash_inc h) = (be_value h + 1) mod 256 ^ length h"
  using hash_inc_from_value [of h "[]"] by (auto simp: hash_inc_def)

lemma word_of_le_inject:
  assumes "length xs * 8 = LENGTH('a)" "length ys * 8 = LENGTH('a)"
  shows "(word_of_le xs :: 'a::len word) = word_of_le ys \<longleftrightarrow> xs = ys"
  using word_to_le_of_le [OF assms(1)] word_to_le_of_le [OF assms(2)] by metis

lemma h256_eq_iff:
  assumes "length a = 32" "length c = 32"
  shows "h256_eq a c \<longleftrightarrow> hash_eq a c"
proof
  assume eq: "h256_eq a c"
  have "a ! k = c ! k" if "k < 32" for k
  proof -
    have i: "k div 8 < 4" and k: "k = 8 * (k div 8) + k mod 8" using that by auto
    have len: "length (take 8 (drop (8 * (k div 8)) xs)) = 8" if "length xs = 32" for xs :: bytes
      using i that by simp
    have "(word_of_le (take 8 (drop (8 * (k div 8)) a)) :: u64) = word_of_le (take 8 (drop (8 * (k div 8)) c))"
      using eq i by (simp add: h256_eq_def list_all_iff)
    then have "take 8 (drop (8 * (k div 8)) a) = take 8 (drop (8 * (k div 8)) c)"
      using len assms by (simp add: word_of_le_inject)
    then have "take 8 (drop (8 * (k div 8)) a) ! (k mod 8) = take 8 (drop (8 * (k div 8)) c) ! (k mod 8)" by simp
    then show ?thesis using assms that by simp
  qed
  then show "hash_eq a c" using assms by (simp add: hash_eq_def nth_equalityI)
qed (simp add: h256_eq_def hash_eq_def list_all_iff)

section \<open>The order of the hash type\<close>

text \<open>The operators of the class are a linear order, so the library's order reasoning applies.\<close>

typedef hash32 = "{h :: bytes. length h = 32}"
  by (rule exI [of _ h256_zero]) (simp add: h256_zero_def)

lemma length_Rep_hash32 [simp]: "length (Rep_hash32 h) = 32"
  using Rep_hash32 [of h] by simp

instantiation hash32 :: linorder
begin

definition less_hash32 :: "hash32 \<Rightarrow> hash32 \<Rightarrow> bool" where
  "less_hash32 a c = hash_less (Rep_hash32 a) (Rep_hash32 c)"

definition less_eq_hash32 :: "hash32 \<Rightarrow> hash32 \<Rightarrow> bool" where
  "less_eq_hash32 a c = hash_le (Rep_hash32 a) (Rep_hash32 c)"

instance
proof
  have eq: "be_value (Rep_hash32 a) = be_value (Rep_hash32 c) \<longleftrightarrow> a = c" for a c
    by (simp add: be_value_inject Rep_hash32_inject)
  fix a c d :: hash32
  note defs = less_hash32_def less_eq_hash32_def hash_le_def hash_eq_def hash_less_value Rep_hash32_inject
  show "(a < c) = (a \<le> c \<and> \<not> c \<le> a)" by (auto simp: defs)
  show "a \<le> a" by (simp add: defs)
  show "a \<le> c \<Longrightarrow> c \<le> d \<Longrightarrow> a \<le> d" by (auto simp: defs)
  show "a \<le> c \<Longrightarrow> c \<le> a \<Longrightarrow> a = c" by (auto simp: defs)
  show "a \<le> c \<or> c \<le> a" using eq [of a c] by (auto simp: defs)
qed

end

section \<open>Properties\<close>

text \<open>
  The comparison operators of a hash are the numeric order of its big-endian value, so
  comparing a result with the boundary compares the numbers; and the word-wise equality of
  \<^verbatim>\<open>h256\<close> is equality of all bytes.
\<close>

theorem hash_order_numeric:
  assumes "length a = n" "length c = n"
  shows "(hash_less a c \<longleftrightarrow> FixedHash_to_arith n a < FixedHash_to_arith n c) \<and>
    (hash_le a c \<longleftrightarrow> FixedHash_to_arith n a \<le> FixedHash_to_arith n c) \<and>
    (hash_ge a c \<longleftrightarrow> FixedHash_to_arith n a \<ge> FixedHash_to_arith n c) \<and>
    (hash_gt a c \<longleftrightarrow> FixedHash_to_arith n a > FixedHash_to_arith n c) \<and>
    (n = 32 \<longrightarrow> h256_eq a c = hash_eq a c)"
proof -
  have v: "FixedHash_to_arith n x = be_value x" if "length x = n" for x
    using that by (simp add: FixedHash_to_arith_def fromBigEndian_exact)
  have "be_value a = be_value c \<longleftrightarrow> a = c" using assms by (simp add: be_value_inject)
  then show ?thesis
    using assms by (auto simp: v hash_less_value hash_le_def hash_ge_def hash_gt_def hash_eq_def h256_eq_iff)
qed

theorem hash_order_numeric_witness:
  "hash_less [1, 2] [1, 3] \<longleftrightarrow> FixedHash_to_arith 2 [1, 2] < FixedHash_to_arith 2 [1, 3]"
  using hash_order_numeric [of "[1, 2]" 2 "[1, 3]"] by simp

text \<open>
  Arithmetic on hashes: the big-endian increment adds one modulo \<open>256^N\<close>, conversion to the
  arithmetic type and back is the identity, printing as hex and constructing from the string is the
  identity, and a right-aligned construction keeps the value modulo the size.
\<close>

theorem hash_arithmetic:
  assumes "length h = n"
  shows "FixedHash_to_arith n (hash_inc h) = (FixedHash_to_arith n h + 1) mod 256 ^ n \<and>
    FixedHash_of_arith n (FixedHash_to_arith n h) = h \<and>
    FixedHash_of_string n (hash_hex h) = Inr h \<and>
    FixedHash_to_arith m (FixedHash_of_hash m h AlignRight) = FixedHash_to_arith n h mod 256 ^ m"
proof -
  have v: "FixedHash_to_arith k x = be_value x" if "length x = k" for k x
    using that by (simp add: FixedHash_to_arith_def fromBigEndian_exact)
  have "length (hash_inc h) = n" using assms by (simp add: hash_inc_def)
  moreover have "length (FixedHash_of_hash m h AlignRight) = m"
      "be_value (FixedHash_of_hash m h AlignRight) = be_value h mod 256 ^ m"
    by (simp add: FixedHash_of_hash_def) (simp add: FixedHash_of_hash_def copy_right be_value_append be_value_drop)
  ultimately show ?thesis
    using assms toBigEndian_be_value [of h]
    by (simp add: v be_value_hash_inc FixedHash_of_arith_def FixedHash_of_string_def hash_hex_def fromHex_toHex FixedHash_of_bytes_def)
qed

theorem hash_arithmetic_witness:
  "FixedHash_to_arith 2 (hash_inc [0, 255]) = 256"
  using hash_arithmetic [of "[0, 255]" 2 2] by (simp add: FixedHash_to_arith_def fromBigEndian_def wrap_bits_def)

end
