(* ===== verification/Rlp.thy ===== *)
theory Rlp
  imports FixedHash
begin

text \<open>
  Recursive length prefix encoding: the reader \<open>RLP\<close> and the writer \<open>RLPStream\<close> of
  \<^verbatim>\<open>libdevcore/RLP.{h,cpp}\<close>.  A \<open>bytesConstRef\<close> is the list of the bytes it views
  (\<^verbatim>\<open>libdevcore/vector_ref.h\<close>), the null reference the empty list.  The type \<open>item\<close> with the function
  \<open>encode\<close> is the specification both sides are proved against.
\<close>

section \<open>Constants and errors\<close>

datatype rlp_error = BadRLP | UndersizeRLP | OversizeRLP | BadCast | RLPException

definition c_rlpMaxLengthBytes :: nat where "c_rlpMaxLengthBytes = 8"
definition c_rlpDataImmLenStart :: nat where "c_rlpDataImmLenStart = 0x80"
definition c_rlpListStart :: nat where "c_rlpListStart = 0xc0"
definition c_rlpDataImmLenCount :: nat where
  "c_rlpDataImmLenCount = c_rlpListStart - c_rlpDataImmLenStart - c_rlpMaxLengthBytes"
definition c_rlpDataIndLenZero :: nat where
  "c_rlpDataIndLenZero = c_rlpDataImmLenStart + c_rlpDataImmLenCount - 1"
definition c_rlpListImmLenCount :: nat where "c_rlpListImmLenCount = 256 - c_rlpListStart - c_rlpMaxLengthBytes"
definition c_rlpListIndLenZero :: nat where "c_rlpListIndLenZero = c_rlpListStart + c_rlpListImmLenCount - 1"

lemmas rlp_consts = c_rlpMaxLengthBytes_def c_rlpDataImmLenStart_def c_rlpListStart_def c_rlpDataImmLenCount_def
  c_rlpDataIndLenZero_def c_rlpListImmLenCount_def c_rlpListIndLenZero_def

text \<open>The conversion flags, one field per bit.\<close>

record Strictness =
  AllowNonCanon :: bool
  ThrowOnFail :: bool
  FailIfTooBig :: bool
  FailIfTooSmall :: bool

definition Strict :: Strictness where
  "Strict = \<lparr>AllowNonCanon = False, ThrowOnFail = True, FailIfTooBig = True, FailIfTooSmall = False\<rparr>"
definition VeryStrict :: Strictness where
  "VeryStrict = \<lparr>AllowNonCanon = False, ThrowOnFail = True, FailIfTooBig = True, FailIfTooSmall = True\<rparr>"
definition LaissezFaire :: Strictness where
  "LaissezFaire = \<lparr>AllowNonCanon = True, ThrowOnFail = False, FailIfTooBig = False, FailIfTooSmall = False\<rparr>"
definition ThrowIfTooSmall :: Strictness where
  "ThrowIfTooSmall = \<lparr>AllowNonCanon = False, ThrowOnFail = True, FailIfTooBig = False, FailIfTooSmall = True\<rparr>"

section \<open>Views\<close>

definition cropped :: "nat \<Rightarrow> nat \<Rightarrow> bytes \<Rightarrow> bytes" where
  "cropped b n d = (if b \<le> length d \<and> n \<le> length d \<and> b + n \<le> length d then take n (drop b d) else [])"

definition cropped_from :: "nat \<Rightarrow> bytes \<Rightarrow> bytes" where
  "cropped_from b d = (if b \<le> length d then drop b d else [])"

section \<open>Reader\<close>

abbreviation byte0 :: "bytes \<Rightarrow> nat" where
  "byte0 d \<equiv> unat (d ! 0)"

definition isNull :: "bytes \<Rightarrow> bool" where
  "isNull d \<longleftrightarrow> length d = 0"

definition isData :: "bytes \<Rightarrow> bool" where
  "isData d \<longleftrightarrow> \<not> isNull d \<and> byte0 d < c_rlpListStart"

definition isList :: "bytes \<Rightarrow> bool" where
  "isList d \<longleftrightarrow> \<not> isNull d \<and> c_rlpListStart \<le> byte0 d"

definition isSingleByte :: "bytes \<Rightarrow> bool" where
  "isSingleByte d \<longleftrightarrow> \<not> isNull d \<and> byte0 d < c_rlpDataImmLenStart"

definition requireGood :: "bytes \<Rightarrow> rlp_error + unit" where
  "requireGood d =
     (if isNull d then Inl BadRLP
      else if byte0 d \<noteq> c_rlpDataImmLenStart + 1 then Inr ()
      else if length d < 2 then Inl BadRLP
      else if unat (d ! 1) < c_rlpDataImmLenStart then Inl BadRLP
      else Inr ())"

definition isInt :: "bytes \<Rightarrow> rlp_error + bool" where
  "isInt d =
     (if isNull d then Inr False
      else bindE (requireGood d) (\<lambda>_.
        let n = byte0 d in
        if n < c_rlpDataImmLenStart then Inr (n \<noteq> 0)
        else if n = c_rlpDataImmLenStart then Inr True
        else if n \<le> c_rlpDataIndLenZero then (if length d \<le> 1 then Inl BadRLP else Inr (d ! 1 \<noteq> 0))
        else if n < c_rlpListStart then
          (if length d \<le> 1 + n - c_rlpDataIndLenZero then Inl BadRLP else Inr (d ! (1 + n - c_rlpDataIndLenZero) \<noteq> 0))
        else Inr False))"

definition lengthSize :: "bytes \<Rightarrow> nat" where
  "lengthSize d =
     (if isData d \<and> c_rlpDataIndLenZero < byte0 d then byte0 d - c_rlpDataIndLenZero
      else if isList d \<and> c_rlpListIndLenZero < byte0 d then byte0 d - c_rlpListIndLenZero
      else 0)"

definition payloadOffset :: "bytes \<Rightarrow> nat" where
  "payloadOffset d = (if isSingleByte d then 0 else 1 + lengthSize d)"

text \<open>A length given in \<open>ls\<close> bytes after the first; \<open>size_t\<close> has eight bytes.\<close>

definition long_length :: "bytes \<Rightarrow> nat \<Rightarrow> nat \<Rightarrow> rlp_error + nat" where
  "long_length d ls least =
     (if length d \<le> ls then Inl BadRLP
      else if 1 < length d \<and> d ! 1 = 0 then Inl BadRLP
      else if 8 < ls then Inl UndersizeRLP
      else if d ! 1 = 0 then Inl BadRLP
      else let ret = foldl (\<lambda>ret i. ret * 256 + unat (d ! (i + 1))) 0 [0..<ls] in
        if ret < least then Inl BadRLP
        else if 2 ^ 64 - 1 - 0x100 \<le> ret then Inl UndersizeRLP
        else Inr ret)"

definition length_of :: "bytes \<Rightarrow> rlp_error + nat" where
  "length_of d =
     (if isNull d then Inr 0
      else bindE (requireGood d) (\<lambda>_.
        let n = byte0 d in
        if n < c_rlpDataImmLenStart then Inr 1
        else if n \<le> c_rlpDataIndLenZero then Inr (n - c_rlpDataImmLenStart)
        else if n < c_rlpListStart then
          long_length d (n - c_rlpDataIndLenZero) (c_rlpListStart - c_rlpDataImmLenStart - c_rlpMaxLengthBytes)
        else if n \<le> c_rlpListIndLenZero then Inr (n - c_rlpListStart)
        else long_length d (n - c_rlpListIndLenZero) (0x100 - c_rlpListStart - c_rlpMaxLengthBytes)))"

definition actualSize :: "bytes \<Rightarrow> rlp_error + nat" where
  "actualSize d =
     (if isNull d then Inr 0
      else if isSingleByte d then Inr 1
      else bindE (length_of d) (\<lambda>l. Inr (payloadOffset d + l)))"

text \<open>The constructor: the view, or its reset when the size does not fit and failure is not thrown.\<close>

definition RLP_new :: "bytes \<Rightarrow> Strictness \<Rightarrow> rlp_error + bytes" where
  "RLP_new d s =
     bindE (if FailIfTooBig s
            then bindE (actualSize d) (\<lambda>a.
              if a < length d then (if ThrowOnFail s then Inl OversizeRLP else Inr []) else Inr d)
            else Inr d) (\<lambda>m.
     if FailIfTooSmall s
     then bindE (actualSize m) (\<lambda>a.
       if length d < a then (if ThrowOnFail s then Inl UndersizeRLP else Inr []) else Inr m)
     else Inr m)"

definition payload :: "bytes \<Rightarrow> rlp_error + bytes" where
  "payload d = bindE (length_of d) (\<lambda>l. if length d < l then Inl BadRLP else Inr (cropped (payloadOffset d) l d))"

definition sizeAsEncoded :: "bytes \<Rightarrow> rlp_error + nat" where
  "sizeAsEncoded d = bindE (RLP_new d ThrowIfTooSmall) actualSize"

lemma sizeAsEncoded_bounds:
  assumes "sizeAsEncoded d = Inr n"
  shows "n \<le> length d" "d \<noteq> [] \<Longrightarrow> 0 < n"
proof -
  have "actualSize d = Inr n \<and> n \<le> length d"
    using assms by (auto simp: sizeAsEncoded_def RLP_new_def ThrowIfTooSmall_def bindE_Inr_iff split: if_splits)
  then show "n \<le> length d" "d \<noteq> [] \<Longrightarrow> 0 < n"
    by (auto simp: actualSize_def isNull_def bindE_Inr_iff payloadOffset_def split: if_splits)
qed

text \<open>The loop of \<open>items\<close> over the payload.\<close>

function count_items :: "bytes \<Rightarrow> rlp_error + nat" where
  "count_items d =
     (if length d = 0 then Inr 0
      else case sizeAsEncoded d of
        Inl e \<Rightarrow> Inl e
      | Inr n \<Rightarrow> bindE (count_items (cropped_from n d)) (\<lambda>k. Inr (Suc k)))"
  by pat_completeness auto
termination
  by (relation "measure length") (auto simp: cropped_from_def dest: sizeAsEncoded_bounds)

declare count_items.simps [simp del]

definition itemCount :: "bytes \<Rightarrow> rlp_error + nat" where
  "itemCount d = (if isList d then bindE (payload d) count_items else Inr 0)"

text \<open>Iteration: the current item and the bytes that remain after it.\<close>

record iterator =
  it_current :: bytes
  it_rest :: bytes

definition iterator_begin :: "bytes \<Rightarrow> rlp_error + iterator" where
  "iterator_begin d =
     (if isList d then
        bindE (payload d) (\<lambda>pl. bindE (sizeAsEncoded pl) (\<lambda>n.
          Inr \<lparr>it_current = cropped 0 n pl, it_rest = drop (length (cropped 0 n pl)) pl\<rparr>))
      else Inr \<lparr>it_current = [], it_rest = []\<rparr>)"

definition iterator_next :: "iterator \<Rightarrow> rlp_error + iterator" where
  "iterator_next it =
     (if it_rest it \<noteq> [] then
        bindE (sizeAsEncoded (it_rest it)) (\<lambda>n.
          Inr \<lparr>it_current = cropped 0 n (it_rest it), it_rest = drop (length (cropped 0 n (it_rest it))) (it_rest it)\<rparr>)
      else Inr \<lparr>it_current = [], it_rest = []\<rparr>)"

text \<open>The loop of \<open>toList\<close>: every item dereferenced (\<open>RLP(m_currentItem)\<close>, checked very strictly) until the
  iterator is at the end, which it reaches when nothing remains after the current item (the end
  iterator points behind the view, so the view has to end with the payload, as strict views do).\<close>

function collect_items :: "iterator \<Rightarrow> rlp_error + bytes list" where
  "collect_items it =
     (if it_current it = [] then Inr []
      else case RLP_new (it_current it) VeryStrict of
        Inl e \<Rightarrow> Inl e
      | Inr x \<Rightarrow> (case iterator_next it of
            Inl e \<Rightarrow> Inl e
          | Inr it' \<Rightarrow> bindE (collect_items it') (\<lambda>xs. Inr (x # xs))))"
  by pat_completeness auto
termination
  by (relation "measure (\<lambda>it. length (it_current it) + length (it_rest it))")
    (auto simp: iterator_next_def bindE_Inr_iff cropped_def dest: sizeAsEncoded_bounds split: if_splits)

declare collect_items.simps [simp del]

definition toList :: "bytes \<Rightarrow> rlp_error + bytes list" where
  "toList d = (if \<not> isList d then Inr [] else bindE (iterator_begin d) collect_items)"

definition toBytes :: "bytes \<Rightarrow> rlp_error + bytes" where
  "toBytes d =
     (if \<not> isData d then Inr []
      else bindE (payload d) (\<lambda>p. bindE (length_of d) (\<lambda>l. Inr (take l p))))"

definition toInt :: "nat option \<Rightarrow> bytes \<Rightarrow> Strictness \<Rightarrow> rlp_error + nat" where
  "toInt maxSize d flags =
     bindE (requireGood d) (\<lambda>_.
     bindE (isInt d) (\<lambda>i.
       if \<not> i \<and> \<not> AllowNonCanon flags \<or> isList d \<or> isNull d
       then (if ThrowOnFail flags then Inl BadCast else Inr 0)
       else bindE (payload d) (\<lambda>p.
         if (\<exists>m. maxSize = Some m \<and> m < length p) \<and> FailIfTooBig flags
         then (if ThrowOnFail flags then Inl BadCast else Inr 0)
         else Inr (fromBigEndian (map_option (\<lambda>m. 8 * m) maxSize) p))))"

definition toHash :: "nat \<Rightarrow> bytes \<Rightarrow> Strictness \<Rightarrow> rlp_error + bytes" where
  "toHash n d flags =
     bindE (requireGood d) (\<lambda>_.
     bindE (payload d) (\<lambda>p.
       let l = length p in
       if \<not> isData d \<or> n < l \<and> FailIfTooBig flags \<or> l < n \<and> FailIfTooSmall flags
       then (if ThrowOnFail flags then Inl BadCast else Inr (replicate n 0))
       else let s = min n l in Inr (replicate (n - s) 0 @ take s p)))"


subsection \<open>Indexing\<close>

text \<open>A view with the cache of the last item accessed; \<open>(size_t)-1\<close> is the index of a fresh one.\<close>

record rlp_view =
  rv_data :: bytes
  m_lastIndex :: nat
  m_lastEnd :: nat
  m_lastItem :: bytes

definition fresh_view :: "bytes \<Rightarrow> rlp_view" where
  "fresh_view d = \<lparr>rv_data = d, m_lastIndex = 2 ^ 64 - 1, m_lastEnd = 0, m_lastItem = []\<rparr>"

function index_loop :: "nat \<Rightarrow> bytes \<Rightarrow> nat \<Rightarrow> nat \<Rightarrow> bytes \<Rightarrow> rlp_error + nat \<times> nat \<times> bytes" where
  "index_loop i pl lastIndex lastEnd lastItem =
     (if lastIndex < i \<and> lastItem \<noteq> [] then
        let rest = cropped_from lastEnd pl in
        bindE (sizeAsEncoded rest) (\<lambda>n.
          let item' = cropped 0 n rest in index_loop i pl (lastIndex + 1) (lastEnd + length item') item')
      else Inr (lastIndex, lastEnd, lastItem))"
  by pat_completeness auto
termination by (relation "measure (\<lambda>(i, pl, li, le, it). i - li)") auto

declare index_loop.simps [simp del]

definition rlp_index :: "nat \<Rightarrow> rlp_view \<Rightarrow> rlp_error + bytes \<times> rlp_view" where
  "rlp_index i v =
     bindE (payload (rv_data v)) (\<lambda>pl.
     bindE (if i < m_lastIndex v
            then bindE (sizeAsEncoded pl) (\<lambda>e. Inr (0, e, cropped 0 e pl))
            else Inr (m_lastIndex v, m_lastEnd v, m_lastItem v)) (\<lambda>(li, le, it).
     bindE (index_loop i pl li le it) (\<lambda>(li, le, it).
     bindE (RLP_new it ThrowIfTooSmall) (\<lambda>r.
       Inr (r, v\<lparr>m_lastIndex := li, m_lastEnd := le, m_lastItem := it\<rparr>)))))"

section \<open>Writer\<close>

text \<open>The stack of open lists, the innermost first: items still missing and where the list starts.\<close>

record RLPStream =
  m_out :: bytes
  m_listStack :: "(nat \<times> nat) list"

definition RLPStream_new :: RLPStream where
  "RLPStream_new = \<lparr>m_out = [], m_listStack = []\<rparr>"

definition push_byte :: "nat \<Rightarrow> RLPStream \<Rightarrow> RLPStream" where
  "push_byte b s = s\<lparr>m_out := m_out s @ [of_nat b]\<rparr>"

definition pushInt :: "nat \<Rightarrow> nat \<Rightarrow> RLPStream \<Rightarrow> RLPStream" where
  "pushInt i br s = s\<lparr>m_out := m_out s @ toBigEndian br i\<rparr>"

definition pushCount :: "nat \<Rightarrow> nat \<Rightarrow> RLPStream \<Rightarrow> rlp_error + RLPStream" where
  "pushCount cnt base s =
     (let br = bytesRequired cnt in
      if 0xff < br + base then Inl RLPException else Inr (pushInt cnt br (push_byte (br + base) s)))"

text \<open>Closing a list: its header is moved in before its items.\<close>

definition close_list :: "nat \<Rightarrow> bytes \<Rightarrow> rlp_error + bytes" where
  "close_list p out =
     (let n = length out - p; brs = bytesRequired n in
      if n < c_rlpListImmLenCount then Inr (take p out @ [of_nat (c_rlpListStart + n)] @ drop p out)
      else if c_rlpListIndLenZero + brs \<le> 0xff
      then Inr (take p out @ [of_nat (c_rlpListIndLenZero + brs)] @ toBigEndian brs n @ drop p out)
      else Inl RLPException)"

fun note_loop :: "nat \<Rightarrow> (nat \<times> nat) list \<Rightarrow> bytes \<Rightarrow> rlp_error + RLPStream" where
  "note_loop k [] out = Inr \<lparr>m_out = out, m_listStack = []\<rparr>"
| "note_loop k ((n, p) # st) out =
     (if n < k then Inl RLPException
      else if n - k \<noteq> 0 then Inr \<lparr>m_out = out, m_listStack = (n - k, p) # st\<rparr>
      else bindE (close_list p out) (note_loop 1 st))"

definition noteAppended :: "nat \<Rightarrow> RLPStream \<Rightarrow> rlp_error + RLPStream" where
  "noteAppended k s = (if k = 0 then Inr s else note_loop k (m_listStack s) (m_out s))"

definition appendRaw :: "bytes \<Rightarrow> nat \<Rightarrow> RLPStream \<Rightarrow> rlp_error + RLPStream" where
  "appendRaw b k s = noteAppended k (s\<lparr>m_out := m_out s @ b\<rparr>)"

definition appendList_raw :: "bytes \<Rightarrow> RLPStream \<Rightarrow> rlp_error + RLPStream" where
  "appendList_raw r s =
     bindE (if length r < c_rlpListImmLenCount then Inr (push_byte (length r + c_rlpListStart) s)
            else pushCount (length r) c_rlpListIndLenZero s) (appendRaw r 1)"

definition appendList :: "nat \<Rightarrow> RLPStream \<Rightarrow> rlp_error + RLPStream" where
  "appendList n s =
     (if n \<noteq> 0 then Inr (s\<lparr>m_listStack := (n, length (m_out s)) # m_listStack s\<rparr>) else appendList_raw [] s)"

definition append_bytes :: "bytes \<Rightarrow> bool \<Rightarrow> RLPStream \<Rightarrow> rlp_error + RLPStream" where
  "append_bytes b compact s =
     (let d = (if compact then dropWhile (\<lambda>x. x = 0) b else b) in
      bindE (if length d = 1 \<and> unat (d ! 0) < c_rlpDataImmLenStart then Inr (push_byte (unat (d ! 0)) s)
             else bindE (if length d < c_rlpDataImmLenCount then Inr (push_byte (length d + c_rlpDataImmLenStart) s)
                         else pushCount (length d) c_rlpDataIndLenZero s) (appendRaw d 0)) (noteAppended 1))"

definition append_int :: "nat \<Rightarrow> RLPStream \<Rightarrow> rlp_error + RLPStream" where
  "append_int i s =
     bindE (if i = 0 then Inr (push_byte c_rlpDataImmLenStart s)
            else if i < c_rlpDataImmLenStart then Inr (push_byte i s)
            else let br = bytesRequired i in
              bindE (if br < c_rlpDataImmLenCount then Inr (push_byte (br + c_rlpDataImmLenStart) s)
                     else let brbr = bytesRequired br in
                       if 0xff < c_rlpDataIndLenZero + brbr then Inl RLPException
                       else Inr (pushInt br brbr (push_byte (c_rlpDataIndLenZero + brbr) s)))
                (\<lambda>s. Inr (pushInt i br s))) (noteAppended 1)"

definition stream_out :: "RLPStream \<Rightarrow> rlp_error + bytes" where
  "stream_out s = (if m_listStack s \<noteq> [] then Inl RLPException else Inr (m_out s))"

section \<open>Specification\<close>

datatype item = Data bytes | RList "item list"

definition prefix :: "nat \<Rightarrow> nat \<Rightarrow> bytes" where
  "prefix base n =
     (if n < 56 then [of_nat (base + n)] else of_nat (base + 55 + bytesRequired n) # toCompactBigEndian n 0)"

fun encode :: "item \<Rightarrow> bytes" where
  "encode (Data b) = (if length b = 1 \<and> unat (b ! 0) < 0x80 then b else prefix 0x80 (length b) @ b)"
| "encode (RList xs) = prefix 0xc0 (length (concat (map encode xs))) @ concat (map encode xs)"

definition max_len :: nat where
  "max_len = 2 ^ 64 - 257"

fun encodable :: "item \<Rightarrow> bool" where
  "encodable (Data b) \<longleftrightarrow> length b < max_len"
| "encodable (RList xs) \<longleftrightarrow> length (concat (map encode xs)) < max_len \<and> list_all encodable xs"

section \<open>Headers\<close>

lemma bytesRequired_le8: "n < max_len \<Longrightarrow> bytesRequired n \<le> 8"
proof (rule ccontr)
  assume n: "n < max_len" "\<not> bytesRequired n \<le> 8"
  then have "n \<noteq> 0" by (intro notI) simp
  have "(256 :: nat) ^ 8 \<le> 256 ^ (bytesRequired n - 1)" by (rule power_increasing) (use n(2) in simp_all)
  with bytesRequired_bounds(2) [OF \<open>n \<noteq> 0\<close>] n(1) show False by (simp add: max_len_def)
qed

lemma bytesRequired_pos: "n \<noteq> 0 \<Longrightarrow> 0 < bytesRequired n"
  using bytesRequired_bounds(1) [of n] by (cases "bytesRequired n") simp_all

lemma unat_byte: "k < 256 \<Longrightarrow> unat (of_nat k :: byte) = k"
  by (simp add: unsigned_of_nat take_bit_nat_eq_self)

lemma foldl_be: "foldl (\<lambda>ret i. ret * 256 + unat (d ! (i + 1))) 0 [0..<k] = be_value (take k (drop 1 d))"
  if "k < length d"
  using that
proof (induction k)
  case (Suc k)
  have "take (Suc k) (drop 1 d) = take k (drop 1 d) @ [d ! (k + 1)]"
    using Suc.prems by (simp add: take_Suc_conv_app_nth)
  then show ?case using Suc by (simp only: be_value_simps(2)) simp
qed simp

lemma long_length_header:
  assumes "56 \<le> n" "n < max_len"
  shows "long_length (z # toCompactBigEndian n 0 @ q) (bytesRequired n) 56 = Inr n"
proof -
  have n0: "n \<noteq> 0" using assms(1) by simp
  have len: "length (toCompactBigEndian n 0) = bytesRequired n" by (rule length_compact)
  have ne: "toCompactBigEndian n 0 \<noteq> []" and hd: "hd (toCompactBigEndian n 0) \<noteq> 0" using hd_compact [OF n0] by simp_all
  let ?d = "z # toCompactBigEndian n 0 @ q"
  have d1: "?d ! 1 \<noteq> 0" using ne hd by (simp add: nth_append hd_conv_nth)
  have "foldl (\<lambda>ret i. ret * 256 + unat (?d ! (i + 1))) 0 [0..<bytesRequired n] = n"
    using foldl_be [of "bytesRequired n" ?d] be_value_compact [of n 0] by (simp add: len)
  then show ?thesis
    using assms d1 bytesRequired_le8 [OF assms(2)] len by (simp add: long_length_def max_len_def)
qed

lemma length_prefix: "length (prefix base n) = (if n < 56 then 1 else 1 + bytesRequired n)"
  by (simp add: prefix_def length_compact)

text \<open>What the reader finds at the front of an item with payload \<open>p\<close>.\<close>

definition reads_as :: "bytes \<Rightarrow> nat \<Rightarrow> bytes \<Rightarrow> bytes \<Rightarrow> bool" where
  "reads_as d off p r \<longleftrightarrow>
     \<not> isNull d \<and> requireGood d = Inr () \<and> length_of d = Inr (length p) \<and> payloadOffset d = off \<and> drop off d = p @ r \<and>
     actualSize d = Inr (off + length p) \<and> off + length p \<le> length d"

lemma reads_data:
  assumes "length b < max_len"
  shows "isData (encode (Data b) @ r) \<and> reads_as (encode (Data b) @ r) (length (encode (Data b)) - length b) b r"
proof (cases "length b = 1 \<and> unat (b ! 0) < 0x80")
  case True
  then obtain c where "b = [c]" by (cases b) auto
  with True show ?thesis
    by (simp add: reads_as_def isNull_def isData_def requireGood_def length_of_def payloadOffset_def isSingleByte_def
        actualSize_def rlp_consts Let_def)
next
  case single: False
  show ?thesis
  proof (cases "length b < 56")
    case True
    then have e: "encode (Data b) = of_nat (0x80 + length b) # b" using single by (simp add: prefix_def del: of_nat_add)
    have u: "unat (of_nat (0x80 + length b) :: byte) = 0x80 + length b" by (rule unat_byte) (use True in simp)
    have "unat (b ! 0) \<ge> 0x80" if "length b = 1" using single that by simp
    then have g: "requireGood (of_nat (0x80 + length b) # b @ r) = Inr ()"
      using u by (cases b) (auto simp: requireGood_def isNull_def rlp_consts simp del: of_nat_add)
    show ?thesis
      using True g unfolding e append_Cons
      by (simp add: reads_as_def isNull_def isData_def isList_def length_of_def payloadOffset_def isSingleByte_def
          actualSize_def lengthSize_def rlp_consts Let_def u del: of_nat_add)
  next
    case False
    let ?k = "bytesRequired (length b)"
    have k: "0 < ?k" "?k \<le> 8" using bytesRequired_pos [of "length b"] bytesRequired_le8 [OF assms] False by fastforce+
    have e: "encode (Data b) = of_nat (183 + ?k) # toCompactBigEndian (length b) 0 @ b"
      using single False by (simp add: prefix_def del: of_nat_add)
    have u: "unat (of_nat (183 + ?k) :: byte) = 183 + ?k" by (rule unat_byte) (use k in simp)
    have l: "long_length (of_nat (183 + ?k) # toCompactBigEndian (length b) 0 @ b @ r) ?k 56 = Inr (length b)"
      using long_length_header [of "length b"] False assms by simp
    show ?thesis
      using k l unfolding e append_Cons append_assoc
      by (simp add: reads_as_def isNull_def isData_def isList_def requireGood_def length_of_def payloadOffset_def isSingleByte_def
          actualSize_def lengthSize_def rlp_consts Let_def u length_compact del: of_nat_add)
  qed
qed

lemma reads_list:
  assumes "length p < max_len"
  shows "isList (prefix 0xc0 (length p) @ p @ r) \<and> reads_as (prefix 0xc0 (length p) @ p @ r) (length (prefix 0xc0 (length p))) p r"
proof (cases "length p < 56")
  case True
  have u: "unat (of_nat (0xc0 + length p) :: byte) = 0xc0 + length p" by (rule unat_byte) (use True in simp)
  show ?thesis
    using True
    by (simp add: prefix_def reads_as_def isNull_def isData_def isList_def requireGood_def length_of_def payloadOffset_def isSingleByte_def
        actualSize_def lengthSize_def rlp_consts Let_def u del: of_nat_add)
next
  case False
  let ?k = "bytesRequired (length p)"
  have k: "0 < ?k" "?k \<le> 8" using bytesRequired_pos [of "length p"] bytesRequired_le8 [OF assms] False by fastforce+
  have e: "prefix 0xc0 (length p) = of_nat (247 + ?k) # toCompactBigEndian (length p) 0"
    using False by (simp add: prefix_def del: of_nat_add)
  have u: "unat (of_nat (247 + ?k) :: byte) = 247 + ?k" by (rule unat_byte) (use k in simp)
  have l: "long_length (of_nat (247 + ?k) # toCompactBigEndian (length p) 0 @ p @ r) ?k 56 = Inr (length p)"
    using long_length_header [of "length p"] False assms by simp
  show ?thesis
    using k l unfolding e append_Cons append_assoc
    by (simp add: reads_as_def isNull_def isData_def isList_def requireGood_def length_of_def payloadOffset_def isSingleByte_def
        actualSize_def lengthSize_def rlp_consts Let_def u length_compact del: of_nat_add)
qed


lemma encode_not_Nil [simp]: "encode it \<noteq> []"
  by (cases it) (auto simp: prefix_def)

lemma reads_encode:
  assumes "encodable it"
  obtains off p where "reads_as (encode it @ r) off p r" "length (encode it) = off + length p"
proof (cases it)
  case (Data b)
  then show thesis using that reads_data [of b r] assms by (auto simp: prefix_def)
next
  case (RList xs)
  then show thesis using that reads_list [of "concat (map encode xs)" r] assms by (auto simp: length_prefix)
qed

lemma reads_payload: "reads_as d off p r \<Longrightarrow> payload d = Inr p"
  by (auto simp: reads_as_def payload_def cropped_def)

lemma reads_size: "reads_as d off p r \<Longrightarrow> sizeAsEncoded d = Inr (off + length p)"
  by (auto simp: reads_as_def sizeAsEncoded_def RLP_new_def ThrowIfTooSmall_def)

lemma size_encode: "encodable it \<Longrightarrow> sizeAsEncoded (encode it @ r) = Inr (length (encode it))"
  by (erule reads_encode [of it r]) (simp add: reads_size)

lemma RLP_new_encode:
  assumes "encodable it"
  shows "RLP_new (encode it) VeryStrict = Inr (encode it)" "RLP_new (encode it) ThrowIfTooSmall = Inr (encode it)"
proof -
  obtain off p where "reads_as (encode it @ []) off p []" "length (encode it) = off + length p"
    using reads_encode [OF assms, of "[]"] by blast
  then show "RLP_new (encode it) VeryStrict = Inr (encode it)" "RLP_new (encode it) ThrowIfTooSmall = Inr (encode it)"
    by (simp_all add: RLP_new_def VeryStrict_def ThrowIfTooSmall_def reads_as_def)
qed

lemma cropped_0_append: "cropped 0 (length a) (a @ b) = a"
  by (simp add: cropped_def)

lemma sizeAsEncoded_Nil [simp]: "sizeAsEncoded [] = Inr 0"
  by (simp add: sizeAsEncoded_def RLP_new_def ThrowIfTooSmall_def actualSize_def isNull_def)

lemma count_encode: "list_all encodable xs \<Longrightarrow> count_items (concat (map encode xs)) = Inr (length xs)"
proof (induction xs)
  case (Cons x xs)
  then show ?case
    using size_encode [of x "concat (map encode xs)"]
    by (subst count_items.simps) (simp add: cropped_from_def)
qed (simp add: count_items.simps)

lemma collect_encode:
  "encodable x \<Longrightarrow> list_all encodable xs \<Longrightarrow>
    collect_items \<lparr>it_current = encode x, it_rest = concat (map encode xs)\<rparr> = Inr (encode x # map encode xs)"
proof (induction xs arbitrary: x)
  case Nil
  have "iterator_next \<lparr>it_current = encode x, it_rest = []\<rparr> = Inr \<lparr>it_current = [], it_rest = []\<rparr>"
    by (simp add: iterator_next_def)
  then show ?case using Nil
    by (subst collect_items.simps) (simp add: RLP_new_encode collect_items.simps [of "\<lparr>it_current = [], it_rest = []\<rparr>"])
next
  case (Cons y ys)
  have "iterator_next \<lparr>it_current = encode x, it_rest = concat (map encode (y # ys))\<rparr> =
      Inr \<lparr>it_current = encode y, it_rest = concat (map encode ys)\<rparr>"
    using Cons.prems size_encode [of y "concat (map encode ys)"]
    by (simp add: iterator_next_def cropped_0_append)
  then show ?case using Cons by (subst collect_items.simps) (simp add: RLP_new_encode)
qed

lemma reads_RList:
  assumes "encodable (RList xs)"
  shows "isList (encode (RList xs))" "payload (encode (RList xs)) = Inr (concat (map encode xs))"
  using reads_list [of "concat (map encode xs)" "[]"] assms reads_payload by auto

lemma toList_encode:
  assumes "encodable (RList xs)"
  shows "toList (encode (RList xs)) = Inr (map encode xs)" "itemCount (encode (RList xs)) = Inr (length xs)"
proof -
  have e: "list_all encodable xs" using assms by simp
  note r = reads_RList [OF assms]
  show "itemCount (encode (RList xs)) = Inr (length xs)"
    using r count_encode [OF e] by (simp add: itemCount_def del: encode.simps)
  show "toList (encode (RList xs)) = Inr (map encode xs)"
  proof (cases xs)
    case Nil
    have "cropped 0 0 [] = []" by (simp add: cropped_def)
    then show ?thesis using r Nil
      by (simp add: toList_def iterator_begin_def collect_items.simps del: encode.simps)
  next
    case (Cons y ys)
    then show ?thesis
      using r e size_encode [of y "concat (map encode ys)"] collect_encode [of y ys]
      by (simp add: toList_def iterator_begin_def cropped_0_append del: encode.simps)
  qed
qed

lemma toBytes_encode:
  assumes "encodable (Data b)"
  shows "isData (encode (Data b))" "toBytes (encode (Data b)) = Inr b" "payload (encode (Data b)) = Inr b"
    "requireGood (encode (Data b)) = Inr ()"
proof -
  have r: "isData (encode (Data b))" "reads_as (encode (Data b)) (length (encode (Data b)) - length b) b []"
    using reads_data [of b "[]"] assms by simp_all
  show "isData (encode (Data b))" "payload (encode (Data b)) = Inr b" "requireGood (encode (Data b)) = Inr ()"
    using r reads_payload by (auto simp: reads_as_def)
  then show "toBytes (encode (Data b)) = Inr b"
    using r by (simp add: toBytes_def reads_as_def)
qed

section \<open>The index cache\<close>

definition cache_at :: "item list \<Rightarrow> nat \<Rightarrow> nat \<Rightarrow> bytes \<Rightarrow> bool" where
  "cache_at xs li le it \<longleftrightarrow> li \<le> length xs \<and> it = (if li < length xs then encode (xs ! li) else []) \<and>
     le = length (concat (map encode (take (Suc li) xs)))"

lemma next_item:
  assumes "list_all encodable xs"
  shows "sizeAsEncoded (concat (map encode (drop n xs))) = Inr (length (if n < length xs then encode (xs ! n) else [])) \<and>
    cropped 0 (length (if n < length xs then encode (xs ! n) else [])) (concat (map encode (drop n xs))) =
      (if n < length xs then encode (xs ! n) else [])"
proof (cases "n < length xs")
  case True
  then have d: "drop n xs = xs ! n # drop (Suc n) xs" by (simp add: Cons_nth_drop_Suc)
  have "encodable (xs ! n)" using True assms by (simp add: list_all_length)
  then show ?thesis using True by (simp add: d size_encode cropped_0_append)
qed (simp add: cropped_def)

lemma index_loop_cache:
  assumes "list_all encodable xs" "cache_at xs li le it" "li \<le> i"
  shows "\<exists>li' le'. index_loop i (concat (map encode xs)) li le it = Inr (li', le', if i < length xs then encode (xs ! i) else []) \<and>
    cache_at xs li' le' (if i < length xs then encode (xs ! i) else [])"
  using assms(2,3)
proof (induction "i - li" arbitrary: li le it)
  case 0
  then have "index_loop i (concat (map encode xs)) li le it = Inr (li, le, it)"
    by (subst index_loop.simps) auto
  moreover have "it = (if i < length xs then encode (xs ! i) else [])" using 0 by (auto simp: cache_at_def)
  ultimately show ?case using 0 by auto
next
  case (Suc k)
  show ?case
  proof (cases "li < length xs")
    case False
    then have l: "it = []" "li = length xs" using Suc.prems by (auto simp: cache_at_def)
    then have "index_loop i (concat (map encode xs)) li le it = Inr (li, le, it)" by (subst index_loop.simps) simp
    moreover have "\<not> i < length xs" using Suc.hyps(2) l by simp
    ultimately show ?thesis using Suc.prems l by auto
  next
    case True
    have split: "concat (map encode xs) = concat (map encode (take (Suc li) xs)) @ concat (map encode (drop (Suc li) xs))"
      by (metis append_take_drop_id concat_append map_append)
    have rest: "cropped_from le (concat (map encode xs)) = concat (map encode (drop (Suc li) xs))"
      using Suc.prems(1) by (simp add: cropped_from_def cache_at_def split)
    define it' where "it' = (if Suc li < length xs then encode (xs ! Suc li) else [])"
    note n = next_item [OF assms(1), of "Suc li", folded it'_def]
    have loop: "index_loop i (concat (map encode xs)) li le it = index_loop i (concat (map encode xs)) (Suc li) (le + length it') it'"
    proof -
      have "li < i" "it \<noteq> []" using True Suc.hyps(2) Suc.prems(1) by (simp_all add: cache_at_def)
      then show ?thesis using n by (subst index_loop.simps) (simp add: rest Let_def)
    qed
    have "cache_at xs (Suc li) (le + length it') it'"
      using True Suc.prems(1)
      by (cases "Suc li < length xs") (simp_all add: cache_at_def it'_def take_Suc_conv_app_nth [of "Suc li"])
    moreover have "Suc li \<le> i" "k = i - Suc li" using Suc.hyps(2) by simp_all
    ultimately show ?thesis using Suc.hyps(1) [of "Suc li"] loop by simp
  qed
qed


definition view_ok :: "item list \<Rightarrow> rlp_view \<Rightarrow> bool" where
  "view_ok xs v \<longleftrightarrow> rv_data v = encode (RList xs) \<and>
     (m_lastIndex v = 2 ^ 64 - 1 \<or> cache_at xs (m_lastIndex v) (m_lastEnd v) (m_lastItem v))"

lemma rlp_index_encode:
  assumes "encodable (RList xs)" "view_ok xs v" "i < 2 ^ 64 - 1"
  shows "\<exists>v'. rlp_index i v = Inr (if i < length xs then encode (xs ! i) else [], v') \<and> view_ok xs v'"
proof -
  have e: "list_all encodable xs" using assms(1) by simp
  let ?pl = "concat (map encode xs)"
  have pl: "payload (rv_data v) = Inr ?pl" using assms(1,2) reads_RList(2) by (simp add: view_ok_def)
  obtain li le it where start: "(if i < m_lastIndex v then bindE (sizeAsEncoded ?pl) (\<lambda>e. Inr (0, e, cropped 0 e ?pl))
      else Inr (m_lastIndex v, m_lastEnd v, m_lastItem v)) = Inr (li, le, it)" "cache_at xs li le it" "li \<le> i"
  proof (cases "i < m_lastIndex v")
    case True
    have "sizeAsEncoded ?pl = Inr (length (case xs of [] \<Rightarrow> [] | x # _ \<Rightarrow> encode x)) \<and>
        cache_at xs 0 (length (case xs of [] \<Rightarrow> [] | x # _ \<Rightarrow> encode x)) (case xs of [] \<Rightarrow> [] | x # _ \<Rightarrow> encode x) \<and>
        cropped 0 (length (case xs of [] \<Rightarrow> [] | x # _ \<Rightarrow> encode x)) ?pl = (case xs of [] \<Rightarrow> [] | x # _ \<Rightarrow> encode x)"
      using e by (cases xs) (simp_all add: cache_at_def size_encode cropped_0_append cropped_def [of 0 0 "[]"])
    then show thesis using that [of 0] True by auto
  next
    case False
    then have "m_lastIndex v \<noteq> 2 ^ 64 - 1" using assms(3) by linarith
    then show thesis using that False assms(2) by (simp add: view_ok_def)
  qed
  obtain li' le' where loop: "index_loop i ?pl li le it = Inr (li', le', if i < length xs then encode (xs ! i) else [])"
      "cache_at xs li' le' (if i < length xs then encode (xs ! i) else [])"
    using index_loop_cache [OF e start(2,3)] by blast
  have new: "RLP_new (if i < length xs then encode (xs ! i) else []) ThrowIfTooSmall =
      Inr (if i < length xs then encode (xs ! i) else [])"
    using e by (auto simp: list_all_length RLP_new_encode) (simp add: RLP_new_def ThrowIfTooSmall_def actualSize_def isNull_def)
  show ?thesis
    unfolding rlp_index_def pl using start(1) loop new assms(2)
    by (simp add: view_ok_def)
qed

lemma fresh_view_ok: "view_ok xs (fresh_view (encode (RList xs)))"
  by (simp add: view_ok_def fresh_view_def)

section \<open>The writer\<close>

fun emit :: "item \<Rightarrow> RLPStream \<Rightarrow> rlp_error + RLPStream" and
  emit_all :: "item list \<Rightarrow> RLPStream \<Rightarrow> rlp_error + RLPStream" where
  "emit (Data b) s = append_bytes b False s"
| "emit (RList xs) s = bindE (appendList (length xs) s) (emit_all xs)"
| "emit_all [] s = Inr s"
| "emit_all (x # xs) s = bindE (emit x s) (emit_all xs)"

lemma pushCount_prefix:
  assumes "56 \<le> n" "n < max_len" "base \<le> 0xc0"
  shows "pushCount n (base + 55) s = Inr (s\<lparr>m_out := m_out s @ prefix base n\<rparr>)"
  using assms bytesRequired_le8 [OF assms(2)]
  by (simp add: pushCount_def Let_def pushInt_def push_byte_def prefix_def toCompactBigEndian_def add.commute add.left_commute)

lemma append_bytes_encode:
  assumes "length b < max_len"
  shows "append_bytes b False s = noteAppended 1 (s\<lparr>m_out := m_out s @ encode (Data b)\<rparr>)"
proof (cases "length b = 1 \<and> unat (b ! 0) < 0x80")
  case True
  then obtain c where "b = [c]" by (cases b) auto
  then show ?thesis using True by (simp add: append_bytes_def Let_def rlp_consts push_byte_def)
next
  case False
  then show ?thesis
    using pushCount_prefix [of "length b" "0x80" s] assms
    by (auto simp: append_bytes_def Let_def rlp_consts push_byte_def appendRaw_def noteAppended_def prefix_def add.commute)
qed

lemma close_list_prefix:
  assumes "length pl < max_len"
  shows "close_list (length out) (out @ pl) = Inr (out @ prefix 0xc0 (length pl) @ pl)"
  using bytesRequired_le8 [OF assms]
  by (simp add: close_list_def Let_def rlp_consts prefix_def toCompactBigEndian_def)

text \<open>Every item written ends with \<open>noteAppended\<close> on the stream extended by its encoding.\<close>

lemma emit_all_encode:
  assumes "\<And>x s. x \<in> set xs \<Longrightarrow> emit x s = noteAppended 1 (s\<lparr>m_out := m_out s @ encode x\<rparr>)" "xs \<noteq> []"
  shows "emit_all xs (s\<lparr>m_listStack := (length xs, p) # st\<rparr>) =
    bindE (close_list p (m_out s @ concat (map encode xs))) (note_loop 1 st)"
  using assms
proof (induction xs arbitrary: s)
  case (Cons x xs)
  have x: "emit x (s\<lparr>m_listStack := (length (x # xs), p) # st\<rparr>) =
      note_loop 1 ((length (x # xs), p) # st) (m_out s @ encode x)"
    using Cons.prems(1) [of x] by (simp add: noteAppended_def)
  show ?case
  proof (cases "xs = []")
    case True
    show ?thesis
    proof (cases "close_list p (m_out s @ encode x)")
      case (Inr out)
      then show ?thesis using x True by (cases "note_loop (Suc 0) st out") simp_all
    qed (use x True in simp)
  next
    case False
    let ?t = "\<lparr>m_out = m_out s @ encode x, m_listStack = []\<rparr>"
    have "emit_all (x # xs) (s\<lparr>m_listStack := (length (x # xs), p) # st\<rparr>) =
        emit_all xs (?t\<lparr>m_listStack := (length xs, p) # st\<rparr>)"
      using x False by simp
    then show ?thesis using Cons.IH [of ?t] Cons.prems(1) False by simp
  qed
qed simp

lemma emit_encode: "encodable it \<Longrightarrow> emit it s = noteAppended 1 (s\<lparr>m_out := m_out s @ encode it\<rparr>)"
proof (induction it arbitrary: s)
  case (Data b)
  then show ?case by (simp add: append_bytes_encode del: encode.simps)
next
  case (RList xs)
  show ?case
  proof (cases "xs = []")
    case True
    then show ?thesis
      by (cases "noteAppended (Suc 0) (s\<lparr>m_out := m_out s @ [192]\<rparr>)")
        (simp_all add: appendList_def appendList_raw_def appendRaw_def push_byte_def rlp_consts prefix_def)
  next
    case False
    have "emit (RList xs) s = emit_all xs (s\<lparr>m_listStack := (length xs, length (m_out s)) # m_listStack s\<rparr>)"
      using False by (simp add: appendList_def)
    also have "\<dots> = bindE (close_list (length (m_out s)) (m_out s @ concat (map encode xs))) (note_loop 1 (m_listStack s))"
      by (rule emit_all_encode) (use RList False in \<open>auto simp: list_all_iff\<close>)
    finally show ?thesis
      using RList.prems by (simp add: close_list_prefix noteAppended_def)
  qed
qed

section \<open>Integers and hashes\<close>

text \<open>An integer is written as the data item of its shortest big-endian form.\<close>

lemma append_int_encode:
  assumes "bytesRequired i < max_len"
  shows "append_int i s = append_bytes (toCompactBigEndian i 0) False s"
proof -
  have be: "toBigEndian (bytesRequired i) i = toCompactBigEndian i 0" by (simp add: toCompactBigEndian_def)
  have "append_int i s = noteAppended 1 (s\<lparr>m_out := m_out s @ encode (Data (toCompactBigEndian i 0))\<rparr>)"
  proof (cases "i < 0x80")
    case True
    show ?thesis
    proof (cases "i = 0")
      case True
      then show ?thesis
        by (simp add: append_int_def push_byte_def rlp_consts toCompactBigEndian_def prefix_def)
    next
      case False
      have "bytesRequired i = 1" using True False by (simp add: bytesRequired.simps)
      then have "toCompactBigEndian i 0 = [of_nat i]" using True by (simp add: toCompactBigEndian_def)
      then show ?thesis using True False by (simp add: append_int_def push_byte_def rlp_consts unat_byte)
    qed
  next
    case False
    have single: "\<not> (length (toCompactBigEndian i 0) = 1 \<and> unat (toCompactBigEndian i 0 ! 0) < 0x80)"
    proof
      assume a: "length (toCompactBigEndian i 0) = 1 \<and> unat (toCompactBigEndian i 0 ! 0) < 0x80"
      then obtain c where "toCompactBigEndian i 0 = [c]" by (cases "toCompactBigEndian i 0") auto
      then show False using a False be_value_compact [of i 0] be_value_simps(2) [of "[]" c] by simp
    qed
    show ?thesis
      using False single bytesRequired_le8 [OF assms]
      by (auto simp: append_int_def Let_def rlp_consts push_byte_def pushInt_def prefix_def length_compact be
          toCompactBigEndian_def [of "bytesRequired i"] add.commute)
  qed
  then show ?thesis using append_bytes_encode [of "toCompactBigEndian i 0" s] assms by (simp add: length_compact)
qed


lemma isInt_compact:
  assumes "bytesRequired i < max_len"
  shows "isInt (encode (Data (toCompactBigEndian i 0))) = Inr True"
proof -
  let ?b = "toCompactBigEndian i 0"
  have len: "length ?b = bytesRequired i" by (rule length_compact)
  have good: "requireGood (encode (Data ?b)) = Inr ()" using toBytes_encode(4) [of ?b] assms len by simp
  show ?thesis
  proof (cases "i = 0")
    case True
    then show ?thesis by (simp add: toCompactBigEndian_def prefix_def isInt_def isNull_def requireGood_def rlp_consts Let_def)
  next
    case False
    then obtain c cs where c: "?b = c # cs" "c \<noteq> 0" using hd_compact [of i] by (cases ?b) auto
    consider "cs = []" "unat c < 0x80" | "\<not> (cs = [] \<and> unat c < 0x80)" "length ?b < 56" | "\<not> (cs = [] \<and> unat c < 0x80)" "56 \<le> length ?b"
      by fastforce
    then show ?thesis
    proof cases
      case 1
      then show ?thesis using c good by (simp add: isInt_def isNull_def rlp_consts Let_def unat_eq_0)
    next
      case 2
      then have e: "encode (Data ?b) = of_nat (0x80 + length ?b) # ?b" using c(1) by (auto simp: prefix_def simp del: of_nat_add)
      have u: "unat (of_nat (129 + length cs) :: byte) = 129 + length cs" by (rule unat_byte) (use 2 c(1) in simp)
      show ?thesis using good 2(2) c unfolding e
        by (simp add: isInt_def isNull_def rlp_consts Let_def u c(1) del: of_nat_add)
    next
      case 3
      let ?k = "bytesRequired (bytesRequired i)"
      have k: "0 < ?k" "?k \<le> 8" using bytesRequired_pos [of "bytesRequired i"] bytesRequired_le8 [OF assms] 3 len by fastforce+
      have e: "encode (Data ?b) = of_nat (183 + ?k) # toCompactBigEndian (bytesRequired i) 0 @ ?b"
        using 3 c(1) len by (auto simp: prefix_def simp del: of_nat_add)
      have u: "unat (of_nat (183 + ?k) :: byte) = 183 + ?k" by (rule unat_byte) (use k in simp)
      have "(toCompactBigEndian (bytesRequired i) 0 @ ?b) ! ?k = c"
        using c(1) by (simp add: nth_append length_compact)
      then show ?thesis using good k c(2) len unfolding e
        by (simp add: isInt_def isNull_def rlp_consts Let_def u length_compact c(1) del: of_nat_add)
    qed
  qed
qed

lemma bytesRequired_le: "i < 256 ^ n \<Longrightarrow> bytesRequired i \<le> n"
proof (rule ccontr)
  assume "i < 256 ^ n" "\<not> bytesRequired i \<le> n"
  moreover from this have "(256 :: nat) ^ n \<le> 256 ^ (bytesRequired i - 1)" "i \<noteq> 0" by (intro power_increasing notI; simp)+
  ultimately show False using bytesRequired_bounds(2) [of i] by linarith
qed

lemma toInt_encode:
  assumes "i < 256 ^ n" "n < max_len"
  shows "toInt (Some n) (encode (Data (toCompactBigEndian i 0))) Strict = Inr i"
proof -
  have br: "bytesRequired i \<le> n" using assms(1) by (rule bytesRequired_le)
  have enc: "encodable (Data (toCompactBigEndian i 0))" using br assms(2) by (simp add: length_compact)
  have "isData (encode (Data (toCompactBigEndian i 0)))" using toBytes_encode(1) [OF enc] .
  then have nl: "\<not> isList (encode (Data (toCompactBigEndian i 0)))" "\<not> isNull (encode (Data (toCompactBigEndian i 0)))"
    by (auto simp: isData_def isList_def)
  have "fromBigEndian (Some (8 * n)) (toCompactBigEndian i 0) = i"
    using br by (simp add: fromBigEndian_exact length_compact be_value_compact)
  then show ?thesis
    using toBytes_encode(3,4) [OF enc] isInt_compact [of i] br assms(2) nl
    by (simp add: toInt_def Strict_def length_compact del: encode.simps)
qed

lemma toHash_encode:
  assumes "length h = n" "n < max_len"
  shows "toHash n (encode (Data h)) VeryStrict = Inr h"
  using toBytes_encode [of h] assms by (simp add: toHash_def VeryStrict_def Let_def del: encode.simps)


section \<open>Properties\<close>

text \<open>Successive accesses through one view.\<close>

fun index_all :: "nat list \<Rightarrow> rlp_view \<Rightarrow> rlp_error + bytes list" where
  "index_all [] v = Inr []"
| "index_all (i # is) v = bindE (rlp_index i v) (\<lambda>(r, v'). bindE (index_all is v') (\<lambda>rs. Inr (r # rs)))"

lemma index_all_encode:
  assumes "encodable (RList xs)" "view_ok xs v" "list_all (\<lambda>i. i < 2 ^ 64 - 1) is"
  shows "index_all is v = Inr (map (\<lambda>i. if i < length xs then encode (xs ! i) else []) is)"
  using assms(2,3)
proof (induction "is" arbitrary: v)
  case (Cons i "is")
  obtain v' where v': "rlp_index i v = Inr (if i < length xs then encode (xs ! i) else [], v')" "view_ok xs v'"
    using rlp_index_encode [OF assms(1) Cons.prems(1), of i] Cons.prems(2) by auto
  then show ?case using Cons.IH [OF v'(2)] Cons.prems(2) by simp
qed simp

text \<open>
  C25: the reader inverts the encoding: every encodable item is accepted under the strictest check;
  a data item gives back its bytes, a list its items in order and their number, and indexing a list
  in any order gives the indexed items (and a null item beyond the end), whatever the index cache holds.
\<close>

theorem rlp_reader_inverts:
  assumes "encodable it"
  shows "RLP_new (encode it) VeryStrict = Inr (encode it) \<and>
    (case it of
       Data b \<Rightarrow> isData (encode it) \<and> toBytes (encode it) = Inr b
     | RList xs \<Rightarrow> isList (encode it) \<and> toList (encode it) = Inr (map encode xs) \<and> itemCount (encode it) = Inr (length xs) \<and>
         (list_all (\<lambda>i. i < 2 ^ 64 - 1) is \<longrightarrow>
           index_all is (fresh_view (encode it)) = Inr (map (\<lambda>i. if i < length xs then encode (xs ! i) else []) is)))"
proof (cases it)
  case (Data b)
  then show ?thesis using RLP_new_encode(1) [OF assms] toBytes_encode [of b] assms by (simp del: encode.simps)
next
  case (RList xs)
  then show ?thesis
    using RLP_new_encode(1) [OF assms] toList_encode [of xs] reads_RList [of xs] index_all_encode [of xs _ "is"] fresh_view_ok assms
    by (simp del: encode.simps)
qed

theorem rlp_reader_inverts_witness:
  "toList (encode (RList [Data [1], Data [], RList [Data [200]]])) = Inr [encode (Data [1]), encode (Data []), encode (RList [Data [200]])]"
  using rlp_reader_inverts [of "RList [Data [1], Data [], RList [Data [200]]]" "[]"] by (simp add: max_len_def prefix_def)

text \<open>
  C26: the writer produces the encoding: appending the parts of an item to a fresh stream, with list
  headers inserted when a list is complete, succeeds and leaves exactly its encoding.
\<close>

theorem rlp_writer_encodes:
  assumes "encodable it"
  shows "bindE (emit it RLPStream_new) stream_out = Inr (encode it)"
  using emit_encode [OF assms, of RLPStream_new] by (simp add: RLPStream_new_def noteAppended_def stream_out_def)

theorem rlp_writer_encodes_witness:
  "bindE (emit (RList [Data [7], RList []]) RLPStream_new) stream_out = Inr [194, 7, 192]"
  using rlp_writer_encodes [of "RList [Data [7], RList []]"] by (simp add: max_len_def prefix_def)

end
