(* ===== verification/VectorRef.thy ===== *)
theory VectorRef
  imports Rlp
begin

unbundle bit_operations_syntax

text \<open>
  Views into memory and vectors that erase their contents: \<^verbatim>\<open>libdevcore/vector_ref.h\<close> and \<open>secure_vector\<close> of
  \<^verbatim>\<open>libdevcore/Common.h\<close>.  Memory is a map from addresses to bytes, so that views may overlap; the null pointer is address 0.
  A view counts elements, whose size \<open>w\<close> (\<^verbatim>\<open>sizeof(_T)\<close>) is an argument of the operations that need it.  Other theories use byte
  lists for such views; the interface \<open>byte_views\<close> states why they may.
\<close>

section \<open>Memory\<close>

type_synonym memory = "nat \<Rightarrow> byte"

definition load_bytes :: "memory \<Rightarrow> nat \<Rightarrow> nat \<Rightarrow> bytes" where
  "load_bytes h a n = map (\<lambda>i. h (a + i)) [0..<n]"

definition store_bytes :: "memory \<Rightarrow> nat \<Rightarrow> bytes \<Rightarrow> memory" where
  "store_bytes h a bs = (\<lambda>p. if a \<le> p \<and> p < a + length bs then bs ! (p - a) else h p)"

text \<open>The functions of the C library; \<open>memcpy\<close> is undefined on overlapping areas.\<close>

definition memset :: "memory \<Rightarrow> nat \<Rightarrow> byte \<Rightarrow> nat \<Rightarrow> memory" where
  "memset h a v n = store_bytes h a (replicate n v)"

definition memmove :: "memory \<Rightarrow> nat \<Rightarrow> nat \<Rightarrow> nat \<Rightarrow> memory" where
  "memmove h dst src n = store_bytes h dst (load_bytes h src n)"

definition memcpy :: "memory \<Rightarrow> nat \<Rightarrow> nat \<Rightarrow> nat \<Rightarrow> memory option" where
  "memcpy h dst src n = (if 0 < n \<and> dst < src + n \<and> src < dst + n then None else Some (store_bytes h dst (load_bytes h src n)))"

definition memchr :: "memory \<Rightarrow> nat \<Rightarrow> byte \<Rightarrow> nat \<Rightarrow> nat option" where
  "memchr h a v n = map_option (\<lambda>i. a + i) (find (\<lambda>i. h (a + i) = v) [0..<n])"

section \<open>Views\<close>

record vector_ref =
  ref_data :: nat
  ref_count :: nat

definition null_ref :: vector_ref where
  "null_ref = \<lparr>ref_data = 0, ref_count = 0\<rparr>"

definition make_ref :: "nat \<Rightarrow> nat \<Rightarrow> vector_ref" where
  "make_ref d n = \<lparr>ref_data = d, ref_count = n\<rparr>"

text \<open>A view of a string of \<open>n\<close> characters, of a vector of \<open>n\<close> elements and of a single object.\<close>

definition ref_of_string :: "nat \<Rightarrow> nat \<Rightarrow> nat \<Rightarrow> vector_ref" where
  "ref_of_string w d n = \<lparr>ref_data = d, ref_count = n div w\<rparr>"

definition ref_of_vector :: "nat \<Rightarrow> nat \<Rightarrow> vector_ref" where
  "ref_of_vector d n = \<lparr>ref_data = d, ref_count = n\<rparr>"

definition ref_of_object :: "nat \<Rightarrow> vector_ref" where
  "ref_of_object d = \<lparr>ref_data = d, ref_count = 1\<rparr>"

definition ref_bool :: "vector_ref \<Rightarrow> bool" where
  "ref_bool r \<longleftrightarrow> ref_data r \<noteq> 0 \<and> ref_count r \<noteq> 0"

definition ref_end :: "nat \<Rightarrow> vector_ref \<Rightarrow> nat" where
  "ref_end w r = ref_data r + ref_count r * w"

definition ref_empty :: "vector_ref \<Rightarrow> bool" where
  "ref_empty r \<longleftrightarrow> ref_count r = 0"

text \<open>\<open>toBytes\<close> and \<open>toString\<close> give the bytes, \<open>toVector\<close> the elements.\<close>

definition ref_bytes :: "nat \<Rightarrow> memory \<Rightarrow> vector_ref \<Rightarrow> bytes" where
  "ref_bytes w h r = load_bytes h (ref_data r) (ref_count r * w)"

definition ref_vector :: "nat \<Rightarrow> memory \<Rightarrow> vector_ref \<Rightarrow> bytes list" where
  "ref_vector w h r = map (\<lambda>i. load_bytes h (ref_data r + i * w) w) [0..<ref_count r]"

definition contentsEqual :: "nat \<Rightarrow> memory \<Rightarrow> vector_ref \<Rightarrow> bytes list \<Rightarrow> bool" where
  "contentsEqual w h r c =
     (if ref_data r = 0 \<or> ref_count r = 0 then c = []
      else length c = ref_count r \<and> concat c = load_bytes h (ref_data r) (ref_count r * w))"

text \<open>The conversion to elements of another size, with its assertion.\<close>

definition ref_convert :: "nat \<Rightarrow> nat \<Rightarrow> vector_ref \<Rightarrow> vector_ref option" where
  "ref_convert w w2 r =
     (if ref_count r * w div w2 * w2 div w = ref_count r then Some \<lparr>ref_data = ref_data r, ref_count = ref_count r * w div w2\<rparr> else None)"

definition next_ref :: "nat \<Rightarrow> vector_ref \<Rightarrow> vector_ref" where
  "next_ref w r = (if ref_data r = 0 then r else \<lparr>ref_data = ref_data r + ref_count r * w, ref_count = ref_count r\<rparr>)"

definition ref_cropped :: "nat \<Rightarrow> vector_ref \<Rightarrow> nat \<Rightarrow> nat \<Rightarrow> vector_ref" where
  "ref_cropped w r b n =
     (if ref_data r \<noteq> 0 \<and> b \<le> ref_count r \<and> n \<le> ref_count r \<and> (b + n) mod 2 ^ 64 \<le> ref_count r
      then \<lparr>ref_data = ref_data r + b * w, ref_count = (if n = 2 ^ 64 - 1 then ref_count r - b else n)\<rparr>
      else null_ref)"

definition ref_cropped_from :: "nat \<Rightarrow> vector_ref \<Rightarrow> nat \<Rightarrow> vector_ref" where
  "ref_cropped_from w r b =
     (if ref_data r \<noteq> 0 \<and> b \<le> ref_count r then \<lparr>ref_data = ref_data r + b * w, ref_count = ref_count r - b\<rparr> else null_ref)"

definition retarget :: "nat \<Rightarrow> nat \<Rightarrow> vector_ref \<Rightarrow> vector_ref" where
  "retarget d n r = r\<lparr>ref_data := d, ref_count := n\<rparr>"

definition ref_reset :: "vector_ref \<Rightarrow> vector_ref" where
  "ref_reset r = r\<lparr>ref_data := 0, ref_count := 0\<rparr>"

definition overlapsWith :: "nat \<Rightarrow> nat \<Rightarrow> vector_ref \<Rightarrow> vector_ref \<Rightarrow> bool" where
  "overlapsWith w w2 r t \<longleftrightarrow>
     (let f1 = ref_data r; t1 = ref_data r + ref_count r * w; f2 = ref_data t; t2 = ref_data t + ref_count t * w2
      in f1 < t2 \<and> f2 < t1)"

definition copyTo :: "nat \<Rightarrow> vector_ref \<Rightarrow> vector_ref \<Rightarrow> memory \<Rightarrow> memory option" where
  "copyTo w r t h =
     (if overlapsWith w w r t then Some (memmove h (ref_data t) (ref_data r) (min (ref_count t) (ref_count r) * w))
      else memcpy h (ref_data t) (ref_data r) (min (ref_count t) (ref_count r) * w))"

definition populate_ref :: "nat \<Rightarrow> vector_ref \<Rightarrow> vector_ref \<Rightarrow> memory \<Rightarrow> memory option" where
  "populate_ref w r t h =
     Option.bind (copyTo w r t h)
       (\<lambda>h. Some (memset h (ref_data t + ref_count r * w) 0 (max (ref_count t) (ref_count r) - ref_count r)))"

text \<open>The subscript and its use as a target; both assert a pointer and the range.\<close>

definition ref_at :: "nat \<Rightarrow> memory \<Rightarrow> vector_ref \<Rightarrow> nat \<Rightarrow> bytes option" where
  "ref_at w h r i = (if ref_data r = 0 then None else if ref_count r \<le> i then None else Some (load_bytes h (ref_data r + i * w) w))"

definition ref_set :: "nat \<Rightarrow> vector_ref \<Rightarrow> nat \<Rightarrow> bytes \<Rightarrow> memory \<Rightarrow> memory option" where
  "ref_set w r i v h = (if ref_data r = 0 then None else if ref_count r \<le> i then None else Some (store_bytes h (ref_data r + i * w) v))"

subsection \<open>Erasing\<close>

fun cleanse_fill :: "nat \<Rightarrow> nat \<Rightarrow> u64 \<Rightarrow> memory \<Rightarrow> memory \<times> u64" where
  "cleanse_fill 0 p cnt h = (h, cnt)"
| "cleanse_fill (Suc loop) p cnt h =
     cleanse_fill loop (p + 1) (cnt + (17 + (of_nat (p + 1) AND 0xf))) (store_bytes h p [ucast cnt])"

definition cleanse :: "nat \<Rightarrow> vector_ref \<Rightarrow> byte \<Rightarrow> memory \<Rightarrow> memory \<times> byte" where
  "cleanse w r counter h =
     (let len = ref_count r * w;
          (h, cnt) = cleanse_fill len (ref_data r) (ucast counter) h;
          cnt = (case memchr h (ref_data r) (ucast cnt) len of Some p \<Rightarrow> cnt + (63 + of_nat p) | None \<Rightarrow> cnt)
      in (memset h (ref_data r) 0 len, ucast cnt))"

section \<open>Vectors that erase their contents\<close>

text \<open>
  The storage of the vector inside a \<open>secure_vector\<close>: its address, size and capacity, in elements.  The assignment of the
  standard library copies in place when the capacity is large enough and moves to a new area otherwise, which
  the allocator, an argument, provides.  Two vectors are the same object when they have the same storage.
\<close>

record secure_vector =
  sv_data :: nat
  sv_size :: nat
  sv_capacity :: nat

definition sv_ref :: "secure_vector \<Rightarrow> vector_ref" where
  "sv_ref v = ref_of_vector (sv_data v) (sv_size v)"

definition sv_bytes :: "nat \<Rightarrow> memory \<Rightarrow> secure_vector \<Rightarrow> bytes" where
  "sv_bytes w h v = ref_bytes w h (sv_ref v)"

definition sv_new :: "nat \<Rightarrow> nat \<Rightarrow> bytes \<Rightarrow> memory \<Rightarrow> memory \<times> secure_vector" where
  "sv_new d n item h = (store_bytes h d (concat (replicate n item)), \<lparr>sv_data = d, sv_size = n, sv_capacity = n\<rparr>)"

definition sv_of_ref :: "nat \<Rightarrow> nat \<Rightarrow> vector_ref \<Rightarrow> memory \<Rightarrow> memory \<times> secure_vector" where
  "sv_of_ref w d r h = (store_bytes h d (ref_bytes w h r), \<lparr>sv_data = d, sv_size = ref_count r, sv_capacity = ref_count r\<rparr>)"

definition sv_clear :: "nat \<Rightarrow> secure_vector \<Rightarrow> byte \<Rightarrow> memory \<Rightarrow> memory \<times> byte" where
  "sv_clear w v counter h = cleanse w (sv_ref v) counter h"

definition vector_assign :: "nat \<Rightarrow> bytes \<Rightarrow> nat \<Rightarrow> secure_vector \<Rightarrow> memory \<Rightarrow> memory \<times> secure_vector" where
  "vector_assign fresh bs n v h =
     (if n \<le> sv_capacity v then (store_bytes h (sv_data v) bs, v\<lparr>sv_size := n\<rparr>)
      else (store_bytes h fresh bs, \<lparr>sv_data = fresh, sv_size = n, sv_capacity = n\<rparr>))"

definition sv_assign :: "nat \<Rightarrow> nat \<Rightarrow> secure_vector \<Rightarrow> secure_vector \<Rightarrow> byte \<Rightarrow> memory \<Rightarrow> memory \<times> secure_vector \<times> byte" where
  "sv_assign w fresh c v counter h =
     (if c = v then (h, v, counter)
      else let (h, counter) = cleanse w (sv_ref v) counter h;
               (h, v) = vector_assign fresh (sv_bytes w h c) (sv_size c) v h
           in (h, v, counter))"

definition sv_swap :: "secure_vector \<Rightarrow> secure_vector \<Rightarrow> secure_vector \<times> secure_vector" where
  "sv_swap v u = (u, v)"

section \<open>Facts about memory\<close>

lemma length_load_bytes [simp]: "length (load_bytes h a n) = n"
  by (simp add: load_bytes_def)

lemma nth_load_bytes [simp]: "i < n \<Longrightarrow> load_bytes h a n ! i = h (a + i)"
  by (simp add: load_bytes_def)

lemma store_at: "store_bytes h a bs p = (if a \<le> p \<and> p < a + length bs then bs ! (p - a) else h p)"
  by (simp add: store_bytes_def)

lemma load_store: "load_bytes (store_bytes h a bs) a (length bs) = bs"
  by (rule nth_equalityI) (auto simp: store_bytes_def)

lemma store_outside: "p < a \<or> a + length bs \<le> p \<Longrightarrow> store_bytes h a bs p = h p"
  by (auto simp: store_bytes_def)

lemma load_store_disjoint: "b + n \<le> a \<or> a + length bs \<le> b \<Longrightarrow> load_bytes (store_bytes h a bs) b n = load_bytes h b n"
  by (rule nth_equalityI) (auto simp: store_bytes_def)

lemma load_part: "b + n \<le> m \<Longrightarrow> load_bytes h (a + b) n = take n (drop b (load_bytes h a m))"
  by (rule nth_equalityI) (auto simp: add.assoc)

lemma load_store_prefix: "length bs \<le> n \<Longrightarrow> load_bytes (store_bytes h a bs) a n = bs @ drop (length bs) (load_bytes h a n)"
  by (rule nth_equalityI) (auto simp: nth_append store_at)

lemma load_append: "load_bytes h a (n + m) = load_bytes h a n @ load_bytes h (a + n) m"
  by (rule nth_equalityI) (auto simp: nth_append)


section \<open>Views as byte lists\<close>

text \<open>
  What the readers of byte views rely on: cropping a view gives the view of the cropped list.  A view is sound when a null
  pointer goes with no elements and the count leaves room for the sums of \<open>cropped\<close>.
\<close>

locale byte_views =
  fixes sound :: "'v \<Rightarrow> bool" and contents :: "'v \<Rightarrow> bytes" and crop :: "'v \<Rightarrow> nat \<Rightarrow> nat \<Rightarrow> 'v" and crop_from :: "'v \<Rightarrow> nat \<Rightarrow> 'v"
  assumes contents_crop: "sound v \<Longrightarrow> contents (crop v b n) = cropped b n (contents v)"
    and contents_crop_from: "sound v \<Longrightarrow> contents (crop_from v b) = cropped_from b (contents v)"
    and sound_crop: "sound v \<Longrightarrow> sound (crop v b n)"
    and sound_crop_from: "sound v \<Longrightarrow> sound (crop_from v b)"
begin

lemma crop_crop:
  assumes "sound v" "b + n \<le> length (contents v)" "c + m \<le> n"
  shows "contents (crop (crop v b n) c m) = contents (crop v (b + c) m)"
  using assms by (simp add: contents_crop sound_crop cropped_def drop_take min_absorb1 add.commute)

lemma crop_split:
  assumes "sound v" "b \<le> length (contents v)"
  shows "contents v = contents (crop v 0 b) @ contents (crop_from v b)"
  using assms by (simp add: contents_crop contents_crop_from cropped_def cropped_from_def)

text \<open>The payload of an item is the crop of its view the reader takes.\<close>

lemma payload_crop:
  assumes "sound v" "payload (contents v) = Inr p"
  shows "\<exists>l. length_of (contents v) = Inr l \<and> p = contents (crop v (payloadOffset (contents v)) l)"
  using assms by (auto simp: payload_def bindE_def contents_crop split: sum.splits if_splits)

end

definition ref_sound :: "vector_ref \<Rightarrow> bool" where
  "ref_sound r \<longleftrightarrow> (ref_data r = 0 \<longrightarrow> ref_count r = 0) \<and> ref_count r < 2 ^ 63"

interpretation refs: byte_views ref_sound "ref_bytes 1 h" "ref_cropped 1" "ref_cropped_from 1"
proof
  fix v :: vector_ref and b n :: nat
  assume v: "ref_sound v"
  then have "(b + n) mod 2 ^ 64 = b + n" if "b \<le> ref_count v" "n \<le> ref_count v"
    using that by (simp add: ref_sound_def)
  then show "ref_bytes 1 h (ref_cropped 1 v b n) = cropped b n (ref_bytes 1 h v)"
    using v load_part [of b n "ref_count v" h "ref_data v"]
    by (auto simp: ref_sound_def ref_bytes_def ref_cropped_def cropped_def null_ref_def load_bytes_def)
  show "ref_bytes 1 h (ref_cropped_from 1 v b) = cropped_from b (ref_bytes 1 h v)"
    using v load_part [of b "ref_count v - b" "ref_count v" h "ref_data v"]
    by (auto simp: ref_sound_def ref_bytes_def ref_cropped_from_def cropped_from_def null_ref_def load_bytes_def)
  show "ref_sound (ref_cropped 1 v b n)" "ref_sound (ref_cropped_from 1 v b)"
    using v by (auto simp: ref_sound_def ref_cropped_def ref_cropped_from_def null_ref_def)
qed

text \<open>The comment promises the rest of the data for a count of \<^verbatim>\<open>~size_t(0)\<close>; the range check comes first.\<close>

lemma cropped_to_end_empty: "ref_sound r \<Longrightarrow> ref_cropped w r b (2 ^ 64 - 1) = null_ref"
  by (simp add: ref_sound_def ref_cropped_def)

section \<open>Copies\<close>

lemma overlapsWith_shared:
  assumes "0 < ref_count r * w" "0 < ref_count t * w2"
  shows "overlapsWith w w2 r t \<longleftrightarrow> (\<exists>p. ref_data r \<le> p \<and> p < ref_end w r \<and> ref_data t \<le> p \<and> p < ref_end w2 t)"
proof
  assume "overlapsWith w w2 r t"
  then show "\<exists>p. ref_data r \<le> p \<and> p < ref_end w r \<and> ref_data t \<le> p \<and> p < ref_end w2 t"
    using assms by (intro exI [of _ "max (ref_data r) (ref_data t)"]) (auto simp: overlapsWith_def ref_end_def Let_def)
qed (auto simp: overlapsWith_def ref_end_def Let_def)

lemma next_ref_adjacent: "ref_data r \<noteq> 0 \<Longrightarrow> \<not> overlapsWith w w r (next_ref w r)"
  by (simp add: overlapsWith_def next_ref_def Let_def)

lemma copyTo_store: "copyTo w r t h = Some (store_bytes h (ref_data t) (load_bytes h (ref_data r) (min (ref_count t) (ref_count r) * w)))"
proof -
  define k where "k = min (ref_count t) (ref_count r) * w"
  have "k \<le> ref_count t * w" "k \<le> ref_count r * w" by (simp_all add: k_def)
  then show ?thesis by (auto simp: copyTo_def overlapsWith_def memmove_def memcpy_def Let_def k_def [symmetric])
qed

lemma load_store_inside:
  "b + n \<le> length bs \<Longrightarrow> load_bytes (store_bytes h a bs) (a + b) n = take n (drop b bs)"
  by (rule nth_equalityI) (auto simp: store_at)

lemma element_inside: "i < k \<Longrightarrow> i * w + w \<le> k * (w :: nat)"
  using mult_le_mono1 [of "Suc i" k w] by simp

text \<open>Copying, element by element, for elements of any size.\<close>

lemma copyTo_vector:
  "\<exists>h'. copyTo w r t h = Some h' \<and>
     ref_vector w h' t = take (ref_count t) (ref_vector w h r) @ drop (ref_count r) (ref_vector w h t) \<and>
     (\<forall>p. p < ref_data t \<or> ref_end w t \<le> p \<longrightarrow> h' p = h p)"
proof -
  define k where "k = min (ref_count t) (ref_count r)"
  let ?bs = "load_bytes h (ref_data r) (k * w)" and ?a = "ref_data t"
  let ?h = "store_bytes h ?a ?bs"
  have new: "load_bytes ?h (?a + i * w) w = load_bytes h (ref_data r + i * w) w" if "i < k" for i
    using element_inside [OF that] load_part [of "i * w" w "k * w" h "ref_data r"] by (simp add: load_store_inside)
  have old: "load_bytes ?h (?a + i * w) w = load_bytes h (?a + i * w) w" if "k \<le> i" for i
    using that by (intro load_store_disjoint) simp
  have "ref_vector w ?h t = take (ref_count t) (ref_vector w h r) @ drop (ref_count r) (ref_vector w h t)"
  proof (rule nth_equalityI)
    fix i assume "i < length (ref_vector w ?h t)"
    then have i: "i < ref_count t" by (simp add: ref_vector_def)
    show "ref_vector w ?h t ! i = (take (ref_count t) (ref_vector w h r) @ drop (ref_count r) (ref_vector w h t)) ! i"
      using i new [of i] old [of i] by (cases "i < k") (auto simp: ref_vector_def nth_append k_def)
  qed (auto simp: ref_vector_def)
  moreover have kw: "k * w \<le> ref_count t * w" by (simp add: k_def)
  have "?h p = h p" if "p < ?a \<or> ref_end w t \<le> p" for p
    using that add_left_mono [OF kw, of ?a] by (intro store_outside) (simp only: ref_end_def length_load_bytes, linarith)
  ultimately show ?thesis by (simp add: copyTo_store k_def)
qed

text \<open>\<open>populate\<close> passes a number of elements to \<open>memset\<close> as a number of bytes.\<close>

lemma populate_bytes:
  assumes "0 < w"
  shows "\<exists>h'. populate_ref w r t h = Some h' \<and>
     ref_bytes w h' t = take (ref_count t * w) (ref_bytes w h r) @ replicate (ref_count t - ref_count r) 0 @
       drop (ref_count r * w + (ref_count t - ref_count r)) (ref_bytes w h t) \<and>
     (\<forall>p. p < ref_data t \<or> ref_end w t \<le> p \<longrightarrow> h' p = h p)"
proof -
  let ?c = "ref_count r" and ?n = "ref_count t" and ?a = "ref_data t" and ?d = "ref_data r"
  define k where "k = min ?n ?c"
  let ?bs = "load_bytes h ?d (k * w)"
  let ?h = "memset (store_bytes h ?a ?bs) (?a + ?c * w) 0 (max ?n ?c - ?c)"
  have end_zero: "?c * w + (?n - ?c) \<le> ?n * w" if "?c \<le> ?n"
  proof -
    have "(?n - ?c) * 1 \<le> (?n - ?c) * w" using assms by (intro mult_le_mono) simp_all
    then have "?n - ?c \<le> ?n * w - ?c * w" by (simp add: diff_mult_distrib)
    with mult_le_mono1 [OF that, of w] show ?thesis by linarith
  qed
  have kw: "k * w = min (?n * w) (?c * w)" by (simp add: k_def nat_mult_min_left)
  have "ref_bytes w ?h t = take (?n * w) (ref_bytes w h r) @ replicate (?n - ?c) 0 @ drop (?c * w + (?n - ?c)) (ref_bytes w h t)"
  proof (cases "?n \<le> ?c")
    case True
    then have "?n * w \<le> ?c * w" by simp
    then have "i < ?c * w" "\<not> ?c * w \<le> i" if "i < ?n * w" for i using that by linarith+
    then show ?thesis using True
      by (intro nth_equalityI) (auto simp: ref_bytes_def memset_def store_at nth_append kw)
  next
    case False
    then have "?c * w \<le> ?n * w" by simp
    then show ?thesis using False end_zero
      by (intro nth_equalityI) (auto simp: ref_bytes_def memset_def store_at nth_append kw)
  qed
  moreover have "?h p = h p" if "p < ?a \<or> ref_end w t \<le> p" for p
    using that end_zero kw by (cases "?n \<le> ?c") (auto simp: memset_def store_at ref_end_def)
  ultimately show ?thesis by (simp add: populate_ref_def copyTo_store k_def)
qed

text \<open>With elements of two bytes half of the tail is not cleared.\<close>

lemma populate_wide:
  "map_option (\<lambda>h. ref_bytes 2 h (make_ref 20 2)) (populate_ref 2 null_ref (make_ref 20 2) (\<lambda>p. 1)) = Some [0, 0, 1, 1]"
  by code_simp

lemma ref_convert_defined:
  assumes "0 < w" "0 < w2"
  shows "ref_convert w w2 r = (if w2 dvd ref_count r * w then Some \<lparr>ref_data = ref_data r, ref_count = ref_count r * w div w2\<rparr> else None)"
proof -
  let ?n = "ref_count r * w"
  have "?n div w2 * w2 div w = ref_count r \<longleftrightarrow> w2 dvd ?n"
  proof
    assume "?n div w2 * w2 div w = ref_count r"
    then have "?n \<le> ?n div w2 * w2" using div_times_less_eq_dividend [of "?n div w2 * w2" w] by simp
    then have "?n div w2 * w2 = ?n" using div_times_less_eq_dividend [of ?n w2] by simp
    then show "w2 dvd ?n" by (metis dvd_triv_right)
  qed (use assms in simp)
  then show ?thesis by (simp add: ref_convert_def)
qed

lemma ref_convert_bytes: "0 < w \<Longrightarrow> 0 < w2 \<Longrightarrow> ref_convert w w2 r = Some s \<Longrightarrow> ref_bytes w2 h s = ref_bytes w h r"
  by (auto simp: ref_convert_defined ref_bytes_def split: if_splits)

lemma ref_at_set:
  assumes "ref_set w r i v h = Some h'" "length v = w" "j < ref_count r"
  shows "ref_at w h' r j = (if j = i then Some v else ref_at w h r j)"
proof -
  have r: "ref_data r \<noteq> 0" "i < ref_count r" "h' = store_bytes h (ref_data r + i * w) v"
    using assms(1) by (auto simp: ref_set_def split: if_splits)
  show ?thesis
  proof (cases "j = i")
    case True
    then show ?thesis using r assms(2) load_store [of h "ref_data r + i * w" v] by (simp add: ref_at_def)
  next
    case False
    then have "Suc j * w \<le> i * w \<or> Suc i * w \<le> j * w" by (metis Suc_leI linorder_neqE_nat mult_le_mono1)
    then show ?thesis using r assms False by (auto simp: ref_at_def load_store_disjoint)
  qed
qed

lemma vector_bytes: "concat (ref_vector w h r) = ref_bytes w h r"
proof -
  have "concat (map (\<lambda>i. load_bytes h (a + i * w) w) [0..<n]) = load_bytes h a (n * w)" for a n
    by (induction n) (simp_all add: load_append [symmetric] add.commute load_bytes_def [of _ _ 0])
  then show ?thesis by (simp add: ref_vector_def ref_bytes_def)
qed

lemma concat_same_width:
  "length xs = length ys \<Longrightarrow> \<forall>x\<in>set xs. length x = w \<Longrightarrow> \<forall>y\<in>set ys. length y = w \<Longrightarrow> concat xs = concat ys \<longleftrightarrow> xs = ys"
  by (induction xs ys rule: list_induct2) auto

lemma contentsEqual_vector:
  assumes "ref_sound r" "\<forall>x\<in>set c. length x = w"
  shows "contentsEqual w h r c \<longleftrightarrow> c = ref_vector w h r"
proof (cases "ref_count r = 0")
  case False
  then have "ref_data r \<noteq> 0" using assms(1) by (auto simp: ref_sound_def)
  moreover have "length c = ref_count r \<Longrightarrow> concat c = concat (ref_vector w h r) \<longleftrightarrow> c = ref_vector w h r"
    using assms(2) by (intro concat_same_width [of _ _ w]) (auto simp: ref_vector_def)
  moreover have "c = ref_vector w h r \<Longrightarrow> length c = ref_count r" by (simp add: ref_vector_def)
  ultimately show ?thesis using False vector_bytes [of w h r] by (auto simp: contentsEqual_def ref_bytes_def)
qed (simp add: contentsEqual_def ref_vector_def)

section \<open>Erasing\<close>

lemma cleanse_fill_outside:
  "p < a \<or> a + n \<le> p \<Longrightarrow> fst (cleanse_fill n a c h) p = h p"
  by (induction n arbitrary: a c h) (auto simp: store_outside)

lemma cleanse_memory: "fst (cleanse w r counter h) = memset h (ref_data r) 0 (ref_count r * w)"
proof
  fix p
  show "fst (cleanse w r counter h) p = memset h (ref_data r) 0 (ref_count r * w) p"
    using cleanse_fill_outside [of p "ref_data r" "ref_count r * w" "ucast counter" h]
    by (auto simp: cleanse_def memset_def store_bytes_def Let_def split: prod.splits)
qed

lemma load_memset: "load_bytes (memset h a v n) a n = replicate n v"
  using load_store [of h a "replicate n v"] by (simp add: memset_def)

text \<open>Clearing keeps the size and leaves zeros; the area outside is untouched.\<close>

lemma sv_clear_zero:
  "sv_bytes w (fst (sv_clear w v counter h)) v = replicate (sv_size v * w) 0"
  "p < sv_data v \<or> sv_data v + sv_size v * w \<le> p \<Longrightarrow> fst (sv_clear w v counter h) p = h p"
  using load_memset [of h "sv_data v" 0 "sv_size v * w"]
  by (auto simp: sv_clear_def sv_bytes_def sv_ref_def ref_of_vector_def cleanse_memory ref_bytes_def memset_def store_outside)

text \<open>
  Assignment, with the areas of the two vectors and the one the allocator hands out apart from each other: the vector
  has the contents of the other, and nothing of its old contents is left in memory outside the new ones.
\<close>

definition apart :: "nat \<Rightarrow> nat \<Rightarrow> nat \<Rightarrow> nat \<Rightarrow> bool" where
  "apart a n b m \<longleftrightarrow> a + n \<le> b \<or> b + m \<le> a"

lemma apart_shorter: "apart a n b m \<Longrightarrow> k \<le> n \<Longrightarrow> apart a k b m"
  by (auto simp: apart_def)

lemma apart_load: "apart a (length bs) b n \<Longrightarrow> load_bytes (store_bytes h a bs) b n = load_bytes h b n"
  by (rule load_store_disjoint) (auto simp: apart_def)

lemma sv_assign_secure:
  assumes "c \<noteq> v" "sv_size v \<le> sv_capacity v"
    "apart (sv_data v) (sv_capacity v * w) (sv_data c) (sv_size c * w)" "apart fresh (sv_size c * w) (sv_data c) (sv_size c * w)"
    "sv_assign w fresh c v counter h = (h', v', counter')"
  shows "sv_bytes w h' v' = sv_bytes w h c \<and> sv_bytes w h' c = sv_bytes w h c \<and> sv_size v' \<le> sv_capacity v' \<and>
    (\<forall>p. sv_data v \<le> p \<and> p < sv_data v + sv_size v * w \<longrightarrow> h' p = 0 \<or> (sv_data v' \<le> p \<and> p < sv_data v' + sv_size v' * w))"
proof -
  let ?h1 = "memset h (sv_data v) 0 (sv_size v * w)" and ?bs = "load_bytes h (sv_data c) (sv_size c * w)"
  note a = apart_shorter [OF assms(3), of "k * w" for k, OF mult_le_mono1]
  have c: "load_bytes ?h1 (sv_data c) (sv_size c * w) = ?bs"
    using a [OF assms(2)] by (simp add: memset_def apart_load)
  have h': "(h', v') = vector_assign fresh ?bs (sv_size c) v ?h1"
    using assms(5,1) cleanse_memory [of w "sv_ref v" counter h] c
    by (auto simp: sv_assign_def Let_def sv_bytes_def sv_ref_def ref_of_vector_def ref_bytes_def split: prod.splits)
  have z: "?h1 p = 0" if "sv_data v \<le> p" "p < sv_data v + sv_size v * w" for p
    using that by (simp add: memset_def store_bytes_def)
  have copy: "load_bytes (store_bytes ?h1 d ?bs) d (sv_size c * w) = ?bs" for d using load_store [of ?h1 d ?bs] by simp
  note b = sv_bytes_def sv_ref_def ref_of_vector_def ref_bytes_def
  show ?thesis
  proof (cases "sv_size c \<le> sv_capacity v")
    case True
    then show ?thesis using h' z copy a [OF True] c by (auto simp: vector_assign_def b store_at apart_load)
  next
    case False
    then show ?thesis using h' z copy assms(4) c by (auto simp: vector_assign_def b store_at apart_load)
  qed
qed

section \<open>Views refine lists\<close>

lemma crop_vector:
  assumes "ref_sound r"
  shows "ref_vector w h (ref_cropped w r b n) =
      (if n < 2 ^ 64 - 1 \<and> b + n \<le> ref_count r then take n (drop b (ref_vector w h r)) else [])"
    and "ref_vector w h (ref_cropped_from w r b) = drop b (ref_vector w h r)"
proof -
  have small: "ref_count r < 2 ^ 63" "ref_data r = 0 \<longrightarrow> ref_count r = 0" using assms by (simp_all add: ref_sound_def)
  have part: "map (\<lambda>i. load_bytes h (ref_data r + b * w + i * w) w) [0..<n] = take n (drop b (ref_vector w h r))"
    if "b + n \<le> ref_count r" for n
    using that by (intro nth_equalityI) (auto simp: ref_vector_def algebra_simps)
  show "ref_vector w h (ref_cropped w r b n) =
      (if n < 2 ^ 64 - 1 \<and> b + n \<le> ref_count r then take n (drop b (ref_vector w h r)) else [])"
    using small part [of n] by (auto simp: ref_cropped_def ref_vector_def null_ref_def)
  show "ref_vector w h (ref_cropped_from w r b) = drop b (ref_vector w h r)"
    using small part [of "ref_count r - b"] by (auto simp: ref_cropped_from_def ref_vector_def null_ref_def)
qed

text \<open>
  C30: a view into memory as the list of its elements, for elements of any size.  Cropping a sound view by begin and count gives the view
  of that part of the list, or no elements when it goes out of bounds; cropping by begin alone gives the rest.  A
  count of \<^verbatim>\<open>~size_t(0)\<close> also counts as out of bounds, although the comment promises the rest of the view for it.  Copying to
  another view always succeeds, however the two overlap (no undefined \<open>memcpy\<close> is reached), replaces as many leading elements
  of the target as both have by those the source had before, and changes no byte outside the target.  \<open>populate\<close> copies in the
  same way and then clears as many bytes as the target has elements more: the whole tail the comment promises for
  elements of one byte, the rest of it is kept otherwise.  After \<open>cleanse\<close> all bytes of the view are zero, whatever the static
  counter, and no others have changed.
\<close>

theorem views_refine_lists:
  assumes "ref_sound r" "0 < w"
  shows "(n < 2 ^ 64 - 1 \<longrightarrow> ref_vector w h (ref_cropped w r b n) =
       (if b + n \<le> ref_count r then take n (drop b (ref_vector w h r)) else [])) \<and>
    ref_cropped w r b (2 ^ 64 - 1) = null_ref \<and>
    ref_vector w h (ref_cropped_from w r b) = drop b (ref_vector w h r) \<and>
    (\<exists>h'. copyTo w r t h = Some h' \<and>
       ref_vector w h' t = take (ref_count t) (ref_vector w h r) @ drop (ref_count r) (ref_vector w h t) \<and>
       (\<forall>p. p < ref_data t \<or> ref_end w t \<le> p \<longrightarrow> h' p = h p)) \<and>
    (\<exists>h'. populate_ref w r t h = Some h' \<and>
       ref_bytes w h' t = take (ref_count t * w) (ref_bytes w h r) @ replicate (ref_count t - ref_count r) 0 @
         drop (ref_count r * w + (ref_count t - ref_count r)) (ref_bytes w h t) \<and>
       (\<forall>p. p < ref_data t \<or> ref_end w t \<le> p \<longrightarrow> h' p = h p)) \<and>
    ref_bytes w (fst (cleanse w r counter h)) r = replicate (ref_count r * w) 0 \<and>
    (\<forall>p. p < ref_data r \<or> ref_end w r \<le> p \<longrightarrow> fst (cleanse w r counter h) p = h p)"
proof (intro conjI)
  show "n < 2 ^ 64 - 1 \<longrightarrow> ref_vector w h (ref_cropped w r b n) =
      (if b + n \<le> ref_count r then take n (drop b (ref_vector w h r)) else [])"
    using crop_vector(1) [OF assms(1), of w h b n] by simp
  show "ref_bytes w (fst (cleanse w r counter h)) r = replicate (ref_count r * w) 0"
    using load_memset [of h "ref_data r" 0 "ref_count r * w"] by (simp add: cleanse_memory ref_bytes_def)
  show "\<forall>p. p < ref_data r \<or> ref_end w r \<le> p \<longrightarrow> fst (cleanse w r counter h) p = h p"
    by (auto simp: cleanse_memory ref_end_def memset_def store_outside)
qed (use assms in \<open>simp_all only: cropped_to_end_empty crop_vector(2) copyTo_vector populate_bytes\<close>)

theorem views_refine_lists_witness:
  "ref_sound (make_ref 16 3) \<and>
   map_option (\<lambda>h. ref_vector 2 h (make_ref 18 3)) (copyTo 2 (make_ref 16 3) (make_ref 18 3) of_nat) = Some [[16, 17], [18, 19], [20, 21]]"
proof -
  have s: "ref_sound (make_ref 16 3)" by (simp add: ref_sound_def make_ref_def)
  then obtain h' where "copyTo 2 (make_ref 16 3) (make_ref 18 3) of_nat = Some h'"
    "ref_vector 2 h' (make_ref 18 3) = take 3 (ref_vector 2 of_nat (make_ref 16 3)) @ drop 3 (ref_vector 2 of_nat (make_ref 18 3))"
    using views_refine_lists [of "make_ref 16 3" 2 0 of_nat 0 "make_ref 18 3" 0] by (auto simp: make_ref_def)
  then show ?thesis using s by (simp add: make_ref_def ref_vector_def load_bytes_def upt_rec)
qed

end
