(* ===== verification/EthashAux.thy ===== *)
theory EthashAux
  imports Ethash FixedHash
begin

text \<open>
  \<^verbatim>\<open>libethcore/EthashAux.{h,cpp}\<close>: the process-wide caches in front of the light client (last seed
  looked up, light handlers by epoch), the evaluation used to check GPU results, and the work
  package and solution records that travel between pool, farm and miners.  The singleton is an
  explicit state \<open>ethash_aux\<close>.
\<close>

section \<open>Work packages\<close>

record WorkPackage =
  wp_boundary :: h256
  wp_header :: h256
  wp_job :: h256
  wp_epoch :: int
  wp_startNonce :: u32
  wp_height :: u64
  wp_exSizeBits :: int
  wp_job_len :: int

definition WorkPackage_default :: WorkPackage where
  "WorkPackage_default = \<lparr>wp_boundary = h256_zero, wp_header = h256_zero, wp_job = h256_zero, wp_epoch = -1,
     wp_startNonce = 0, wp_height = 0, wp_exSizeBits = -1, wp_job_len = 8\<rparr>"

text \<open>\<^verbatim>\<open>explicit operator bool() const\<close>.\<close>

definition has_work :: "WorkPackage \<Rightarrow> bool" where
  "has_work w \<longleftrightarrow> wp_header w \<noteq> h256_zero"

record Solution =
  sol_nonce :: u64
  sol_mixHash :: h256
  sol_work :: WorkPackage
  sol_stale :: bool

record Result =
  res_value :: h256
  res_mixHash :: h256

section \<open>The singleton\<close>

record LightAllocation =
  la_light :: ethash_light
  la_size :: nat

record ethash_aux =
  m_lights :: "int \<rightharpoonup> LightAllocation"
  m_cached_epoch :: nat
  m_cached_seed :: h256

definition aux_init :: ethash_aux where
  "aux_init = \<lparr>m_lights = Map.empty, m_cached_epoch = 0, m_cached_seed = h256_zero\<rparr>"

section \<open>Epoch of a seed hash\<close>

datatype aux_error = InvalidArgument | LightError ethash_error | DAGCreationFailure

function find_epoch :: "h256 \<Rightarrow> nat \<Rightarrow> h256 \<Rightarrow> nat" where
  "find_epoch seedHash epoch h =
     (if h \<noteq> seedHash \<and> epoch < 2048 then find_epoch seedHash (epoch + 1) (dev_sha3 h) else epoch)"
  by pat_completeness auto
termination by (relation "measure (\<lambda>(s, e, h). 2048 - e)") auto

declare find_epoch.simps [simp del]

definition toEpoch :: "h256 \<Rightarrow> ethash_aux \<Rightarrow> (aux_error + nat) \<times> ethash_aux" where
  "toEpoch seedHash aux =
     (if seedHash \<noteq> m_cached_seed aux then
        let epoch = find_epoch seedHash 0 h256_zero in
        if epoch = 2048 then (Inl InvalidArgument, aux)
        else (Inr epoch, aux\<lparr>m_cached_seed := seedHash, m_cached_epoch := epoch\<rparr>)
      else (Inr (m_cached_epoch aux), aux))"

section \<open>Light handlers\<close>

text \<open>\<^verbatim>\<open>int blockNumber = epoch * ETHASH_EPOCH_LENGTH\<close> multiplies modulo \<open>2^32\<close>, converts to a signed
  int and is sign-extended when it is passed on.\<close>

definition light_block_number :: "int \<Rightarrow> nat" where
  "light_block_number epoch = unat (scast (word_of_int (epoch * int ETHASH_EPOCH_LENGTH) :: u32) :: u64)"

definition LightAllocation_new :: "int \<Rightarrow> aux_error + LightAllocation" where
  "LightAllocation_new epoch =
     (let blockNumber = light_block_number epoch in
      case ethash_light_new True True blockNumber of
        Inl e \<Rightarrow> Inl (LightError e)
      | Inr light \<Rightarrow>
          (case ethash_get_cachesize blockNumber of
             Inl e \<Rightarrow> Inl (LightError e)
           | Inr sz \<Rightarrow> Inr \<lparr>la_light = light, la_size = sz\<rparr>))"

definition light :: "int \<Rightarrow> ethash_aux \<Rightarrow> (aux_error + LightAllocation) \<times> ethash_aux" where
  "light epoch aux =
     (case m_lights aux epoch of
        Some la \<Rightarrow> (Inr la, aux)
      | None \<Rightarrow>
          (case LightAllocation_new epoch of
             Inl e \<Rightarrow> (Inl e, aux)
           | Inr la \<Rightarrow> (Inr la, aux\<lparr>m_lights := (m_lights aux)(epoch \<mapsto> la)\<rparr>)))"

definition compute :: "LightAllocation \<Rightarrow> h256 \<Rightarrow> u64 \<Rightarrow> aux_error + Result" where
  "compute la headerHash nonce =
     (case ethash_light_compute (la_light la) headerHash nonce of
        Inl e \<Rightarrow> Inl (LightError e)
      | Inr r \<Rightarrow> if success r then Inr \<lparr>res_value = result r, res_mixHash = mix_hash r\<rparr> else Inl DAGCreationFailure)"

text \<open>\<open>eval\<close> turns every exception into the worst possible value; a failed assertion is no exception.\<close>

definition eval :: "int \<Rightarrow> h256 \<Rightarrow> u64 \<Rightarrow> ethash_aux \<Rightarrow> (ethash_error + Result) \<times> ethash_aux" where
  "eval epoch headerHash nonce aux =
     (let (l, aux') = light epoch aux in
      case bindE l (\<lambda>la. compute la headerHash nonce) of
        Inr r \<Rightarrow> (Inr r, aux')
      | Inl (LightError e) \<Rightarrow> (Inl e, aux')
      | Inl _ \<Rightarrow> (Inr \<lparr>res_value = replicate 32 0xff, res_mixHash = h256_zero\<rparr>, aux'))"

section \<open>Coherence of the caches\<close>

definition epoch_seed :: "nat \<Rightarrow> h256" where
  "epoch_seed e = (dev_sha3 ^^ e) h256_zero"

lemma epoch_seed_seedhash:
  "e < 2 ^ 32 \<Longrightarrow> ethash_get_seedhash (ETHASH_EPOCH_LENGTH * e) = Inr (epoch_seed e)"
proof -
  have "(\<lambda>ret. SHA3_256 ret ret) = dev_sha3" by (rule ext) (rule dev_sha3_eq [symmetric])
  then show "e < 2 ^ 32 \<Longrightarrow> ?thesis"
    by (simp add: ethash_get_seedhash_def ETHASH_EPOCH_LENGTH_def epoch_seed_def h256_zero_def)
qed

text \<open>The first epoch whose seed is the given one, if there is any below the limit.\<close>

definition first_epoch :: "h256 \<Rightarrow> nat \<Rightarrow> bool" where
  "first_epoch s e \<longleftrightarrow> epoch_seed e = s \<and> (\<forall>e' < e. epoch_seed e' \<noteq> s)"

lemma first_epoch_unique: "first_epoch s e \<Longrightarrow> first_epoch s e' \<Longrightarrow> e = e'"
  unfolding first_epoch_def by (metis linorder_neqE_nat)

lemma find_epoch_spec:
  assumes "\<forall>e' < e. epoch_seed e' \<noteq> s" "e \<le> 2048"
  shows "find_epoch s e (epoch_seed e) \<le> 2048 \<and>
    (\<forall>e' < find_epoch s e (epoch_seed e). epoch_seed e' \<noteq> s) \<and>
    (find_epoch s e (epoch_seed e) < 2048 \<longrightarrow> epoch_seed (find_epoch s e (epoch_seed e)) = s)"
  using assms
proof (induction "2048 - e" arbitrary: e rule: less_induct)
  case less
  show ?case
  proof (cases "epoch_seed e \<noteq> s \<and> e < 2048")
    case True
    then have "find_epoch s e (epoch_seed e) = find_epoch s (Suc e) (epoch_seed (Suc e))"
      by (subst find_epoch.simps) (simp add: epoch_seed_def)
    moreover have "\<forall>e' < Suc e. epoch_seed e' \<noteq> s" using True less.prems(1) by (auto simp: less_Suc_eq)
    ultimately show ?thesis using True less.hyps [of "Suc e"] by simp
  next
    case False
    then have "find_epoch s e (epoch_seed e) = e"
      by (subst find_epoch.simps) auto
    with False less.prems show ?thesis by auto
  qed
qed

lemma find_epoch_first:
  "find_epoch s 0 h256_zero < 2048 \<Longrightarrow> first_epoch s (find_epoch s 0 h256_zero)"
  "find_epoch s 0 h256_zero \<le> 2048"
  "find_epoch s 0 h256_zero = 2048 \<Longrightarrow> e < 2048 \<Longrightarrow> epoch_seed e \<noteq> s"
  using find_epoch_spec [of 0 s] by (auto simp: first_epoch_def epoch_seed_def)

definition aux_ok :: "ethash_aux \<Rightarrow> bool" where
  "aux_ok aux \<longleftrightarrow> first_epoch (m_cached_seed aux) (m_cached_epoch aux) \<and> m_cached_epoch aux < 2048 \<and>
     (\<forall>e la. m_lights aux e = Some la \<longrightarrow> LightAllocation_new e = Inr la)"

lemma aux_ok_init: "aux_ok aux_init"
  by (simp add: aux_ok_def aux_init_def first_epoch_def epoch_seed_def)

lemma aux_ok_toEpoch: "aux_ok aux \<Longrightarrow> aux_ok (snd (toEpoch s aux))"
  using find_epoch_first(1,2) [of s]
  by (auto simp: toEpoch_def Let_def aux_ok_def)

lemma aux_ok_light: "aux_ok aux \<Longrightarrow> aux_ok (snd (light e aux))"
  by (auto simp: light_def aux_ok_def split: option.splits sum.splits)

lemma light_fresh: "aux_ok aux \<Longrightarrow> fst (light e aux) = LightAllocation_new e"
  by (auto simp: light_def aux_ok_def split: option.splits sum.splits)

lemma aux_ok_eval: "aux_ok aux \<Longrightarrow> aux_ok (snd (eval e h n aux))"
  using aux_ok_light [of aux e]
  by (auto simp: eval_def Let_def split_def split: sum.splits aux_error.splits)

section \<open>Steps of the singleton\<close>

inductive aux_reachable :: "ethash_aux \<Rightarrow> bool" where
  start: "aux_reachable aux_init"
| seed: "aux_reachable aux \<Longrightarrow> aux_reachable (snd (toEpoch s aux))"
| light: "aux_reachable aux \<Longrightarrow> aux_reachable (snd (light e aux))"
| evaluate: "aux_reachable aux \<Longrightarrow> aux_reachable (snd (eval e h n aux))"

lemma aux_reachable_ok: "aux_reachable aux \<Longrightarrow> aux_ok aux"
  by (induction rule: aux_reachable.induct) (auto intro: aux_ok_init aux_ok_toEpoch aux_ok_light aux_ok_eval)

lemma light_block_number_small:
  assumes "e < 2048"
  shows "light_block_number (int e) = ETHASH_EPOCH_LENGTH * e"
proof -
  have e: "int e * 8000 < 2 ^ 31" using assms by simp
  have "sint (word_of_int x :: u32) = x" if "0 \<le> x" "x < 2 ^ 31" for x
    using that by (simp add: signed_of_int signed_take_bit_int_eq_self)
  from this [of "int e * 8000"] have "sint (word_of_int (int e * 8000) :: u32) = int e * 8000"
    using e by (simp del: of_int_mult)
  then have "(scast (word_of_int (int e * 8000) :: u32) :: u64) = word_of_int (int e * 8000)"
    by (simp add: scast_eq)
  moreover have "unat (word_of_int (int e * 8000) :: u64) = e * 8000"
  proof -
    have "unat (word_of_int (int (e * 8000)) :: u64) = e * 8000"
      using assms by (simp only: of_int_of_nat_eq unat_of_nat) simp
    then show ?thesis by (simp only: of_nat_mult of_nat_numeral)
  qed
  ultimately show ?thesis by (simp add: light_block_number_def ETHASH_EPOCH_LENGTH_def)
qed

text \<open>The handler of a tabulated epoch, whatever the state of the cache.\<close>

lemma light_tabulated:
  assumes "aux_ok aux" "e < 2048"
  obtains li where "ethash_light_new True True (ETHASH_EPOCH_LENGTH * e) = Inr li" "light_ok li"
    "block_number li = ETHASH_EPOCH_LENGTH * e" "num_parent_nodes li = cache_sizes ! e div 64"
    "fst (light (int e) aux) = Inr \<lparr>la_light = li, la_size = cache_sizes ! e\<rparr>"
proof -
  have ep: "ETHASH_EPOCH_LENGTH * e div ETHASH_EPOCH_LENGTH = e" by (simp add: ETHASH_EPOCH_LENGTH_def)
  obtain li where li: "ethash_light_new True True (ETHASH_EPOCH_LENGTH * e) = Inr li" "light_ok li"
      "block_number li = ETHASH_EPOCH_LENGTH * e" "num_parent_nodes li = cache_sizes ! e div 64"
    using light_new_ok [of "ETHASH_EPOCH_LENGTH * e"] assms(2) ep by auto
  moreover have "fst (light (int e) aux) = Inr \<lparr>la_light = li, la_size = cache_sizes ! e\<rparr>"
    using li(1) assms(2)
    by (simp add: light_fresh [OF assms(1)] LightAllocation_new_def Let_def light_block_number_small ethash_get_cachesize_def ep)
  ultimately show ?thesis by (rule that)
qed

lemma datasize_epoch: "e < 2048 \<Longrightarrow> ethash_get_datasize (ETHASH_EPOCH_LENGTH * e) = Inr (dag_sizes ! e)"
  by (simp add: ethash_get_datasize_def ETHASH_EPOCH_LENGTH_def)

lemma eval_total:
  assumes "aux_ok aux" "e < 2048"
  obtains r aux' where "eval (int e) h n aux = (Inr r, aux')"
proof -
  obtain li where li: "ethash_light_new True True (ETHASH_EPOCH_LENGTH * e) = Inr li"
      "fst (light (int e) aux) = Inr \<lparr>la_light = li, la_size = cache_sizes ! e\<rparr>"
    using light_tabulated [OF assms] .
  have ep: "ETHASH_EPOCH_LENGTH * e div ETHASH_EPOCH_LENGTH = e" by (simp add: ETHASH_EPOCH_LENGTH_def)
  obtain r where "ethash_light_compute li h n = Inr r" "success r"
    using light_new_compute [of "ETHASH_EPOCH_LENGTH * e" h n] assms(2) ep li(1) by auto
  then show ?thesis using that li(2) by (cases "light (int e) aux") (auto simp: eval_def compute_def)
qed

section \<open>Properties\<close>

text \<open>
  In every reachable state of the caches \<open>toEpoch\<close> finds the first epoch below 2048 whose seed
  is the given hash, and throws exactly when there is none; the one-entry cache never changes the
  answer.
\<close>

theorem toEpoch_correct:
  assumes "aux_reachable aux"
  shows "case fst (toEpoch s aux) of
      Inr e \<Rightarrow> e < 2048 \<and> first_epoch s e
    | Inl err \<Rightarrow> err = InvalidArgument \<and> (\<forall>e < 2048. epoch_seed e \<noteq> s)"
  using aux_reachable_ok [OF assms] find_epoch_first [of s]
  by (auto simp: toEpoch_def Let_def aux_ok_def)

theorem toEpoch_correct_witness:
  "fst (toEpoch h256_zero aux_init) = Inr 0 \<and> first_epoch h256_zero 0"
  using toEpoch_correct [OF aux_reachable.start, of h256_zero] by (simp add: toEpoch_def aux_init_def)

text \<open>
  C20: evaluation through the shared caches equals evaluation from scratch: in every reachable
  state, for each tabulated epoch, \<open>eval\<close> returns the light client's hash of header and nonce,
  never the all-ones value reserved for failures, and leaves the caches coherent.
\<close>

theorem eval_correct:
  assumes "aux_reachable aux" "e < 2048"
  shows "\<exists>la r. LightAllocation_new (int e) = Inr la \<and>
    ethash_light_compute (la_light la) h n = Inr r \<and>
    fst (eval (int e) h n aux) = Inr \<lparr>res_value = result r, res_mixHash = mix_hash r\<rparr> \<and>
    aux_ok (snd (eval (int e) h n aux))"
proof -
  note ok = aux_reachable_ok [OF assms(1)]
  have ep: "ETHASH_EPOCH_LENGTH * e div ETHASH_EPOCH_LENGTH = e" by (simp add: ETHASH_EPOCH_LENGTH_def)
  obtain li r where l: "ethash_light_new True True (ETHASH_EPOCH_LENGTH * e) = Inr li"
      "ethash_light_compute li h n = Inr r" "success r"
    using light_new_compute [of "ETHASH_EPOCH_LENGTH * e" h n] assms(2) ep by auto
  have la: "LightAllocation_new (int e) = Inr \<lparr>la_light = li, la_size = cache_sizes ! e\<rparr>"
    using l assms(2) by (simp add: LightAllocation_new_def Let_def light_block_number_small ethash_get_cachesize_def ep)
  then show ?thesis
    using l light_fresh [OF ok, of "int e"] aux_ok_eval [OF ok, of "int e" h n]
    by (simp add: eval_def split_def Let_def compute_def)
qed

theorem eval_correct_witness:
  "\<exists>la r. LightAllocation_new 323 = Inr la \<and> ethash_light_compute (la_light la) h256_zero 7 = Inr r \<and>
    fst (eval 323 h256_zero 7 aux_init) = Inr \<lparr>res_value = result r, res_mixHash = mix_hash r\<rparr>"
  using eval_correct [OF aux_reachable.start, of 323 h256_zero 7] by auto

end
