(* ===== verification/CudaMiner.thy ===== *)
theory CudaMiner
  imports Kernel EthashAux
begin

unbundle bit_operations_syntax

text \<open>
  The host side of the CUDA miner, \<^verbatim>\<open>libethash-cuda/CUDAMiner.cpp\<close>: the nonce bookkeeping and the
  multi-stream loop of \<open>search\<close>, and the \<open>workLoop\<close> that keeps the DAG and the compiled kernel in
  step with the work package.  The driver is a parameter: a launched kernel is remembered per
  stream with its start nonce, and its effect on the result buffer becomes visible when the stream
  is synchronised.
\<close>

section \<open>Nonces\<close>

text \<open>\<^verbatim>\<open>const uint32_t max_nonce = 0xEFFFFFFFF\<close> keeps only the low 32 bits of the literal.\<close>

definition max_nonce :: u32 where
  "max_nonce = ucast (0xEFFFFFFFF :: u64)"

text \<open>The next start nonce: a step of one batch, a reset past \<open>max_nonce\<close>, and the device number in bits
  36 to 39.\<close>

definition next_nonce :: "u32 \<Rightarrow> u32 \<Rightarrow> u64 \<Rightarrow> u64" where
  "next_nonce batch_size device_num nonce =
     (let n1 = nonce + ucast batch_size;
          n2 = (if ucast max_nonce < n1 AND 0x0000000FFFFFFFFF then 0 else n1);
          n3 = n2 AND 0xFFFFFF0FFFFFFFFF
      in n3 OR push_bit 36 (ucast (device_num AND 0x0F)))"

text \<open>The nonce a result buffer is attributed to: \<^verbatim>\<open>m_current_nonce - s_numStreams * batch_size\<close>, with
  a 32-bit product.\<close>

definition nonce_base :: "u32 \<Rightarrow> u32 \<Rightarrow> u64 \<Rightarrow> u64" where
  "nonce_base numStreams batch_size nonce = nonce - ucast (numStreams * batch_size)"

section \<open>The search loop\<close>

record cuda_config =
  s_gridSize :: u32
  s_blockSize :: u32
  s_numStreams :: u32
  s_noeval :: bool

definition batch_size_of :: "cuda_config \<Rightarrow> u32" where
  "batch_size_of cfg = s_gridSize cfg * s_blockSize cfg"

text \<open>\<open>cuda_configureGPU\<close> stores the settings first and then checks that every selected device (a list
  entry other than \<open>-1\<close>, clamped to the last device) has memory for the DAG; \<open>globalMem\<close> is the memory the
  driver reports for a device.  The result is \<open>False\<close> when one has not, and the settings stay changed.\<close>

definition device_suitable :: "(int \<Rightarrow> nat) \<Rightarrow> nat \<Rightarrow> nat \<Rightarrow> int \<Rightarrow> bool" where
  "device_suitable globalMem dagSize numDevices d \<longleftrightarrow>
     d = -1 \<or> dagSize \<le> globalMem (min (int numDevices - 1) d)"

definition cuda_configureGPU :: "(int \<Rightarrow> nat) \<Rightarrow> nat \<Rightarrow> int list \<Rightarrow> u32 \<Rightarrow> u32 \<Rightarrow> u32 \<Rightarrow> nat \<Rightarrow> bool \<Rightarrow>
    ethash_error + bool \<times> cuda_config" where
  "cuda_configureGPU globalMem numDevices devices blockSize gridSize numStreams currentBlock noeval =
     (let cfg = \<lparr>s_gridSize = gridSize, s_blockSize = blockSize, s_numStreams = numStreams, s_noeval = noeval\<rparr> in
      bindE (ethash_get_datasize currentBlock) (\<lambda>dagSize.
        Inr (list_all (device_suitable globalMem dagSize numDevices) (take numDevices devices), cfg)))"

text \<open>\<open>configureGPU\<close> rounds the block size up to a multiple of 8.\<close>

definition configureGPU :: "(int \<Rightarrow> nat) \<Rightarrow> nat \<Rightarrow> int list \<Rightarrow> u32 \<Rightarrow> u32 \<Rightarrow> u32 \<Rightarrow> nat \<Rightarrow> bool \<Rightarrow>
    ethash_error + bool \<times> cuda_config" where
  "configureGPU globalMem numDevices devices blockSize gridSize numStreams currentBlock noeval =
     cuda_configureGPU globalMem numDevices devices (((blockSize + 7) div 8) * 8) gridSize numStreams currentBlock noeval"

record cuda_state =
  m_current_header :: bytes
  m_current_target :: u64
  m_current_nonce :: u64
  m_starting_nonce :: u64
  m_current_index :: u64
  m_device_num :: u32
  m_search_buf :: "search_results list"
  m_inflight :: "(u64 \<times> bytes \<times> u64) option list"
  m_new_work :: bool
  m_hashCount :: u64

text \<open>What a launched kernel does to a result buffer, given start nonce, header and target.\<close>

type_synonym kernel_run = "u64 \<Rightarrow> bytes \<Rightarrow> u64 \<Rightarrow> search_results \<Rightarrow> search_results"

definition sync_stream :: "kernel_run \<Rightarrow> nat \<Rightarrow> cuda_state \<Rightarrow> cuda_state" where
  "sync_stream run i st =
     (case m_inflight st ! i of
        None \<Rightarrow> st
      | Some (n, h, t) \<Rightarrow> st\<lparr>m_inflight := (m_inflight st)[i := None],
                            m_search_buf := (m_search_buf st)[i := run n h t (m_search_buf st ! i)]\<rparr>)"

definition clear_count :: "nat \<Rightarrow> cuda_state \<Rightarrow> cuda_state" where
  "clear_count i st = st\<lparr>m_search_buf := (m_search_buf st)[i := (m_search_buf st ! i)\<lparr>sr_count := 0\<rparr>]\<rparr>"

text \<open>\<^verbatim>\<open>cudaDeviceSynchronize()\<close> and the reset of the counters of all streams.\<close>

definition sync_and_clear :: "kernel_run \<Rightarrow> cuda_config \<Rightarrow> cuda_state \<Rightarrow> cuda_state" where
  "sync_and_clear run cfg st =
     fold clear_count [0..<unat (s_numStreams cfg)] (fold (sync_stream run) [0..<unat (s_numStreams cfg)] st)"

text \<open>The part of \<open>search\<close> before the loop; \<open>get_start_nonce\<close> is the farm's scrambled start.\<close>

definition search_setup :: "kernel_run \<Rightarrow> cuda_config \<Rightarrow> u64 \<Rightarrow> bytes \<Rightarrow> u64 \<Rightarrow> bool \<Rightarrow> u64 \<Rightarrow> cuda_state \<Rightarrow> cuda_state" where
  "search_setup run cfg get_start_nonce header target ethStratum startN st =
     (let changed = m_current_header st \<noteq> header \<or> m_current_target st \<noteq> target;
          st1 = st\<lparr>m_current_header := header, m_current_target := target\<rparr> in
      if ethStratum then
        let st2 = (if changed then sync_and_clear run cfg (st1\<lparr>m_starting_nonce := 0, m_current_index := 0\<rparr>) else st1) in
        if m_starting_nonce st2 \<noteq> startN then st2\<lparr>m_starting_nonce := startN, m_current_nonce := startN\<rparr>
        else st2
      else if changed then sync_and_clear run cfg (st1\<lparr>m_current_nonce := get_start_nonce, m_current_index := 0\<rparr>)
      else st1)"

text \<open>Results collected from a buffer: at most \<open>SEARCH_RESULTS\<close>, attributed to the base nonce.\<close>

definition collect :: "u64 \<Rightarrow> search_results \<Rightarrow> (u64 \<times> u32 list) list" where
  "collect base buf =
     (let found_count = min (unat (sr_count buf)) SEARCH_RESULTS in
      map (\<lambda>j. (base + ucast (fst (sr_result buf ! j)), snd (sr_result buf ! j))) [0..<found_count])"

text \<open>One iteration of the loop up to the submission: the launch, and the results of the launch that
  used the same stream before.\<close>

definition search_iter :: "kernel_run \<Rightarrow> cuda_config \<Rightarrow> cuda_state \<Rightarrow> (u64 \<times> u32 list) list \<times> cuda_state" where
  "search_iter run cfg st =
     (let batch_size = batch_size_of cfg;
          st1 = st\<lparr>m_current_index := m_current_index st + 1,
                   m_current_nonce := next_nonce batch_size (m_device_num st) (m_current_nonce st)\<rparr>;
          i = unat (m_current_index st1 mod ucast (s_numStreams cfg));
          base = nonce_base (s_numStreams cfg) batch_size (m_current_nonce st1);
          ready = ucast (s_numStreams cfg) \<le> m_current_index st1;
          st2 = (if ready then sync_stream run i st1 else st1);
          found = (if ready then collect base (m_search_buf st2 ! i) else []);
          st3 = (if ready \<and> sr_count (m_search_buf st2 ! i) \<noteq> 0 then clear_count i st2 else st2);
          st4 = st3\<lparr>m_inflight := (m_inflight st3)[i := Some (m_current_nonce st3, m_current_header st3, m_current_target st3)]\<rparr>
      in (found, if ready then st4\<lparr>m_hashCount := m_hashCount st4 + ucast batch_size\<rparr> else st4))"

text \<open>What is submitted of a found nonce: with \<open>noeval\<close> the GPU's mix, otherwise the CPU's verdict.\<close>

datatype submission = SubmitProof Solution | FailedSolution

definition mix_h256 :: "u32 list \<Rightarrow> h256" where
  "mix_h256 mix = concat (map word_to_le mix)"

definition submit_found :: "cuda_config \<Rightarrow> (u64 \<Rightarrow> Result) \<Rightarrow> WorkPackage \<Rightarrow> bool \<Rightarrow> u64 \<times> u32 list \<Rightarrow> submission" where
  "submit_found cfg evaluate w new_work f =
     (if s_noeval cfg then
        SubmitProof \<lparr>sol_nonce = fst f, sol_mixHash = mix_h256 (snd f), sol_work = w, sol_stale = new_work\<rparr>
      else let r = evaluate (fst f) in
           if hash_less (res_value r) (wp_boundary w) then
             SubmitProof \<lparr>sol_nonce = fst f, sol_mixHash = res_mixHash r, sol_work = w, sol_stale = new_work\<rparr>
           else FailedSolution)"

text \<open>The end of an iteration: whether the loop is left, and the new-work flag afterwards.\<close>

definition search_exit :: "bool \<Rightarrow> bool \<Rightarrow> cuda_config \<Rightarrow> cuda_state \<Rightarrow> bool \<times> cuda_state" where
  "search_exit new_work shouldStop cfg st =
     (if ucast (s_numStreams cfg) \<le> m_current_index st then
        if new_work then (True, st\<lparr>m_new_work := False\<rparr>)
        else if shouldStop then (True, st\<lparr>m_new_work := False\<rparr>)
        else (False, st)
      else (False, st))"

text \<open>The loop itself; the environment gives, per iteration, whether new work arrived and whether the
  worker should stop.  The boolean result says whether the loop was left.\<close>

fun search_loop :: "kernel_run \<Rightarrow> cuda_config \<Rightarrow> (u64 \<Rightarrow> Result) \<Rightarrow> WorkPackage \<Rightarrow> (bool \<times> bool) list \<Rightarrow> cuda_state \<Rightarrow>
    bool \<times> submission list \<times> cuda_state" where
  "search_loop run cfg evaluate w [] st = (False, [], st)"
| "search_loop run cfg evaluate w ((new_work, stop) # env) st =
     (let (found, st1) = search_iter run cfg st;
          subs = map (submit_found cfg evaluate w new_work) found;
          (left, st2) = search_exit new_work stop cfg st1
      in if left then (True, subs, st2)
         else let (left', subs', st3) = search_loop run cfg evaluate w env st2 in (left', subs @ subs', st3))"

section \<open>Work loop\<close>

text \<open>What the miner has prepared on the device: epoch of the DAG, period and DAG elements of the
  compiled kernel.\<close>

record work_state =
  ws_current :: WorkPackage
  ws_old_period :: u64
  ws_dag_epoch :: "int option"
  ws_kernel :: "(u64 \<times> nat) option"

definition work_init :: work_state where
  "work_init = \<lparr>ws_current = WorkPackage_default\<lparr>wp_header := replicate 31 0 @ [1]\<rparr>, ws_old_period = -1,
     ws_dag_epoch = None, ws_kernel = None\<rparr>"

definition fork_height :: "WorkPackage \<Rightarrow> u64" where
  "fork_height w = wp_height w + 2584000"

definition dag_elms :: "nat \<Rightarrow> nat" where
  "dag_elms dagBytes = (dagBytes div (PROGPOW_LANES * PROGPOW_DAG_LOADS * 4)) mod 2 ^ 32"

datatype work_action = NoWork | InitFailed | Abort ethash_error | DoSearch work_state

text \<open>\<open>initialise epoch\<close> is the outcome of \<open>CUDAMiner::init\<close>: \<open>None\<close> when it caught an exception and returned
  false; otherwise it returned true, and the value is what \<open>cuda_init\<close> answered, which \<open>init\<close> does not look at.  Only
  where that is true has the DAG on the device been replaced.\<close>

definition workLoop_step :: "(int \<Rightarrow> bool option) \<Rightarrow> WorkPackage \<Rightarrow> work_state \<Rightarrow> work_action" where
  "workLoop_step initialise w ws =
     (let period_seed = fork_height w div of_nat PROGPOW_PERIOD in
      if wp_header (ws_current ws) \<noteq> wp_header w \<or> wp_epoch (ws_current ws) \<noteq> wp_epoch w \<or> ws_old_period ws \<noteq> period_seed then
        if \<not> has_work w \<or> wp_header w = h256_zero then NoWork
        else if wp_epoch (ws_current ws) \<noteq> wp_epoch w \<and> initialise (wp_epoch w) = None then InitFailed
        else
          let ws1 = (if wp_epoch (ws_current ws) \<noteq> wp_epoch w \<and> initialise (wp_epoch w) = Some True
                     then ws\<lparr>ws_dag_epoch := Some (wp_epoch w)\<rparr> else ws) in
          if ws_old_period ws \<noteq> period_seed then
            (case ethash_get_datasize (unat (fork_height w)) of
               Inl e \<Rightarrow> Abort e
             | Inr dagBytes \<Rightarrow> DoSearch (ws1\<lparr>ws_kernel := Some (prog_seed_of (fork_height w), dag_elms dagBytes),
                                         ws_old_period := period_seed, ws_current := w\<rparr>))
          else DoSearch (ws1\<lparr>ws_old_period := period_seed, ws_current := w\<rparr>)
      else DoSearch ws)"

text \<open>The start nonce handed to \<open>search\<close> in stratum mode: the miner's index is shifted above the free
  bits of the nonce.\<close>

definition LOG2_MAX_MINERS :: nat where "LOG2_MAX_MINERS = 5"

definition stratum_start :: "WorkPackage \<Rightarrow> u32 \<Rightarrow> u32" where
  "stratum_start w index =
     (if 0 \<le> wp_exSizeBits w then wp_startNonce w OR push_bit (nat (32 - int LOG2_MAX_MINERS - wp_exSizeBits w)) index
      else wp_startNonce w)"

text \<open>\<^verbatim>\<open>(uint64_t)(u64)((u256)current.boundary >> 192)\<close>: the first eight bytes, big-endian.\<close>

definition upper64OfBoundary :: "h256 \<Rightarrow> u64" where
  "upper64OfBoundary b = word_of_le (rev (take 8 b))"


section \<open>Nonce arithmetic\<close>

text \<open>The three fields of a start nonce: counter (36 bits), device (4 bits) and the rest.\<close>

definition nonce_low :: "u64 \<Rightarrow> nat" where "nonce_low n = unat n mod 2 ^ 36"
definition nonce_dev :: "u64 \<Rightarrow> nat" where "nonce_dev n = unat n div 2 ^ 36 mod 16"
definition nonce_high :: "u64 \<Rightarrow> nat" where "nonce_high n = unat n div 2 ^ 40"

lemmas nonce_fields = nonce_low_def nonce_dev_def nonce_high_def

lemma nonce_split: "unat n = nonce_high n * 2 ^ 40 + nonce_dev n * 2 ^ 36 + nonce_low n"
proof -
  define q where "q = unat n div 2 ^ 36"
  have "unat n = q * 2 ^ 36 + unat n mod 2 ^ 36" by (simp add: q_def)
  moreover have "q = q div 16 * 16 + q mod 16" by simp
  moreover have "q div 16 = unat n div 2 ^ 40" by (simp add: q_def flip: div_mult2_eq)
  ultimately show ?thesis unfolding nonce_fields q_def [symmetric] by simp
qed

lemma nonce_bounds: "nonce_low n < 2 ^ 36" "nonce_dev n < 16" "nonce_high n < 2 ^ 24"
proof -
  have "unat n < 2 ^ 64" using unsigned_less [of n] by simp
  then show "nonce_high n < 2 ^ 24" by (simp add: nonce_high_def)
qed (simp_all add: nonce_fields)

lemma nonce_fieldsI:
  assumes "unat n = a * 2 ^ 40 + d * 2 ^ 36 + l" "l < 2 ^ 36" "d < 16"
  shows "nonce_low n = l" "nonce_dev n = d" "nonce_high n = a"
proof -
  define q where "q = a * 16 + d"
  have u: "unat n = q * 2 ^ 36 + l" using assms(1) by (simp add: q_def)
  then have d: "unat n div 2 ^ 36 = q" using assms(2) by simp
  show "nonce_low n = l" using u assms(2) by (simp add: nonce_low_def)
  show "nonce_dev n = d" unfolding nonce_dev_def d using assms(3) by (simp add: q_def)
  have "unat n div 2 ^ 40 = unat n div 2 ^ 36 div 16" by (simp flip: div_mult2_eq)
  then show "nonce_high n = a" unfolding nonce_high_def d using assms(3) by (simp add: q_def)
qed

lemma nonce_eqI: "nonce_low m = nonce_low n \<Longrightarrow> nonce_dev m = nonce_dev n \<Longrightarrow> nonce_high m = nonce_high n \<Longrightarrow> m = n"
  by (metis nonce_split word_unat_eq_iff)

lemma max_nonce_eq: "max_nonce = 0xFFFFFFFF"
  by (simp add: max_nonce_def)

lemma unat_ucast_u64 [simp]: "unat (ucast (x :: u32) :: u64) = unat x"
proof -
  have "unat x < 2 ^ 32" using unsigned_less [of x] by simp
  then show ?thesis by (simp add: unsigned_ucast_eq take_bit_nat_eq_self)
qed

lemma unat_take_bit_mod: "unat (take_bit k w) = unat w mod 2 ^ k"
  by (simp only: unsigned_take_bit_eq) (simp only: take_bit_eq_mod)

lemma unat_drop_bit_div: "unat (drop_bit k w) = unat w div 2 ^ k"
  by (simp only: unat_drop_bit_eq) (simp only: drop_bit_eq_div)

lemma low_mask: "unat (n AND 0x0000000FFFFFFFFF :: u64) = nonce_low n"
proof -
  have "n AND 0x0000000FFFFFFFFF = take_bit 36 n"
    by (simp add: take_bit_eq_mask mask_eq_exp_minus_1)
  then show ?thesis by (simp only: nonce_low_def unat_take_bit_mod)
qed

lemma device_bits:
  fixes m :: u64 and dev :: u32
  defines "r \<equiv> (m AND 0xFFFFFF0FFFFFFFFF) OR push_bit 36 (ucast (dev AND 0x0F :: u32))"
  shows "nonce_low r = nonce_low m" "nonce_dev r = unat dev mod 16" "nonce_high r = nonce_high m"
proof -
  have c: "(0xFFFFFF0FFFFFFFFF :: u64) = NOT (push_bit 36 (mask 4))" "(0x0F :: u32) = mask 4"
    by (simp_all add: mask_eq_exp_minus_1 not_eq_complement)
  have bits: "bit r k \<longleftrightarrow> k < 64 \<and> (if 36 \<le> k \<and> k < 40 then bit dev (k - 36) else bit m k)" for k
    unfolding r_def c
    by (auto simp: bit_or_iff bit_and_iff bit_not_iff bit_push_bit_iff bit_mask_iff bit_ucast_iff dest: bit_imp_le_length)
  have "take_bit 36 r = take_bit 36 m"
    by (rule bit_word_eqI) (auto simp: bit_take_bit_iff bits)
  then show "nonce_low r = nonce_low m"
    by (metis nonce_low_def unat_take_bit_mod)
  have "drop_bit 40 r = drop_bit 40 m"
    by (rule bit_word_eqI) (auto simp: bit_drop_bit_eq bits dest: bit_imp_le_length)
  then show "nonce_high r = nonce_high m"
    by (metis nonce_high_def unat_drop_bit_div)
  have "take_bit 4 (drop_bit 36 r) = ucast (take_bit 4 dev)"
    by (rule bit_word_eqI) (auto simp: bit_drop_bit_eq bit_take_bit_iff bit_ucast_iff bits dest: bit_imp_le_length)
  moreover have "unat (ucast (take_bit 4 dev) :: u64) = unat (take_bit 4 dev)"
    by (rule unat_ucast_u64)
  ultimately have "unat r div 2 ^ 36 mod 2 ^ 4 = unat dev mod 2 ^ 4"
    by (metis unat_take_bit_mod unat_drop_bit_div)
  then show "nonce_dev r = unat dev mod 16"
    by (simp add: nonce_dev_def)
qed

text \<open>Every start nonce of a device carries its number and stays below the reset bound.\<close>

definition nonce_ok :: "u32 \<Rightarrow> u64 \<Rightarrow> bool" where
  "nonce_ok dev n \<longleftrightarrow> nonce_dev n = unat dev mod 16 \<and> nonce_low n \<le> 0xFFFFFFFF"

lemma max_nonce_less: "ucast max_nonce < m AND (0x0000000FFFFFFFFF :: u64) \<longleftrightarrow> 0xFFFFFFFF < nonce_low m"
  by (simp add: word_less_nat_alt low_mask max_nonce_eq)

lemma next_nonce_ok: "nonce_ok dev (next_nonce b dev n)"
proof -
  have z: "nonce_low 0 = 0" by (simp add: nonce_low_def)
  show ?thesis
    by (simp add: nonce_ok_def next_nonce_def Let_def device_bits max_nonce_less z)
qed

lemma next_nonce_step:
  assumes "nonce_ok dev n" "nonce_low n + unat b \<le> 0xFFFFFFFF"
  shows "next_nonce b dev n = n + ucast b" and "nonce_low (next_nonce b dev n) = nonce_low n + unat b"
proof -
  note split = nonce_split [of n] and bounds = nonce_bounds [of n]
  have "unat n + unat b < 2 ^ 64" using split bounds assms(2) by simp
  then have "unat (n + ucast b) = unat n + unat b" by (simp add: unat_word_ariths unsigned_ucast_eq take_bit_nat_eq_self)
  then have u: "unat (n + ucast b) = nonce_high n * 2 ^ 40 + nonce_dev n * 2 ^ 36 + (nonce_low n + unat b)"
    using split by linarith
  have f: "nonce_low (n + ucast b) = nonce_low n + unat b" "nonce_dev (n + ucast b) = nonce_dev n"
      "nonce_high (n + ucast b) = nonce_high n"
    using nonce_fieldsI [OF u] assms(2) bounds by auto
  have "next_nonce b dev n = ((n + ucast b) AND 0xFFFFFF0FFFFFFFFF) OR push_bit 36 (ucast (dev AND 0x0F))"
    using assms(2) by (simp add: next_nonce_def Let_def max_nonce_less f)
  then show *: "next_nonce b dev n = n + ucast b"
    using assms(1) by (intro nonce_eqI) (simp_all add: device_bits nonce_ok_def f)
  show "nonce_low (next_nonce b dev n) = nonce_low n + unat b" unfolding * by (rule f)
qed

lemma next_nonce_steps:
  assumes "nonce_ok dev n" "nonce_low n + k * unat b \<le> 0xFFFFFFFF"
  shows "(next_nonce b dev ^^ k) n = n + of_nat k * ucast b \<and> nonce_low ((next_nonce b dev ^^ k) n) = nonce_low n + k * unat b \<and>
    nonce_ok dev ((next_nonce b dev ^^ k) n)"
  using assms
proof (induction k)
  case (Suc k)
  then have IH: "(next_nonce b dev ^^ k) n = n + of_nat k * ucast b"
      "nonce_low ((next_nonce b dev ^^ k) n) = nonce_low n + k * unat b" "nonce_ok dev ((next_nonce b dev ^^ k) n)" by auto
  have "nonce_low ((next_nonce b dev ^^ k) n) + unat b \<le> 0xFFFFFFFF"
    using IH(2) Suc.prems(2) by (simp add: algebra_simps)
  note step = next_nonce_step [OF IH(3) this]
  show ?case using step IH next_nonce_ok [of dev b "(next_nonce b dev ^^ k) n"] by (simp add: algebra_simps)
qed simp


lemma mask40:
  "unat (0x000000FFFFFFFFFF AND n :: u64) = nonce_dev n * 2 ^ 36 + nonce_low n"
proof -
  define r where "r = nonce_dev n * 2 ^ 36 + nonce_low n"
  have r: "unat n = nonce_high n * 2 ^ 40 + r" "r < 2 ^ 40"
    using nonce_split [of n] nonce_bounds [of n] by (simp_all add: r_def)
  have "(0x000000FFFFFFFFFF AND n) = take_bit 40 n"
    by (simp add: take_bit_eq_mask mask_eq_exp_minus_1 and.commute)
  then have "unat (0x000000FFFFFFFFFF AND n) = unat n mod 2 ^ 40" by (simp only: unat_take_bit_mod)
  then show ?thesis unfolding r_def [symmetric] using r by simp
qed

lemma mask40_fields:
  "nonce_low (0x000000FFFFFFFFFF AND n) = nonce_low n" "nonce_dev (0x000000FFFFFFFFFF AND n) = nonce_dev n"
  "nonce_high (0x000000FFFFFFFFFF AND n) = 0"
  using nonce_fieldsI [of "0x000000FFFFFFFFFF AND n" 0 "nonce_dev n" "nonce_low n"] mask40 [of n] nonce_bounds [of n] by simp_all

lemma thread_nonce_cuda:
  assumes "nonce_ok dev n"
  shows "nonce_low (thread_nonce KERNEL_CUDA n g) = nonce_low n + unat g"
    and "nonce_dev (thread_nonce KERNEL_CUDA n g) = nonce_dev n"
    and "nonce_high (thread_nonce KERNEL_CUDA n g) = 0"
proof -
  have g: "unat g < 2 ^ 32" using unsigned_less [of g] by simp
  have low: "nonce_low n + unat g < 2 ^ 36" using assms g by (simp add: nonce_ok_def)
  have "unat (thread_nonce KERNEL_CUDA n g) = 0 * 2 ^ 40 + nonce_dev n * 2 ^ 36 + (nonce_low n + unat g)"
    using mask40 [of n] low nonce_bounds [of n] by (simp add: thread_nonce_def unat_word_ariths)
  from nonce_fieldsI [OF this low] nonce_bounds [of n]
  show "nonce_low (thread_nonce KERNEL_CUDA n g) = nonce_low n + unat g"
    "nonce_dev (thread_nonce KERNEL_CUDA n g) = nonce_dev n" "nonce_high (thread_nonce KERNEL_CUDA n g) = 0" by simp_all
qed

lemma reported_nonce:
  assumes "nonce_ok dev n"
  shows "nonce_low (n + ucast (g :: u32)) = nonce_low n + unat g" "nonce_dev (n + ucast g) = nonce_dev n"
    "nonce_high (n + ucast g) = nonce_high n"
proof -
  have g: "unat g < 2 ^ 32" using unsigned_less [of g] by simp
  have low: "nonce_low n + unat g < 2 ^ 36" using assms g by (simp add: nonce_ok_def)
  have "unat n + unat g < 2 ^ 64" using nonce_split [of n] nonce_bounds [of n] low by simp
  then have "unat (n + ucast g) = nonce_high n * 2 ^ 40 + nonce_dev n * 2 ^ 36 + (nonce_low n + unat g)"
    using nonce_split [of n] by (simp add: unat_word_ariths)
  from nonce_fieldsI [OF this low] nonce_bounds [of n]
  show "nonce_low (n + ucast g) = nonce_low n + unat g" "nonce_dev (n + ucast g) = nonce_dev n"
    "nonce_high (n + ucast g) = nonce_high n" by simp_all
qed

lemma reported_is_hashed:
  assumes "nonce_ok dev n"
  shows "(n + ucast gid) AND 0xFFFFFFFFFF = thread_nonce KERNEL_CUDA n gid"
  using thread_nonce_cuda [OF assms, of gid] reported_nonce [OF assms, of gid] mask40_fields [of "n + ucast gid"]
  by (intro nonce_eqI) (simp_all add: and.commute)

section \<open>Streams\<close>

text \<open>Which launch is in flight on which stream: going \<open>d\<close> launches back from the last one finds the start
  nonce from which \<open>d\<close> steps lead to the current nonce.\<close>

definition streams_ok :: "cuda_config \<Rightarrow> cuda_state \<Rightarrow> bool" where
  "streams_ok cfg st \<longleftrightarrow>
     (let s = unat (s_numStreams cfg); idx = unat (m_current_index st) in
      0 < s \<and> length (m_inflight st) = s \<and> length (m_search_buf st) = s \<and>
      (\<forall>d < s. d < idx \<longrightarrow> (\<exists>n. m_inflight st ! ((idx - d) mod s) = Some (n, m_current_header st, m_current_target st) \<and>
          nonce_ok (m_device_num st) n \<and>
          (next_nonce (batch_size_of cfg) (m_device_num st) ^^ d) n = m_current_nonce st)))"

lemma sync_stream_simps [simp]:
  "m_current_index (sync_stream run i st) = m_current_index st"
  "m_current_nonce (sync_stream run i st) = m_current_nonce st"
  "m_current_header (sync_stream run i st) = m_current_header st"
  "m_current_target (sync_stream run i st) = m_current_target st"
  "m_device_num (sync_stream run i st) = m_device_num st"
  "length (m_inflight (sync_stream run i st)) = length (m_inflight st)"
  "length (m_search_buf (sync_stream run i st)) = length (m_search_buf st)"
  "j \<noteq> i \<Longrightarrow> m_inflight (sync_stream run i st) ! j = m_inflight st ! j"
  by (auto simp: sync_stream_def split: option.splits)

lemma clear_count_simps [simp]:
  "m_current_index (clear_count i st) = m_current_index st"
  "m_current_nonce (clear_count i st) = m_current_nonce st"
  "m_current_header (clear_count i st) = m_current_header st"
  "m_current_target (clear_count i st) = m_current_target st"
  "m_device_num (clear_count i st) = m_device_num st"
  "m_inflight (clear_count i st) = m_inflight st"
  "length (m_search_buf (clear_count i st)) = length (m_search_buf st)"
  by (auto simp: clear_count_def)

lemma search_iter_simps:
  fixes run :: kernel_run and cfg :: cuda_config and st :: cuda_state
  defines "st' \<equiv> snd (search_iter run cfg st)"
  defines "i \<equiv> unat ((m_current_index st + 1) mod ucast (s_numStreams cfg))"
  defines "nn \<equiv> next_nonce (batch_size_of cfg) (m_device_num st) (m_current_nonce st)"
  shows "m_current_index st' = m_current_index st + 1" "m_current_nonce st' = nn"
    "m_current_header st' = m_current_header st" "m_current_target st' = m_current_target st"
    "m_device_num st' = m_device_num st" "length (m_inflight st') = length (m_inflight st)"
    "length (m_search_buf st') = length (m_search_buf st)"
    "j \<noteq> i \<Longrightarrow> m_inflight st' ! j = m_inflight st ! j"
    "i < length (m_inflight st) \<Longrightarrow> m_inflight st' ! i = Some (nn, m_current_header st, m_current_target st)"
  by (auto simp: st'_def i_def nn_def search_iter_def Let_def)

lemma mod_back_neq:
  fixes s d k :: nat
  assumes "0 < d" "d < s" "d \<le> k"
  shows "(k - d) mod s \<noteq> k mod s"
proof
  assume "(k - d) mod s = k mod s"
  then have "s dvd k - (k - d)" by (metis diff_le_self mod_eq_dvd_iff_nat)
  then show False using assms by (auto dest: dvd_imp_le)
qed

lemma streams_ok_iter:
  assumes "streams_ok cfg st" "unat (m_current_index st) + 1 < 2 ^ 64"
  shows "streams_ok cfg (snd (search_iter run cfg st))"
proof -
  let ?s = "unat (s_numStreams cfg)" and ?k = "unat (m_current_index st)" and ?st = "snd (search_iter run cfg st)"
  let ?next = "next_nonce (batch_size_of cfg) (m_device_num st)"
  note simps = search_iter_simps [where run = run and cfg = cfg and st = st]
  have s: "0 < ?s" "length (m_inflight st) = ?s" "length (m_search_buf st) = ?s"
    and old: "\<And>d. d < ?s \<Longrightarrow> d < ?k \<Longrightarrow> \<exists>n. m_inflight st ! ((?k - d) mod ?s) = Some (n, m_current_header st, m_current_target st) \<and>
      nonce_ok (m_device_num st) n \<and> (?next ^^ d) n = m_current_nonce st"
    using assms(1) by (auto simp: streams_ok_def Let_def)
  have k: "unat (m_current_index st + 1) = Suc ?k" using assms(2) by (simp add: unat_word_ariths)
  have i: "unat ((m_current_index st + 1) mod ucast (s_numStreams cfg)) = Suc ?k mod ?s" by (simp add: unat_mod k)
  have "\<exists>n. m_inflight ?st ! ((Suc ?k - d) mod ?s) = Some (n, m_current_header st, m_current_target st) \<and>
      nonce_ok (m_device_num st) n \<and> (?next ^^ d) n = ?next (m_current_nonce st)" if d: "d < ?s" "d < Suc ?k" for d
  proof (cases d)
    case 0
    then show ?thesis using simps(9) s next_nonce_ok by (simp add: i)
  next
    case (Suc e)
    then have "(Suc ?k - d) mod ?s \<noteq> Suc ?k mod ?s" using d by (intro mod_back_neq) auto
    then have "m_inflight ?st ! ((Suc ?k - d) mod ?s) = m_inflight st ! ((?k - e) mod ?s)"
      using simps(8) Suc by (simp add: i)
    with old [of e] d Suc show ?thesis by auto
  qed
  then show ?thesis using s simps by (simp add: streams_ok_def Let_def k)
qed

lemma search_iter_found:
  fixes run :: kernel_run and cfg :: cuda_config and st :: cuda_state
  assumes "streams_ok cfg st" "unat (m_current_index st) + 1 < 2 ^ 64" "unat (s_numStreams cfg) \<le> unat (m_current_index st)"
  defines "i \<equiv> Suc (unat (m_current_index st)) mod unat (s_numStreams cfg)"
  obtains n where "m_inflight st ! i = Some (n, m_current_header st, m_current_target st)" "nonce_ok (m_device_num st) n"
    "(next_nonce (batch_size_of cfg) (m_device_num st) ^^ unat (s_numStreams cfg)) n =
       next_nonce (batch_size_of cfg) (m_device_num st) (m_current_nonce st)"
    "fst (search_iter run cfg st) =
       collect (nonce_base (s_numStreams cfg) (batch_size_of cfg)
          (next_nonce (batch_size_of cfg) (m_device_num st) (m_current_nonce st)))
         (run n (m_current_header st) (m_current_target st) (m_search_buf st ! i))"
proof -
  let ?s = "unat (s_numStreams cfg)" and ?k = "unat (m_current_index st)"
  let ?next = "next_nonce (batch_size_of cfg) (m_device_num st)"
  have s: "0 < ?s" "length (m_inflight st) = ?s" "length (m_search_buf st) = ?s" using assms(1) by (auto simp: streams_ok_def Let_def)
  have lt: "?s - 1 < ?s" "?s - 1 < ?k" using s(1) assms(3) by simp_all
  have bk: "(?k - (?s - 1)) mod ?s = i"
  proof -
    have "?k - (?s - 1) + ?s = Suc ?k" using s(1) assms(3) by simp
    then show ?thesis unfolding i_def by (metis mod_add_self2)
  qed
  have old: "\<And>d. d < ?s \<Longrightarrow> d < ?k \<Longrightarrow> \<exists>n. m_inflight st ! ((?k - d) mod ?s) = Some (n, m_current_header st, m_current_target st) \<and>
      nonce_ok (m_device_num st) n \<and> (?next ^^ d) n = m_current_nonce st"
    using assms(1) by (simp only: streams_ok_def Let_def)
  from old [OF lt] obtain n where n: "m_inflight st ! i = Some (n, m_current_header st, m_current_target st)"
      "nonce_ok (m_device_num st) n" "(?next ^^ (?s - 1)) n = m_current_nonce st"
    unfolding bk by blast
  have steps: "(?next ^^ ?s) n = ?next (m_current_nonce st)"
    using n(3) s(1) by (cases ?s) simp_all
  have k: "unat (m_current_index st + 1) = Suc ?k" using assms(2) by (simp add: unat_word_ariths)
  have iw: "unat ((m_current_index st + 1) mod ucast (s_numStreams cfg)) = i" by (simp add: unat_mod k i_def)
  have ready: "ucast (s_numStreams cfg) \<le> m_current_index st + 1" using assms(3) by (simp add: word_le_nat_alt k)
  have "fst (search_iter run cfg st) = collect (nonce_base (s_numStreams cfg) (batch_size_of cfg) (?next (m_current_nonce st)))
      (run n (m_current_header st) (m_current_target st) (m_search_buf st ! i))"
    using s n(1) ready by (simp add: search_iter_def Let_def iw sync_stream_def i_def)
  with n(1,2) steps that show thesis by blast
qed


section \<open>Work loop invariant\<close>

text \<open>\<open>I\<close> holds the ways in which an initialisation may turn out, one of them at each step.\<close>

inductive work_reachable :: "(int \<Rightarrow> bool option) set \<Rightarrow> work_state \<Rightarrow> bool" for I where
  start: "work_reachable I work_init"
| step: "work_reachable I ws \<Longrightarrow> initialise \<in> I \<Longrightarrow> workLoop_step initialise w ws = DoSearch ws' \<Longrightarrow> work_reachable I ws'"

text \<open>The compiled kernel belongs to the recorded period; with no load skipped, the DAG belongs to the epoch of
  the current work.\<close>

definition kernel_ok :: "work_state \<Rightarrow> bool" where
  "kernel_ok ws \<longleftrightarrow>
     ws_old_period ws = -1 \<or>
      (\<exists>h bytes. ws_old_period ws = h div of_nat PROGPOW_PERIOD \<and> ethash_get_datasize (unat h) = Inr bytes \<and>
         ws_kernel ws = Some (ws_old_period ws, dag_elms bytes))"

definition dag_ok :: "work_state \<Rightarrow> bool" where
  "dag_ok ws \<longleftrightarrow> (wp_epoch (ws_current ws) \<noteq> -1 \<longrightarrow> ws_dag_epoch ws = Some (wp_epoch (ws_current ws)))"

definition loads_kept :: "(int \<Rightarrow> bool option) set \<Rightarrow> bool" where
  "loads_kept I \<longleftrightarrow> (\<forall>initialise \<in> I. \<forall>e. initialise e \<noteq> Some False)"

lemma period_not_minus_one: "h div (of_nat PROGPOW_PERIOD :: u64) \<noteq> -1"
proof
  assume "h div (of_nat PROGPOW_PERIOD :: u64) = -1"
  then have "unat (h div 10 :: u64) = unat (-1 :: u64)" by (simp add: PROGPOW_PERIOD_def)
  moreover have "unat h < 2 ^ 64" using unsigned_less [of h] by simp
  ultimately show False by (simp add: unat_div unsigned_minus_1_eq_mask mask_eq_exp_minus_1)
qed

lemma same_period_same_size:
  assumes "(h :: u64) div of_nat PROGPOW_PERIOD = h' div of_nat PROGPOW_PERIOD"
  shows "ethash_get_datasize (unat h) = ethash_get_datasize (unat h')"
proof -
  have "unat h div 10 = unat h' div 10"
    using arg_cong [OF assms, of unat] by (simp add: PROGPOW_PERIOD_def unat_div)
  then have "unat h div 10 div 800 = unat h' div 10 div 800" by simp
  then have "unat h div 8000 = unat h' div 8000" by (simp flip: div_mult2_eq)
  then show ?thesis by (simp add: ethash_get_datasize_def ETHASH_EPOCH_LENGTH_def)
qed

lemma workLoop_step_kernel:
  assumes "kernel_ok ws" "workLoop_step initialise w ws = DoSearch ws'"
  shows "kernel_ok ws' \<and> (\<exists>bytes. ethash_get_datasize (unat (fork_height w)) = Inr bytes \<and>
      ws_kernel ws' = Some (prog_seed_of (fork_height w), dag_elms bytes))"
proof -
  let ?p = "fork_height w div of_nat PROGPOW_PERIOD"
  show ?thesis
  proof (cases "ws_old_period ws = ?p")
    case True
    obtain h bytes where k: "?p = h div of_nat PROGPOW_PERIOD" "ethash_get_datasize (unat h) = Inr bytes"
        "ws_kernel ws = Some (?p, dag_elms bytes)"
      using assms(1) period_not_minus_one [of "fork_height w"] unfolding kernel_ok_def True by blast
    have sz: "ethash_get_datasize (unat (fork_height w)) = Inr bytes"
      using same_period_same_size [OF k(1)] k(2) by simp
    have "ws_kernel ws' = ws_kernel ws \<and> ws_old_period ws' = ?p"
      using assms True by (auto simp: workLoop_step_def Let_def split: if_splits)
    then show ?thesis using k sz by (auto simp: kernel_ok_def prog_seed_of_def)
  next
    case False
    then show ?thesis
      using assms by (auto simp: workLoop_step_def Let_def kernel_ok_def prog_seed_of_def split: if_splits sum.splits)
  qed
qed

text \<open>What a step that goes on to search does to the DAG on the device.\<close>

lemma workLoop_step_dag:
  assumes "workLoop_step initialise w ws = DoSearch ws'"
  shows "wp_epoch (ws_current ws') = wp_epoch w"
    and "wp_epoch (ws_current ws) = wp_epoch w \<Longrightarrow> ws_dag_epoch ws' = ws_dag_epoch ws"
    and "wp_epoch (ws_current ws) \<noteq> wp_epoch w \<Longrightarrow>
      (initialise (wp_epoch w) = Some True \<and> ws_dag_epoch ws' = Some (wp_epoch w)) \<or>
      (initialise (wp_epoch w) = Some False \<and> ws_dag_epoch ws' = ws_dag_epoch ws)"
  using assms by (auto simp: workLoop_step_def Let_def split: if_splits sum.splits)

lemma work_reachable_ok:
  "work_reachable I ws \<Longrightarrow> kernel_ok ws \<and> (loads_kept I \<longrightarrow> dag_ok ws)"
proof (induction rule: work_reachable.induct)
  case start
  show ?case by (simp add: kernel_ok_def dag_ok_def work_init_def WorkPackage_default_def)
next
  case (step ws initialise w ws')
  have "dag_ok ws'" if "loads_kept I"
    using step that workLoop_step_dag [OF step.hyps(3)]
    by (cases "wp_epoch (ws_current ws) = wp_epoch w") (auto simp: dag_ok_def loads_kept_def)
  with step show ?case using workLoop_step_kernel by blast
qed


lemma mod_complement:
  fixes x k m :: nat
  assumes "(x + k) mod m = 0" "0 < k" "k < m"
  shows "x mod m = m - k"
proof -
  have "(x mod m + k) mod m = 0" using assms(1) by (simp add: mod_simps)
  then obtain t where t: "x mod m + k = m * t" by auto
  have "x mod m < m" using assms by simp
  then have "m * t < m * 2" "0 < m * t" using t assms by linarith+
  then have "t = 1" by auto
  with t show ?thesis by simp
qed

section \<open>Properties\<close>

text \<open>
  C15: two devices whose numbers differ modulo 16 never hash the same nonce: whatever the counters
  were before, every thread nonce of a batch launched by one device differs from every thread nonce of
  a batch launched by the other.
\<close>

theorem device_ranges_disjoint:
  assumes "unat d1 mod 16 \<noteq> unat d2 mod 16"
  shows "thread_nonce KERNEL_CUDA (next_nonce b1 d1 m1) g1 \<noteq> thread_nonce KERNEL_CUDA (next_nonce b2 d2 m2) g2"
proof
  assume eq: "thread_nonce KERNEL_CUDA (next_nonce b1 d1 m1) g1 = thread_nonce KERNEL_CUDA (next_nonce b2 d2 m2) g2"
  have "nonce_dev (next_nonce b d m) = unat d mod 16" for b d m
    using next_nonce_ok [of d b m] by (simp add: nonce_ok_def)
  with eq assms show False
    using thread_nonce_cuda(2) [OF next_nonce_ok, of b1 d1 m1 g1] thread_nonce_cuda(2) [OF next_nonce_ok, of b2 d2 m2 g2]
    by simp
qed

theorem device_ranges_disjoint_witness:
  "thread_nonce KERNEL_CUDA (next_nonce 524288 0 7) 5 \<noteq> thread_nonce KERNEL_CUDA (next_nonce 524288 1 7) 5"
  by (rule device_ranges_disjoint) simp

text \<open>
  C16: results are attributed to the launch they came from: with any number of streams, when the
  counter has not been reset since the launch in flight on the stream, the collected nonces are that
  launch's start nonce plus the thread ids, their low 40 bits are the nonces the threads hashed, and
  the loop keeps the stream bookkeeping intact.
\<close>

theorem results_attributed:
  assumes "streams_ok cfg st" "unat (m_current_index st) + 1 < 2 ^ 64" "unat (s_numStreams cfg) \<le> unat (m_current_index st)"
    and "\<forall>n h t. m_inflight st ! (Suc (unat (m_current_index st)) mod unat (s_numStreams cfg)) = Some (n, h, t) \<longrightarrow>
      nonce_low n + unat (s_numStreams cfg) * unat (batch_size_of cfg) \<le> 0xFFFFFFFF"
  shows "streams_ok cfg (snd (search_iter run cfg st)) \<and>
    (\<exists>n. m_inflight st ! (Suc (unat (m_current_index st)) mod unat (s_numStreams cfg)) =
        Some (n, m_current_header st, m_current_target st) \<and>
      fst (search_iter run cfg st) = collect n (run n (m_current_header st) (m_current_target st)
        (m_search_buf st ! (Suc (unat (m_current_index st)) mod unat (s_numStreams cfg)))) \<and>
      (\<forall>gid. (n + ucast gid) AND 0xFFFFFFFFFF = thread_nonce KERNEL_CUDA n gid))"
proof -
  let ?s = "unat (s_numStreams cfg)" and ?b = "batch_size_of cfg"
  obtain n where n: "m_inflight st ! (Suc (unat (m_current_index st)) mod ?s) = Some (n, m_current_header st, m_current_target st)"
      "nonce_ok (m_device_num st) n"
      "(next_nonce ?b (m_device_num st) ^^ ?s) n = next_nonce ?b (m_device_num st) (m_current_nonce st)"
      "fst (search_iter run cfg st) = collect (nonce_base (s_numStreams cfg) ?b (next_nonce ?b (m_device_num st) (m_current_nonce st)))
         (run n (m_current_header st) (m_current_target st) (m_search_buf st ! (Suc (unat (m_current_index st)) mod ?s)))"
    using search_iter_found [OF assms(1-3)] by blast
  have room: "nonce_low n + ?s * unat ?b \<le> 0xFFFFFFFF" using assms(4) n(1) by blast
  then have "?s * unat ?b < 2 ^ 32" by simp
  then have "unat (s_numStreams cfg * ?b) = ?s * unat ?b" by (simp add: unat_word_ariths)
  then have "(ucast (s_numStreams cfg * ?b) :: u64) = of_nat ?s * ucast ?b"
    using \<open>?s * unat ?b < 2 ^ 32\<close> by (simp add: word_unat_eq_iff unat_word_ariths unat_of_nat mod_mult_left_eq)
  then have "nonce_base (s_numStreams cfg) ?b (next_nonce ?b (m_device_num st) (m_current_nonce st)) = n"
    using next_nonce_steps [OF n(2) room] n(3) by (simp add: nonce_base_def)
  moreover have "(n + ucast gid) AND 0xFFFFFFFFFF = thread_nonce KERNEL_CUDA n gid" for gid
    by (rule reported_is_hashed [OF n(2)])
  ultimately show ?thesis
    using n(1,4) streams_ok_iter [OF assms(1,2)] by auto
qed


text \<open>A state with two streams, two batches in flight.\<close>

definition demo_cfg :: cuda_config where
  "demo_cfg = \<lparr>s_gridSize = 1024, s_blockSize = 512, s_numStreams = 2, s_noeval = True\<rparr>"

definition demo_state :: cuda_state where
  "demo_state = \<lparr>m_current_header = [], m_current_target = 9, m_current_nonce = 2 * 524288, m_starting_nonce = 0,
     m_current_index = 2, m_device_num = 0, m_search_buf = replicate 2 \<lparr>sr_count = 0, sr_result = replicate 4 (0, [])\<rparr>,
     m_inflight = [Some (2 * 524288, [], 9), Some (524288, [], 9)], m_new_work = False, m_hashCount = 0\<rparr>"

lemma demo_streams: "streams_ok demo_cfg demo_state" "batch_size_of demo_cfg = 524288"
proof -
  show b: "batch_size_of demo_cfg = 524288" by (simp add: demo_cfg_def batch_size_of_def)
  have ok: "nonce_ok 0 524288" "nonce_ok 0 1048576" by (simp_all add: nonce_ok_def nonce_fields)
  have st: "next_nonce 524288 0 524288 = 1048576"
    using next_nonce_step(1) [OF ok(1), of 524288] by (simp add: nonce_fields)
  have s: "unat (s_numStreams demo_cfg) = 2" by (simp add: demo_cfg_def)
  show "streams_ok demo_cfg demo_state"
  proof -
    have "\<exists>n. m_inflight demo_state ! ((2 - d) mod 2) = Some (n, [], 9) \<and> nonce_ok 0 n \<and>
        (next_nonce 524288 0 ^^ d) n = 1048576" if "d < 2" for d
    proof (cases d)
      case (Suc e)
      with that have "d = Suc 0" by simp
      then show ?thesis using ok st by (simp add: demo_state_def)
    qed (simp add: demo_state_def ok)
    then show ?thesis by (simp add: streams_ok_def Let_def s b) (simp add: demo_state_def)
  qed
qed

theorem results_attributed_witness:
  "\<exists>n. m_inflight demo_state ! (Suc (unat (m_current_index demo_state)) mod unat (s_numStreams demo_cfg)) =
     Some (n, m_current_header demo_state, m_current_target demo_state)"
proof -
  have s: "unat (s_numStreams demo_cfg) = 2" by (simp add: demo_cfg_def)
  show ?thesis
    using results_attributed [OF demo_streams(1)]
    by (auto simp: s demo_streams(2)) (auto simp: demo_state_def nonce_fields)
qed

text \<open>
  In the iteration in which the counter passes \<open>max_nonce\<close> and is reset, the base nonce that the
  collected results are attributed to is one that no launch ever used, so the results of the
  launches in flight are submitted with wrong nonces.
\<close>

theorem reset_misattributes:
  assumes "0xFFFFFFFF < nonce_low (nonce + ucast batch)"
    and "0 < unat numStreams * unat batch" "unat numStreams * unat batch < 2 ^ 32"
  shows "\<not> nonce_ok dev (nonce_base numStreams batch (next_nonce batch dev nonce))"
proof -
  define k where "k = unat numStreams * unat batch"
  have k: "unat (ucast (numStreams * batch) :: u64) = k" "0 < k" "k < 2 ^ 32"
    using assms(2,3) by (simp_all add: unat_word_ariths k_def)
  let ?n = "next_nonce batch dev nonce"
  have "?n = (0 AND 0xFFFFFF0FFFFFFFFF) OR push_bit 36 (ucast (dev AND 0x0F))"
    using assms(1) by (simp add: next_nonce_def Let_def max_nonce_less)
  then have n: "nonce_low ?n = 0" using device_bits(1) [of 0 dev] by (simp add: nonce_low_def)
  have "unat (?n - ucast (numStreams * batch)) mod 2 ^ 36 = (2 ^ 36 - k)"
  proof -
    have "unat (?n - ucast (numStreams * batch)) + k = unat ?n + (if unat ?n < k then 2 ^ 64 else 0)"
      using k(1) unat_sub_if' [of ?n "ucast (numStreams * batch)"] k(3) by (auto simp: not_less)
    then have "(unat (?n - ucast (numStreams * batch)) + k) mod 2 ^ 36 = 0"
      using n by (auto simp: nonce_low_def mod_add_eq split: if_splits)
    then show ?thesis using k by (intro mod_complement) simp_all
  qed
  moreover have "\<not> 2 ^ 36 - k \<le> 0xFFFFFFFF" using k by simp
  ultimately show ?thesis by (simp add: nonce_ok_def nonce_base_def nonce_low_def)
qed


theorem reset_misattributes_witness:
  "\<not> nonce_ok 0 (nonce_base 2 524288 (next_nonce 524288 0 0xFFF80000))"
  by (rule reset_misattributes) (simp_all add: nonce_fields)

text \<open>
  C17: what the work loop searches with.  In every reachable state, a step that goes on to search has in place
  the kernel compiled for the period and the DAG size of the block it was given.  As long as no call of
  \<open>cuda_init\<close> has answered false it also has the DAG of the package's epoch; but where \<open>cuda_init\<close> answers false
  at a change of epoch, the loop goes on to search all the same, with the new kernel on the DAG it had before.
\<close>

theorem kernel_matches_work:
  assumes "work_reachable I ws" "initialise \<in> I" "workLoop_step initialise w ws = DoSearch ws'"
  shows "(\<exists>bytes. ethash_get_datasize (unat (fork_height w)) = Inr bytes \<and>
      ws_kernel ws' = Some (prog_seed_of (fork_height w), dag_elms bytes)) \<and>
    (wp_epoch w \<noteq> -1 \<and> (\<forall>i \<in> I. \<forall>e. i e \<noteq> Some False) \<longrightarrow> ws_dag_epoch ws' = Some (wp_epoch w)) \<and>
    (wp_epoch (ws_current ws) \<noteq> wp_epoch w \<and> initialise (wp_epoch w) = Some False \<longrightarrow>
       ws_dag_epoch ws' = ws_dag_epoch ws)"
proof -
  note ok = work_reachable_ok [OF assms(1)] and dag = workLoop_step_dag [OF assms(3)]
  have "ws_dag_epoch ws' = Some (wp_epoch w)" if "wp_epoch w \<noteq> -1" "\<forall>i \<in> I. \<forall>e. i e \<noteq> Some False"
    using work_reachable_ok [OF work_reachable.step [OF assms]] that dag(1) by (auto simp: dag_ok_def loads_kept_def)
  then show ?thesis using ok dag(3) workLoop_step_kernel [OF _ assms(3)] by auto
qed

text \<open>Epoch 323 is loaded; at the change to epoch 324 the load is skipped, and the search goes on with the kernel of
  epoch 324 on the DAG of epoch 323.\<close>

theorem kernel_matches_work_witness:
  "\<exists>ws ws' elms. work_reachable {\<lambda>e. Some (e = 323)} ws \<and> ws_dag_epoch ws = Some 323 \<and>
     workLoop_step (\<lambda>e. Some (e = 323)) (WorkPackage_default\<lparr>wp_header := [2], wp_epoch := 324, wp_height := 8000\<rparr>) ws = DoSearch ws' \<and>
     ws_kernel ws' = Some (259200, elms) \<and> ws_dag_epoch ws' = Some 323"
proof -
  let ?init = "\<lambda>e :: int. Some (e = 323)"
  let ?w = "WorkPackage_default\<lparr>wp_header := [1], wp_epoch := 323\<rparr>"
  let ?w' = "WorkPackage_default\<lparr>wp_header := [2], wp_epoch := 324, wp_height := 8000\<rparr>"
  have h: "fork_height ?w = 2584000" "fork_height ?w' = 2592000" by (simp_all add: WorkPackage_default_def fork_height_def)
  have hdr: "h256_zero \<noteq> [k]" "[k] \<noteq> h256_zero" for k by (auto simp: h256_zero_def dest: arg_cong [where f = length])
  have old: "ws_old_period work_init \<noteq> 2584000 div of_nat PROGPOW_PERIOD"
    using period_not_minus_one [of 2584000] by (simp add: work_init_def)
  obtain ws where ws: "workLoop_step ?init ?w work_init = DoSearch ws" "ws_dag_epoch ws = Some 323" "wp_header (ws_current ws) = [1]"
      "wp_epoch (ws_current ws) = 323" "ws_old_period ws = 258400"
    using hdr old by (simp add: workLoop_step_def Let_def has_work_def fork_height_def ethash_get_datasize_def ETHASH_EPOCH_LENGTH_def
        work_init_def WorkPackage_default_def PROGPOW_PERIOD_def)
  have reach: "work_reachable {?init} ws" by (rule work_reachable.step [OF work_reachable.start _ ws(1)]) simp
  obtain ws' where ws': "workLoop_step ?init ?w' ws = DoSearch ws'"
    using hdr ws by (simp add: workLoop_step_def Let_def has_work_def fork_height_def ethash_get_datasize_def ETHASH_EPOCH_LENGTH_def
        WorkPackage_default_def PROGPOW_PERIOD_def)
  have "ws_dag_epoch ws' = Some 323" "\<exists>elms. ws_kernel ws' = Some (259200, elms)"
    using kernel_matches_work [OF reach _ ws'] ws by (auto simp: h prog_seed_of_def PROGPOW_PERIOD_def)
  with reach ws ws' show ?thesis by blast
qed

end
