(* ===== verification/Farm.thy ===== *)
theory Farm
  imports EthashAux
begin

text \<open>
  The farm of \<^verbatim>\<open>libethcore/Farm.h\<close> and the miner base class of \<^verbatim>\<open>libethcore/Miner.h\<close>: distribution
  of work packages, creation and removal of miners, the hash-rate window and the solution counters.
  Each member function of the farm is one definition; it runs under the mutex \<open>x_minerWork\<close>, so calls
  are atomic with respect to each other.  Time stamps are nanoseconds of the steady clock, passed as
  arguments.  The locale \<open>farm_face\<close> is the interface the miners see.
\<close>

section \<open>Miners\<close>

datatype MinerType = Mixed | CL | CUDA
datatype HwMonitorInfoType = TypeUnknown | NVIDIA | AMD
datatype HwMonitorIndexSource = SourceUnknown | SourceOPENCL | SourceCUDA

record HwMonitorInfo =
  deviceType :: HwMonitorInfoType
  indexSource :: HwMonitorIndexSource
  deviceIndex :: int

text \<open>The power is kept in milliwatts, the numerator of \<open>powerW / 1000.0\<close>.\<close>

record HwMonitor =
  tempC :: u32
  fanP :: u32
  powerMW :: u32

record miner =
  mi_index :: nat
  mi_sealer :: string
  mi_work :: WorkPackage
  mi_kicked :: bool
  mi_hashCount :: u64
  mi_hwmoninfo :: HwMonitorInfo

definition new_miner :: "string \<Rightarrow> nat \<Rightarrow> miner" where
  "new_miner sealer i = \<lparr>mi_index = i, mi_sealer = sealer, mi_work = WorkPackage_default, mi_kicked = False, mi_hashCount = 0,
     mi_hwmoninfo = \<lparr>deviceType = TypeUnknown, indexSource = SourceUnknown, deviceIndex = -1\<rparr>\<rparr>"

definition miner_setWork :: "WorkPackage \<Rightarrow> miner \<Rightarrow> miner" where
  "miner_setWork w m = m\<lparr>mi_work := w, mi_kicked := True\<rparr>"

definition addHashCount :: "u64 \<Rightarrow> miner \<Rightarrow> miner" where
  "addHashCount n m = m\<lparr>mi_hashCount := mi_hashCount m + n\<rparr>"

definition resetHashCount :: "miner \<Rightarrow> miner" where
  "resetHashCount m = m\<lparr>mi_hashCount := 0\<rparr>"

definition get_start_nonce :: "u64 \<Rightarrow> nat \<Rightarrow> u64" where
  "get_start_nonce scrambler index = scrambler + push_bit 40 (of_nat index)"

section \<open>Progress and statistics\<close>

record WorkingProgress =
  pg_hashes :: u64
  pg_ms :: u64
  minersHashes :: "u64 list"
  minerMonitors :: "HwMonitor list"

definition minerRate :: "WorkingProgress \<Rightarrow> u64 \<Rightarrow> u64" where
  "minerRate p hashCount = (if pg_ms p = 0 then 0 else hashCount * 1000 div pg_ms p)"

definition rate :: "WorkingProgress \<Rightarrow> u64" where
  "rate p = (if pg_ms p = 0 then 0 else pg_hashes p * 1000 div pg_ms p)"

record SolutionStats =
  accepts :: u32
  rejects :: u32
  failures :: u32
  acceptedStales :: u32
  rejectedStales :: u32

definition stats_new :: SolutionStats where
  "stats_new = \<lparr>accepts = 0, rejects = 0, failures = 0, acceptedStales = 0, rejectedStales = 0\<rparr>"

section \<open>Farm\<close>

text \<open>The I/O service thread: not joinable, inside \<open>run\<close>, or returned from it but not yet joined.\<close>

datatype service = NotJoinable | RunActive | RunReturned

record farm =
  m_miners :: "miner list"
  fm_work :: WorkPackage
  m_isMining :: bool
  m_progress :: WorkingProgress
  m_sealers :: "string \<rightharpoonup> nat"
  m_lastSealer :: string
  b_lastMixed :: bool
  m_lastStart :: nat
  m_hashrateSmoothInterval :: u64
  m_serviceThread :: service
  m_io_stopped :: bool
  m_hashrateTimer :: bool
  m_lastProgresses :: "WorkingProgress list"
  m_solutionStats :: SolutionStats
  m_farm_launched :: nat
  m_pool_addresses :: string
  m_nonce_scrambler :: u64

definition empty_progress :: WorkingProgress where
  "empty_progress = \<lparr>pg_hashes = 0, pg_ms = 0, minersHashes = [], minerMonitors = []\<rparr>"

definition farm_new :: "u64 \<Rightarrow> nat \<Rightarrow> farm" where
  "farm_new scrambler now = \<lparr>m_miners = [], fm_work = WorkPackage_default, m_isMining = False, m_progress = empty_progress,
     m_sealers = Map.empty, m_lastSealer = '''', b_lastMixed = False, m_lastStart = 0, m_hashrateSmoothInterval = 10000,
     m_serviceThread = NotJoinable, m_io_stopped = False, m_hashrateTimer = False, m_lastProgresses = [],
     m_solutionStats = stats_new, m_farm_launched = now, m_pool_addresses = '''', m_nonce_scrambler = scrambler\<rparr>"

definition setSealers :: "(string \<rightharpoonup> nat) \<Rightarrow> farm \<Rightarrow> farm" where
  "setSealers s f = f\<lparr>m_sealers := s\<rparr>"

definition collectHashRate :: "nat \<Rightarrow> farm \<Rightarrow> farm" where
  "collectHashRate now f =
     (let counts = map mi_hashCount (m_miners f);
          p = \<lparr>pg_hashes = sum_list counts, pg_ms = of_nat ((now - m_lastStart f) div 1000000),
               minersHashes = counts, minerMonitors = []\<rparr>;
          ps = (if 0 < pg_hashes p then m_lastProgresses f @ [p] else m_lastProgresses f);
          allMs = sum_list (map pg_ms ps)
      in f\<lparr>m_lastStart := now, m_miners := map resetHashCount (m_miners f),
           m_lastProgresses := (if m_hashrateSmoothInterval f < allMs then drop 1 ps else ps)\<rparr>)"

definition processHashRate :: "bool \<Rightarrow> nat \<Rightarrow> farm \<Rightarrow> farm" where
  "processHashRate ec now f = (if ec then f else (collectHashRate now f)\<lparr>m_hashrateTimer := True\<rparr>)"

definition setWork :: "WorkPackage \<Rightarrow> nat \<Rightarrow> farm \<Rightarrow> farm" where
  "setWork w now f =
     (let f = collectHashRate now f in
      if wp_header w = wp_header (fm_work f) \<and> wp_startNonce w = wp_startNonce (fm_work f) then f
      else f\<lparr>fm_work := w, m_miners := map (miner_setWork w) (m_miners f)\<rparr>)"

text \<open>\<open>start\<close> keeps the mutex to its end.  When the service thread of an earlier call is still
  joinable it is joined: the timer has just been armed, so \<open>run\<close> returns only if the service had been
  stopped, and the call blocks otherwise.\<close>

datatype start_result = StartReturned bool | StartBlocks

definition start :: "string \<Rightarrow> bool \<Rightarrow> farm \<Rightarrow> start_result \<times> farm" where
  "start sealer mixed f =
     (if m_miners f \<noteq> [] \<and> m_lastSealer f = sealer then (StartReturned True, f)
      else case m_sealers f sealer of
        None \<Rightarrow> (StartReturned False, f)
      | Some instances \<Rightarrow>
          let kept = (if mixed then m_miners f else []);
              first = length kept;
              f1 = f\<lparr>m_miners := kept @ map (new_miner sealer) [first..<first + instances],
                     m_isMining := True, m_lastSealer := sealer, b_lastMixed := mixed, m_hashrateTimer := True\<rparr>
          in case m_serviceThread f1 of
               NotJoinable \<Rightarrow>
                 (StartReturned True, f1\<lparr>m_serviceThread := (if m_io_stopped f1 then RunReturned else RunActive)\<rparr>)
             | RunReturned \<Rightarrow> (StartReturned True, f1\<lparr>m_io_stopped := False, m_serviceThread := RunActive\<rparr>)
             | RunActive \<Rightarrow> (StartBlocks, f1\<lparr>m_io_stopped := False\<rparr>))"

definition stop :: "farm \<Rightarrow> farm" where
  "stop f = f\<lparr>m_miners := [], m_isMining := False, m_hashrateTimer := False, m_io_stopped := True,
     m_serviceThread := (if m_serviceThread f = RunActive then RunReturned else m_serviceThread f), m_lastProgresses := []\<rparr>"

definition isMining :: "farm \<Rightarrow> bool" where
  "isMining f = m_isMining f"

subsection \<open>Hardware monitor\<close>

text \<open>A monitoring library: its device index tables and its queries, which leave the output untouched
  when they fail.  The three libraries (NVML, ADL, sysfs) are parameters.\<close>

record hw_handle =
  cuda_device_id :: "int \<Rightarrow> int"
  opencl_device_id :: "int \<Rightarrow> int"
  get_tempC :: "int \<Rightarrow> u32 option"
  get_fanpcnt :: "int \<Rightarrow> u32 option"
  get_power_usage :: "int \<Rightarrow> u32 option"

definition hw_query :: "bool \<Rightarrow> hw_handle \<Rightarrow> int \<Rightarrow> HwMonitor \<Rightarrow> HwMonitor" where
  "hw_query pw h i m =
     (let m = (case get_tempC h i of Some t \<Rightarrow> m\<lparr>tempC := t\<rparr> | None \<Rightarrow> m);
          m = (case get_fanpcnt h i of Some t \<Rightarrow> m\<lparr>fanP := t\<rparr> | None \<Rightarrow> m)
      in if pw then (case get_power_usage h i of Some t \<Rightarrow> m\<lparr>powerMW := t\<rparr> | None \<Rightarrow> m) else m)"

definition nvml_index :: "hw_handle \<Rightarrow> HwMonitorInfo \<Rightarrow> int" where
  "nvml_index h info =
     (case indexSource info of
        SourceCUDA \<Rightarrow> cuda_device_id h (deviceIndex info)
      | SourceOPENCL \<Rightarrow> opencl_device_id h (deviceIndex info)
      | SourceUnknown \<Rightarrow> deviceIndex info)"

definition amd_index :: "hw_handle \<Rightarrow> HwMonitorInfo \<Rightarrow> int" where
  "amd_index h info = (if indexSource info = SourceOPENCL then opencl_device_id h (deviceIndex info) else deviceIndex info)"

definition read_hw :: "bool \<Rightarrow> hw_handle option \<Rightarrow> hw_handle option \<Rightarrow> hw_handle option \<Rightarrow> HwMonitorInfo \<Rightarrow> HwMonitor" where
  "read_hw pw nvmlh adlh sysfsh info =
     (let hw0 = \<lparr>tempC = 0, fanP = 0, powerMW = 0\<rparr> in
      if deviceIndex info < 0 then hw0
      else let hw1 = (case deviceType info of
                        NVIDIA \<Rightarrow> (case nvmlh of Some h \<Rightarrow> hw_query pw h (nvml_index h info) hw0 | None \<Rightarrow> hw0)
                      | AMD \<Rightarrow> (case adlh of Some h \<Rightarrow> hw_query pw h (amd_index h info) hw0 | None \<Rightarrow> hw0)
                      | TypeUnknown \<Rightarrow> hw0)
           in case sysfsh of
                Some h \<Rightarrow> (if deviceType info = AMD then hw_query pw h (amd_index h info) hw1 else hw1)
              | None \<Rightarrow> hw1)"

subsection \<open>Reports\<close>

text \<open>Adding one recorded progress to the per-miner sums; the loop stops at the shorter of the two.\<close>

fun add_hashes :: "u64 list \<Rightarrow> u64 list \<Rightarrow> u64 list" where
  "add_hashes (a # acc) (c # cp) = (a + c) # add_hashes acc cp"
| "add_hashes acc cp = acc"

definition add_progress :: "WorkingProgress \<Rightarrow> WorkingProgress \<Rightarrow> WorkingProgress" where
  "add_progress cp p = p\<lparr>pg_ms := pg_ms p + pg_ms cp, pg_hashes := pg_hashes p + pg_hashes cp,
     minersHashes := add_hashes (minersHashes p) (minersHashes cp)\<rparr>"

definition miningProgress :: "hw_handle option \<Rightarrow> hw_handle option \<Rightarrow> hw_handle option \<Rightarrow> bool \<Rightarrow> bool \<Rightarrow> farm \<Rightarrow>
    WorkingProgress \<times> farm" where
  "miningProgress nvmlh adlh sysfsh hwmon pw f =
     (let p0 = \<lparr>pg_hashes = 0, pg_ms = 0, minersHashes = replicate (length (m_miners f)) 0,
                minerMonitors = (if hwmon then map (read_hw pw nvmlh adlh sysfsh \<circ> mi_hwmoninfo) (m_miners f) else [])\<rparr>;
          p = fold add_progress (m_lastProgresses f) p0
      in (p, f\<lparr>m_progress := p\<rparr>))"

definition failedSolution :: "farm \<Rightarrow> farm" where
  "failedSolution f = f\<lparr>m_solutionStats := (m_solutionStats f)\<lparr>failures := failures (m_solutionStats f) + 1\<rparr>\<rparr>"

definition acceptedSolution :: "bool \<Rightarrow> farm \<Rightarrow> farm" where
  "acceptedSolution stale f =
     (let s = m_solutionStats f in
      f\<lparr>m_solutionStats := (if \<not> stale then s\<lparr>accepts := accepts s + 1\<rparr> else s\<lparr>acceptedStales := acceptedStales s + 1\<rparr>)\<rparr>)"

definition rejectedSolution :: "bool \<Rightarrow> farm \<Rightarrow> farm" where
  "rejectedSolution stale f =
     (let s = m_solutionStats f in
      f\<lparr>m_solutionStats := (if \<not> stale then s\<lparr>rejects := rejects s + 1\<rparr> else s\<lparr>rejectedStales := rejectedStales s + 1\<rparr>)\<rparr>)"

definition show_stats :: "SolutionStats \<Rightarrow> string" where
  "show_stats s = ''[A'' @ to_string (unat (accepts s)) @ ''+'' @ to_string (unat (acceptedStales s)) @
     '':R'' @ to_string (unat (rejects s)) @ ''+'' @ to_string (unat (rejectedStales s)) @
     '':F'' @ to_string (unat (failures s)) @ '']''"

definition pad0 :: "nat \<Rightarrow> string \<Rightarrow> string" where
  "pad0 w s = replicate (w - length s) CHR ''0'' @ s"

definition farmLaunchedFormatted :: "nat \<Rightarrow> farm \<Rightarrow> string" where
  "farmLaunchedFormatted now f =
     (let d = now - m_farm_launched f;
          hhh = d div 3600000000000;
          hsize = (if hhh < 100 then 2 else 3);
          mm = (d - hhh * 3600000000000) div 60000000000
      in ''Time: '' @ pad0 hsize (to_string hhh) @ '':'' @ pad0 2 (to_string mm))"

definition set_pool_addresses :: "string \<Rightarrow> nat \<Rightarrow> farm \<Rightarrow> farm" where
  "set_pool_addresses host port f = f\<lparr>m_pool_addresses := host @ '':'' @ to_string port\<rparr>"

subsection \<open>Handlers and destruction\<close>

text \<open>The two handlers: whether one is set.  A miner's proof is passed on to the handler, which is asserted to be there.\<close>

record farm_handlers =
  h_onSolutionFound :: bool
  h_onMinerRestart :: bool

definition farm_onSolutionFound :: "bool \<Rightarrow> farm_handlers \<Rightarrow> farm_handlers" where
  "farm_onSolutionFound handler h = h\<lparr>h_onSolutionFound := handler\<rparr>"

definition farm_onMinerRestart :: "bool \<Rightarrow> farm_handlers \<Rightarrow> farm_handlers" where
  "farm_onMinerRestart handler h = h\<lparr>h_onMinerRestart := handler\<rparr>"

definition submitProof :: "'s \<Rightarrow> farm_handlers \<Rightarrow> 's option" where
  "submitProof sol h = (if h_onSolutionFound h then Some sol else None)"

text \<open>\<open>restart\<close>: whether the handler runs.\<close>

definition farm_restart :: "farm_handlers \<Rightarrow> bool" where
  "farm_restart h = h_onMinerRestart h"

text \<open>The destructor: the monitors are released, mining stops, and then the members are destroyed, where a thread that is
  still joinable ends the program.\<close>

datatype farm_end = FarmDestroyed | StdTerminate

definition farm_destroy :: "bool \<Rightarrow> bool \<Rightarrow> bool \<Rightarrow> farm \<Rightarrow> string list \<times> farm_end" where
  "farm_destroy adlh sysfsh nvmlh f =
     ((if adlh then [''wrap_adl_destroy''] else []) @ (if sysfsh then [''wrap_amdsysfs_destroy''] else []) @
        (if nvmlh then [''wrap_nvml_destroy''] else []),
      if m_serviceThread (stop f) = NotJoinable then FarmDestroyed else StdTerminate)"


section \<open>The interface of the miners\<close>

text \<open>What a miner may rely on: the scrambler is fixed for the life of the farm, so the nonce ranges
  computed at different times by different miners belong together.\<close>

locale farm_face =
  fixes get_nonce_scrambler :: "'f \<Rightarrow> u64"
    and step :: "'f \<Rightarrow> 'f \<Rightarrow> bool"
  assumes scrambler_fixed: "step f g \<Longrightarrow> get_nonce_scrambler g = get_nonce_scrambler f"
begin

lemma scrambler_star: "step\<^sup>*\<^sup>* f g \<Longrightarrow> get_nonce_scrambler g = get_nonce_scrambler f"
  by (induction rule: rtranclp_induct) (simp_all add: scrambler_fixed)

lemma ranges_disjoint:
  assumes "step\<^sup>*\<^sup>* f g" "i < 2 ^ 24" "j < 2 ^ 24" "i \<noteq> j" "a < 2 ^ 40" "b < 2 ^ 40"
  shows "get_start_nonce (get_nonce_scrambler f) i + of_nat a \<noteq> get_start_nonce (get_nonce_scrambler g) j + of_nat b"
proof
  assume eq: "get_start_nonce (get_nonce_scrambler f) i + of_nat a = get_start_nonce (get_nonce_scrambler g) j + of_nat b"
  have p: "push_bit 40 (of_nat k :: u64) = of_nat (k * 2 ^ 40)" for k :: nat
    by (simp add: push_bit_eq_mult mult.commute)
  from eq have e: "(of_nat (i * 2 ^ 40 + a) :: u64) = of_nat (j * 2 ^ 40 + b)"
    using scrambler_star [OF assms(1)] by (simp add: get_start_nonce_def p)
  have lt: "k * 2 ^ 40 + c < 2 ^ 64" if "k < 2 ^ 24" "c < 2 ^ 40" for k c :: nat
    using that by simp
  have un: "unat (of_nat k :: u64) = k" if "k < 2 ^ 64" for k :: nat
    using that by (simp add: unsigned_of_nat take_bit_nat_eq_self)
  have eq': "i * 2 ^ 40 + a = j * 2 ^ 40 + b"
    using arg_cong [OF e, of unat] un [OF lt [OF assms(2,5)]] un [OF lt [OF assms(3,6)]] by simp
  then have "(i * 2 ^ 40 + a) div 2 ^ 40 = (j * 2 ^ 40 + b) div 2 ^ 40" by simp
  then show False using assms(4-6) by simp
qed

end

section \<open>Reachable farms\<close>

text \<open>The steps of the program: the pool manager starts a first group of miners only when nothing is
  mining and adds to it only in mixed mode; miners add to their hash counters.\<close>

inductive farm_step :: "farm \<Rightarrow> farm \<Rightarrow> bool" where
  fs_setWork: "farm_step f (setWork w now f)"
| fs_sealers: "farm_step f (setSealers s f)"
| fs_start: "mixed \<or> \<not> isMining f \<Longrightarrow> start sealer mixed f = (StartReturned b, g) \<Longrightarrow> farm_step f g"
| fs_stop: "farm_step f (stop f)"
| fs_timer: "farm_step f (processHashRate ec now f)"
| fs_progress: "farm_step f (snd (miningProgress nv adl sysfs hwmon pw f))"
| fs_failed: "farm_step f (failedSolution f)"
| fs_accepted: "farm_step f (acceptedSolution stale f)"
| fs_rejected: "farm_step f (rejectedSolution stale f)"
| fs_hashes: "farm_step f (f\<lparr>m_miners := (m_miners f)[i := addHashCount n (m_miners f ! i)]\<rparr>)"
| fs_pool: "farm_step f (set_pool_addresses host port f)"

inductive farm_reachable :: "farm \<Rightarrow> bool" where
  start: "farm_reachable (farm_new scrambler now)"
| step: "farm_reachable f \<Longrightarrow> farm_step f g \<Longrightarrow> farm_reachable g"

inductive_cases farm_stepE: "farm_step f g"

lemmas farm_ops = setWork_def setSealers_def start_def stop_def processHashRate_def collectHashRate_def miningProgress_def
  failedSolution_def acceptedSolution_def rejectedSolution_def set_pool_addresses_def Let_def

definition progress_ok :: "nat \<Rightarrow> WorkingProgress \<Rightarrow> bool" where
  "progress_ok n p \<longleftrightarrow> 0 < pg_hashes p \<and> pg_hashes p = sum_list (minersHashes p) \<and> length (minersHashes p) \<le> n"

definition farm_inv :: "farm \<Rightarrow> bool" where
  "farm_inv f \<longleftrightarrow>
     map mi_index (m_miners f) = [0..<length (m_miners f)] \<and>
     (\<forall>m \<in> set (m_miners f). mi_work m = fm_work f \<or> mi_work m = WorkPackage_default) \<and>
     (m_miners f \<noteq> [] \<longrightarrow> m_isMining f) \<and>
     (\<forall>p \<in> set (m_lastProgresses f). progress_ok (length (m_miners f)) p)"

lemma miner_ops_simps [simp]:
  "mi_index (resetHashCount m) = mi_index m" "mi_work (resetHashCount m) = mi_work m" "mi_hashCount (resetHashCount m) = 0"
  "mi_index (miner_setWork w m) = mi_index m" "mi_work (miner_setWork w m) = w"
  "mi_index (addHashCount n m) = mi_index m" "mi_work (addHashCount n m) = mi_work m"
  "mi_index (new_miner s i) = i" "mi_work (new_miner s i) = WorkPackage_default"
  by (simp_all add: resetHashCount_def miner_setWork_def addHashCount_def new_miner_def)

lemma collect_simps [simp]:
  "m_miners (collectHashRate now f) = map resetHashCount (m_miners f)"
  "fm_work (collectHashRate now f) = fm_work f"
  "m_isMining (collectHashRate now f) = m_isMining f"
  "m_nonce_scrambler (collectHashRate now f) = m_nonce_scrambler f"
  by (simp_all add: collectHashRate_def Let_def)

lemma collect_progresses:
  "set (m_lastProgresses (collectHashRate now f)) \<subseteq> set (m_lastProgresses f) \<union>
     {p. 0 < pg_hashes p \<and> pg_hashes p = sum_list (minersHashes p) \<and> minersHashes p = map mi_hashCount (m_miners f)}"
  by (auto simp: collectHashRate_def Let_def dest: in_set_dropD)

lemma map_update_same: "i < length xs \<Longrightarrow> f y = f (xs ! i) \<Longrightarrow> map f (xs[i := y]) = map f xs"
  by (metis list_update_id map_update)

lemma farm_inv_collect: "farm_inv f \<Longrightarrow> farm_inv (collectHashRate now f)"
  using collect_progresses [of now f] by (fastforce simp: farm_inv_def progress_ok_def comp_def)

lemma farm_inv_start:
  assumes "farm_inv f" "mixed \<or> \<not> isMining f" "start sealer mixed f = (r, g)"
  shows "farm_inv g"
proof (cases "m_miners f \<noteq> [] \<and> m_lastSealer f = sealer \<or> m_sealers f sealer = None")
  case True
  then show ?thesis using assms by (auto simp: start_def split: option.splits if_splits)
next
  case False
  then obtain n where n: "m_sealers f sealer = Some n" by auto
  define kept where "kept = (if mixed then m_miners f else [])"
  have g: "m_miners g = kept @ map (new_miner sealer) [length kept..<length kept + n]" "fm_work g = fm_work f"
      "m_isMining g" "m_lastProgresses g = m_lastProgresses f"
    using assms(3) False n by (auto simp: start_def Let_def kept_def split: service.splits if_splits)
  have k: "kept = m_miners f" using assms(1,2) by (auto simp: kept_def farm_inv_def isMining_def)
  have "map mi_index (m_miners g) = [0..<length (m_miners g)]"
    using assms(1) by (simp add: g k farm_inv_def comp_def map_idI flip: upt_add_eq_append [of 0])
  then show ?thesis
    using assms(1) g k by (auto simp: farm_inv_def progress_ok_def)
qed

lemma farm_inv_step: "farm_step f g \<Longrightarrow> farm_inv f \<Longrightarrow> farm_inv g"
proof (induction rule: farm_step.induct)
  case (fs_setWork f w now)
  then show ?case using farm_inv_collect [of f now] by (auto simp: setWork_def Let_def farm_inv_def comp_def)
next
  case (fs_timer f ec now)
  then show ?case using farm_inv_collect [of f now] by (auto simp: processHashRate_def farm_inv_def)
next
  case (fs_hashes f i n)
  then show ?case
    by (cases "i < length (m_miners f)")
      (auto simp: farm_inv_def map_update_same list_update_beyond dest!: set_update_subset_insert [THEN subsetD])
next
  case (fs_start mixed f sealer b g)
  then show ?case using farm_inv_start by blast
qed (auto simp: farm_inv_def farm_ops)

lemma farm_reachable_inv: "farm_reachable f \<Longrightarrow> farm_inv f"
  by (induction rule: farm_reachable.induct) (simp add: farm_inv_def farm_new_def, blast intro: farm_inv_step)

lemma scrambler_step: "farm_step f g \<Longrightarrow> m_nonce_scrambler g = m_nonce_scrambler f"
  by (induction rule: farm_step.induct)
    (auto simp: setWork_def setSealers_def start_def stop_def processHashRate_def miningProgress_def
      failedSolution_def acceptedSolution_def rejectedSolution_def set_pool_addresses_def Let_def
      split: if_splits option.splits service.splits)

interpretation ff: farm_face m_nonce_scrambler farm_step
  by unfold_locales (rule scrambler_step)

text \<open>No step joins the service thread for good, so a farm that has ever started miners cannot be destroyed.\<close>

lemma service_step: "farm_step f g \<Longrightarrow> m_serviceThread f \<noteq> NotJoinable \<Longrightarrow> m_serviceThread g \<noteq> NotJoinable"
  by (induction rule: farm_step.induct) (auto simp: farm_ops split: if_splits option.splits service.splits)

lemma farm_destroy_terminates:
  assumes "start sealer mixed f = (StartReturned True, g)" "m_miners f = [] \<or> m_lastSealer f \<noteq> sealer" "farm_step\<^sup>*\<^sup>* g h"
  shows "snd (farm_destroy adlh sysfsh nvmlh h) = StdTerminate"
proof -
  have "m_serviceThread g \<noteq> NotJoinable"
    using assms(1,2) by (auto simp: start_def Let_def split: if_splits option.splits service.splits)
  with assms(3) have "m_serviceThread h \<noteq> NotJoinable" by (induction rule: rtranclp_induct) (auto dest: service_step)
  then show ?thesis by (simp add: farm_destroy_def stop_def)
qed


section \<open>Totals of the window\<close>

lemma length_add_hashes [simp]: "length (add_hashes acc cp) = length acc"
  by (induction acc cp rule: add_hashes.induct) simp_all

lemma sum_add_hashes: "length cp \<le> length acc \<Longrightarrow> sum_list (add_hashes acc cp) = sum_list acc + sum_list cp"
  by (induction acc cp rule: add_hashes.induct) simp_all

lemma fold_add_progress:
  assumes "\<forall>c \<in> set ps. progress_ok (length (minersHashes p)) c" "pg_hashes p = sum_list (minersHashes p)"
  shows "let q = fold add_progress ps p in
    pg_hashes q = sum_list (minersHashes q) \<and> length (minersHashes q) = length (minersHashes p) \<and>
    pg_hashes q = pg_hashes p + sum_list (map pg_hashes ps) \<and> pg_ms q = pg_ms p + sum_list (map pg_ms ps) \<and>
    minerMonitors q = minerMonitors p"
  using assms
proof (induction ps arbitrary: p)
  case (Cons c ps)
  have len: "length (minersHashes (add_progress c p)) = length (minersHashes p)" by (simp add: add_progress_def)
  have "pg_hashes (add_progress c p) = sum_list (minersHashes (add_progress c p))"
    using Cons.prems by (simp add: add_progress_def sum_add_hashes progress_ok_def)
  from Cons.IH [of "add_progress c p", unfolded len, OF _ this] Cons.prems
  have "let q = fold add_progress ps (add_progress c p) in
    pg_hashes q = sum_list (minersHashes q) \<and> length (minersHashes q) = length (minersHashes p) \<and>
    pg_hashes q = pg_hashes (add_progress c p) + sum_list (map pg_hashes ps) \<and>
    pg_ms q = pg_ms (add_progress c p) + sum_list (map pg_ms ps) \<and>
    minerMonitors q = minerMonitors (add_progress c p)" by simp
  moreover have "pg_hashes (add_progress c p) = pg_hashes p + pg_hashes c" "pg_ms (add_progress c p) = pg_ms p + pg_ms c"
      "minerMonitors (add_progress c p) = minerMonitors p"
    by (simp_all add: add_progress_def)
  ultimately show ?case by (auto simp: Let_def add.assoc)
qed simp

text \<open>A farm with two CUDA miners.\<close>

definition demo_farm :: farm where
  "demo_farm = snd (start ''cuda'' False (setSealers [''cuda'' \<mapsto> 2, ''opencl'' \<mapsto> 1] (farm_new 7 0)))"

lemma demo_farm_reachable: "farm_reachable demo_farm"
proof -
  let ?f = "setSealers [''cuda'' \<mapsto> 2, ''opencl'' \<mapsto> 1] (farm_new 7 0)"
  have f: "farm_reachable ?f" by (rule farm_reachable.step [OF farm_reachable.start fs_sealers])
  have "start ''cuda'' False ?f = (StartReturned True, demo_farm)"
    by (simp add: demo_farm_def start_def setSealers_def farm_new_def Let_def)
  then show ?thesis
    by (intro farm_reachable.step [OF f] fs_start [of False]) (auto simp: isMining_def setSealers_def farm_new_def)
qed

lemma demo_farm_miners: "length (m_miners demo_farm) = 2" "fm_work demo_farm = WorkPackage_default"
  "m_serviceThread demo_farm = RunActive" "m_nonce_scrambler demo_farm = 7" "m_lastSealer demo_farm = ''cuda''"
  "m_sealers demo_farm = [''cuda'' \<mapsto> 2, ''opencl'' \<mapsto> 1]"
  by (simp_all add: demo_farm_def start_def setSealers_def farm_new_def Let_def)

section \<open>Properties\<close>

text \<open>
  C21: who works on what.  In every reachable farm the miners are numbered consecutively, and each of them
  either has the farm's current package or still the empty one it was created with, never an outdated
  one.  \<open>setWork\<close> with another header or start nonce hands the package to every miner, also to those without
  one, and kicks it; with the same header and start nonce it changes no miner's package, so a miner
  without one stays without.
\<close>

theorem farm_work_distribution:
  assumes "farm_reachable f"
  shows "map mi_index (m_miners f) = [0..<length (m_miners f)] \<and>
    (\<forall>m \<in> set (m_miners f). mi_work m = fm_work f \<or> mi_work m = WorkPackage_default) \<and>
    (wp_header w \<noteq> wp_header (fm_work f) \<or> wp_startNonce w \<noteq> wp_startNonce (fm_work f) \<longrightarrow>
      length (m_miners (setWork w now f)) = length (m_miners f) \<and>
      (\<forall>m \<in> set (m_miners (setWork w now f)). mi_work m = w \<and> mi_kicked m) \<and> fm_work (setWork w now f) = w) \<and>
    (wp_header w = wp_header (fm_work f) \<and> wp_startNonce w = wp_startNonce (fm_work f) \<longrightarrow>
      map mi_work (m_miners (setWork w now f)) = map mi_work (m_miners f) \<and>
      map mi_kicked (m_miners (setWork w now f)) = map mi_kicked (m_miners f) \<and> fm_work (setWork w now f) = fm_work f)"
  using farm_reachable_inv [OF assms]
  by (auto simp: farm_inv_def setWork_def Let_def miner_setWork_def collectHashRate_def resetHashCount_def)

theorem farm_work_distribution_witness:
  "mi_kicked (hd (m_miners (setWork (WorkPackage_default\<lparr>wp_startNonce := 5\<rparr>) 0 demo_farm)))"
proof -
  let ?g = "setWork (WorkPackage_default\<lparr>wp_startNonce := 5\<rparr>) 0 demo_farm"
  have g: "length (m_miners ?g) = 2" "\<forall>m \<in> set (m_miners ?g). mi_kicked m"
    using farm_work_distribution [OF demo_farm_reachable, of "WorkPackage_default\<lparr>wp_startNonce := 5\<rparr>" 0]
    by (simp_all add: demo_farm_miners WorkPackage_default_def)
  then have "m_miners ?g \<noteq> []" by auto
  with g(2) show ?thesis by (simp add: hd_in_set)
qed

text \<open>
  The reported progress is consistent: in every reachable farm it has one entry per miner, the
  entries add up to the reported total, and total and time are the sums over the recorded window.
\<close>

theorem farm_progress_consistent:
  assumes "farm_reachable f"
  shows "let p = fst (miningProgress nv adl sysfs hwmon pw f) in
    length (minersHashes p) = length (m_miners f) \<and>
    (hwmon \<longrightarrow> length (minerMonitors p) = length (m_miners f)) \<and>
    pg_hashes p = sum_list (minersHashes p) \<and>
    pg_hashes p = sum_list (map pg_hashes (m_lastProgresses f)) \<and>
    pg_ms p = sum_list (map pg_ms (m_lastProgresses f))"
proof -
  let ?p = "\<lparr>pg_hashes = 0, pg_ms = 0, minersHashes = replicate (length (m_miners f)) 0,
    minerMonitors = (if hwmon then map (read_hw pw nv adl sysfs \<circ> mi_hwmoninfo) (m_miners f) else [])\<rparr>"
  have "let q = fold add_progress (m_lastProgresses f) ?p in
    pg_hashes q = sum_list (minersHashes q) \<and> length (minersHashes q) = length (minersHashes ?p) \<and>
    pg_hashes q = pg_hashes ?p + sum_list (map pg_hashes (m_lastProgresses f)) \<and>
    pg_ms q = pg_ms ?p + sum_list (map pg_ms (m_lastProgresses f)) \<and> minerMonitors q = minerMonitors ?p"
    by (rule fold_add_progress) (use farm_reachable_inv [OF assms] in \<open>simp_all add: farm_inv_def sum_list_replicate\<close>)
  then show ?thesis by (cases hwmon) (auto simp: miningProgress_def Let_def)
qed

theorem farm_progress_consistent_witness:
  "length (minersHashes (fst (miningProgress None None None True False demo_farm))) = 2"
  using farm_progress_consistent [OF demo_farm_reachable, of None None None True False] by (simp add: Let_def demo_farm_miners)

text \<open>
  Miners created after a restart stay without work when the pool repeats the current job: the
  package is compared with the farm's last one, which \<open>stop\<close> does not clear, and is not handed out.
\<close>

theorem restart_loses_work:
  assumes "start sealer False (stop f) = (r, g)" "m_miners g \<noteq> []" "wp_header w = wp_header (fm_work f)" "wp_startNonce w = wp_startNonce (fm_work f)"
  shows "\<forall>m \<in> set (m_miners (setWork w now g)). mi_work m = WorkPackage_default \<and> \<not> mi_kicked m"
proof -
  have "fm_work g = fm_work f" "\<forall>m \<in> set (m_miners g). mi_work m = WorkPackage_default \<and> \<not> mi_kicked m"
    using assms(1,2) by (auto simp: start_def stop_def Let_def new_miner_def split: if_splits option.splits service.splits)
  then show ?thesis using assms(3,4) by (simp add: setWork_def Let_def resetHashCount_def)
qed

theorem restart_loses_work_witness:
  "let w = WorkPackage_default\<lparr>wp_header := replicate 32 1\<rparr>;
       g = snd (start ''cuda'' False (stop (setWork w 0 demo_farm)))
   in mi_work (hd (m_miners (setWork w 1 g))) = WorkPackage_default"
proof -
  let ?w = "WorkPackage_default\<lparr>wp_header := replicate 32 1\<rparr>"
  let ?f = "setWork ?w 0 demo_farm"
  let ?g = "snd (start ''cuda'' False (stop ?f))"
  have w: "fm_work ?f = ?w" by (simp add: setWork_def Let_def demo_farm_miners WorkPackage_default_def h256_zero_def)
  have s: "m_sealers ?f = [''cuda'' \<mapsto> 2, ''opencl'' \<mapsto> 1]" by (simp add: setWork_def Let_def collectHashRate_def demo_farm_miners)
  have ne: "m_miners ?g \<noteq> []"
    by (cases "m_serviceThread ?f") (simp_all add: start_def stop_def s Let_def)
  then have "\<forall>m \<in> set (m_miners (setWork ?w 1 ?g)). mi_work m = WorkPackage_default"
    using restart_loses_work [of "''cuda''" ?f "fst (start ''cuda'' False (stop ?f))" ?g ?w 1] by (simp add: w)
  moreover have "m_miners (setWork ?w 1 ?g) \<noteq> []" using ne by (simp add: setWork_def Let_def)
  ultimately show ?thesis by (simp add: Let_def)
qed

text \<open>
  Mixed mode blocks: once a first group of miners has been started, starting a second group with
  another sealer never returns, because \<open>start\<close> joins the service thread whose timer it has just armed.
\<close>

theorem mixed_start_blocks:
  assumes "start s1 False f = (StartReturned True, g)" "m_serviceThread f = NotJoinable" "\<not> m_io_stopped f"
    "m_miners f = []" "s2 \<noteq> s1" "m_sealers f s2 = Some n"
  shows "fst (start s2 True g) = StartBlocks"
  using assms by (auto simp: start_def Let_def split: if_splits option.splits)

theorem mixed_start_blocks_witness: "fst (start ''opencl'' True demo_farm) = StartBlocks"
  using mixed_start_blocks [of "''cuda''" "setSealers [''cuda'' \<mapsto> 2, ''opencl'' \<mapsto> 1] (farm_new 7 0)" demo_farm "''opencl''" 1]
  by (simp add: demo_farm_def start_def setSealers_def farm_new_def Let_def)

text \<open>
  The start nonces of up to \<open>2^24\<close> miners leave every one a range of \<open>2^40\<close> nonces of its own, also
  when they are computed at different times of the farm's life.
\<close>

theorem start_ranges_disjoint:
  assumes "farm_step\<^sup>*\<^sup>* f g" "i < 2 ^ 24" "j < 2 ^ 24" "i \<noteq> j" "a < 2 ^ 40" "b < 2 ^ 40"
  shows "get_start_nonce (m_nonce_scrambler f) i + of_nat a \<noteq> get_start_nonce (m_nonce_scrambler g) j + of_nat b"
  using assms by (rule ff.ranges_disjoint)

theorem start_ranges_disjoint_witness: "get_start_nonce 7 0 + of_nat 9 \<noteq> get_start_nonce 7 1 + of_nat 3"
  using start_ranges_disjoint [of demo_farm demo_farm 0 1 9 3] by (simp add: demo_farm_miners)

end
