(* ===== verification/CudaInit.thy ===== *)
theory CudaInit
  imports CudaMiner Farm DagKernel
begin

unbundle bit_operations_syntax

text \<open>
  The setup of the CUDA miners in \<^verbatim>\<open>libethash-cuda/CUDAMiner.cpp\<close>: the static settings, device enumeration,
  \<open>cuda_init\<close> with the DAG that is generated on the device or shared through host memory, the
  initialisation of a miner for an epoch, and the compilation of the period's kernel.  The CUDA driver and
  NVRTC are parameters: what they report of the devices, which allocations succeed, whether a source
  compiles.  \<open>CUDA_SAFE_CALL\<close> turns a failure into an exception whose handler ends the process.
\<close>

section \<open>The driver\<close>

record cuda_props =
  pr_name :: string
  pr_major :: nat
  pr_minor :: nat
  pr_totalGlobalMem :: nat

datatype cuda_error = InsufficientDriver | OtherCudaError string

record cuda_driver =
  cu_count :: "cuda_error + u32"
  cu_driverVersion :: int
  cu_props :: "nat \<Rightarrow> cuda_props"
  cu_malloc :: "nat \<Rightarrow> bool"
  cu_compiles :: "string \<Rightarrow> string list \<Rightarrow> bool"

text \<open>Why a call does not return: a \<open>runtime_error\<close> with its message, the process ends, the thread waits for the
  DAG in host memory or for its turn, undefined behaviour, an exception or assertion of the caches.\<close>

datatype cuda_stop = RuntimeError string | ExitProcess int | WaitsForHostDAG | WaitsForTurn | Undefined | CacheFailure aux_error

section \<open>Static settings\<close>

record cuda_statics =
  cs_numInstances :: u32
  cs_devices :: "int list"
  cs_parallelHash :: u32
  cs_scheduleFlag :: u32
  cs_config :: cuda_config
  cs_dagLoadMode :: u32
  cs_dagLoadIndex :: u32
  cs_dagCreateDevice :: u32
  cs_dagInHostMemory :: "node option list option"
  cs_exit :: bool

definition c_defaultBlockSize :: u32 where "c_defaultBlockSize = 512"
definition c_defaultGridSize :: u32 where "c_defaultGridSize = 1024"
definition c_defaultNumStreams :: u32 where "c_defaultNumStreams = 2"
definition DAG_LOAD_SEQUENTIAL :: u32 where "DAG_LOAD_SEQUENTIAL = 1"
definition DAG_LOAD_SINGLE :: u32 where "DAG_LOAD_SINGLE = 2"

definition cuda_statics_init :: cuda_statics where
  "cuda_statics_init = \<lparr>cs_numInstances = 0, cs_devices = replicate 32 (-1), cs_parallelHash = 4, cs_scheduleFlag = 0,
     cs_config = \<lparr>s_gridSize = c_defaultGridSize, s_blockSize = c_defaultBlockSize, s_numStreams = c_defaultNumStreams, s_noeval = True\<rparr>,
     cs_dagLoadMode = 0, cs_dagLoadIndex = 0, cs_dagCreateDevice = 0, cs_dagInHostMemory = None, cs_exit = False\<rparr>"

definition cuda_instances :: "cuda_statics \<Rightarrow> u32" where
  "cuda_instances cs = (if 0 < cs_numInstances cs then cs_numInstances cs else 1)"

definition cuda_getNumDevices :: "cuda_driver \<Rightarrow> cuda_stop + u32" where
  "cuda_getNumDevices drv =
     (case cu_count drv of
        Inr n \<Rightarrow> Inr n
      | Inl InsufficientDriver \<Rightarrow>
          if cu_driverVersion drv = 0 then Inl (RuntimeError ''No CUDA driver found'')
          else Inl (RuntimeError (''Insufficient CUDA driver: '' @ int_text (cu_driverVersion drv)))
      | Inl (OtherCudaError s) \<Rightarrow> Inl (RuntimeError s))"

definition cuda_setNumInstances :: "cuda_driver \<Rightarrow> u32 \<Rightarrow> cuda_statics \<Rightarrow> cuda_stop + cuda_statics" where
  "cuda_setNumInstances drv n cs = bindE (cuda_getNumDevices drv) (\<lambda>k. Inr (cs\<lparr>cs_numInstances := min n k\<rparr>))"

definition cuda_setDevices :: "u32 list \<Rightarrow> nat \<Rightarrow> cuda_statics \<Rightarrow> cuda_stop + cuda_statics" where
  "cuda_setDevices devices selectedDeviceCount cs =
     (if length devices < selectedDeviceCount \<or> length (cs_devices cs) < selectedDeviceCount then Inl Undefined
      else Inr (cs\<lparr>cs_devices := fold (\<lambda>i ds. ds[i := sint (devices ! i)]) [0..<selectedDeviceCount] (cs_devices cs)\<rparr>))"

definition setParallelHash :: "u32 \<Rightarrow> cuda_statics \<Rightarrow> cuda_statics" where
  "setParallelHash n cs = cs\<lparr>cs_parallelHash := n\<rparr>"

text \<open>\<open>configureGPU\<close> with the settings it stores before the check of the devices.\<close>

definition cuda_configure :: "cuda_driver \<Rightarrow> u32 \<Rightarrow> u32 \<Rightarrow> u32 \<Rightarrow> u32 \<Rightarrow> u64 \<Rightarrow> u32 \<Rightarrow> u32 \<Rightarrow> bool \<Rightarrow> bool \<Rightarrow> cuda_statics \<Rightarrow>
    (cuda_stop + bool) \<times> cuda_statics" where
  "cuda_configure drv blockSize gridSize numStreams scheduleFlag currentBlock dagLoadMode dagCreateDevice noeval exit cs =
     (let cs1 = cs\<lparr>cs_dagLoadMode := dagLoadMode, cs_dagCreateDevice := dagCreateDevice, cs_exit := exit\<rparr> in
      case cuda_getNumDevices drv of
        Inl e \<Rightarrow> (Inl e, cs1)
      | Inr n \<Rightarrow>
          (case configureGPU (\<lambda>d. pr_totalGlobalMem (cu_props drv (nat d))) (unat n) (cs_devices cs1) blockSize gridSize numStreams
                  (unat currentBlock) noeval of
             Inl e \<Rightarrow> (Inl (CacheFailure (LightError e)), cs1)
           | Inr (b, cfg) \<Rightarrow> (Inr b, cs1\<lparr>cs_config := cfg, cs_scheduleFlag := scheduleFlag\<rparr>)))"

section \<open>Loading the DAG\<close>

text \<open>The miner: the search state with the device memory it holds.\<close>

record cuda_miner = cuda_state +
  m_cuda_dag :: "node option list option"
  m_cuda_light :: "node list option list"
  m_dag_elms :: u32
  m_cuda_hwmoninfo :: HwMonitorInfo

definition use_device :: "nat \<Rightarrow> nat \<Rightarrow> nat" where
  "use_device numDevices deviceId = (if deviceId < numDevices - 1 then deviceId else numDevices - 1)"

text \<open>The content of the new DAG buffer, and the DAG in host memory afterwards.\<close>

definition load_dag :: "cuda_config \<Rightarrow> nat \<Rightarrow> nat \<Rightarrow> node list \<Rightarrow> nat \<Rightarrow> bool \<Rightarrow> nat \<Rightarrow> node option list option \<Rightarrow>
    cuda_stop + node option list \<times> node option list option" where
  "load_dag cfg dagBytes lightWords nodes device cpyToHost dagCreateDevice hostDAG =
     (case hostDAG of
        None \<Rightarrow>
          if device = dagCreateDevice \<or> \<not> cpyToHost then
            (case ethash_generate_dag dagBytes nodes lightWords (s_gridSize cfg) (s_blockSize cfg) (replicate (dagBytes div 64) None) of
               None \<Rightarrow> Inl Undefined
             | Some dag \<Rightarrow> Inr (dag, if cpyToHost then Some dag else None))
          else Inl WaitsForHostDAG
      | Some h \<Rightarrow> if length h < dagBytes div 64 then Inl Undefined else Inr (take (dagBytes div 64) h, hostDAG))"

text \<open>\<open>blank\<close> is the uninitialised content of a new result buffer.\<close>

definition cuda_init :: "cuda_driver \<Rightarrow> cuda_config \<Rightarrow> search_results \<Rightarrow> nat \<Rightarrow> ethash_light \<Rightarrow> nat \<Rightarrow> nat \<Rightarrow> bool \<Rightarrow> nat \<Rightarrow>
    cuda_miner \<Rightarrow> node option list option \<Rightarrow> (cuda_stop + bool) \<times> cuda_miner \<times> node option list option" where
  "cuda_init drv cfg blank numDevices li lightBytes deviceId cpyToHost dagCreateDevice m hostDAG =
     (if numDevices = 0 then (Inr False, m, hostDAG)
      else
        let dev = use_device numDevices deviceId;
            m1 = m\<lparr>m_device_num := of_nat dev, m_cuda_hwmoninfo := \<lparr>deviceType = NVIDIA, indexSource = SourceCUDA, deviceIndex = int dev\<rparr>,
                   m_search_buf := [], m_inflight := []\<rparr>
        in case ethash_get_datasize (block_number li) of
             Inl e \<Rightarrow> (Inl (CacheFailure (LightError e)), m1, hostDAG)
           | Inr dagBytes \<Rightarrow>
               let dagElms = of_nat (dag_elms dagBytes); lightWords = (lightBytes div 64) mod 2 ^ 32;
                   fresh = (dagElms \<noteq> m_dag_elms m1 \<or> m_cuda_dag m1 = None)
               in if fresh \<and> pr_totalGlobalMem (cu_props drv dev) < dagBytes then (Inr False, m1, hostDAG)
                  else
                    let m2 = (if fresh then m1\<lparr>m_cuda_light := (m_cuda_light m1)[dev := None], m_cuda_dag := None\<rparr> else m1)
                    in if m_cuda_light m2 ! dev = None \<and> \<not> cu_malloc drv lightBytes then (Inl (ExitProcess (-1)), m2, hostDAG)
                       else
                         let m3 = m2\<lparr>m_cuda_light := (m_cuda_light m2)[dev := Some (cache li)]\<rparr>
                         in if fresh \<and> \<not> cu_malloc drv dagBytes then (Inl (ExitProcess (-1)), m3, hostDAG)
                            else if dagElms = m_dag_elms m3 then
                              (Inr True, m3\<lparr>m_cuda_dag := (if fresh then Some (replicate (dagBytes div 64) None) else m_cuda_dag m3)\<rparr>, hostDAG)
                            else
                              let m4 = m3\<lparr>m_search_buf := replicate (unat (s_numStreams cfg)) blank,
                                          m_inflight := replicate (unat (s_numStreams cfg)) None,
                                          m_current_header := h256_zero, m_current_target := 0, m_current_nonce := 0, m_current_index := 0\<rparr>
                              in case load_dag cfg dagBytes lightWords (cache li) dev cpyToHost dagCreateDevice hostDAG of
                                   Inl e \<Rightarrow> (Inl e, m4, hostDAG)
                                 | Inr (dag, hostDAG') \<Rightarrow> (Inr True, m4\<lparr>m_cuda_dag := Some dag, m_dag_elms := dagElms\<rparr>, hostDAG'))"

text \<open>\<open>CUDAMiner::init\<close>: the result of \<open>cuda_init\<close> is not looked at.  A miner that waits repeats the call.\<close>

definition cuda_miner_init :: "cuda_driver \<Rightarrow> search_results \<Rightarrow> nat \<Rightarrow> int \<Rightarrow> cuda_miner \<Rightarrow> ethash_aux \<Rightarrow> cuda_statics \<Rightarrow>
    (cuda_stop + bool) \<times> cuda_miner \<times> ethash_aux \<times> cuda_statics" where
  "cuda_miner_init drv blank index epoch m aux cs =
     (if cs_dagLoadMode cs = DAG_LOAD_SEQUENTIAL \<and> unat (cs_dagLoadIndex cs) < index then (Inl WaitsForTurn, m, aux, cs)
      else if length (cs_devices cs) \<le> index then (Inl Undefined, m, aux, cs)
      else
        let device = (if -1 < cs_devices cs ! index then nat (cs_devices cs ! index) else index) in
        case light epoch aux of
          (Inl e, aux') \<Rightarrow> (Inl (CacheFailure e), m, aux', cs)
        | (Inr la, aux') \<Rightarrow>
            (case cuda_getNumDevices drv of
               Inl e \<Rightarrow> (if cs_exit cs then Inl (ExitProcess 1) else Inr False, m, aux', cs)
             | Inr n \<Rightarrow>
                 (case cuda_init drv (cs_config cs) blank (unat n) (la_light la) (la_size la) device (cs_dagLoadMode cs = DAG_LOAD_SINGLE)
                         (unat (cs_dagCreateDevice cs)) m (cs_dagInHostMemory cs) of
                    (Inl e, m', host) \<Rightarrow> (Inl e, m', aux', cs\<lparr>cs_dagInHostMemory := host\<rparr>)
                  | (Inr b, m', host) \<Rightarrow>
                      let cs1 = cs\<lparr>cs_dagInHostMemory := host, cs_dagLoadIndex := cs_dagLoadIndex cs + 1\<rparr>;
                          cs2 = (if cs_dagLoadMode cs1 = DAG_LOAD_SINGLE \<and> cs_numInstances cs1 \<le> cs_dagLoadIndex cs1 \<and> host \<noteq> None
                                 then cs1\<lparr>cs_dagInHostMemory := None\<rparr> else cs1)
                      in (Inr True, m', aux', cs2))))"

section \<open>Compiling the kernel\<close>

text \<open>\<open>kernel_text\<close> is the array generated from \<^verbatim>\<open>CUDAMiner_kernel.cu\<close>; a failure of the compiler ends the process.\<close>

definition compile_options :: "cuda_driver \<Rightarrow> nat \<Rightarrow> nat \<Rightarrow> string list" where
  "compile_options drv dev elms =
     [''--gpu-architecture=compute_'' @ to_string (pr_major (cu_props drv dev)) @ to_string (pr_minor (cu_props drv dev)),
      ''-DPROGPOW_DAG_ELEMENTS='' @ to_string elms, ''-lineinfo'']"

definition compileKernel :: "cuda_driver \<Rightarrow> string \<Rightarrow> u64 \<Rightarrow> nat \<Rightarrow> cuda_miner \<Rightarrow> cuda_stop + string \<times> string list" where
  "compileKernel drv kernel_text block elms m =
     (let text = getKern block KERNEL_CUDA @ kernel_text; opts = compile_options drv (unat (m_device_num m)) elms in
      if cu_compiles drv text opts then Inr (text, opts) else Inl (ExitProcess (-1)))"

section \<open>Listing the devices\<close>

definition list_cuda_device :: "(nat \<Rightarrow> string) \<Rightarrow> cuda_driver \<Rightarrow> nat \<Rightarrow> string" where
  "list_cuda_device pci drv i =
     stmt_line (''['' @ to_string i @ ''] '' @ pr_name (cu_props drv i)) @
     stmt_line (CHR 0x09 # ''Compute version: '' @ to_string (pr_major (cu_props drv i)) @ ''.'' @ to_string (pr_minor (cu_props drv i))) @
     stmt_line (CHR 0x09 # ''cudaDeviceProp::totalGlobalMem: '' @ to_string (pr_totalGlobalMem (cu_props drv i))) @
     stmt_line (CHR 0x09 # ''Pci: '' @ pci i)"

definition cuda_listDevices :: "(nat \<Rightarrow> string) \<Rightarrow> cuda_driver \<Rightarrow> cuda_statics \<Rightarrow> cuda_stop + string" where
  "cuda_listDevices pci drv cs =
     (let head = stmt_line [] @ stmt_line ''Listing CUDA devices.'' @ stmt_line ''FORMAT: [deviceID] deviceName'' in
      case cuda_getNumDevices drv of
        Inl e \<Rightarrow> if cs_exit cs then Inl (ExitProcess 1) else Inr head
      | Inr n \<Rightarrow> Inr (head @ concat (map (list_cuda_device pci drv) [0..<unat n])))"


section \<open>Initialisation of a miner for a new epoch\<close>

text \<open>The situation of a miner that has to load the DAG of another epoch: the driver lists its device, which has
  the memory, and allocations succeed.\<close>

definition can_load :: "cuda_driver \<Rightarrow> cuda_statics \<Rightarrow> nat \<Rightarrow> nat \<Rightarrow> cuda_miner \<Rightarrow> nat \<Rightarrow> bool" where
  "can_load drv cs index e m dev \<longleftrightarrow>
     (\<exists>n. cuda_getNumDevices drv = Inr n \<and> 0 < n \<and> index < length (cs_devices cs) \<and> cs_dagLoadMode cs \<noteq> DAG_LOAD_SEQUENTIAL \<and>
        dev = use_device (unat n) (if -1 < cs_devices cs ! index then nat (cs_devices cs ! index) else index) \<and>
        dag_sizes ! e \<le> pr_totalGlobalMem (cu_props drv dev) \<and> (\<forall>k. cu_malloc drv k)) \<and>
     m_dag_elms m \<noteq> of_nat (dag_elms (dag_sizes ! e))"

definition launch_shape :: "cuda_config \<Rightarrow> bool" where
  "launch_shape cfg \<longleftrightarrow> unat (s_blockSize cfg) mod 4 = 0 \<and> 0 < unat (s_gridSize cfg) * unat (s_blockSize cfg) \<and>
     unat (s_gridSize cfg) * unat (s_blockSize cfg) < 2 ^ 32"

lemma cuda_init_load:
  assumes "can_load drv cs index e m dev" "e < 2048" "block_number li = ETHASH_EPOCH_LENGTH * e"
    "cuda_getNumDevices drv = Inr n" "device = (if -1 < cs_devices cs ! index then nat (cs_devices cs ! index) else index)"
  shows "\<exists>m4. cuda_init drv cfg blank (unat n) li lightBytes device cpyToHost create m hostDAG =
    (case load_dag cfg (dag_sizes ! e) ((lightBytes div 64) mod 2 ^ 32) (cache li) dev cpyToHost create hostDAG of
       Inl e \<Rightarrow> (Inl e, m4, hostDAG)
     | Inr (dag, hostDAG') \<Rightarrow> (Inr True, m4\<lparr>m_cuda_dag := Some dag, m_dag_elms := of_nat (dag_elms (dag_sizes ! e))\<rparr>, hostDAG'))"
proof -
  have dev: "dev = use_device (unat n) device" "unat n \<noteq> 0" "\<not> pr_totalGlobalMem (cu_props drv dev) < dag_sizes ! e" "cu_malloc drv k"
      "of_nat (dag_elms (dag_sizes ! e)) \<noteq> m_dag_elms m" for k
    using assms(1,4,5) by (auto simp: can_load_def unat_eq_zero)
  show ?thesis
    using dev datasize_epoch [OF assms(2)] assms(3)
    by (intro exI [of _ "m\<lparr>m_device_num := of_nat dev,
      m_cuda_hwmoninfo := \<lparr>deviceType = NVIDIA, indexSource = SourceCUDA, deviceIndex = int dev\<rparr>,
      m_search_buf := replicate (unat (s_numStreams cfg)) blank, m_inflight := replicate (unat (s_numStreams cfg)) None,
      m_cuda_light := (m_cuda_light m)[dev := None, dev := Some (cache li)], m_cuda_dag := None,
      m_current_header := h256_zero, m_current_target := 0, m_current_nonce := 0, m_current_index := 0\<rparr>"])
      (simp add: cuda_init_def Let_def split: sum.split)
qed

lemma cuda_miner_init_load:
  assumes "can_load drv cs index e m dev" "aux_ok aux" "e < 2048"
  obtains li m4 aux' where "ethash_light_new True True (ETHASH_EPOCH_LENGTH * e) = Inr li" "light_ok li"
    "cuda_miner_init drv blank index (int e) m aux cs =
      (case load_dag (cs_config cs) (dag_sizes ! e) (num_parent_nodes li) (cache li) dev (cs_dagLoadMode cs = DAG_LOAD_SINGLE)
              (unat (cs_dagCreateDevice cs)) (cs_dagInHostMemory cs) of
         Inl err \<Rightarrow> (Inl err, m4, aux', cs)
       | Inr (dag, host) \<Rightarrow> (Inr True, m4\<lparr>m_cuda_dag := Some dag, m_dag_elms := of_nat (dag_elms (dag_sizes ! e))\<rparr>, aux',
           cs\<lparr>cs_dagLoadIndex := cs_dagLoadIndex cs + 1,
              cs_dagInHostMemory := (if cs_dagLoadMode cs = DAG_LOAD_SINGLE \<and> cs_numInstances cs \<le> cs_dagLoadIndex cs + 1 then None else host)\<rparr>))"
proof -
  obtain n where n: "cuda_getNumDevices drv = Inr n" using assms(1) by (auto simp: can_load_def)
  obtain li where li: "ethash_light_new True True (ETHASH_EPOCH_LENGTH * e) = Inr li" "light_ok li"
      "block_number li = ETHASH_EPOCH_LENGTH * e" "num_parent_nodes li = cache_sizes ! e div 64"
      "fst (light (int e) aux) = Inr \<lparr>la_light = li, la_size = cache_sizes ! e\<rparr>"
    using light_tabulated [OF assms(2,3)] .
  obtain aux' where l: "light (int e) aux = (Inr \<lparr>la_light = li, la_size = cache_sizes ! e\<rparr>, aux')"
    using li(5) by (cases "light (int e) aux") simp
  have w: "cache_sizes ! e div 64 mod 2 ^ 32 = num_parent_nodes li" using cache_sizes_less [OF assms(3)] li(4) by simp
  obtain m4 where m4: "cuda_init drv (cs_config cs) blank (unat n) li (cache_sizes ! e)
      (if -1 < cs_devices cs ! index then nat (cs_devices cs ! index) else index) (cs_dagLoadMode cs = DAG_LOAD_SINGLE)
      (unat (cs_dagCreateDevice cs)) m (cs_dagInHostMemory cs) =
    (case load_dag (cs_config cs) (dag_sizes ! e) (num_parent_nodes li) (cache li) dev (cs_dagLoadMode cs = DAG_LOAD_SINGLE)
            (unat (cs_dagCreateDevice cs)) (cs_dagInHostMemory cs) of
       Inl err \<Rightarrow> (Inl err, m4, cs_dagInHostMemory cs)
     | Inr (dag, hostDAG') \<Rightarrow> (Inr True, m4\<lparr>m_cuda_dag := Some dag, m_dag_elms := of_nat (dag_elms (dag_sizes ! e))\<rparr>, hostDAG'))"
    using cuda_init_load [OF assms(1,3) li(3) n refl, where lightBytes = "cache_sizes ! e" and cfg = "cs_config cs" and blank = blank]
    unfolding w by blast
  show ?thesis
  proof (rule that [OF li(1,2)])
    show "cuda_miner_init drv blank index (int e) m aux cs =
      (case load_dag (cs_config cs) (dag_sizes ! e) (num_parent_nodes li) (cache li) dev (cs_dagLoadMode cs = DAG_LOAD_SINGLE)
              (unat (cs_dagCreateDevice cs)) (cs_dagInHostMemory cs) of
         Inl err \<Rightarrow> (Inl err, m4, aux', cs)
       | Inr (dag, host) \<Rightarrow> (Inr True, m4\<lparr>m_cuda_dag := Some dag, m_dag_elms := of_nat (dag_elms (dag_sizes ! e))\<rparr>, aux',
           cs\<lparr>cs_dagLoadIndex := cs_dagLoadIndex cs + 1,
              cs_dagInHostMemory := (if cs_dagLoadMode cs = DAG_LOAD_SINGLE \<and> cs_numInstances cs \<le> cs_dagLoadIndex cs + 1 then None else host)\<rparr>))"
      using assms(1) n l m4 by (auto simp: cuda_miner_init_def can_load_def Let_def split: sum.splits)
  qed
qed

lemma generate_epoch:
  assumes "light_ok li" "e < 2048" "launch_shape cfg"
  shows "ethash_generate_dag (dag_sizes ! e) (cache li) (num_parent_nodes li) (s_gridSize cfg) (s_blockSize cfg)
    (replicate (dag_sizes ! e div 64) None) = Some (map Some (full_dag li (dag_sizes ! e div 64)))"
proof -
  have "64 * (dag_sizes ! e div 64) = dag_sizes ! e" using dag_sizes_dvd [OF assms(2)] by (auto elim!: dvdE)
  moreover have "dag_sizes ! e div 64 < 2 ^ 32 - 4" using dag_sizes_less [OF assms(2)] by simp
  ultimately show ?thesis
    using cuda_generate_filled [OF assms(1), of "replicate (dag_sizes ! e div 64) None" "dag_sizes ! e div 64" "s_blockSize cfg" "s_gridSize cfg"]
      assms(3) by (simp add: launch_shape_def)
qed

lemma can_load_shared [simp]:
  "can_load drv (cs\<lparr>cs_dagLoadIndex := i, cs_dagInHostMemory := h\<rparr>) index e m dev = can_load drv cs index e m dev"
  by (simp add: can_load_def)

lemma load_dag_generate:
  assumes "light_ok li" "e < 2048" "launch_shape cfg" "dev = create \<or> \<not> cpyToHost"
  shows "load_dag cfg (dag_sizes ! e) (num_parent_nodes li) (cache li) dev cpyToHost create None =
    Inr (map Some (full_dag li (dag_sizes ! e div 64)), if cpyToHost then Some (map Some (full_dag li (dag_sizes ! e div 64))) else None)"
  using assms(4) by (simp add: load_dag_def generate_epoch [OF assms(1-3)])

text \<open>When the device has too little memory \<open>cuda_init\<close> returns false and \<open>init\<close> reports success all the same, with
  the DAG of the old epoch still in place.\<close>

lemma memory_failure_ignored:
  assumes "aux_ok aux" "e < 2048" "cuda_getNumDevices drv = Inr n" "0 < n" "index < length (cs_devices cs)" "cs_dagLoadMode cs = 0"
    "dev = use_device (unat n) (if -1 < cs_devices cs ! index then nat (cs_devices cs ! index) else index)"
    "pr_totalGlobalMem (cu_props drv dev) < dag_sizes ! e" "m_dag_elms m \<noteq> of_nat (dag_elms (dag_sizes ! e))"
  shows "\<exists>m' aux' cs'. cuda_miner_init drv blank index (int e) m aux cs = (Inr True, m', aux', cs') \<and> m_cuda_dag m' = m_cuda_dag m \<and>
    m_dag_elms m' = m_dag_elms m"
proof -
  obtain li where li: "block_number li = ETHASH_EPOCH_LENGTH * e" "fst (light (int e) aux) = Inr \<lparr>la_light = li, la_size = cache_sizes ! e\<rparr>"
    using light_tabulated [OF assms(1,2)] .
  obtain aux' where "light (int e) aux = (Inr \<lparr>la_light = li, la_size = cache_sizes ! e\<rparr>, aux')"
    using li(2) by (cases "light (int e) aux") simp
  moreover have "unat n \<noteq> 0" using assms(4) by (auto simp: unat_eq_zero)
  ultimately show ?thesis
    using assms(3,5-9) li(1) datasize_epoch [OF assms(2)]
    by (simp add: cuda_miner_init_def cuda_init_def Let_def DAG_LOAD_SEQUENTIAL_def DAG_LOAD_SINGLE_def eq_commute [of "m_dag_elms m"])
qed

section \<open>A sample driver\<close>

definition demo_cuda :: cuda_driver where
  "demo_cuda = \<lparr>cu_count = Inr 2, cu_driverVersion = 9010, cu_props = (\<lambda>_. \<lparr>pr_name = ''GTX'', pr_major = 6, pr_minor = 1, pr_totalGlobalMem = 2 ^ 36\<rparr>),
     cu_malloc = (\<lambda>_. True), cu_compiles = (\<lambda>_ _. True)\<rparr>"

definition demo_miner :: cuda_miner where
  "demo_miner = \<lparr>m_current_header = [], m_current_target = 0, m_current_nonce = 0, m_starting_nonce = 0, m_current_index = 0, m_device_num = 0,
     m_search_buf = [], m_inflight = [], m_new_work = False, m_hashCount = 0, m_cuda_dag = None, m_cuda_light = [None, None], m_dag_elms = -1,
     m_cuda_hwmoninfo = \<lparr>deviceType = TypeUnknown, indexSource = SourceUnknown, deviceIndex = -1\<rparr>\<rparr>"

lemma demo_can_load:
  assumes "index < 2" "e < 2048" "cs_devices cs = replicate 32 (-1)" "cs_dagLoadMode cs \<noteq> DAG_LOAD_SEQUENTIAL"
  shows "can_load demo_cuda cs index e demo_miner index"
proof -
  have "dag_elms (dag_sizes ! e) < 2 ^ 32 - 1" using dag_sizes_less [OF assms(2)]
    by (simp add: dag_elms_def PROGPOW_LANES_def PROGPOW_DAG_LOADS_def)
  then have "(of_nat (dag_elms (dag_sizes ! e)) :: u32) \<noteq> 4294967295"
    using word_of_nat_eq_iff [where 'a = 32, of "dag_elms (dag_sizes ! e)" "2 ^ 32 - 1"] by (simp add: take_bit_nat_eq_self)
  moreover have "(-1 :: u32) = 4294967295" by simp
  ultimately have "(of_nat (dag_elms (dag_sizes ! e)) :: u32) \<noteq> -1" by metis
  then show ?thesis
    using assms dag_sizes_less [OF assms(2)]
    by (auto simp: can_load_def demo_cuda_def demo_miner_def cuda_getNumDevices_def use_device_def)
qed

section \<open>Properties\<close>

text \<open>
  In parallel mode a miner that enters another tabulated epoch ends its initialisation with exactly the
  DAG of the light client of that epoch on its device, for every launch shape whose block size is
  a multiple of four.
\<close>

theorem cuda_epoch_loaded:
  assumes "can_load drv cs index e m dev" "cs_dagLoadMode cs = 0" "launch_shape (cs_config cs)" "cs_dagInHostMemory cs = None"
    "aux_reachable aux" "e < 2048"
  shows "\<exists>li m' aux' cs'. ethash_light_new True True (ETHASH_EPOCH_LENGTH * e) = Inr li \<and>
    cuda_miner_init drv blank index (int e) m aux cs = (Inr True, m', aux', cs') \<and>
    m_cuda_dag m' = Some (map Some (full_dag li (dag_sizes ! e div 64))) \<and> m_dag_elms m' = of_nat (dag_elms (dag_sizes ! e)) \<and>
    cs_dagLoadIndex cs' = cs_dagLoadIndex cs + 1 \<and> cs_dagInHostMemory cs' = None"
  by (rule cuda_miner_init_load [OF assms(1) aux_reachable_ok [OF assms(5)] assms(6), of blank])
    (use assms(2,4) in \<open>simp add: load_dag_generate assms(3,6) DAG_LOAD_SINGLE_def\<close>)

theorem cuda_epoch_loaded_witness:
  "\<exists>li m' aux' cs'. ethash_light_new True True (ETHASH_EPOCH_LENGTH * 7) = Inr li \<and>
    cuda_miner_init demo_cuda \<lparr>sr_count = 0, sr_result = []\<rparr> 1 7 demo_miner aux_init cuda_statics_init = (Inr True, m', aux', cs') \<and>
    m_cuda_dag m' = Some (map Some (full_dag li (dag_sizes ! 7 div 64)))"
proof -
  have "can_load demo_cuda cuda_statics_init 1 7 demo_miner 1" by (rule demo_can_load) (simp_all add: cuda_statics_init_def DAG_LOAD_SEQUENTIAL_def)
  from cuda_epoch_loaded [OF this _ _ _ aux_reachable.start, of "\<lparr>sr_count = 0, sr_result = []\<rparr>"] show ?thesis
    by (auto simp: cuda_statics_init_def launch_shape_def c_defaultBlockSize_def c_defaultGridSize_def)
qed

text \<open>
  C35: with the DAG generated on a single device and shared through host memory.  While miners are missing the
  other devices receive a copy of the same DAG; but the counter of loaded DAGs is never reset, so from
  the epoch in which it has reached the number of miners the creator frees the shared DAG at once and a
  miner on another device waits for it forever, whatever the state of the light caches.
\<close>

theorem single_dag_second_epoch:
  assumes "cs_dagLoadMode cs = DAG_LOAD_SINGLE" "launch_shape (cs_config cs)" "cs_dagInHostMemory cs = None" "aux_reachable aux" "e < 2048"
    "can_load drv cs i e mi (unat (cs_dagCreateDevice cs))" "can_load drv cs j e mj dj" "dj \<noteq> unat (cs_dagCreateDevice cs)"
  shows "\<exists>li mi' aux' cs'. ethash_light_new True True (ETHASH_EPOCH_LENGTH * e) = Inr li \<and>
    cuda_miner_init drv blank i (int e) mi aux cs = (Inr True, mi', aux', cs') \<and>
    m_cuda_dag mi' = Some (map Some (full_dag li (dag_sizes ! e div 64))) \<and>
    (if cs_numInstances cs \<le> cs_dagLoadIndex cs + 1
     then \<forall>aux2. aux_reachable aux2 \<longrightarrow> fst (cuda_miner_init drv blank j (int e) mj aux2 cs') = Inl WaitsForHostDAG
     else \<forall>aux2. aux_reachable aux2 \<longrightarrow> (\<exists>mj' aux3 cs''. cuda_miner_init drv blank j (int e) mj aux2 cs' = (Inr True, mj', aux3, cs'') \<and>
       m_cuda_dag mj' = m_cuda_dag mi'))"
proof -
  let ?N = "dag_sizes ! e div 64" and ?c = "unat (cs_dagCreateDevice cs)"
  obtain li m4 aux' where li: "ethash_light_new True True (ETHASH_EPOCH_LENGTH * e) = Inr li" "light_ok li"
    and init: "cuda_miner_init drv blank i (int e) mi aux cs =
      (case load_dag (cs_config cs) (dag_sizes ! e) (num_parent_nodes li) (cache li) ?c (cs_dagLoadMode cs = DAG_LOAD_SINGLE)
              ?c (cs_dagInHostMemory cs) of
         Inl err \<Rightarrow> (Inl err, m4, aux', cs)
       | Inr (dag, host) \<Rightarrow> (Inr True, m4\<lparr>m_cuda_dag := Some dag, m_dag_elms := of_nat (dag_elms (dag_sizes ! e))\<rparr>, aux',
           cs\<lparr>cs_dagLoadIndex := cs_dagLoadIndex cs + 1,
              cs_dagInHostMemory := (if cs_dagLoadMode cs = DAG_LOAD_SINGLE \<and> cs_numInstances cs \<le> cs_dagLoadIndex cs + 1 then None else host)\<rparr>))"
    using cuda_miner_init_load [OF assms(6) aux_reachable_ok [OF assms(4)] assms(5), of blank] .
  define full where "full = map Some (full_dag li ?N)"
  have len: "length full = ?N" by (simp add: full_def full_dag_def)
  define cs' where "cs' = cs\<lparr>cs_dagLoadIndex := cs_dagLoadIndex cs + 1,
    cs_dagInHostMemory := (if cs_numInstances cs \<le> cs_dagLoadIndex cs + 1 then None else Some full)\<rparr>"
  have i: "cuda_miner_init drv blank i (int e) mi aux cs =
      (Inr True, m4\<lparr>m_cuda_dag := Some full, m_dag_elms := of_nat (dag_elms (dag_sizes ! e))\<rparr>, aux', cs')"
    using assms(1,3) init by (simp add: load_dag_generate [OF li(2) assms(5,2)] cs'_def full_def)
  have cs': "cs_dagLoadMode cs' = DAG_LOAD_SINGLE" "cs_dagCreateDevice cs' = cs_dagCreateDevice cs" "can_load drv cs' j e mj dj"
      "cs_dagInHostMemory cs' = (if cs_numInstances cs \<le> cs_dagLoadIndex cs + 1 then None else Some full)"
    using assms(1,7) by (simp_all add: cs'_def)
  have waits: "fst (cuda_miner_init drv blank j (int e) mj aux2 cs') = Inl WaitsForHostDAG"
    if "aux_reachable aux2" "cs_numInstances cs \<le> cs_dagLoadIndex cs + 1" for aux2
    by (rule cuda_miner_init_load [OF cs'(3) aux_reachable_ok [OF that(1)] assms(5), of blank])
      (use that(2) assms(8) cs' in \<open>simp add: load_dag_def\<close>)
  have copies: "\<exists>mj' aux3 cs''. cuda_miner_init drv blank j (int e) mj aux2 cs' = (Inr True, mj', aux3, cs'') \<and> m_cuda_dag mj' = Some full"
    if "aux_reachable aux2" "\<not> cs_numInstances cs \<le> cs_dagLoadIndex cs + 1" for aux2
    by (rule cuda_miner_init_load [OF cs'(3) aux_reachable_ok [OF that(1)] assms(5), of blank])
      (use that(2) cs' len in \<open>simp add: load_dag_def\<close>)
  show ?thesis using li(1) i waits copies by (auto simp: full_def)
qed

text \<open>Two devices, two miners, one DAG loaded before: the second miner waits forever.\<close>

theorem single_dag_second_epoch_witness:
  "\<exists>mi' aux' cs'. cuda_miner_init demo_cuda \<lparr>sr_count = 0, sr_result = []\<rparr> 0 7 demo_miner aux_init
      (cuda_statics_init\<lparr>cs_numInstances := 2, cs_dagLoadMode := 2, cs_dagLoadIndex := 2\<rparr>) = (Inr True, mi', aux', cs') \<and>
    fst (cuda_miner_init demo_cuda \<lparr>sr_count = 0, sr_result = []\<rparr> 1 7 demo_miner aux_init cs') = Inl WaitsForHostDAG"
proof -
  let ?cs = "cuda_statics_init\<lparr>cs_numInstances := 2, cs_dagLoadMode := 2, cs_dagLoadIndex := 2\<rparr>" and ?b = "\<lparr>sr_count = 0, sr_result = []\<rparr>"
  have l: "can_load demo_cuda ?cs k 7 demo_miner k" if "k < 2" for k
    using that by (rule demo_can_load) (simp_all add: cuda_statics_init_def DAG_LOAD_SEQUENTIAL_def)
  have s: "cs_dagLoadMode ?cs = DAG_LOAD_SINGLE" "launch_shape (cs_config ?cs)" "cs_dagInHostMemory ?cs = None" "cs_dagCreateDevice ?cs = 0"
      "cs_numInstances ?cs \<le> cs_dagLoadIndex ?cs + 1"
    by (simp_all add: cuda_statics_init_def DAG_LOAD_SINGLE_def launch_shape_def c_defaultBlockSize_def c_defaultGridSize_def)
  have "can_load demo_cuda ?cs 0 7 demo_miner (unat (cs_dagCreateDevice ?cs))" "can_load demo_cuda ?cs 1 7 demo_miner 1"
    using l [of 0] l [of 1] s(4) by simp_all
  from single_dag_second_epoch [OF s(1-3) aux_reachable.start _ this, of ?b] s(4,5) aux_reachable.start show ?thesis by auto
qed

end
