(* ===== verification/CudaCompile.thy ===== *)
theory CudaCompile
  imports CudaInit
begin

text \<open>
  How the CUDA miner compiles and loads a search kernel, call by call, and how its work loop ends: \<open>compileKernel\<close> and the handlers
  around \<open>workLoop\<close> in \<^verbatim>\<open>libethash-cuda/CUDAMiner.cpp\<close>, with the checking macros of \<^verbatim>\<open>CUDAMiner_cuda.h\<close>.  The runtime compiler
  and the driver are the parameter \<open>cuda_rtc\<close>.  The facts connect the calls with the summary \<open>compileKernel\<close> the initialisation uses.
\<close>

section \<open>The checking macros\<close>

definition CUDA_SAFE_CALL :: "string \<Rightarrow> nat \<Rightarrow> string \<Rightarrow> string option \<Rightarrow> string + unit" where
  "CUDA_SAFE_CALL func lineno call res =
     (case res of
        None \<Rightarrow> Inr ()
      | Some msg \<Rightarrow> Inl (''CUDA error in func '' @ func @ '' at line '' @ to_string lineno @ '' calling '' @ call @ '' failed with error '' @ msg))"

definition CU_SAFE_CALL :: "string \<Rightarrow> nat \<Rightarrow> string \<Rightarrow> string option \<Rightarrow> string + unit" where
  "CU_SAFE_CALL func lineno call res =
     (case res of
        None \<Rightarrow> Inr ()
      | Some msg \<Rightarrow> Inl (''CUDA error in func '' @ func @ '' at line '' @ to_string lineno @ '' calling '' @ call @ '' failed with error '' @ msg))"

definition NVRTC_SAFE_CALL :: "string \<Rightarrow> nat \<Rightarrow> string \<Rightarrow> string option \<Rightarrow> string + unit" where
  "NVRTC_SAFE_CALL func lineno call res =
     (case res of
        None \<Rightarrow> Inr ()
      | Some msg \<Rightarrow> Inl (''CUDA NVRTC error in func '' @ func @ '' at line '' @ to_string lineno @ '' calling '' @ call @
          '' failed with error '' @ msg @ [CHR 0x0A]))"

section \<open>Compiling and loading\<close>

text \<open>
  The runtime: the error of a call, named by its text, if it fails; the compilation of a text with options, its log and the PTX; the
  two logs of the loader; the mangled name of a kernel.  \<open>rtc_line\<close> is the line number the compiler of the miner puts
  in for a call.
\<close>

record cuda_rtc =
  rtc_line :: "string \<Rightarrow> nat"
  rtc_fails :: "string \<Rightarrow> string option"
  rtc_compile :: "string \<Rightarrow> string list \<Rightarrow> string option"
  rtc_log :: "string \<Rightarrow> string list \<Rightarrow> string"
  rtc_ptx :: "string \<Rightarrow> string list \<Rightarrow> string"
  rtc_jit :: "string \<Rightarrow> string \<times> string"
  rtc_mangled :: "string \<Rightarrow> string"

datatype compile_event = WriteFile string string | CudaLog string

text \<open>A step: what it writes and logs, and either the exception thrown or its value.\<close>

type_synonym 'a compiling = "compile_event list \<times> (string + 'a)"

definition emits :: "compile_event list \<Rightarrow> unit compiling" where
  "emits es = (es, Inr ())"

definition checked :: "string + unit \<Rightarrow> unit compiling" where
  "checked r = ([], r)"

definition andThenC :: "'a compiling \<Rightarrow> ('a \<Rightarrow> 'b compiling) \<Rightarrow> 'b compiling" where
  "andThenC c f = (case snd c of Inl e \<Rightarrow> (fst c, Inl e) | Inr v \<Rightarrow> (fst c @ fst (f v), snd (f v)))"

definition nvrtc :: "cuda_rtc \<Rightarrow> string \<Rightarrow> unit compiling" where
  "nvrtc rt call = checked (NVRTC_SAFE_CALL ''compileKernel'' (rtc_line rt call) call (rtc_fails rt call))"

definition cu :: "cuda_rtc \<Rightarrow> string \<Rightarrow> unit compiling" where
  "cu rt call = checked (CU_SAFE_CALL ''compileKernel'' (rtc_line rt call) call (rtc_fails rt call))"

definition create_call :: string where
  "create_call = ''nvrtcCreateProgram( &prog, text.c_str(), '' @ [CHR 0x22] @ ''kernel.cu'' @ [CHR 0x22] @ '', 0, NULL, NULL)''"

definition compileKernel_calls :: "cuda_rtc \<Rightarrow> cuda_driver \<Rightarrow> string \<Rightarrow> u64 \<Rightarrow> nat \<Rightarrow> cuda_miner \<Rightarrow> (string \<times> string) compiling" where
  "compileKernel_calls rt drv kernel_text block elms m =
     (let text = getKern block KERNEL_CUDA @ kernel_text;
          opts = compile_options drv (unat (m_device_num m)) elms;
          ptx = rtc_ptx rt text opts;
          mangledName = rtc_mangled rt ''progpow_search'';
          compileResult = rtc_compile rt text opts in
      andThenC (emits [WriteFile ''kernel.cu'' text]) (\<lambda>_.
      andThenC (nvrtc rt create_call) (\<lambda>_.
      andThenC (nvrtc rt ''nvrtcAddNameExpression(prog, name)'') (\<lambda>_.
      andThenC (checked (CUDA_SAFE_CALL ''compileKernel'' (rtc_line rt ''cudaGetDeviceProperties(&device_props, m_device_num)'')
          ''cudaGetDeviceProperties(&device_props, m_device_num)'' (rtc_fails rt ''cudaGetDeviceProperties(&device_props, m_device_num)''))) (\<lambda>_.
      andThenC (nvrtc rt ''nvrtcGetProgramLogSize(prog, &logSize)'') (\<lambda>_.
      andThenC (nvrtc rt ''nvrtcGetProgramLog(prog, log)'') (\<lambda>_.
      andThenC (emits [CudaLog (''Compile log: '' @ rtc_log rt text opts)]) (\<lambda>_.
      andThenC (checked (NVRTC_SAFE_CALL ''compileKernel'' (rtc_line rt ''compileResult'') ''compileResult'' compileResult)) (\<lambda>_.
      andThenC (nvrtc rt ''nvrtcGetPTXSize(prog, &ptxSize)'') (\<lambda>_.
      andThenC (nvrtc rt ''nvrtcGetPTX(prog, ptx)'') (\<lambda>_.
      andThenC (emits [WriteFile ''kernel.ptx'' ptx]) (\<lambda>_.
      andThenC (cu rt ''cuModuleLoadDataEx(&m_module, ptx, 6, jitOpt, jitOptVal)'') (\<lambda>_.
      andThenC (emits [CudaLog (''JIT info: '' @ CHR 0x0A # fst (rtc_jit rt ptx)), CudaLog (''JIT err: '' @ CHR 0x0A # snd (rtc_jit rt ptx))]) (\<lambda>_.
      andThenC (nvrtc rt ''nvrtcGetLoweredName(prog, name, &mangledName)'') (\<lambda>_.
      andThenC (emits [CudaLog (''Mangled name: '' @ mangledName)]) (\<lambda>_.
      andThenC (cu rt ''cuModuleGetFunction(&m_kernel, m_module, mangledName)'') (\<lambda>_.
      andThenC (emits [CudaLog ''done compiling'']) (\<lambda>_.
      andThenC (nvrtc rt ''nvrtcDestroyProgram(&prog)'') (\<lambda>_.
      ([], Inr (ptx, mangledName)))))))))))))))))))))"

section \<open>The end of the work loop\<close>

datatype cuda_exn = cuda_runtime_error string | runtime_error string

datatype loop_end = LoopReturned | LoopExit int

text \<open>\<open>thrown\<close> is the exception that left the loop, if any; otherwise the device is reset.\<close>

definition workLoop_end :: "bool \<Rightarrow> nat \<Rightarrow> string option \<Rightarrow> cuda_exn option \<Rightarrow> loop_end \<times> string list" where
  "workLoop_end s_exit lineno reset thrown =
     (let e = (case thrown of
                 Some e \<Rightarrow> Some e
               | None \<Rightarrow> (case CUDA_SAFE_CALL ''workLoop'' lineno ''cudaDeviceReset()'' reset of
                            Inl msg \<Rightarrow> Some (cuda_runtime_error msg)
                          | Inr _ \<Rightarrow> None))
      in case e of
           None \<Rightarrow> (LoopReturned, [])
         | Some (cuda_runtime_error msg) \<Rightarrow> (LoopExit (-1), [''Fatal GPU error: '' @ msg, ''Terminating.''])
         | Some (runtime_error msg) \<Rightarrow> ((if s_exit then LoopExit 1 else LoopReturned), [''Error CUDA mining: '' @ msg]))"

section \<open>Facts\<close>

definition rtc_calls :: "string list" where
  "rtc_calls =
     [create_call, ''nvrtcAddNameExpression(prog, name)'', ''cudaGetDeviceProperties(&device_props, m_device_num)'',
      ''nvrtcGetProgramLogSize(prog, &logSize)'', ''nvrtcGetProgramLog(prog, log)'', ''nvrtcGetPTXSize(prog, &ptxSize)'', ''nvrtcGetPTX(prog, ptx)'',
      ''cuModuleLoadDataEx(&m_module, ptx, 6, jitOpt, jitOptVal)'', ''nvrtcGetLoweredName(prog, name, &mangledName)'',
      ''cuModuleGetFunction(&m_kernel, m_module, mangledName)'', ''nvrtcDestroyProgram(&prog)'']"

lemma andThenC_Inr: "snd (andThenC c f) = Inr v \<longleftrightarrow> (\<exists>u. snd c = Inr u \<and> snd (f u) = Inr v)"
  by (auto simp: andThenC_def split: sum.splits)

lemma steps_Inr:
  "snd (nvrtc rt call) = Inr u \<longleftrightarrow> rtc_fails rt call = None" "snd (cu rt call) = Inr u \<longleftrightarrow> rtc_fails rt call = None"
  "snd (checked (NVRTC_SAFE_CALL func l call r)) = Inr u \<longleftrightarrow> r = None" "snd (checked (CUDA_SAFE_CALL func l call r)) = Inr u \<longleftrightarrow> r = None"
  "snd (emits es) = Inr u \<longleftrightarrow> True"
  by (auto simp: nvrtc_def cu_def checked_def emits_def NVRTC_SAFE_CALL_def CU_SAFE_CALL_def CUDA_SAFE_CALL_def split: option.splits)

lemma compileKernel_success:
  "snd (compileKernel_calls rt drv kernel_text block elms m) = Inr k \<longleftrightarrow>
     list_all (\<lambda>c. rtc_fails rt c = None) rtc_calls \<and>
     (let text = getKern block KERNEL_CUDA @ kernel_text; opts = compile_options drv (unat (m_device_num m)) elms
      in rtc_compile rt text opts = None \<and> k = (rtc_ptx rt text opts, rtc_mangled rt ''progpow_search''))"
  unfolding compileKernel_calls_def Let_def andThenC_Inr steps_Inr rtc_calls_def by auto

text \<open>
  The option \<^verbatim>\<open>--exit\<close> is documented to stop the miner when an error is encountered; an error of a CUDA call ends the
  process with or without it, also when only the final reset of the device fails.
\<close>

lemma workLoop_end_cuda:
  "fst (workLoop_end s_exit lineno reset (Some (cuda_runtime_error msg))) = LoopExit (-1)"
  "fst (workLoop_end s_exit lineno (Some msg) None) = LoopExit (-1)"
  by (simp_all add: workLoop_end_def CUDA_SAFE_CALL_def)

lemma workLoop_end_returns:
  "fst (workLoop_end s_exit lineno reset thrown) = LoopReturned \<longleftrightarrow>
     (thrown = None \<and> reset = None) \<or> (\<not> s_exit \<and> (\<exists>msg. thrown = Some (runtime_error msg)))"
  by (auto simp: workLoop_end_def CUDA_SAFE_CALL_def split: option.splits cuda_exn.splits)

text \<open>
  The summary of the compilation in \<^verbatim>\<open>CudaInit\<close>, with a driver whose compilation succeeds when all the calls do: the calls load
  the PTX of exactly the text and options of the summary, and when one of them fails the process ends as it says.
\<close>

lemma compileKernel_refined:
  assumes "\<And>text opts. cu_compiles drv text opts \<longleftrightarrow> rtc_compile rt text opts = None \<and> list_all (\<lambda>c. rtc_fails rt c = None) rtc_calls"
  shows "case snd (compileKernel_calls rt drv kernel_text block elms m) of
      Inr k \<Rightarrow> \<exists>text opts. compileKernel drv kernel_text block elms m = Inr (text, opts) \<and> k = (rtc_ptx rt text opts, rtc_mangled rt ''progpow_search'')
    | Inl e \<Rightarrow> compileKernel drv kernel_text block elms m = Inl (ExitProcess (-1)) \<and>
        fst (workLoop_end s_exit lineno reset (Some (cuda_runtime_error e))) = LoopExit (-1)"
proof (cases "snd (compileKernel_calls rt drv kernel_text block elms m)")
  case (Inl e)
  then have "\<not> (\<exists>k. snd (compileKernel_calls rt drv kernel_text block elms m) = Inr k)" by simp
  then show ?thesis using Inl assms unfolding compileKernel_success by (auto simp: compileKernel_def Let_def workLoop_end_cuda)
next
  case (Inr k)
  then show ?thesis using assms compileKernel_success [of rt drv kernel_text block elms m k] by (simp add: compileKernel_def Let_def)
qed

end
