(* ===== verification/ClMiner.thy ===== *)
theory ClMiner
  imports CudaMiner Farm DagKernel
begin

unbundle bit_operations_syntax

text \<open>
  The host side of the OpenCL miner, \<^verbatim>\<open>libethash-cl/CLMiner.{h,cpp}\<close>: the choice of platform and device,
  \<open>init\<close> with its buffers and the source text it compiles, and the iterations of \<open>workLoop\<close>.  The OpenCL
  runtime is a parameter (\<open>cl_driver\<close>): the platforms it lists, which sources build, which
  allocations succeed, and whether it refuses a buffer or kernel of another context, as the OpenCL
  specification asks (\<open>drv_checks_context\<close>).  Contexts are numbered, 0 standing for the null handle,
  and every buffer, queue and kernel carries the number of its context.  The effect of a search kernel
  on the result buffer is the parameter \<open>run\<close>.  Failures of other runtime calls are not distinguished.
\<close>

section \<open>The OpenCL runtime\<close>

datatype cl_error = PLATFORM_NOT_FOUND_KHR | DEVICE_NOT_FOUND | MEM_OBJECT_ALLOCATION_FAILURE | INVALID_CONTEXT |
  INVALID_COMMAND_QUEUE | INVALID_MEM_OBJECT | INVALID_KERNEL | INVALID_KERNEL_ARGS | INVALID_GLOBAL_WORK_SIZE | OtherClError int

text \<open>What ends \<open>init\<close> or the thread: an OpenCL exception, undefined behaviour of an index, a division by zero,
  an exception of the caches, a failed assertion, a call of \<open>exit(1)\<close>, a kernel that does not return.\<close>

datatype cl_stop = OpenCL cl_error | OutOfRange | DivisionByZero | Uncaught aux_error | AssertFailed | Exit | Hangs

text \<open>The names of the error codes.  The codes are constants of the OpenCL headers: \<open>const name\<close> is the value the header gives
  to a name, \<open>None\<close> when its version does not define it, and the corresponding case is left out by the preprocessor.\<close>

definition cl_error_names :: "string list" where
  "cl_error_names =
   [''CL_SUCCESS'', ''CL_DEVICE_NOT_FOUND'', ''CL_DEVICE_NOT_AVAILABLE'', ''CL_COMPILER_NOT_AVAILABLE'',
    ''CL_MEM_OBJECT_ALLOCATION_FAILURE'', ''CL_OUT_OF_RESOURCES'', ''CL_OUT_OF_HOST_MEMORY'', ''CL_PROFILING_INFO_NOT_AVAILABLE'',
    ''CL_MEM_COPY_OVERLAP'', ''CL_IMAGE_FORMAT_MISMATCH'', ''CL_IMAGE_FORMAT_NOT_SUPPORTED'', ''CL_BUILD_PROGRAM_FAILURE'',
    ''CL_MAP_FAILURE'', ''CL_MISALIGNED_SUB_BUFFER_OFFSET'', ''CL_EXEC_STATUS_ERROR_FOR_EVENTS_IN_WAIT_LIST'',
    ''CL_COMPILE_PROGRAM_FAILURE'', ''CL_LINKER_NOT_AVAILABLE'', ''CL_LINK_PROGRAM_FAILURE'', ''CL_DEVICE_PARTITION_FAILED'',
    ''CL_KERNEL_ARG_INFO_NOT_AVAILABLE'', ''CL_INVALID_VALUE'', ''CL_INVALID_DEVICE_TYPE'', ''CL_INVALID_PLATFORM'',
    ''CL_INVALID_DEVICE'', ''CL_INVALID_CONTEXT'', ''CL_INVALID_QUEUE_PROPERTIES'', ''CL_INVALID_COMMAND_QUEUE'',
    ''CL_INVALID_HOST_PTR'', ''CL_INVALID_MEM_OBJECT'', ''CL_INVALID_IMAGE_FORMAT_DESCRIPTOR'', ''CL_INVALID_IMAGE_SIZE'',
    ''CL_INVALID_SAMPLER'', ''CL_INVALID_BINARY'', ''CL_INVALID_BUILD_OPTIONS'', ''CL_INVALID_PROGRAM'',
    ''CL_INVALID_PROGRAM_EXECUTABLE'', ''CL_INVALID_KERNEL_NAME'', ''CL_INVALID_KERNEL_DEFINITION'', ''CL_INVALID_KERNEL'',
    ''CL_INVALID_ARG_INDEX'', ''CL_INVALID_ARG_VALUE'', ''CL_INVALID_ARG_SIZE'', ''CL_INVALID_KERNEL_ARGS'',
    ''CL_INVALID_WORK_DIMENSION'', ''CL_INVALID_WORK_GROUP_SIZE'', ''CL_INVALID_WORK_ITEM_SIZE'', ''CL_INVALID_GLOBAL_OFFSET'',
    ''CL_INVALID_EVENT_WAIT_LIST'', ''CL_INVALID_EVENT'', ''CL_INVALID_OPERATION'', ''CL_INVALID_GL_OBJECT'',
    ''CL_INVALID_BUFFER_SIZE'', ''CL_INVALID_MIP_LEVEL'', ''CL_INVALID_GLOBAL_WORK_SIZE'', ''CL_INVALID_PROPERTY'',
    ''CL_INVALID_IMAGE_DESCRIPTOR'', ''CL_INVALID_COMPILER_OPTIONS'', ''CL_INVALID_LINKER_OPTIONS'',
    ''CL_INVALID_DEVICE_PARTITION_COUNT'', ''CL_INVALID_PIPE_SIZE'', ''CL_INVALID_DEVICE_QUEUE'', ''CL_INVALID_SPEC_ID'',
    ''CL_MAX_SIZE_RESTRICTION_EXCEEDED'']"

definition strClError :: "(string \<rightharpoonup> int) \<Rightarrow> int \<Rightarrow> string" where
  "strClError const err =
     (case find (\<lambda>n. const n = Some err) cl_error_names of Some n \<Rightarrow> n | None \<Rightarrow> ''Unknown CL error encountered'')"

definition ethCLErrorHelper :: "(string \<rightharpoonup> int) \<Rightarrow> string \<Rightarrow> string \<times> int \<Rightarrow> string" where
  "ethCLErrorHelper const msg clerr =
     msg @ '': '' @ fst clerr @ '': '' @ strClError const (snd clerr) @ '' ('' @ int_text (snd clerr) @ '')''"

datatype cl_device_type = TYPE_CPU | TYPE_GPU | TYPE_ACCELERATOR | TYPE_DEFAULT

record cl_device =
  dev_name :: string
  dev_version :: string
  dev_type :: cl_device_type
  dev_globalMem :: nat
  dev_maxAlloc :: nat
  dev_maxGroup :: nat
  dev_compute :: "u32 \<times> u32"

record cl_platform =
  plat_name :: string
  plat_devices :: "cl_error + cl_device list"

record cl_driver =
  drv_platforms :: "cl_error + cl_platform list"
  drv_builds :: "string \<Rightarrow> string \<Rightarrow> bool"
  drv_alloc :: "nat \<Rightarrow> bool"
  drv_checks_context :: bool

definition getPlatforms :: "cl_driver \<Rightarrow> cl_stop + cl_platform list" where
  "getPlatforms drv =
     (case drv_platforms drv of
        Inr ps \<Rightarrow> Inr ps
      | Inl err \<Rightarrow> if err = PLATFORM_NOT_FOUND_KHR then Inr [] else Inl (OpenCL err))"

text \<open>With no platform \<open>_platforms.size() - 1\<close> wraps and the index is out of range.\<close>

definition getDevices :: "cl_platform list \<Rightarrow> nat \<Rightarrow> cl_stop + cl_device list" where
  "getDevices platforms platformId =
     (if platforms = [] then Inl OutOfRange
      else case plat_devices (platforms ! min platformId (length platforms - 1)) of
        Inr ds \<Rightarrow> Inr ds
      | Inl err \<Rightarrow> if err \<noteq> DEVICE_NOT_FOUND then Inl (OpenCL err) else Inr [])"

section \<open>Static settings\<close>

datatype CLKernelName = Stable | Experimental

record cl_statics =
  s_platformId :: u32
  s_numInstances :: u32
  s_threadsPerHash :: u32
  s_clKernelName :: CLKernelName
  s_devices :: "int list"
  s_workgroupSize :: u32
  s_initialGlobalWorkSize :: u32
  s_dagLoadMode :: u32
  s_dagCreateDevice :: u32
  s_exit :: bool

definition MAX_MINERS :: nat where "MAX_MINERS = 2 ^ LOG2_MAX_MINERS"
definition c_defaultLocalWorkSize :: u32 where "c_defaultLocalWorkSize = 256"
definition c_defaultGlobalWorkSizeMultiplier :: u32 where "c_defaultGlobalWorkSizeMultiplier = 2048"
definition DAG_LOAD_MODE_SEQUENTIAL :: u32 where "DAG_LOAD_MODE_SEQUENTIAL = 1"

definition cl_statics_init :: cl_statics where
  "cl_statics_init = \<lparr>s_platformId = 0, s_numInstances = 0, s_threadsPerHash = 8, s_clKernelName = Stable,
     s_devices = replicate MAX_MINERS (-1), s_workgroupSize = c_defaultLocalWorkSize,
     s_initialGlobalWorkSize = c_defaultGlobalWorkSizeMultiplier * c_defaultLocalWorkSize,
     s_dagLoadMode = 0, s_dagCreateDevice = 0, s_exit = False\<rparr>"

definition instances :: "cl_statics \<Rightarrow> u32" where
  "instances cs = (if 0 < s_numInstances cs then s_numInstances cs else 1)"

definition getNumDevices :: "cl_driver \<Rightarrow> cl_statics \<Rightarrow> cl_stop + u32" where
  "getNumDevices drv cs =
     bindE (getPlatforms drv) (\<lambda>platforms.
       if platforms = [] then Inr 0
       else bindE (getDevices platforms (unat (s_platformId cs))) (\<lambda>devices.
         if devices = [] then Inr 0 else Inr (of_nat (length devices))))"

definition setNumInstances :: "cl_driver \<Rightarrow> u32 \<Rightarrow> cl_statics \<Rightarrow> cl_stop + cl_statics" where
  "setNumInstances drv n cs = bindE (getNumDevices drv cs) (\<lambda>k. Inr (cs\<lparr>s_numInstances := min n k\<rparr>))"

definition setThreadsPerHash :: "u32 \<Rightarrow> cl_statics \<Rightarrow> cl_statics" where
  "setThreadsPerHash n cs = cs\<lparr>s_threadsPerHash := n\<rparr>"

text \<open>Both vectors are indexed without a check.\<close>

definition setDevices :: "u32 list \<Rightarrow> nat \<Rightarrow> cl_statics \<Rightarrow> cl_stop + cl_statics" where
  "setDevices devices selectedDeviceCount cs =
     (if length devices < selectedDeviceCount \<or> length (s_devices cs) < selectedDeviceCount then Inl OutOfRange
      else Inr (cs\<lparr>s_devices := fold (\<lambda>i ds. ds[i := sint (devices ! i)]) [0..<selectedDeviceCount] (s_devices cs)\<rparr>))"

definition setCLKernel :: "u32 \<Rightarrow> cl_statics \<Rightarrow> cl_statics" where
  "setCLKernel n cs = cs\<lparr>s_clKernelName := (if n = 1 then Experimental else Stable)\<rparr>"

text \<open>The text \<open>listDevices\<close> prints.\<close>

definition device_type_name :: "cl_device_type \<Rightarrow> string" where
  "device_type_name t = (case t of TYPE_CPU \<Rightarrow> ''CPU'' | TYPE_GPU \<Rightarrow> ''GPU'' | TYPE_ACCELERATOR \<Rightarrow> ''ACCELERATOR'' | TYPE_DEFAULT \<Rightarrow> ''DEFAULT'')"

definition list_device :: "nat \<Rightarrow> nat \<Rightarrow> cl_device \<Rightarrow> string" where
  "list_device j i d =
     stmt_line (''['' @ to_string j @ ''] ['' @ to_string i @ ''] '' @ dev_name d) @
     stmt_line (CHR 0x09 # ''CL_DEVICE_TYPE: '' @ device_type_name (dev_type d)) @
     stmt_line (CHR 0x09 # ''CL_DEVICE_GLOBAL_MEM_SIZE: '' @ to_string (dev_globalMem d)) @
     stmt_line (CHR 0x09 # ''CL_DEVICE_MAX_MEM_ALLOC_SIZE: '' @ to_string (dev_maxAlloc d)) @
     stmt_line (CHR 0x09 # ''CL_DEVICE_MAX_WORK_GROUP_SIZE: '' @ to_string (dev_maxGroup d))"

fun list_platforms :: "cl_platform list \<Rightarrow> nat list \<Rightarrow> cl_stop + string" where
  "list_platforms platforms [] = Inr []"
| "list_platforms platforms (j # js) =
     bindE (getDevices platforms j) (\<lambda>devices.
     bindE (list_platforms platforms js) (\<lambda>rest.
       Inr (concat (map (\<lambda>i. list_device j i (devices ! i)) [0..<length devices]) @ rest)))"

definition listDevices :: "cl_driver \<Rightarrow> cl_stop + string" where
  "listDevices drv =
     bindE (getPlatforms drv) (\<lambda>platforms.
       if platforms = [] then Inr []
       else bindE (list_platforms platforms [0..<length platforms]) (\<lambda>t.
         Inr (stmt_line [] @ stmt_line ''Listing OpenCL devices.'' @ stmt_line ''FORMAT: [platformID] [deviceID] deviceName'' @ t)))"

definition cl_configureGPU :: "cl_driver \<Rightarrow> u32 \<Rightarrow> u32 \<Rightarrow> u32 \<Rightarrow> u64 \<Rightarrow> u32 \<Rightarrow> u32 \<Rightarrow> bool \<Rightarrow> cl_statics \<Rightarrow>
    (cl_stop + bool) \<times> cl_statics" where
  "cl_configureGPU drv localWorkSize globalWorkSizeMultiplier platformId currentBlock dagLoadMode dagCreateDevice exit cs =
     (let localWorkSize' = ((localWorkSize + 7) div 8) * 8;
          cs' = cs\<lparr>s_dagLoadMode := dagLoadMode, s_dagCreateDevice := dagCreateDevice, s_exit := exit, s_platformId := platformId,
            s_workgroupSize := localWorkSize', s_initialGlobalWorkSize := globalWorkSizeMultiplier * localWorkSize'\<rparr>
      in (case ethash_get_datasize (unat (currentBlock + 2584000)) of
            Inl e \<Rightarrow> Inl (Uncaught (LightError e))
          | Inr dagSize \<Rightarrow>
              bindE (getPlatforms drv) (\<lambda>platforms.
                if platforms = [] then Inr False
                else if length platforms \<le> unat platformId then Inr False
                else bindE (getDevices platforms (unat platformId)) (\<lambda>devices.
                  Inr (list_ex (\<lambda>d. dagSize \<le> dev_globalMem d) devices))), cs'))"

section \<open>Miners\<close>

record 'a cl_buffer =
  buf_context :: nat
  buf_data :: 'a

text \<open>The search kernel: its program text and the arguments set on it.  The arguments 1 and 2 are always
  \<open>m_header\<close> and \<open>m_dag\<close>, set together; argument 0 is \<open>m_searchBuffer\<close>.\<close>

record cl_kernel =
  k_context :: nat
  k_code :: string
  k_args :: bool
  k_start :: u64
  k_target :: u64

record clminer =
  m_context :: nat
  m_queue :: nat
  m_searchKernel :: "cl_kernel option"
  m_dag :: "node option list cl_buffer option"
  m_light :: "node list cl_buffer option"
  m_header :: "bytes cl_buffer option"
  m_searchBuffer :: "u32 list cl_buffer option"
  m_globalWorkSize :: u32
  m_workgroupSize :: u32
  m_hwmoninfo :: HwMonitorInfo

definition CLMiner_new :: clminer where
  "CLMiner_new = \<lparr>m_context = 0, m_queue = 0, m_searchKernel = None, m_dag = None, m_light = None, m_header = None,
     m_searchBuffer = None, m_globalWorkSize = 0, m_workgroupSize = 0,
     m_hwmoninfo = \<lparr>deviceType = TypeUnknown, indexSource = SourceUnknown, deviceIndex = -1\<rparr>\<rparr>"

section \<open>Initialisation\<close>

definition OPENCL_PLATFORM_UNKNOWN :: u32 where "OPENCL_PLATFORM_UNKNOWN = 0"
definition OPENCL_PLATFORM_NVIDIA :: u32 where "OPENCL_PLATFORM_NVIDIA = 1"
definition OPENCL_PLATFORM_AMD :: u32 where "OPENCL_PLATFORM_AMD = 2"
definition OPENCL_PLATFORM_CLOVER :: u32 where "OPENCL_PLATFORM_CLOVER = 3"

definition platform_kind :: "string \<Rightarrow> HwMonitorInfo \<Rightarrow> u32 \<times> HwMonitorInfo" where
  "platform_kind platformName hw =
     (if platformName = ''NVIDIA CUDA'' then (OPENCL_PLATFORM_NVIDIA, hw\<lparr>deviceType := NVIDIA, indexSource := SourceOPENCL\<rparr>)
      else if platformName = ''AMD Accelerated Parallel Processing'' then
        (OPENCL_PLATFORM_AMD, hw\<lparr>deviceType := AMD, indexSource := SourceOPENCL\<rparr>)
      else if platformName = ''Clover'' then (OPENCL_PLATFORM_CLOVER, hw)
      else (OPENCL_PLATFORM_UNKNOWN, hw))"

text \<open>The device a miner uses; \<open>None\<close> stands for \<open>return false\<close>.  \<open>substr(7, 3)\<close> throws \<open>out_of_range\<close> on a short
  version string.\<close>

definition choose_device :: "cl_statics \<Rightarrow> cl_driver \<Rightarrow> nat \<Rightarrow> HwMonitorInfo \<Rightarrow> (cl_stop + (cl_device \<times> u32) option) \<times> HwMonitorInfo" where
  "choose_device cs drv index hw =
     (case getPlatforms drv of
        Inl e \<Rightarrow> (Inl e, hw)
      | Inr platforms \<Rightarrow>
          if platforms = [] then (Inr None, hw)
          else
            let platformIdx = min (unat (s_platformId cs)) (length platforms - 1);
                (platformId, hw1) = platform_kind (plat_name (platforms ! platformIdx)) hw
            in case getDevices platforms platformIdx of
                 Inl e \<Rightarrow> (Inl e, hw1)
               | Inr devices \<Rightarrow>
                   if devices = [] then (Inr None, hw1)
                   else
                     let idx = index mod length devices in
                     if length (s_devices cs) \<le> idx then (Inl OutOfRange, hw1)
                     else
                       let deviceId = (if -1 < s_devices cs ! idx then nat (s_devices cs ! idx) else index);
                           hw2 = hw1\<lparr>deviceIndex := int (deviceId mod length devices)\<rparr>;
                           device = devices ! (deviceId mod length devices);
                           clVer = take 3 (drop 7 (dev_version device))
                       in if length (dev_version device) < 7 then (Inl OutOfRange, hw2)
                          else if (clVer = ''1.0'' \<or> clVer = ''1.1'') \<and> platformId \<noteq> OPENCL_PLATFORM_CLOVER then (Inr None, hw2)
                          else (Inr (Some (device, platformId)), hw2))"

definition build_options :: "u32 \<Rightarrow> u32 \<times> u32 \<Rightarrow> u32 \<times> string" where
  "build_options platformId capability =
     (if platformId = OPENCL_PLATFORM_NVIDIA then
        let computeCapability = fst capability * 10 + snd capability;
            maxregs = (if 35 \<le> sint computeCapability then 72 else 63)
        in (computeCapability, ''-cl-nv-maxrregcount='' @ to_string maxregs)
      else (0, []))"

definition addDefinition :: "string \<Rightarrow> u32 \<Rightarrow> string \<Rightarrow> string" where
  "addDefinition name v source = stmt_line (''#define '' @ name @ '' '' @ to_string (unat v) @ ''u'') @ source"

definition c_maxSearchResults :: u32 where "c_maxSearchResults = 1"

text \<open>The program text; \<open>kernel_text\<close> is the array generated from \<^verbatim>\<open>CLMiner_kernel.cl\<close>.\<close>

definition kernel_source :: "string \<Rightarrow> u64 \<Rightarrow> u32 \<Rightarrow> nat \<Rightarrow> nat \<Rightarrow> u32 \<Rightarrow> u32 \<Rightarrow> string" where
  "kernel_source kernel_text block workgroupSize dagBytes lightWords platformId computeCapability =
     (let code = getKern block KERNEL_CL @ kernel_text;
          code = addDefinition ''GROUP_SIZE'' workgroupSize code;
          code = addDefinition ''PROGPOW_DAG_BYTES'' (of_nat dagBytes) code;
          code = addDefinition ''PROGPOW_DAG_ELEMENTS'' (of_nat (dag_elms dagBytes)) code;
          code = addDefinition ''LIGHT_WORDS'' (of_nat lightWords) code;
          code = addDefinition ''MAX_OUTPUTS'' c_maxSearchResults code;
          code = addDefinition ''PLATFORM'' platformId code
      in addDefinition ''COMPUTE'' computeCapability code)"

definition round_up :: "u32 \<Rightarrow> u32 \<Rightarrow> u32" where
  "round_up globalWorkSize workgroupSize =
     (if globalWorkSize mod workgroupSize \<noteq> 0 then (globalWorkSize div workgroupSize + 1) * workgroupSize else globalWorkSize)"

text \<open>The part of \<open>init\<close> after a device has been found and its context and queue created; new buffers have no
  content (\<open>None\<close> for a DAG entry, zeros where the host writes before anything is read).\<close>

definition init_buffers :: "cl_driver \<Rightarrow> string \<Rightarrow> LightAllocation \<Rightarrow> nat \<Rightarrow> cl_device \<Rightarrow> bool \<Rightarrow> string \<Rightarrow> clminer \<Rightarrow>
    (cl_stop + bool) \<times> clminer" where
  "init_buffers drv code la dagBytes device new_epoch options m =
     (let ctx = m_context m; nodes = cache (la_light la) in
      if \<not> drv_builds drv code options then (Inr False, m)
      else if dev_globalMem device < dagBytes then (Inr False, m)
      else if \<not> drv_alloc drv (la_size la) then (Inr False, m)
      else if \<not> drv_alloc drv dagBytes then (Inr False, m\<lparr>m_light := Some \<lparr>buf_context = ctx, buf_data = []\<rparr>\<rparr>)
      else
        let dag = replicate (dagBytes div 64) None;
            kernel = \<lparr>k_context = ctx, k_code = code, k_args = False, k_start = 0, k_target = 0\<rparr>;
            m1 = m\<lparr>m_light := Some \<lparr>buf_context = ctx, buf_data = nodes\<rparr>, m_dag := Some \<lparr>buf_context = ctx, buf_data = dag\<rparr>,
                   m_searchKernel := Some kernel\<rparr>
        in if \<not> drv_alloc drv 32 then (Inl (OpenCL MEM_OBJECT_ALLOCATION_FAILURE), m1)
           else
             let m2 = m1\<lparr>m_header := Some \<lparr>buf_context = ctx, buf_data = h256_zero\<rparr>, m_searchKernel := Some (kernel\<lparr>k_args := True\<rparr>)\<rparr>
             in if \<not> new_epoch then (Inr True, m2)
                else if \<not> drv_alloc drv 8 then (Inl (OpenCL MEM_OBJECT_ALLOCATION_FAILURE), m2)
                else
                  let m3 = m2\<lparr>m_searchBuffer := Some \<lparr>buf_context = ctx, buf_data = [0, 0]\<rparr>\<rparr>
                  in if m_globalWorkSize m3 = 0 then (Inl DivisionByZero, m3)
                     else case cl_generate_dag ((la_size la div 64) mod 2 ^ 32) (macro_value dagBytes) nodes dagBytes (unat (m_globalWorkSize m3)) dag of
                            None \<Rightarrow> (Inl Hangs, m3)
                          | Some g \<Rightarrow> (Inr True, m3\<lparr>m_dag := Some \<lparr>buf_context = ctx, buf_data = g\<rparr>\<rparr>))"

definition init_gpu :: "cl_statics \<Rightarrow> cl_driver \<Rightarrow> string \<Rightarrow> nat \<Rightarrow> LightAllocation \<Rightarrow> u64 \<Rightarrow> bool \<Rightarrow> clminer \<Rightarrow> (cl_stop + bool) \<times> clminer" where
  "init_gpu cs drv kernel_text index la block new_epoch m =
     (case choose_device cs drv index (m_hwmoninfo m) of
        (Inl e, hw) \<Rightarrow> (Inl e, m\<lparr>m_hwmoninfo := hw\<rparr>)
      | (Inr None, hw) \<Rightarrow> (Inr False, m\<lparr>m_hwmoninfo := hw\<rparr>)
      | (Inr (Some (device, platformId)), hw) \<Rightarrow>
          let (computeCapability, options) = build_options platformId (dev_compute device);
              m1 = m\<lparr>m_hwmoninfo := hw, m_context := Suc (m_context m), m_queue := Suc (m_context m),
                     m_workgroupSize := s_workgroupSize cs, m_globalWorkSize := s_initialGlobalWorkSize cs\<rparr>
          in if m_workgroupSize m1 = 0 then (Inl DivisionByZero, m1)
             else
               let m2 = m1\<lparr>m_globalWorkSize := round_up (m_globalWorkSize m1) (m_workgroupSize m1)\<rparr>
               in case ethash_get_datasize (block_number (la_light la)) of
                    Inl e \<Rightarrow> (Inl (Uncaught (LightError e)), m2)
                  | Inr dagBytes \<Rightarrow>
                      init_buffers drv
                        (kernel_source kernel_text block (m_workgroupSize m2) dagBytes (la_size la div 64) platformId computeCapability)
                        la dagBytes device new_epoch options m2)"

text \<open>OpenCL exceptions are caught and reported.\<close>

definition init_caught :: "cl_statics \<Rightarrow> cl_stop + bool \<Rightarrow> cl_stop + bool" where
  "init_caught cs r = (case r of Inl (OpenCL e) \<Rightarrow> if s_exit cs then Inl Exit else Inr False | _ \<Rightarrow> r)"

definition init :: "cl_statics \<Rightarrow> cl_driver \<Rightarrow> string \<Rightarrow> nat \<Rightarrow> int \<Rightarrow> u64 \<Rightarrow> bool \<Rightarrow> bool \<Rightarrow> clminer \<Rightarrow> ethash_aux \<Rightarrow>
    (cl_stop + bool) \<times> clminer \<times> ethash_aux" where
  "init cs drv kernel_text index epoch block new_epoch new_period m aux =
     (if \<not> new_epoch \<and> \<not> new_period then (Inl AssertFailed, m, aux)
      else case light epoch aux of
        (Inl e, aux') \<Rightarrow> (Inl (Uncaught e), m, aux')
      | (Inr la, aux') \<Rightarrow>
          let (r, m') = init_gpu cs drv kernel_text index la block new_epoch m in (init_caught cs r, m', aux'))"

section \<open>The work loop\<close>

record cl_world =
  w_miner :: clminer
  w_aux :: ethash_aux
  w_dagLoadIndex :: u32
  w_startNonce :: u64
  w_current :: WorkPackage
  w_old_period :: u64
  w_hashCount :: u64

definition cl_world_init :: "ethash_aux \<Rightarrow> u32 \<Rightarrow> cl_world" where
  "cl_world_init aux dagLoadIndex = \<lparr>w_miner = CLMiner_new, w_aux = aux, w_dagLoadIndex = dagLoadIndex, w_startNonce = 0,
     w_current = WorkPackage_default\<lparr>wp_header := FixedHash_of_arith 32 1\<rparr>, w_old_period = -1, w_hashCount = 0\<rparr>"

text \<open>What the runtime answers to a command on a buffer, and to a kernel launch.\<close>

definition enqueue_ok :: "cl_driver \<Rightarrow> clminer \<Rightarrow> 'a cl_buffer option \<Rightarrow> cl_stop + 'a" where
  "enqueue_ok drv m buf =
     (if m_queue m = 0 then Inl (OpenCL INVALID_COMMAND_QUEUE)
      else case buf of
        None \<Rightarrow> Inl (OpenCL INVALID_MEM_OBJECT)
      | Some b \<Rightarrow> if drv_checks_context drv \<and> buf_context b \<noteq> m_queue m then Inl (OpenCL INVALID_CONTEXT) else Inr (buf_data b))"

definition set_data :: "'a \<Rightarrow> 'a cl_buffer option \<Rightarrow> 'a cl_buffer option" where
  "set_data x buf = map_option (\<lambda>b. b\<lparr>buf_data := x\<rparr>) buf"

definition launch_ok :: "cl_driver \<Rightarrow> clminer \<Rightarrow> cl_stop + cl_kernel" where
  "launch_ok drv m =
     (case m_searchKernel m of
        None \<Rightarrow> Inl (OpenCL INVALID_KERNEL)
      | Some k \<Rightarrow>
          if drv_checks_context drv \<and> k_context k \<noteq> m_queue m then Inl (OpenCL INVALID_CONTEXT)
          else if \<not> k_args k then Inl (OpenCL INVALID_KERNEL_ARGS)
          else if m_globalWorkSize m = 0 then Inl (OpenCL INVALID_GLOBAL_WORK_SIZE)
          else Inr k)"

text \<open>The start nonce of new work.\<close>

definition cl_start :: "u64 \<Rightarrow> nat \<Rightarrow> WorkPackage \<Rightarrow> u64" where
  "cl_start scrambler index w = (if 0 \<le> wp_exSizeBits w then ucast (stratum_start w (of_nat index)) else get_start_nonce scrambler index)"

text \<open>New work: the header and a zero result count are written, the target is set.\<close>

definition switch_work :: "cl_driver \<Rightarrow> u64 \<Rightarrow> nat \<Rightarrow> WorkPackage \<Rightarrow> cl_world \<Rightarrow> cl_stop + cl_world" where
  "switch_work drv scrambler index w s =
     (let target = upper64OfBoundary (wp_boundary w); m = w_miner s in
      if target = 0 then Inl AssertFailed
      else bindE (enqueue_ok drv m (m_header m)) (\<lambda>_.
        bindE (enqueue_ok drv m (m_searchBuffer m)) (\<lambda>results.
          case m_searchKernel m of
            None \<Rightarrow> Inl (OpenCL INVALID_KERNEL)
          | Some k \<Rightarrow>
              Inr (s\<lparr>w_miner := m\<lparr>m_header := set_data (wp_header w) (m_header m), m_searchBuffer := set_data (results[0 := 0]) (m_searchBuffer m),
                       m_searchKernel := Some (k\<lparr>k_target := target\<rparr>)\<rparr>,
                     w_startNonce := cl_start scrambler index w\<rparr>))))"

text \<open>Reading the results of the last run, starting the next one, submitting what was found.  The sum
  \<^verbatim>\<open>current.startNonce + results[1]\<close> has 32 bits.\<close>

type_synonym cl_run = "string \<Rightarrow> node option list \<Rightarrow> bytes \<Rightarrow> u64 \<Rightarrow> u64 \<Rightarrow> nat \<Rightarrow> u32 list \<Rightarrow> u32 list"

definition found_nonce :: "WorkPackage \<Rightarrow> u32 list \<Rightarrow> u64" where
  "found_nonce current results = (if 0 < results ! 0 then ucast (wp_startNonce current + results ! 1) else 0)"

definition submit_cl :: "WorkPackage \<Rightarrow> WorkPackage \<Rightarrow> u64 \<Rightarrow> ethash_aux \<Rightarrow> cl_stop + Solution option \<times> ethash_aux" where
  "submit_cl current w nonce aux =
     (if nonce = 0 then Inr (None, aux)
      else case eval (wp_epoch current) (wp_header current) nonce aux of
        (Inl e, aux') \<Rightarrow> Inl (Uncaught (LightError e))
      | (Inr r, aux') \<Rightarrow>
          Inr (Some \<lparr>sol_nonce = nonce, sol_mixHash = res_mixHash r, sol_work = current, sol_stale = (wp_header current \<noteq> wp_header w)\<rparr>, aux'))"

definition search_step :: "cl_driver \<Rightarrow> cl_run \<Rightarrow> WorkPackage \<Rightarrow> cl_world \<Rightarrow> cl_stop + Solution option \<times> cl_world" where
  "search_step drv run w s =
     (let m = w_miner s in
      bindE (enqueue_ok drv m (m_searchBuffer m)) (\<lambda>results.
      let nonce = found_nonce (w_current s) results;
          results' = (if 0 < results ! 0 then results[0 := 0] else results) in
      bindE (launch_ok drv m) (\<lambda>k.
      let k' = k\<lparr>k_start := w_startNonce s\<rparr>;
          dag = (case m_dag m of None \<Rightarrow> [] | Some b \<Rightarrow> buf_data b);
          header = (case m_header m of None \<Rightarrow> [] | Some b \<Rightarrow> buf_data b);
          gws = m_globalWorkSize m;
          out = run (k_code k') dag header (k_start k') (k_target k') (unat gws) results' in
      bindE (submit_cl (w_current s) w nonce (w_aux s)) (\<lambda>(sol, aux').
        Inr (sol, s\<lparr>w_miner := m\<lparr>m_searchBuffer := set_data out (m_searchBuffer m), m_searchKernel := Some k'\<rparr>, w_aux := aux',
             w_old_period := fork_height w div of_nat PROGPOW_PERIOD,
             w_current := w\<lparr>wp_startNonce := ucast (w_startNonce s)\<rparr>,
             w_startNonce := w_startNonce s + ucast gws, w_hashCount := w_hashCount s + ucast gws\<rparr>)))))"

text \<open>One iteration.  A miner that has to wait for its turn to load the DAG keeps the package it took.\<close>

datatype cl_result = Paused | WaitTurn | Running "Solution option" cl_world | Stopped cl_stop

definition work_changed :: "WorkPackage \<Rightarrow> cl_world \<Rightarrow> bool" where
  "work_changed w s \<longleftrightarrow> wp_header (w_current s) \<noteq> wp_header w \<or> wp_epoch (w_current s) \<noteq> wp_epoch w \<or>
     w_old_period s \<noteq> fork_height w div of_nat PROGPOW_PERIOD"

definition init_needed :: "WorkPackage \<Rightarrow> cl_world \<Rightarrow> bool" where
  "init_needed w s \<longleftrightarrow> wp_epoch (w_current s) \<noteq> wp_epoch w \<or> w_old_period s \<noteq> fork_height w div of_nat PROGPOW_PERIOD"

text \<open>The result of \<open>init\<close> is not looked at.\<close>

definition init_step :: "cl_statics \<Rightarrow> cl_driver \<Rightarrow> string \<Rightarrow> nat \<Rightarrow> WorkPackage \<Rightarrow> cl_world \<Rightarrow> cl_stop + cl_world" where
  "init_step cs drv kernel_text index w s =
     (if init_needed w s then
        let i = (if s_dagLoadMode cs = DAG_LOAD_MODE_SEQUENTIAL then w_dagLoadIndex s + 1 else w_dagLoadIndex s) in
        case init cs drv kernel_text index (wp_epoch w) (fork_height w) (wp_epoch (w_current s) \<noteq> wp_epoch w)
               (w_old_period s \<noteq> fork_height w div of_nat PROGPOW_PERIOD) (w_miner s) (w_aux s) of
          (Inl e, m, aux) \<Rightarrow> Inl e
        | (Inr b, m, aux) \<Rightarrow> Inr (s\<lparr>w_miner := m, w_aux := aux, w_dagLoadIndex := i\<rparr>)
      else Inr s)"

text \<open>The handler around the loop: an OpenCL exception ends the thread or, with \<open>s_exit\<close>, the process.\<close>

definition loop_result :: "cl_statics \<Rightarrow> cl_stop + Solution option \<times> cl_world \<Rightarrow> cl_result" where
  "loop_result cs r =
     (case r of
        Inr (sol, s) \<Rightarrow> Running sol s
      | Inl (OpenCL e) \<Rightarrow> if s_exit cs then Stopped Exit else Stopped (OpenCL e)
      | Inl e \<Rightarrow> Stopped e)"

definition cl_workLoop_step :: "cl_statics \<Rightarrow> cl_driver \<Rightarrow> string \<Rightarrow> cl_run \<Rightarrow> u64 \<Rightarrow> nat \<Rightarrow> WorkPackage \<Rightarrow> cl_world \<Rightarrow> cl_result" where
  "cl_workLoop_step cs drv kernel_text run scrambler index w s =
     (if work_changed w s then
        if \<not> has_work w then Paused
        else if init_needed w s \<and> s_dagLoadMode cs = DAG_LOAD_MODE_SEQUENTIAL \<and> w_dagLoadIndex s < of_nat index then WaitTurn
        else loop_result cs
          (bindE (init_step cs drv kernel_text index w s) (\<lambda>s1.
           bindE (switch_work drv scrambler index w s1) (\<lambda>s2. search_step drv run w s2)))
      else loop_result cs (search_step drv run w s))"


section \<open>Initialisation succeeds as a whole\<close>

lemma init_caught_True [simp]: "init_caught cs r = Inr True \<longleftrightarrow> r = Inr True"
  by (auto simp: init_caught_def split: sum.splits cl_stop.splits)

text \<open>The state a successful run of \<open>init_buffers\<close> leaves behind.\<close>

lemma init_buffers_True:
  assumes "init_buffers drv code la dagBytes device new_epoch options m = (Inr True, m')"
  shows "m_context m' = m_context m \<and> m_queue m' = m_queue m \<and> m_globalWorkSize m' = m_globalWorkSize m \<and>
    m_searchKernel m' = Some \<lparr>k_context = m_context m, k_code = code, k_args = True, k_start = 0, k_target = 0\<rparr> \<and>
    m_header m' = Some \<lparr>buf_context = m_context m, buf_data = h256_zero\<rparr> \<and>
    (if new_epoch
     then 0 < m_globalWorkSize m \<and> m_searchBuffer m' = Some \<lparr>buf_context = m_context m, buf_data = [0, 0]\<rparr> \<and>
       (\<exists>g. cl_generate_dag ((la_size la div 64) mod 2 ^ 32) (macro_value dagBytes) (cache (la_light la)) dagBytes
              (unat (m_globalWorkSize m)) (replicate (dagBytes div 64) None) = Some g \<and>
            m_dag m' = Some \<lparr>buf_context = m_context m, buf_data = g\<rparr>)
     else m_searchBuffer m' = m_searchBuffer m \<and>
       m_dag m' = Some \<lparr>buf_context = m_context m, buf_data = replicate (dagBytes div 64) None\<rparr>)"
  using assms by (auto simp: init_buffers_def Let_def word_gt_0 split: if_splits option.splits)

lemma init_gpu_True:
  assumes "init_gpu cs drv kernel_text index la block new_epoch m = (Inr True, m')"
    "ethash_get_datasize (block_number (la_light la)) = Inr dagBytes"
  obtains device options platformId cc m1 where
    "init_buffers drv (kernel_source kernel_text block (s_workgroupSize cs) dagBytes (la_size la div 64) platformId cc)
       la dagBytes device new_epoch options m1 = (Inr True, m')"
    "m_context m1 = Suc (m_context m)" "m_queue m1 = Suc (m_context m)" "m_searchBuffer m1 = m_searchBuffer m"
  using assms by (auto simp: init_gpu_def Let_def split: prod.splits sum.splits option.splits if_splits)

lemma init_True:
  assumes "init cs drv kernel_text index epoch block new_epoch np m aux = (Inr True, m', aux')" "fst (light epoch aux) = Inr la"
  shows "init_gpu cs drv kernel_text index la block new_epoch m = (Inr True, m')"
  using assms by (auto simp: init_def Let_def split: if_splits prod.splits)

lemma init_complete:
  assumes "aux_ok aux" "e < 2048" "init cs drv kernel_text index (int e) block True np m aux = (Inr True, m', aux')"
  shows "\<exists>li k g platformId cc. ethash_light_new True True (ETHASH_EPOCH_LENGTH * e) = Inr li \<and>
    m_context m' = Suc (m_context m) \<and> m_queue m' = m_context m' \<and> 0 < m_globalWorkSize m' \<and>
    m_searchKernel m' = Some k \<and> k_context k = m_context m' \<and>
    k_code k = kernel_source kernel_text block (s_workgroupSize cs) (dag_sizes ! e) (num_parent_nodes li) platformId cc \<and>
    m_searchBuffer m' = Some \<lparr>buf_context = m_context m', buf_data = [0, 0]\<rparr> \<and>
    m_dag m' = Some \<lparr>buf_context = m_context m', buf_data = g\<rparr> \<and> length g = dag_sizes ! e div 64 \<and>
    (\<forall>i < dag_sizes ! e div 64. g ! i = (if 64 * i < dag_sizes ! e mod 2 ^ 32 then Some (ethash_calculate_dag_item li (of_nat i)) else None))"
proof -
  obtain li where li: "ethash_light_new True True (ETHASH_EPOCH_LENGTH * e) = Inr li" "light_ok li"
      "block_number li = ETHASH_EPOCH_LENGTH * e" "num_parent_nodes li = cache_sizes ! e div 64"
      "fst (light (int e) aux) = Inr \<lparr>la_light = li, la_size = cache_sizes ! e\<rparr>"
    using light_tabulated [OF assms(1,2)] .
  let ?la = "\<lparr>la_light = li, la_size = cache_sizes ! e\<rparr>" and ?D = "dag_sizes ! e"
  have ds: "ethash_get_datasize (block_number (la_light ?la)) = Inr ?D" using datasize_epoch [OF assms(2)] li(3) by simp
  obtain device options platformId cc m1 where b:
    "init_buffers drv (kernel_source kernel_text block (s_workgroupSize cs) ?D (la_size ?la div 64) platformId cc)
       ?la ?D device True options m1 = (Inr True, m')"
    and m1: "m_context m1 = Suc (m_context m)" "m_queue m1 = Suc (m_context m)"
    by (rule init_gpu_True [OF init_True [OF assms(3) li(5)] ds])
  have small: "cache_sizes ! e div 64 < 2 ^ 32" "?D div 64 < 2 ^ 32"
    using cache_sizes_less [OF assms(2)] dag_sizes_less [OF assms(2)] by simp_all
  have D: "64 * (?D div 64) = ?D" using dag_sizes_dvd [OF assms(2)] by (auto elim!: dvdE)
  have le: "macro_value ?D \<le> 64 * (?D div 64)" unfolding D macro_value_def by (rule mod_less_eq_dividend)
  note f = init_buffers_True [OF b, simplified]
  then obtain g where g: "cl_generate_dag (num_parent_nodes li) (macro_value ?D) (cache li) ?D (unat (m_globalWorkSize m1)) (replicate (?D div 64) None) = Some g"
      "m_dag m' = Some \<lparr>buf_context = m_context m1, buf_data = g\<rparr>"
    using small(1) li(4) by auto
  moreover have "0 < unat (m_globalWorkSize m1)" using f by (simp add: word_less_nat_alt)
  ultimately have "length g = ?D div 64"
      "\<forall>i < ?D div 64. g ! i = (if 64 * i < macro_value ?D then Some (ethash_calculate_dag_item li (of_nat i)) else None)"
    using cl_generate_filled [OF li(2) _ _ small(2) le, of "unat (m_globalWorkSize m1)" "replicate (?D div 64) None"] by auto
  with f g(2) m1 li(1,4) show ?thesis by (auto simp: macro_value_def)
qed


lemma init_same_epoch:
  assumes "aux_ok aux" "e < 2048" "init cs drv kernel_text index (int e) block False True m aux = (Inr True, m', aux')"
  shows "m_context m' = Suc (m_context m) \<and> m_queue m' = m_context m' \<and> m_searchBuffer m' = m_searchBuffer m \<and>
    m_dag m' = Some \<lparr>buf_context = m_context m', buf_data = replicate (dag_sizes ! e div 64) None\<rparr> \<and>
    (\<exists>k. m_searchKernel m' = Some k \<and> k_context k = m_context m' \<and> k_args k) \<and>
    m_header m' = Some \<lparr>buf_context = m_context m', buf_data = h256_zero\<rparr>"
proof -
  obtain li where li: "block_number li = ETHASH_EPOCH_LENGTH * e"
      "fst (light (int e) aux) = Inr \<lparr>la_light = li, la_size = cache_sizes ! e\<rparr>"
    using light_tabulated [OF assms(1,2)] .
  let ?la = "\<lparr>la_light = li, la_size = cache_sizes ! e\<rparr>"
  have ds: "ethash_get_datasize (block_number (la_light ?la)) = Inr (dag_sizes ! e)" using datasize_epoch [OF assms(2)] li(1) by simp
  obtain device options platformId cc m1 where b:
    "init_buffers drv (kernel_source kernel_text block (s_workgroupSize cs) (dag_sizes ! e) (la_size ?la div 64) platformId cc)
       ?la (dag_sizes ! e) device False options m1 = (Inr True, m')"
    and m1: "m_context m1 = Suc (m_context m)" "m_queue m1 = Suc (m_context m)" "m_searchBuffer m1 = m_searchBuffer m"
    by (rule init_gpu_True [OF init_True [OF assms(3) li(2)] ds])
  show ?thesis using init_buffers_True [OF b] m1 by simp
qed

lemma enqueue_ok_Some [simp]:
  "m_queue m \<noteq> 0 \<Longrightarrow> enqueue_ok drv m (Some b) =
     (if drv_checks_context drv \<and> buf_context b \<noteq> m_queue m then Inl (OpenCL INVALID_CONTEXT) else Inr (buf_data b))"
  by (simp add: enqueue_ok_def)

lemma set_data_Some [simp]: "set_data x (Some b) = Some (b\<lparr>buf_data := x\<rparr>)"
  by (simp add: set_data_def)

lemma found_nonce_reset: "results \<noteq> [] \<Longrightarrow> found_nonce w (results[0 := 0]) = 0"
  by (cases results) (simp_all add: found_nonce_def)

lemma init_searchBuffer:
  assumes "init cs drv kernel_text index epoch block new_epoch np m aux = (r, m', aux')"
  shows "m_searchBuffer m' = m_searchBuffer m \<or> m_searchBuffer m' = Some \<lparr>buf_context = m_context m', buf_data = [0, 0]\<rparr>"
  using assms
  by (auto simp: init_def init_gpu_def init_buffers_def Let_def split: prod.splits sum.splits option.splits if_splits)

lemma search_step_Inr:
  assumes "search_step drv run w s = Inr (sol, s')"
  obtains b k aux' where "m_searchBuffer (w_miner s) = Some b" "m_searchKernel (w_miner s') = Some k" "k_start k = w_startNonce s"
    "w_current s' = w\<lparr>wp_startNonce := ucast (w_startNonce s)\<rparr>" "w_old_period s' = fork_height w div of_nat PROGPOW_PERIOD"
    "submit_cl (w_current s) w (found_nonce (w_current s) (buf_data b)) (w_aux s) = Inr (sol, aux')"
  using assms
  by (auto simp: search_step_def Let_def bindE_Inr_iff enqueue_ok_def split: if_splits option.splits prod.splits)

lemma loop_result_Running [simp]: "loop_result cs r = Running sol s \<longleftrightarrow> r = Inr (sol, s)"
  by (auto simp: loop_result_def split: sum.splits prod.splits cl_stop.splits)

lemma workLoop_Running:
  assumes "cl_workLoop_step cs drv kernel_text run scrambler index w s = Running sol s'"
  obtains s1 where "search_step drv run w s1 = Inr (sol, s')" "if work_changed w s then \<exists>s0. init_step cs drv kernel_text index w s = Inr s0 \<and>
      switch_work drv scrambler index w s0 = Inr s1 else s1 = s"
  using assms by (auto simp: cl_workLoop_step_def bindE_Inr_iff split: if_splits)

lemma init_step_searchBuffer:
  assumes "init_step cs drv kernel_text index w s = Inr s0" "m_searchBuffer (w_miner s) = Some b" "buf_data b \<noteq> []"
  shows "\<exists>b'. m_searchBuffer (w_miner s0) = Some b' \<and> buf_data b' \<noteq> []"
  using assms
  by (auto simp: init_step_def Let_def split: if_splits prod.splits sum.splits dest!: init_searchBuffer)

lemma switch_work_searchBuffer:
  assumes "switch_work drv scrambler index w s0 = Inr s1" "m_searchBuffer (w_miner s0) = Some b" "buf_data b \<noteq> []"
  shows "\<exists>b'. m_searchBuffer (w_miner s1) = Some b' \<and> buf_data b' ! 0 = 0"
  using assms by (auto simp: switch_work_def Let_def bindE_Inr_iff enqueue_ok_def split: if_splits option.splits)

lemma unat_ucast_add:
  "unat (ucast ((ucast (n :: u64) :: u32) + r) :: u64) = unat (n + ucast r) mod 2 ^ 32"
proof -
  have a: "unat (x + y) = (unat x + unat y) mod 2 ^ 32" for x y :: u32 by (simp add: unat_word_ariths)
  have b: "unat (x + y) = (unat x + unat y) mod 2 ^ 64" for x y :: u64 by (simp add: unat_word_ariths)
  have c: "unat (ucast n :: u32) = unat n mod 2 ^ 32" by (simp add: unsigned_ucast_eq take_bit_eq_mod)
  have "(x + y) mod 2 ^ 64 mod 2 ^ 32 = (x mod 2 ^ 32 + y) mod 2 ^ 32" for x y :: nat
    by (simp add: mod_mod_cancel mod_add_left_eq)
  then show ?thesis by (simp only: unat_ucast_u64 a b c)
qed

section \<open>A sample runtime\<close>

definition demo_device :: cl_device where
  "demo_device = \<lparr>dev_name = ''gfx'', dev_version = ''OpenCL 1.2'', dev_type = TYPE_GPU, dev_globalMem = 2 ^ 36, dev_maxAlloc = 2 ^ 36,
     dev_maxGroup = 256, dev_compute = (0, 0)\<rparr>"

definition demo_driver :: "bool \<Rightarrow> cl_driver" where
  "demo_driver checks = \<lparr>drv_platforms = Inr [\<lparr>plat_name = ''Clover'', plat_devices = Inr [demo_device]\<rparr>],
     drv_builds = (\<lambda>_ _. True), drv_alloc = (\<lambda>_. True), drv_checks_context = checks\<rparr>"

lemma demo_choose:
  "choose_device cl_statics_init (demo_driver checks) 0 hw = (Inr (Some (demo_device, OPENCL_PLATFORM_CLOVER)), hw\<lparr>deviceIndex := 0\<rparr>)"
  by (simp add: choose_device_def getPlatforms_def getDevices_def demo_driver_def demo_device_def platform_kind_def
      cl_statics_init_def MAX_MINERS_def LOG2_MAX_MINERS_def)

lemma demo_init:
  assumes "aux_ok aux" "e < 2048"
  shows "\<exists>m' aux'. init cl_statics_init (demo_driver checks) kernel_text 0 (int e) block new_epoch True m aux = (Inr True, m', aux') \<and>
    m_globalWorkSize m' = 524288"
proof -
  obtain li where li: "light_ok li" "block_number li = ETHASH_EPOCH_LENGTH * e" "num_parent_nodes li = cache_sizes ! e div 64"
      "fst (light (int e) aux) = Inr \<lparr>la_light = li, la_size = cache_sizes ! e\<rparr>"
    using light_tabulated [OF assms] .
  let ?D = "dag_sizes ! e"
  have small: "cache_sizes ! e div 64 < 2 ^ 32" "?D div 64 < 2 ^ 32" "?D \<le> 2 ^ 36"
    using cache_sizes_less [OF assms(2)] dag_sizes_less [OF assms(2)] by simp_all
  have D: "64 * (?D div 64) = ?D" using dag_sizes_dvd [OF assms(2)] by (auto elim!: dvdE)
  have le: "macro_value ?D \<le> 64 * (?D div 64)" unfolding D macro_value_def by (rule mod_less_eq_dividend)
  obtain g where "cl_generate_dag (num_parent_nodes li) (macro_value ?D) (cache li) ?D 524288 (replicate (?D div 64) None) = Some g"
    using cl_generate_filled [OF li(1) _ _ small(2) le, of 524288 "replicate (?D div 64) None"] by auto
  then have g: "cl_generate_dag (cache_sizes ! e div 64 mod 4294967296) (macro_value ?D) (cache li) ?D 524288 (replicate (?D div 64) None) = Some g"
    using li(3) small(1) by simp
  obtain aux' where l: "light (int e) aux = (Inr \<lparr>la_light = li, la_size = cache_sizes ! e\<rparr>, aux')"
    using li(4) by (cases "light (int e) aux") simp
  have st: "s_workgroupSize cl_statics_init = 256" "s_initialGlobalWorkSize cl_statics_init = 524288" "round_up 524288 256 = 524288"
    by (simp_all add: cl_statics_init_def c_defaultLocalWorkSize_def c_defaultGlobalWorkSizeMultiplier_def round_up_def)
  have dev: "dev_globalMem demo_device = 2 ^ 36" "drv_builds (demo_driver checks) c opt" "drv_alloc (demo_driver checks) n" for c opt n
    by (simp_all add: demo_device_def demo_driver_def)
  show ?thesis
    using g small(3) datasize_epoch [OF assms(2)]
    by (auto simp: init_def l Let_def init_gpu_def demo_choose st build_options_def OPENCL_PLATFORM_CLOVER_def OPENCL_PLATFORM_NVIDIA_def
        li(2) init_buffers_def dev init_caught_def)
qed

definition demo_package :: WorkPackage where
  "demo_package = WorkPackage_default\<lparr>wp_boundary := replicate 32 0xff, wp_header := replicate 32 7, wp_epoch := 0\<rparr>"

text \<open>A miner whose objects all live in context 1, in the middle of its work.\<close>

definition demo_world :: cl_world where
  "demo_world = \<lparr>w_miner = CLMiner_new\<lparr>m_context := 1, m_queue := 1,
       m_searchKernel := Some \<lparr>k_context = 1, k_code = [], k_args = True, k_start = 0, k_target = 1\<rparr>,
       m_dag := Some \<lparr>buf_context = 1, buf_data = []\<rparr>, m_header := Some \<lparr>buf_context = 1, buf_data = replicate 32 7\<rparr>,
       m_searchBuffer := Some \<lparr>buf_context = 1, buf_data = [0, 0]\<rparr>, m_globalWorkSize := 524288\<rparr>,
     w_aux = aux_init, w_dagLoadIndex = 0, w_startNonce = 2 ^ 40, w_current = demo_package,
     w_old_period = fork_height demo_package div of_nat PROGPOW_PERIOD, w_hashCount = 0\<rparr>"

lemma demo_package_simps [simp]:
  "wp_epoch demo_package = 0" "has_work demo_package" "upper64OfBoundary (wp_boundary demo_package) \<noteq> 0"
  by code_simp+

section \<open>Properties\<close>

text \<open>
  C32: when \<open>init\<close> succeeds for a new tabulated epoch, context, queue, kernel and buffers belong together, the
  program is compiled for the block's period with the sizes of the epoch, and the DAG buffer holds at
  every position the node of the light client if its byte offset is below the DAG size modulo \<open>2^32\<close>.
\<close>

theorem cl_init_complete:
  assumes "aux_reachable aux" "e < 2048" "init cs drv kernel_text index (int e) block True np m aux = (Inr True, m', aux')"
  shows "\<exists>li k g platformId cc. ethash_light_new True True (ETHASH_EPOCH_LENGTH * e) = Inr li \<and>
    m_context m' = Suc (m_context m) \<and> m_queue m' = m_context m' \<and> 0 < m_globalWorkSize m' \<and>
    m_searchKernel m' = Some k \<and> k_context k = m_context m' \<and>
    k_code k = kernel_source kernel_text block (s_workgroupSize cs) (dag_sizes ! e) (num_parent_nodes li) platformId cc \<and>
    m_searchBuffer m' = Some \<lparr>buf_context = m_context m', buf_data = [0, 0]\<rparr> \<and>
    m_dag m' = Some \<lparr>buf_context = m_context m', buf_data = g\<rparr> \<and> length g = dag_sizes ! e div 64 \<and>
    (\<forall>i < dag_sizes ! e div 64. g ! i = (if 64 * i < dag_sizes ! e mod 2 ^ 32 then Some (ethash_calculate_dag_item li (of_nat i)) else None))"
  by (rule init_complete [OF aux_reachable_ok [OF assms(1)] assms(2,3)])

theorem cl_init_complete_witness:
  "\<exists>m' aux'. init cl_statics_init (demo_driver True) [] 0 0 2584000 True True CLMiner_new aux_init = (Inr True, m', aux') \<and>
    m_queue m' = 1 \<and> (\<exists>g li. m_dag m' = Some \<lparr>buf_context = 1, buf_data = g\<rparr> \<and> g ! 5 = Some (ethash_calculate_dag_item li 5))"
proof -
  obtain m' aux' where i: "init cl_statics_init (demo_driver True) [] 0 (int 0) 2584000 True True CLMiner_new aux_init = (Inr True, m', aux')"
    using demo_init [OF aux_ok_init, of 0 True "[]" 2584000 True CLMiner_new] by auto
  have "400 \<le> dag_sizes ! 0" "dag_sizes ! 0 < 2 ^ 32" using dag_sizes_nth [of 0] by simp_all
  then have "5 < dag_sizes ! 0 div 64" "64 * 5 < dag_sizes ! 0 mod 2 ^ 32" by simp_all
  with cl_init_complete [OF aux_reachable.start _ i] have
    "m_queue m' = 1 \<and> (\<exists>g li. m_dag m' = Some \<lparr>buf_context = 1, buf_data = g\<rparr> \<and> g ! 5 = Some (ethash_calculate_dag_item li 5))"
    by (fastforce simp: CLMiner_new_def)
  with i show ?thesis by simp
qed

text \<open>
  C33: a change of the ProgPoW period inside an epoch breaks the OpenCL miner.  A successful \<open>init\<close> moves
  queue, kernel and a new, never written DAG buffer to a new context and leaves the result buffer in
  the old one: a runtime that checks contexts makes the next command fail, which ends the thread (or the
  process); one that does not runs the kernel over the unwritten DAG.
\<close>

theorem cl_period_change:
  assumes "aux_reachable (w_aux s)" "e < 2048" "wp_epoch w = int e" "wp_epoch (w_current s) = int e"
    "w_old_period s \<noteq> fork_height w div of_nat PROGPOW_PERIOD" "has_work w" "upper64OfBoundary (wp_boundary w) \<noteq> 0"
    "s_dagLoadMode cs \<noteq> DAG_LOAD_MODE_SEQUENTIAL"
    "m_searchBuffer (w_miner s) = Some b" "buf_context b = m_context (w_miner s)" "buf_data b \<noteq> []"
    "init cs drv kernel_text index (int e) (fork_height w) False True (w_miner s) (w_aux s) = (Inr True, m', aux')"
    "0 < m_globalWorkSize m'"
  shows "if drv_checks_context drv
    then cl_workLoop_step cs drv kernel_text run scrambler index w s = Stopped (if s_exit cs then Exit else OpenCL INVALID_CONTEXT)
    else \<exists>s' d. cl_workLoop_step cs drv kernel_text run scrambler index w s = Running None s' \<and>
      m_dag (w_miner s') = Some d \<and> buf_data d = replicate (dag_sizes ! e div 64) None"
proof -
  note i = init_same_epoch [OF aux_reachable_ok [OF assms(1)] assms(2,12)]
  obtain k where k: "m_searchKernel m' = Some k" "k_context k = m_context m'" "k_args k" using i by blast
  have start: "work_changed w s" "init_needed w s" using assms(5) by (simp_all add: work_changed_def init_needed_def)
  have step: "init_step cs drv kernel_text index w s = Inr (s\<lparr>w_miner := m', w_aux := aux', w_dagLoadIndex := w_dagLoadIndex s\<rparr>)"
    using start(2) assms(3,4,5,8,12) by (simp add: init_step_def)
  show ?thesis
    using start step i k assms(6,7,8,9,10,11,13) found_nonce_reset [OF assms(11)]
    by (simp add: cl_workLoop_step_def loop_result_def switch_work_def search_step_def launch_ok_def submit_cl_def Let_def word_gt_0)
qed

theorem cl_period_change_witness:
  "cl_workLoop_step cl_statics_init (demo_driver True) [] (\<lambda>_ _ _ _ _ _ r. r) 0 0 (demo_package\<lparr>wp_height := 10\<rparr>) demo_world =
     Stopped (OpenCL INVALID_CONTEXT)"
proof -
  let ?w = "demo_package\<lparr>wp_height := 10\<rparr>"
  obtain m' aux' where i: "init cl_statics_init (demo_driver True) [] 0 (int 0) (fork_height ?w) False True (w_miner demo_world) (w_aux demo_world) = (Inr True, m', aux')"
      "m_globalWorkSize m' = 524288"
    using demo_init [OF aux_ok_init, of 0 True "[]" "fork_height ?w" False "w_miner demo_world"] by (auto simp: demo_world_def)
  have p: "w_old_period demo_world \<noteq> fork_height ?w div of_nat PROGPOW_PERIOD"
    by (simp add: demo_world_def fork_height_def demo_package_def WorkPackage_default_def PROGPOW_PERIOD_def)
  have "has_work ?w" "upper64OfBoundary (wp_boundary ?w) \<noteq> 0" using demo_package_simps by (simp_all add: has_work_def)
  with cl_period_change [where e = 0 and run = "\<lambda>_ _ _ _ _ _ r. r" and scrambler = 0, OF _ _ _ _ p _ _ _ _ _ _ i(1)] i(2)
  show ?thesis
    by (auto simp: aux_reachable.start demo_world_def cl_statics_init_def DAG_LOAD_MODE_SEQUENTIAL_def demo_driver_def)
qed

text \<open>
  C34: what the OpenCL miner submits.  An iteration that submits after a running iteration does so for the same
  header and period, never marks the solution stale, and the nonce is the start nonce of the run plus
  the reported index, reduced to 32 bits: it is the nonce the kernel found only if that is below \<open>2^32\<close>.
  Whatever the last run found before new work arrives is dropped.
\<close>

theorem cl_nonce_truncated:
  assumes "cl_workLoop_step cs drv kernel_text run scrambler index w s = Running sol1 s1"
    "m_searchBuffer (w_miner s1) = Some b" "buf_data b \<noteq> []" "m_searchKernel (w_miner s1) = Some k"
    "cl_workLoop_step cs drv kernel_text run scrambler index w' s1 = Running (Some sol) s2"
  shows "\<not> work_changed w' s1 \<and> \<not> sol_stale sol \<and> sol_work sol = w_current s1 \<and> 0 < buf_data b ! 0 \<and>
    unat (sol_nonce sol) = unat (k_start k + ucast (buf_data b ! 1)) mod 2 ^ 32 \<and>
    (sol_nonce sol = k_start k + ucast (buf_data b ! 1) \<longleftrightarrow> unat (k_start k + ucast (buf_data b ! 1)) < 2 ^ 32)"
proof -
  obtain s0 where s0: "search_step drv run w s0 = Inr (sol1, s1)" using workLoop_Running [OF assms(1)] .
  obtain k' where "m_searchKernel (w_miner s1) = Some k'" "k_start k' = w_startNonce s0"
      "w_current s1 = w\<lparr>wp_startNonce := ucast (w_startNonce s0)\<rparr>"
    using search_step_Inr [OF s0] .
  then have cur: "w_current s1 = w\<lparr>wp_startNonce := ucast (k_start k)\<rparr>" using assms(4) by simp
  obtain t where t: "search_step drv run w' t = Inr (Some sol, s2)"
      "if work_changed w' s1 then \<exists>t0. init_step cs drv kernel_text index w' s1 = Inr t0 \<and> switch_work drv scrambler index w' t0 = Inr t else t = s1"
    using workLoop_Running [OF assms(5)] .
  obtain b' aux' where b': "m_searchBuffer (w_miner t) = Some b'"
      "submit_cl (w_current t) w' (found_nonce (w_current t) (buf_data b')) (w_aux t) = Inr (Some sol, aux')"
    using search_step_Inr [OF t(1)] .
  then have pos: "0 < buf_data b' ! 0" by (auto simp: submit_cl_def found_nonce_def word_gt_0 split: if_splits)
  have same: "\<not> work_changed w' s1"
  proof
    assume "work_changed w' s1"
    with t(2) obtain t0 where t0: "init_step cs drv kernel_text index w' s1 = Inr t0" "switch_work drv scrambler index w' t0 = Inr t" by auto
    from init_step_searchBuffer [OF t0(1) assms(2,3)] obtain c where "m_searchBuffer (w_miner t0) = Some c" "buf_data c \<noteq> []" by blast
    from switch_work_searchBuffer [OF t0(2) this] b'(1) pos show False by simp
  qed
  then have "t = s1" "b' = b" using t(2) b'(1) assms(2) by simp_all
  then have sol: "sol_nonce sol = ucast (ucast (k_start k) + buf_data b ! 1 :: u32)" "sol_work sol = w_current s1" "\<not> sol_stale sol"
    using b'(2) pos same cur by (auto simp: submit_cl_def found_nonce_def work_changed_def split: if_splits sum.splits prod.splits)
  have n: "unat (sol_nonce sol) = unat (k_start k + ucast (buf_data b ! 1)) mod 2 ^ 32" unfolding sol(1) by (rule unat_ucast_add)
  have eq: "x = y \<longleftrightarrow> unat y < 2 ^ 32" if "unat x = unat y mod 2 ^ 32" for x y :: u64
    using that by (auto simp: word_unat_eq_iff)
  show ?thesis using same sol(2,3) n eq [OF n] pos \<open>b' = b\<close> by simp
qed

text \<open>A kernel that reports the index 5: the nonce \<open>2^40 + 5\<close> found is submitted as 5.\<close>

theorem cl_nonce_truncated_witness:
  "\<exists>s1 sol s2. cl_workLoop_step cl_statics_init (demo_driver True) [] (\<lambda>_ _ _ _ _ _ _. [1, 5]) 0 0 demo_package demo_world = Running None s1 \<and>
    cl_workLoop_step cl_statics_init (demo_driver True) [] (\<lambda>_ _ _ _ _ _ _. [1, 5]) 0 0 demo_package s1 = Running (Some sol) s2 \<and>
    unat (sol_nonce sol) = 5 \<and> \<not> sol_stale sol"
proof -
  let ?step = "cl_workLoop_step cl_statics_init (demo_driver True) [] (\<lambda>_ _ _ _ _ _ _. [1, 5]) 0 0 demo_package"
  let ?k = "\<lparr>k_context = 1, k_code = [], k_args = True, k_start = 2 ^ 40, k_target = 1\<rparr>" and ?b = "\<lparr>buf_context = 1, buf_data = [1, 5]\<rparr>"
  obtain s1 where s1: "?step demo_world = Running None s1" "m_searchBuffer (w_miner s1) = Some ?b" "m_searchKernel (w_miner s1) = Some ?k"
      "w_current s1 = demo_package\<lparr>wp_startNonce := 0\<rparr>" "w_old_period s1 = w_old_period demo_world" "m_queue (w_miner s1) = 1"
      "m_globalWorkSize (w_miner s1) = 524288" "w_aux s1 = aux_init"
    by (simp add: cl_workLoop_step_def work_changed_def demo_world_def loop_result_def search_step_def CLMiner_new_def
        found_nonce_def launch_ok_def submit_cl_def Let_def)
  obtain r aux' where ev: "eval (int 0) (wp_header demo_package) 5 aux_init = (Inr r, aux')"
    by (rule eval_total [OF aux_ok_init, of 0 "wp_header demo_package" 5]) simp
  have "\<not> work_changed demo_package s1" using s1(4,5) by (simp add: work_changed_def demo_world_def)
  then obtain sol s2 where s2: "?step s1 = Running (Some sol) s2"
    using s1 ev by (simp add: cl_workLoop_step_def loop_result_def search_step_def found_nonce_def launch_ok_def submit_cl_def Let_def word_gt_0)
  have "unat (sol_nonce sol) = 5 \<and> \<not> sol_stale sol"
    using cl_nonce_truncated [OF s1(1,2) _ s1(3) s2] by simp
  with s1(1) s2 show ?thesis by simp
qed

text \<open>
  A code that the headers give to one of the names is reported under that name, when no other name has it.
\<close>

theorem cl_error_named:
  assumes "n \<in> set cl_error_names" "const n = Some err" "\<And>k. k \<in> set cl_error_names \<Longrightarrow> const k = Some err \<Longrightarrow> k = n"
  shows "strClError const err = n"
proof (cases "find (\<lambda>n. const n = Some err) cl_error_names")
  case None
  then show ?thesis using assms(1,2) by (simp add: find_None_iff)
next
  case (Some k)
  then have "k \<in> set cl_error_names" "const k = Some err" by (auto simp: find_Some_iff)
  then show ?thesis using Some assms(3) by (simp add: strClError_def)
qed

end
