(* ===== verification/CLib.thy ===== *)
theory CLib
  imports CommonData
begin

text \<open>
  The conversions of the C and C++ libraries that several components use: \<^verbatim>\<open>isspace\<close>, \<^verbatim>\<open>isdigit\<close>, \<^verbatim>\<open>atoi\<close>, \<^verbatim>\<open>std::stol\<close>,
  \<^verbatim>\<open>strtoul\<close> with its end pointer and \<^verbatim>\<open>errno\<close>, \<^verbatim>\<open>std::getline\<close> over a whole file and the \<^verbatim>\<open>%x\<close> of \<^verbatim>\<open>printf\<close>, on a 64-bit platform.
\<close>

section \<open>Characters and decimal numbers\<close>

definition is_space :: "char \<Rightarrow> bool" where
  "is_space c \<longleftrightarrow> c \<in> {CHR '' '', CHR 0x09, CHR 0x0A, CHR 0x0B, CHR 0x0C, CHR 0x0D}"

definition is_digit :: "char \<Rightarrow> bool" where
  "is_digit c \<longleftrightarrow> 48 \<le> (of_char c :: nat) \<and> (of_char c :: nat) \<le> 57"

definition atoi :: "string \<Rightarrow> int" where
  "atoi s =
     (let t = dropWhile is_space s in
      case t of
        [] \<Rightarrow> 0
      | c # r \<Rightarrow>
          if c = CHR ''-'' then - int (read_dec (takeWhile is_digit r))
          else if c = CHR ''+'' then int (read_dec (takeWhile is_digit r))
          else int (read_dec (takeWhile is_digit t)))"

text \<open>\<^verbatim>\<open>std::stol\<close> on a 64-bit platform; \<open>None\<close> when it throws.\<close>

definition stol :: "string \<Rightarrow> int option" where
  "stol s =
     (let t = dropWhile is_space s;
          neg = (t \<noteq> [] \<and> hd t = CHR ''-'');
          r = (if t \<noteq> [] \<and> (hd t = CHR ''-'' \<or> hd t = CHR ''+'') then tl t else t);
          d = takeWhile is_digit r;
          v = (if neg then - int (read_dec d) else int (read_dec d))
      in if d = [] then None else if v < - (2 ^ 63) \<or> 2 ^ 63 \<le> v then None else Some v)"

section \<open>\<^verbatim>\<open>strtoul\<close>\<close>

text \<open>The value, whether \<^verbatim>\<open>errno\<close> became \<^verbatim>\<open>ERANGE\<close>, and whether the end pointer differs from the start.\<close>

record scan =
  sc_value :: u64
  sc_range :: bool
  sc_converted :: bool

definition digit_of :: "nat \<Rightarrow> char \<Rightarrow> nat option" where
  "digit_of base c = (case fromHex_char c of Some d \<Rightarrow> if d < base then Some d else None | None \<Rightarrow> None)"

definition read_base :: "nat \<Rightarrow> string \<Rightarrow> nat" where
  "read_base base ds = foldl (\<lambda>n c. base * n + the (digit_of base c)) 0 ds"

text \<open>Base 0 takes the base from the prefix.\<close>

definition strtoul :: "nat \<Rightarrow> string \<Rightarrow> scan" where
  "strtoul base0 s =
     (let t = dropWhile is_space s;
          neg = (t \<noteq> [] \<and> hd t = CHR ''-'');
          r = (if t \<noteq> [] \<and> (hd t = CHR ''-'' \<or> hd t = CHR ''+'') then tl t else t);
          hex = (base0 \<in> {0, 16} \<and> 3 \<le> length r \<and> (take 2 r = ''0x'' \<or> take 2 r = ''0X'') \<and> digit_of 16 (r ! 2) \<noteq> None);
          base = (if base0 \<noteq> 0 then base0 else if hex then 16 else if r \<noteq> [] \<and> hd r = CHR ''0'' then 8 else 10);
          ds = takeWhile (\<lambda>c. digit_of base c \<noteq> None) (if hex then drop 2 r else r);
          v = read_base base ds
      in \<lparr>sc_value = (if 2 ^ 64 \<le> v then -1 else if neg then - of_nat v else of_nat v), sc_range = (2 ^ 64 \<le> v), sc_converted = (ds \<noteq> [])\<rparr>)"

section \<open>Lines and hexadecimal output\<close>

text \<open>The lines \<^verbatim>\<open>std::getline\<close> delivers until it fails: no empty line after a final newline.\<close>

fun getlines_from :: "string \<Rightarrow> string \<Rightarrow> string list" where
  "getlines_from cur [] = (if cur = [] then [] else [rev cur])"
| "getlines_from cur (c # s) = (if c = CHR 0x0A then rev cur # getlines_from [] s else getlines_from (c # cur) s)"

definition getlines :: "string \<Rightarrow> string list" where
  "getlines s = getlines_from [] s"

text \<open>\<^verbatim>\<open>%0wx\<close> of an \<^verbatim>\<open>int\<close>.\<close>

definition printf_x :: "nat \<Rightarrow> int \<Rightarrow> string" where
  "printf_x w x = setw0 w (hex_string (unat (of_int x :: u32)))"

end
