(* ===== verification/PoolUri.thy ===== *)
theory PoolUri
  imports CLib "HOL-Library.List_Lexorder" "HOL-Library.Char_ord"
begin

text \<open>
  Pool endpoints: \<^verbatim>\<open>libpoolprotocols/PoolURI.{h,cpp}\<close> and the class \<open>PoolConnection\<close> of
  \<^verbatim>\<open>PoolClient.h\<close>.  The URI parser, percent decoding and \<open>boost::trim\<close> are not part of the repository:
  they are the fields of the record \<open>uri_lib\<close>, an argument of the definitions.  The scheme table is
  a \<open>std::map\<close> whose \<open>operator[]\<close> inserts missing keys, so it is part of the state.
\<close>

section \<open>Schemes\<close>

fun contains :: "string \<Rightarrow> string \<Rightarrow> bool" where
  "contains p [] \<longleftrightarrow> p = []"
| "contains p (c # s) \<longleftrightarrow> take (length p) (c # s) = p \<or> contains p s"

datatype SecureLevel = SecNone | TLS12 | TLS | ALLOW_SELFSIGNED
datatype ProtocolFamily = GETWORK | STRATUM

record SchemeAttributes =
  family :: ProtocolFamily
  secure :: SecureLevel
  version :: u32

type_synonym schemes = "(string \<times> SchemeAttributes) list"

text \<open>\<open>std::map\<close> as the sorted list of its entries: insertion keeps an existing entry.\<close>

fun map_insert :: "string \<Rightarrow> SchemeAttributes \<Rightarrow> schemes \<Rightarrow> schemes" where
  "map_insert k v [] = [(k, v)]"
| "map_insert k v ((k', v') # m) =
     (if k < k' then (k, v) # (k', v') # m else if k = k' then (k', v') # m else (k', v') # map_insert k v m)"

definition attrs :: "ProtocolFamily \<Rightarrow> SecureLevel \<Rightarrow> u32 \<Rightarrow> SchemeAttributes" where
  "attrs f s v = \<lparr>family = f, secure = s, version = v\<rparr>"

definition scheme_entries :: "(string \<times> SchemeAttributes) list" where
  "scheme_entries =
    [(''stratum+tcp'', attrs STRATUM SecNone 0),
     (''stratum1+tcp'', attrs STRATUM SecNone 1),
     (''stratum2+tcp'', attrs STRATUM SecNone 2),
     (''stratum+tls'', attrs STRATUM TLS 0),
     (''stratum1+tls'', attrs STRATUM TLS 1),
     (''stratum2+tls'', attrs STRATUM TLS 2),
     (''stratum+tls12'', attrs STRATUM TLS12 0),
     (''stratum1+tls12'', attrs STRATUM TLS12 1),
     (''stratum2+tls12'', attrs STRATUM TLS12 2),
     (''stratum+ssl'', attrs STRATUM TLS12 0),
     (''stratum1+ssl'', attrs STRATUM TLS12 1),
     (''stratum2+ssl'', attrs STRATUM TLS12 2),
     (''http'', attrs GETWORK SecNone 0)]"

definition s_schemes :: schemes where
  "s_schemes = fold (\<lambda>(k, v). map_insert k v) scheme_entries []"

text \<open>\<open>s_schemes[s]\<close>: the entry, or a zero-initialised one that is inserted.\<close>

definition scheme_index :: "string \<Rightarrow> schemes \<Rightarrow> SchemeAttributes \<times> schemes" where
  "scheme_index s m =
     (case map_of m s of
        Some a \<Rightarrow> (a, m)
      | None \<Rightarrow> (attrs GETWORK SecNone 0, map_insert s (attrs GETWORK SecNone 0) m))"

section \<open>URIs\<close>

record uri_parts =
  u_scheme :: "string option"
  u_user_info :: "string option"
  u_host :: "string option"
  u_port :: "string option"
  u_path :: "string option"

record uri_lib =
  uri_parse :: "string \<Rightarrow> uri_parts option"
  uri_decode :: "string \<Rightarrow> string"
  boost_trim :: "string \<Rightarrow> string"

text \<open>The constructor; \<open>None\<close> when the parser throws.\<close>

definition URI :: "uri_lib \<Rightarrow> string \<Rightarrow> uri_parts option" where
  "URI lib uri = uri_parse lib (if contains ''://'' uri then uri else ''unspecified://'' @ uri)"

definition component :: "uri_lib \<Rightarrow> string option \<Rightarrow> string" where
  "component lib p = (case p of None \<Rightarrow> [] | Some s \<Rightarrow> boost_trim lib (uri_decode lib s))"

definition KnownScheme :: "uri_lib \<Rightarrow> uri_parts \<Rightarrow> schemes \<Rightarrow> bool" where
  "KnownScheme lib u m = (case u_scheme u of None \<Rightarrow> False | Some s \<Rightarrow> map_of m (boost_trim lib s) \<noteq> None)"

definition ProtoFamily :: "uri_lib \<Rightarrow> uri_parts \<Rightarrow> schemes \<Rightarrow> ProtocolFamily \<times> schemes" where
  "ProtoFamily lib u m =
     (if u_scheme u = None then (STRATUM, m)
      else let (a, m') = scheme_index (component lib (u_scheme u)) m in (family a, m'))"

definition ProtoVersion :: "uri_lib \<Rightarrow> uri_parts \<Rightarrow> schemes \<Rightarrow> u32 \<times> schemes" where
  "ProtoVersion lib u m =
     (if u_scheme u = None then (0, m)
      else let (a, m') = scheme_index (component lib (u_scheme u)) m in (version a, m'))"

definition ProtoSecureLevel :: "uri_lib \<Rightarrow> uri_parts \<Rightarrow> schemes \<Rightarrow> SecureLevel \<times> schemes" where
  "ProtoSecureLevel lib u m =
     (if u_scheme u = None then (SecNone, m)
      else let (a, m') = scheme_index (component lib (u_scheme u)) m in (secure a, m'))"

definition KnownSchemes :: "uri_lib \<Rightarrow> ProtocolFamily \<Rightarrow> schemes \<Rightarrow> string" where
  "KnownSchemes lib fam m = boost_trim lib (concat (map (\<lambda>(k, a). if family a = fam then k @ '' '' else []) m))"

definition Scheme :: "uri_lib \<Rightarrow> uri_parts \<Rightarrow> string" where
  "Scheme lib u = component lib (u_scheme u)"

definition Host :: "uri_lib \<Rightarrow> uri_parts \<Rightarrow> string" where
  "Host lib u = component lib (u_host u)"

definition Path :: "uri_lib \<Rightarrow> uri_parts \<Rightarrow> string" where
  "Path lib u = component lib (u_path u)"

definition Port :: "uri_lib \<Rightarrow> uri_parts \<Rightarrow> u16" where
  "Port lib u = (if u_port u = None then 0 else of_int (atoi (component lib (u_port u))))"

definition User :: "uri_lib \<Rightarrow> uri_parts \<Rightarrow> string" where
  "User lib u = takeWhile (\<lambda>c. c \<noteq> CHR '':'') (component lib (u_user_info u))"

definition Pswd :: "uri_lib \<Rightarrow> uri_parts \<Rightarrow> string" where
  "Pswd lib u = drop 1 (dropWhile (\<lambda>c. c \<noteq> CHR '':'') (component lib (u_user_info u)))"

section \<open>Connections\<close>

record PoolConnection =
  pc_host :: string
  pc_port :: u16
  pc_user :: string
  pc_pass :: string
  pc_secLevel :: SecureLevel
  pc_version :: u32
  pc_path :: string

definition PoolConnection_default :: PoolConnection where
  "PoolConnection_default = \<lparr>pc_host = '''', pc_port = 0, pc_user = '''', pc_pass = '''', pc_secLevel = SecNone,
     pc_version = 0, pc_path = ''''\<rparr>"

definition PoolConnection_of_URI :: "uri_lib \<Rightarrow> uri_parts \<Rightarrow> schemes \<Rightarrow> PoolConnection \<times> schemes" where
  "PoolConnection_of_URI lib u m =
     (let (sec, m1) = ProtoSecureLevel lib u m;
          (ver, m2) = ProtoVersion lib u m1
      in (\<lparr>pc_host = Host lib u, pc_port = Port lib u, pc_user = User lib u, pc_pass = Pswd lib u,
           pc_secLevel = sec, pc_version = ver, pc_path = Path lib u\<rparr>, m2))"

section \<open>The table\<close>

lemma map_of_map_insert: "map_of (map_insert k v m) x = (if x = k \<and> map_of m k = None then Some v else map_of m x)"
  if "sorted_wrt (<) (map fst m)"
  using that
proof (induction m)
  case (Cons e m)
  obtain k' v' where e: "e = (k', v')" by force
  have "map_of m k = None" if "k < k'"
    using that Cons.prems e by (auto simp: map_of_eq_None_iff)
  then show ?case using Cons by (auto simp: e)
qed simp

lemma keys_map_insert: "set (map fst (map_insert k v m)) = insert k (set (map fst m))"
  by (induction k v m rule: map_insert.induct) auto

lemma sorted_map_insert: "sorted_wrt (<) (map fst m) \<Longrightarrow> sorted_wrt (<) (map fst (map_insert k v m))"
proof (induction k v m rule: map_insert.induct)
  case (2 k v k' v' m)
  then show ?case
    using keys_map_insert [of k v m] by (auto simp: not_less_iff_gr_or_eq)
qed simp


lemma sorted_fold_insert: "sorted_wrt (<) (map fst m) \<Longrightarrow> sorted_wrt (<) (map fst (fold (\<lambda>(k, v). map_insert k v) es m))"
  by (induction es arbitrary: m) (auto simp: sorted_map_insert split_def)

lemma map_of_fold_insert:
  "sorted_wrt (<) (map fst m) \<Longrightarrow>
    map_of (fold (\<lambda>(k, v). map_insert k v) es m) x = (case map_of m x of Some a \<Rightarrow> Some a | None \<Rightarrow> map_of es x)"
  by (induction es arbitrary: m)
    (auto simp: split_def map_of_map_insert sorted_map_insert split: option.split)

lemma sorted_schemes: "sorted_wrt (<) (map fst s_schemes)"
  by (simp add: s_schemes_def sorted_fold_insert)

lemma map_of_schemes: "map_of s_schemes = map_of scheme_entries"
  by (rule ext) (simp add: s_schemes_def map_of_fold_insert)

lemma map_of_scheme_entries: "(k, a) \<in> set scheme_entries \<Longrightarrow> map_of scheme_entries k = Some a"
  by (rule map_of_is_SomeI) (simp_all add: scheme_entries_def)

lemma scheme_index_known: "map_of m s = Some a \<Longrightarrow> scheme_index s m = (a, m)"
  by (simp add: scheme_index_def)

text \<open>Reading the attributes of an unknown scheme makes it known.\<close>

theorem unknown_scheme_becomes_known:
  assumes "u_scheme u = Some s" "uri_decode lib s = s" "sorted_wrt (<) (map fst m)" "map_of m (boost_trim lib s) = None"
  shows "\<not> KnownScheme lib u m \<and> KnownScheme lib u (snd (PoolConnection_of_URI lib u m)) \<and>
    pc_secLevel (fst (PoolConnection_of_URI lib u m)) = SecNone"
  using assms
  by (simp add: KnownScheme_def PoolConnection_of_URI_def ProtoSecureLevel_def ProtoVersion_def scheme_index_def
      component_def map_of_map_insert attrs_def split_def Let_def)

section \<open>Properties\<close>

text \<open>
  A connection made from a URI of a listed scheme has exactly the security level and protocol
  version of the table, leaves the table unchanged, and splits \<open>user:password\<close> at the first colon.
\<close>

theorem connection_of_uri:
  assumes "u_scheme u \<noteq> None" "(Scheme lib u, a) \<in> set scheme_entries"
    "component lib (u_user_info u) = user @ CHR '':'' # pass" "CHR '':'' \<notin> set user"
  shows "PoolConnection_of_URI lib u s_schemes =
      (\<lparr>pc_host = Host lib u, pc_port = Port lib u, pc_user = user, pc_pass = pass,
        pc_secLevel = secure a, pc_version = version a, pc_path = Path lib u\<rparr>, s_schemes) \<and>
    ProtoFamily lib u s_schemes = (family a, s_schemes)"
proof -
  have "map_of s_schemes (Scheme lib u) = Some a"
    using map_of_scheme_entries [OF assms(2)] by (simp add: map_of_schemes)
  then have i: "scheme_index (component lib (u_scheme u)) s_schemes = (a, s_schemes)"
    by (simp add: scheme_index_known Scheme_def)
  have p: "c \<noteq> CHR '':''" if "c \<in> set user" for c using that assms(4) by auto
  have "User lib u = user" "Pswd lib u = pass"
    using assms(3) p by (simp_all add: User_def Pswd_def takeWhile_append2 dropWhile_append2)
  then show ?thesis
    using assms(1) by (auto simp: PoolConnection_of_URI_def ProtoSecureLevel_def ProtoVersion_def ProtoFamily_def i)
qed

text \<open>A library that neither decodes nor trims, and a parsed endpoint.\<close>

definition demo_lib :: uri_lib where
  "demo_lib = \<lparr>uri_parse = (\<lambda>s. None), uri_decode = (\<lambda>s. s), boost_trim = (\<lambda>s. s)\<rparr>"

definition demo_uri :: uri_parts where
  "demo_uri = \<lparr>u_scheme = Some ''stratum2+ssl'', u_user_info = Some ''wallet:x:y'', u_host = Some ''pool.net'',
     u_port = Some ''8501'', u_path = None\<rparr>"

theorem connection_of_uri_witness:
  "pc_secLevel (fst (PoolConnection_of_URI demo_lib demo_uri s_schemes)) = TLS12 \<and>
   pc_pass (fst (PoolConnection_of_URI demo_lib demo_uri s_schemes)) = ''x:y''"
  using connection_of_uri [of demo_uri demo_lib "attrs STRATUM TLS12 2" "''wallet''" "''x:y''"]
  by (simp add: demo_uri_def demo_lib_def Scheme_def component_def scheme_entries_def attrs_def)

end
