(* ===== verification/PoolManager.thy ===== *)
theory PoolManager
  imports Farm PoolUri
begin

text \<open>
  The pool manager of \<^verbatim>\<open>libpoolprotocols/PoolManager.{h,cpp}\<close>: it connects the farm with a pool client
  through callbacks.  The client is one of several implementations of the interface \<open>PoolClient\<close>; a call of
  one of its virtual functions is a value of \<open>client_cmd\<close>, and every handler returns the manager with the
  calls it made, in order.  A call may invoke a callback before it returns; callbacks are handlers of their
  own here, run after the handler that caused them.  Sleeping and logging have no effect on the state.
\<close>

section \<open>State\<close>

datatype client_cmd = SetConnection PoolConnection | Connect | Disconnect | SubmitHashrate string | SubmitSolution Solution

datatype pm_error = NoSuchConnection | DivisionByZero | FarmStartBlocks

record manager =
  m_hashrateReportingTime :: nat
  m_hashrateReportingTimePassed :: nat
  m_running :: bool
  m_reconnectTries :: nat
  m_reconnectTry :: nat
  m_connections :: "PoolConnection list"
  m_activeConnectionIdx :: nat
  m_lastBoundary :: h256
  m_farm :: farm
  m_minerType :: MinerType

definition PoolManager_new :: "farm \<Rightarrow> MinerType \<Rightarrow> manager" where
  "PoolManager_new f t = \<lparr>m_hashrateReportingTime = 60, m_hashrateReportingTimePassed = 0, m_running = False,
     m_reconnectTries = 3, m_reconnectTry = 0, m_connections = [], m_activeConnectionIdx = 0,
     m_lastBoundary = h256_zero, m_farm = f, m_minerType = t\<rparr>"

definition setReconnectTries :: "nat \<Rightarrow> manager \<Rightarrow> manager" where
  "setReconnectTries n m = m\<lparr>m_reconnectTries := n\<rparr>"

text \<open>\<open>m_connections[m_activeConnectionIdx]\<close>, which the messages of most handlers read.\<close>

definition active_connection :: "manager \<Rightarrow> pm_error + PoolConnection" where
  "active_connection m =
     (if m_activeConnectionIdx m < length (m_connections m) then Inr (m_connections m ! m_activeConnectionIdx m)
      else Inl NoSuchConnection)"

section \<open>Starting and stopping\<close>

definition farm_start :: "string \<Rightarrow> bool \<Rightarrow> farm \<Rightarrow> pm_error + farm" where
  "farm_start sealer mixed f =
     (case start sealer mixed f of (StartReturned b, g) \<Rightarrow> Inr g | (StartBlocks, g) \<Rightarrow> Inl FarmStartBlocks)"

definition spin_up :: "MinerType \<Rightarrow> farm \<Rightarrow> pm_error + farm" where
  "spin_up t f =
     (case t of
        CL \<Rightarrow> farm_start ''opencl'' False f
      | CUDA \<Rightarrow> farm_start ''cuda'' False f
      | Mixed \<Rightarrow> bindE (farm_start ''cuda'' False f) (farm_start ''opencl'' True))"

definition shut_down_miners :: "manager \<Rightarrow> manager" where
  "shut_down_miners m = (if isMining (m_farm m) then m\<lparr>m_farm := stop (m_farm m)\<rparr> else m)"

definition PoolManager_stop :: "bool \<Rightarrow> manager \<Rightarrow> manager \<times> client_cmd list" where
  "PoolManager_stop connected m =
     (if m_running m then (shut_down_miners (m\<lparr>m_running := False\<rparr>), if connected then [Disconnect] else [])
      else (m, []))"

definition PoolManager_start :: "manager \<Rightarrow> manager \<times> client_cmd list" where
  "PoolManager_start m = (if m_connections m \<noteq> [] then (m\<lparr>m_running := True\<rparr>, [Connect]) else (m, []))"

definition addConnection :: "PoolConnection \<Rightarrow> manager \<Rightarrow> manager \<times> client_cmd list" where
  "addConnection conn m =
     (if pc_host conn = [] then (m, [])
      else let m = m\<lparr>m_connections := m_connections m @ [conn]\<rparr> in
        if length (m_connections m) = 1 then
          (m\<lparr>m_farm := set_pool_addresses (pc_host conn) (unat (pc_port conn)) (m_farm m)\<rparr>, [SetConnection conn])
        else (m, []))"

definition clearConnections :: "bool \<Rightarrow> manager \<Rightarrow> manager \<times> client_cmd list" where
  "clearConnections connected m =
     (m\<lparr>m_connections := [], m_farm := set_pool_addresses [] 0 (m_farm m)\<rparr>, if connected then [Disconnect] else [])"

section \<open>Reconnecting\<close>

definition next_pool_index :: "nat \<Rightarrow> nat \<Rightarrow> nat" where
  "next_pool_index n i = (if n \<le> i + 1 then 0 else i + 1)"

definition tryReconnect :: "bool \<Rightarrow> manager \<Rightarrow> manager \<times> client_cmd list" where
  "tryReconnect connected m =
     (if m_connections m = [] then (m, [])
      else if length (m_connections m) = 1 then (m, [Connect])
      else if m_reconnectTry m < m_reconnectTries m then (m\<lparr>m_reconnectTry := m_reconnectTry m + 1\<rparr>, [Connect])
      else
        let i = next_pool_index (length (m_connections m)) (m_activeConnectionIdx m);
            m = m\<lparr>m_reconnectTry := 0, m_activeConnectionIdx := i\<rparr>;
            conn = m_connections m ! i
        in if pc_host conn = ''exit'' then PoolManager_stop connected m
           else (m\<lparr>m_farm := set_pool_addresses (pc_host conn) (unat (pc_port conn)) (m_farm m)\<rparr>,
                 [SetConnection conn, Connect]))"

section \<open>Callbacks of the client\<close>

definition onConnected :: "manager \<Rightarrow> pm_error + manager" where
  "onConnected m =
     bindE (active_connection m) (\<lambda>_.
       if isMining (m_farm m) then Inr m
       else bindE (spin_up (m_minerType m) (m_farm m)) (\<lambda>f. Inr (m\<lparr>m_farm := f\<rparr>)))"

definition onDisconnected :: "bool \<Rightarrow> manager \<Rightarrow> pm_error + manager \<times> client_cmd list" where
  "onDisconnected connected m =
     bindE (active_connection m) (\<lambda>_.
       let m = shut_down_miners m in Inr (if m_running m then tryReconnect connected m else (m, [])))"

text \<open>The displayed difficulty is \<open>2^256\<close> divided by the boundary; boost's integers throw on a zero divisor.\<close>

definition onWorkReceived :: "WorkPackage \<Rightarrow> nat \<Rightarrow> manager \<Rightarrow> pm_error + manager" where
  "onWorkReceived w now m =
     (let m = m\<lparr>m_reconnectTry := 0, m_farm := setWork w now (m_farm m)\<rparr>;
          changed = wp_boundary w \<noteq> m_lastBoundary m;
          m = (if changed then m\<lparr>m_lastBoundary := wp_boundary w\<rparr> else m)
      in if changed \<and> FixedHash_to_arith 32 (wp_boundary w) = 0 then Inl DivisionByZero
         else bindE (active_connection m) (\<lambda>_. Inr m))"

definition onSolutionAccepted :: "bool \<Rightarrow> manager \<Rightarrow> manager" where
  "onSolutionAccepted stale m = m\<lparr>m_farm := acceptedSolution stale (m_farm m)\<rparr>"

definition onSolutionRejected :: "bool \<Rightarrow> manager \<Rightarrow> manager" where
  "onSolutionRejected stale m = m\<lparr>m_farm := rejectedSolution stale (m_farm m)\<rparr>"

section \<open>Callbacks of the farm\<close>

definition onSolutionFound :: "Solution \<Rightarrow> manager \<Rightarrow> pm_error + client_cmd list" where
  "onSolutionFound sol m = bindE (active_connection m) (\<lambda>_. Inr [SubmitSolution sol])"

definition onMinerRestart :: "manager \<Rightarrow> pm_error + manager" where
  "onMinerRestart m =
     (let m = shut_down_miners m in
      bindE (spin_up (m_minerType m) (m_farm m)) (\<lambda>f. Inr (m\<lparr>m_farm := f\<rparr>)))"

section \<open>Hash rate reports\<close>

definition hashrate_text :: "u64 \<Rightarrow> string" where
  "hashrate_text r =
     (let h = toHex (toCompactBigEndian (unat r) 1) 2 DontAdd in ''0x'' @ (if h ! 0 \<noteq> CHR ''0'' then h else drop 1 h))"

text \<open>One iteration of \<open>workLoop\<close>, once a second.\<close>

definition workLoop_tick :: "manager \<Rightarrow> manager \<times> client_cmd list" where
  "workLoop_tick m =
     (let m = m\<lparr>m_hashrateReportingTimePassed := m_hashrateReportingTimePassed m + 1\<rparr> in
      if m_hashrateReportingTime m < m_hashrateReportingTimePassed m then
        let (p, f) = miningProgress None None None False False (m_farm m) in
        (m\<lparr>m_farm := f, m_hashrateReportingTimePassed := 0\<rparr>, [SubmitHashrate (hashrate_text (rate p))])
      else (m, []))"

section \<open>Failover\<close>

text \<open>A number of reconnection attempts in a row, with the calls they make.\<close>

fun reconnect_run :: "nat \<Rightarrow> manager \<Rightarrow> manager \<times> client_cmd list" where
  "reconnect_run 0 m = (m, [])"
| "reconnect_run (Suc k) m =
     (let (m1, c1) = tryReconnect False m; (m2, c2) = reconnect_run k m1 in (m2, c1 @ c2))"

lemma reconnect_run_add:
  "reconnect_run (j + k) m =
     (let (m1, c1) = reconnect_run j m; (m2, c2) = reconnect_run k m1 in (m2, c1 @ c2))"
  by (induction j arbitrary: m) (simp_all add: split_def Let_def)

definition pool_list_ok :: "manager \<Rightarrow> bool" where
  "pool_list_ok m \<longleftrightarrow> 2 \<le> length (m_connections m) \<and> m_activeConnectionIdx m < length (m_connections m) \<and>
     (\<forall>c \<in> set (m_connections m). pc_host c \<noteq> ''exit'')"

text \<open>While attempts are left, the same pool is tried again.\<close>

lemma retry_phase:
  assumes "pool_list_ok m" "m_reconnectTry m + k \<le> m_reconnectTries m"
  shows "reconnect_run k m = (m\<lparr>m_reconnectTry := m_reconnectTry m + k\<rparr>, replicate k Connect)"
  using assms
proof (induction k arbitrary: m)
  case (Suc k)
  have t: "tryReconnect False m = (m\<lparr>m_reconnectTry := m_reconnectTry m + 1\<rparr>, [Connect])"
    using Suc.prems by (auto simp: tryReconnect_def pool_list_ok_def)
  have "pool_list_ok (m\<lparr>m_reconnectTry := m_reconnectTry m + 1\<rparr>)" using Suc.prems(1) by (simp add: pool_list_ok_def)
  then show ?case using Suc.IH Suc.prems(2) by (simp add: t)
qed simp

lemma next_pool_index_mod: "i < n \<Longrightarrow> next_pool_index n i = Suc i mod n"
  by (auto simp: next_pool_index_def not_less_eq_eq le_Suc_eq)

lemma mod_less_nat: "i < n \<Longrightarrow> x mod n < (n :: nat)"
  by (metis less_nat_zero_code mod_less_divisor not_gr_zero)

text \<open>One round: all attempts on the current pool, then the next pool.\<close>

definition round_cmds :: "manager \<Rightarrow> nat \<Rightarrow> client_cmd list" where
  "round_cmds m i = replicate (m_reconnectTries m) Connect @ [SetConnection (m_connections m ! i), Connect]"

lemma failover_round:
  assumes "pool_list_ok m" "m_reconnectTry m = 0"
  defines "i \<equiv> Suc (m_activeConnectionIdx m) mod length (m_connections m)"
  shows "\<exists>f. reconnect_run (Suc (m_reconnectTries m)) m =
      (m\<lparr>m_reconnectTry := 0, m_activeConnectionIdx := i, m_farm := f\<rparr>, round_cmds m i)"
proof -
  let ?m1 = "m\<lparr>m_reconnectTry := m_reconnectTries m\<rparr>"
  have p: "reconnect_run (m_reconnectTries m) m = (?m1, replicate (m_reconnectTries m) Connect)"
    using retry_phase [of m "m_reconnectTries m"] assms(1,2) by simp
  have i: "next_pool_index (length (m_connections m)) (m_activeConnectionIdx m) = i"
    using assms(1) by (simp add: next_pool_index_mod i_def pool_list_ok_def)
  have "i < length (m_connections m)" unfolding i_def
    by (rule mod_less_nat [of "m_activeConnectionIdx m"]) (use assms(1) in \<open>simp add: pool_list_ok_def\<close>)
  then have "pc_host (m_connections m ! i) \<noteq> ''exit''" using assms(1) by (simp add: pool_list_ok_def)
  moreover have "m_connections m \<noteq> []" "length (m_connections m) \<noteq> 1" using assms(1) by (auto simp: pool_list_ok_def)
  ultimately have "\<exists>f. tryReconnect False ?m1 =
      (m\<lparr>m_reconnectTry := 0, m_activeConnectionIdx := i, m_farm := f\<rparr>, [SetConnection (m_connections m ! i), Connect])"
    by (auto simp: tryReconnect_def Let_def i)
  then show ?thesis
    using reconnect_run_add [of "m_reconnectTries m" 1 m] by (auto simp: p round_cmds_def)
qed


lemma failover_rounds:
  assumes "pool_list_ok m" "m_reconnectTry m = 0"
  defines "n \<equiv> length (m_connections m)"
  shows "\<exists>f. reconnect_run (k * Suc (m_reconnectTries m)) m =
      (m\<lparr>m_reconnectTry := 0, m_activeConnectionIdx := (m_activeConnectionIdx m + k) mod n, m_farm := f\<rparr>,
       concat (map (\<lambda>j. round_cmds m ((m_activeConnectionIdx m + Suc j) mod n)) [0..<k]))"
proof (induction k)
  case 0
  show ?case using assms by (intro exI [of _ "m_farm m"]) (simp add: pool_list_ok_def)
next
  case (Suc k)
  let ?i = "m_activeConnectionIdx m"
  obtain f where f: "reconnect_run (k * Suc (m_reconnectTries m)) m =
      (m\<lparr>m_reconnectTry := 0, m_activeConnectionIdx := (?i + k) mod n, m_farm := f\<rparr>,
       concat (map (\<lambda>j. round_cmds m ((?i + Suc j) mod n)) [0..<k]))"
    using Suc.IH by blast
  let ?m = "m\<lparr>m_reconnectTry := 0, m_activeConnectionIdx := (?i + k) mod n, m_farm := f\<rparr>"
  have ok: "pool_list_ok ?m" "m_reconnectTry ?m = 0" using assms(1) by (auto simp: pool_list_ok_def n_def intro: mod_less_nat)
  have idx: "Suc (m_activeConnectionIdx ?m) mod length (m_connections ?m) = (?i + Suc k) mod n"
    by (simp add: n_def mod_Suc_eq)
  obtain g where "reconnect_run (Suc (m_reconnectTries ?m)) ?m =
      (?m\<lparr>m_reconnectTry := 0, m_activeConnectionIdx := (?i + Suc k) mod n, m_farm := g\<rparr>, round_cmds ?m ((?i + Suc k) mod n))"
    using failover_round [OF ok] unfolding idx by blast
  then have g: "reconnect_run (Suc (m_reconnectTries m)) ?m =
      (m\<lparr>m_reconnectTry := 0, m_activeConnectionIdx := (?i + Suc k) mod n, m_farm := g\<rparr>, round_cmds m ((?i + Suc k) mod n))"
    by (simp add: round_cmds_def)
  have e: "Suc k * Suc (m_reconnectTries m) = k * Suc (m_reconnectTries m) + Suc (m_reconnectTries m)" by simp
  show ?case
    unfolding e reconnect_run_add f Let_def prod.case g by (intro exI [of _ g]) simp
qed

section \<open>Hexadecimal reports\<close>

definition hex_value :: "string \<Rightarrow> nat" where
  "hex_value s = foldl (\<lambda>n c. 16 * n + the (fromHex_char c)) 0 s"

lemma hex_value_snoc: "hex_value (s @ [c]) = 16 * hex_value s + the (fromHex_char c)"
  by (simp add: hex_value_def)

lemma hex_value_pairs: "hex_value (hex_pairs bs) = be_value bs"
proof (induction bs rule: rev_induct)
  case (snoc b bs)
  have "hex_pairs (bs @ [b]) = (hex_pairs bs @ [hex_char (unat b div 16)]) @ [hex_char (unat b mod 16)]"
    by (simp add: hex_pairs_def)
  moreover have "unat b div 16 < 16" using unat_byte_less [of b] by linarith
  ultimately show ?case using snoc by (simp only: hex_value_snoc) simp
qed (simp add: hex_value_def hex_pairs_def)


lemma hex_char_0: "d < 16 \<Longrightarrow> hex_char d = CHR ''0'' \<longleftrightarrow> d = 0"
proof
  assume "d < 16" "hex_char d = CHR ''0''"
  then have "fromHex_char (CHR ''0'') = Some d" by (metis fromHex_char_hex_char)
  then show "d = 0" by (simp add: fromHex_char_def)
qed (simp add: hex_char_def)

lemma hex_value_drop0: "hex_value (CHR ''0'' # s) = hex_value s"
  by (simp add: hex_value_def fromHex_char_def)

text \<open>The first byte of a compact encoding is zero only for zero itself.\<close>

lemma compact_head: "hd (toCompactBigEndian v 1) = 0 \<longleftrightarrow> v = 0" "toCompactBigEndian v 1 \<noteq> []"
proof -
  show ne: "toCompactBigEndian v 1 \<noteq> []"
    unfolding toCompactBigEndian_def by (metis length_toBigEndian list.size(3) max_0_1(2) max_def zero_neq_one)
  show "hd (toCompactBigEndian v 1) = 0 \<longleftrightarrow> v = 0"
  proof (cases "v = 0")
    case True
    then show ?thesis by (simp add: toCompactBigEndian_def)
  next
    case False
    then have "0 < bytesRequired v" using bytesRequired_bounds [of v] by (cases "bytesRequired v") auto
    then have "toCompactBigEndian v 1 = toCompactBigEndian v 0" by (simp add: toCompactBigEndian_def max_def)
    then show ?thesis using False hd_compact [of v] by simp
  qed
qed


lemma hashrate_text_value:
  obtains s where "hashrate_text r = ''0x'' @ s" "s \<noteq> []" "hex_value s = unat r" "hd s = CHR ''0'' \<longrightarrow> s = ''0''"
proof -
  let ?bs = "toCompactBigEndian (unat r) 1"
  obtain b bs where bs: "?bs = b # bs" using compact_head(2) [of "unat r"] by (cases ?bs) auto
  have h: "toHex ?bs 2 DontAdd = hex_char (unat b div 16) # hex_char (unat b mod 16) # hex_pairs bs"
    by (simp add: toHex_pairs bs hex_pairs_def del: One_nat_def)
  have v: "hex_value (toHex ?bs 2 DontAdd) = unat r"
    by (simp add: toHex_pairs hex_value_pairs be_value_compact del: One_nat_def)
  have lt: "unat b div 16 < 16" using unat_byte_less [of b] by linarith
  show thesis
  proof (cases "unat b div 16 = 0")
    case False
    then have "hex_char (unat b div 16) \<noteq> CHR ''0''" using lt by (simp add: hex_char_0)
    then show thesis using that [of "toHex ?bs 2 DontAdd"] v h by (simp add: hashrate_text_def del: One_nat_def)
  next
    case True
    then have z: "hex_char (unat b div 16) = CHR ''0''" by (simp add: hex_char_0)
    let ?s = "hex_char (unat b mod 16) # hex_pairs bs"
    have s: "hashrate_text r = ''0x'' @ ?s" by (simp add: hashrate_text_def h z del: One_nat_def) simp
    have "hex_value ?s = unat r" using v by (simp only: h z hex_value_drop0)
    moreover have "?s = ''0''" if "hd ?s = CHR ''0''"
    proof -
      have "unat b mod 16 = 0" using that by (simp add: hex_char_0)
      with True have "unat b = 0" by (metis div_mult_mod_eq add_0 mult_zero_left)
      then have "unat r = 0" using compact_head(1) [of "unat r"] bs by (simp add: unat_eq_0 del: One_nat_def)
      then have "bs = []" using bs arg_cong [OF bs, of length] by (simp add: toCompactBigEndian_def)
      then show ?thesis using that by (simp add: hex_pairs_def)
    qed
    ultimately show thesis using that [OF s] by simp
  qed
qed

section \<open>The interface of the clients\<close>

datatype client_event = EvConnected | EvDisconnected | EvWorkReceived WorkPackage | EvAccepted bool | EvRejected bool

text \<open>What the manager relies on when it stops: in a state allowed by the client, \<open>disconnect\<close> of a connected
  client succeeds, leaves it unconnected and calls back with \<open>onDisconnected\<close>, once.\<close>

locale pool_client =
  fixes disconnect :: "'c \<Rightarrow> ('c \<times> client_event list) option"
    and isConnected :: "'c \<Rightarrow> bool"
    and ok :: "'c \<Rightarrow> bool"
  assumes disconnects:
    "ok c \<Longrightarrow> isConnected c \<Longrightarrow> \<exists>c'. disconnect c = Some (c', [EvDisconnected]) \<and> \<not> isConnected c' \<and> ok c'"
begin

lemma stop_is_final:
  assumes "ok c" "isConnected c" "m_running m" "active_connection m \<noteq> Inl NoSuchConnection"
    "PoolManager_stop (isConnected c) m = (m', cmds)"
  obtains c' where "cmds = [Disconnect]" "disconnect c = Some (c', [EvDisconnected])" "\<not> isConnected c'"
    "\<not> m_running m'" "\<not> isMining (m_farm m')" "onDisconnected (isConnected c') m' = Inr (m', [])"
proof -
  have m': "m' = shut_down_miners (m\<lparr>m_running := False\<rparr>)" "cmds = [Disconnect]"
    using assms(2,3,5) by (auto simp: PoolManager_stop_def)
  have nm: "\<not> isMining (m_farm m')" by (auto simp: m' shut_down_miners_def isMining_def stop_def)
  have "active_connection m' = active_connection m" by (simp add: m' shut_down_miners_def active_connection_def)
  then obtain x where x: "active_connection m' = Inr x"
    using assms(4) by (auto simp: active_connection_def split: if_splits)
  have nr: "\<not> m_running m'" by (simp add: m' shut_down_miners_def)
  have "onDisconnected b m' = Inr (m', [])" for b
    using nm nr x by (simp add: onDisconnected_def shut_down_miners_def [of m'] Let_def)
  with disconnects [OF assms(1,2)] nm nr m'(2) show thesis using that by blast
qed

end

section \<open>Properties\<close>

text \<open>
  C23: failover: with two or more pools and none named \<open>exit\<close>, repeated failures without new work try
  the current pool as often as configured, then move to the next one, cyclically; after \<open>k\<close> rounds the
  manager is at the \<open>k\<close>-th next pool and has issued exactly these calls, so every pool is reached.
\<close>

theorem failover_rotates:
  assumes "pool_list_ok m" "m_reconnectTry m = 0"
  shows "let n = length (m_connections m);
      (m', cmds) = reconnect_run (k * (m_reconnectTries m + 1)) m in
    m_activeConnectionIdx m' = (m_activeConnectionIdx m + k) mod n \<and> m_reconnectTry m' = 0 \<and>
    m_connections m' = m_connections m \<and>
    cmds = concat (map (\<lambda>j. replicate (m_reconnectTries m) Connect @
      [SetConnection (m_connections m ! ((m_activeConnectionIdx m + Suc j) mod n)), Connect]) [0..<k])"
  using failover_rounds [OF assms, of k] by (auto simp: Let_def round_cmds_def)

definition demo_manager :: manager where
  "demo_manager = (PoolManager_new (farm_new 7 0) CUDA)\<lparr>m_connections := [PoolConnection_default, PoolConnection_default\<lparr>pc_host := ''b''\<rparr>],
     m_running := True\<rparr>"

theorem failover_rotates_witness: "m_activeConnectionIdx (fst (reconnect_run (1 * (m_reconnectTries demo_manager + 1)) demo_manager)) = 1"
  using failover_rotates [of demo_manager 1]
  by (simp add: demo_manager_def PoolManager_new_def pool_list_ok_def PoolConnection_default_def split_def Let_def)

text \<open>
  The reported hash rate is the exact rate in hexadecimal without leading zeros.
\<close>

theorem hashrate_report_exact:
  "\<exists>s. hashrate_text r = ''0x'' @ s \<and> s \<noteq> [] \<and> hex_value s = unat r \<and> (hd s = CHR ''0'' \<longrightarrow> s = ''0'')"
  by (rule hashrate_text_value [of r]) blast

theorem hashrate_report_exact_witness: "\<exists>s. hashrate_text 1000 = ''0x'' @ s \<and> hex_value s = 1000"
  using hashrate_report_exact [of 1000] by auto

text \<open>
  In mixed mode the first connection never completes: when both sealers are registered and nothing
  has run yet, the handler for an established connection blocks in the second \<open>start\<close> of the farm.
\<close>

theorem mixed_mode_blocks:
  assumes "m_minerType m = Mixed" "\<not> isMining (m_farm m)" "m_serviceThread (m_farm m) = NotJoinable"
    "\<not> m_io_stopped (m_farm m)" "m_miners (m_farm m) = []" "m_sealers (m_farm m) ''cuda'' = Some n"
    "m_sealers (m_farm m) ''opencl'' = Some k" "active_connection m = Inr c"
  shows "onConnected m = Inl FarmStartBlocks"
  using assms by (simp add: onConnected_def spin_up_def farm_start_def start_def Let_def)

theorem mixed_mode_blocks_witness:
  "onConnected (demo_manager\<lparr>m_minerType := Mixed, m_farm := setSealers [''cuda'' \<mapsto> 2, ''opencl'' \<mapsto> 1] (farm_new 7 0)\<rparr>) =
     Inl FarmStartBlocks"
  using mixed_mode_blocks [of "demo_manager\<lparr>m_minerType := Mixed, m_farm := setSealers [''cuda'' \<mapsto> 2, ''opencl'' \<mapsto> 1] (farm_new 7 0)\<rparr>" 2 1 PoolConnection_default]
  by (simp add: demo_manager_def PoolManager_new_def setSealers_def farm_new_def isMining_def active_connection_def)

end
