(* ===== verification/Cli.thy ===== *)
theory Cli
  imports CudaInit ClMiner PoolManager
begin

text \<open>
  The command line: \<^verbatim>\<open>ethminer/MinerAux.h\<close> (\<open>MinerCLI\<close>) and the option loop of \<^verbatim>\<open>ethminer/main.cpp\<close>, built with
  OpenCL, CUDA and the API server and without D-Bus.  An option is a handler on the argument vector, the
  index and the settings; it answers \<open>None\<close> when its condition does not hold, so that the next one is
  tried, as in the chain of \<open>else if\<close>.  The URI library is the parameter of \<^verbatim>\<open>PoolUri\<close>.  Printing to the
  terminal is not modelled.
\<close>

section \<open>C++ library functions\<close>

definition to_lower_char :: "char \<Rightarrow> char" where
  "to_lower_char c = (let n = of_char c :: nat in if 65 \<le> n \<and> n \<le> 90 then char_of (n + 32) else c)"

definition starts_with_dash :: "string \<Rightarrow> bool" where
  "starts_with_dash s \<longleftrightarrow> s \<noteq> [] \<and> hd s = CHR ''-''"

section \<open>Settings\<close>

datatype OperationMode = ModeNone | ModeBenchmark | ModeSimulation | ModeFarm | ModeStratum

record cli =
  m_mode :: OperationMode
  cli_minerType :: MinerType
  m_openclPlatform :: u32
  m_miningThreads :: u32
  m_shouldListDevices :: bool
  m_openclSelectedKernel :: u32
  m_openclDeviceCount :: nat
  m_openclDevices :: "u32 list"
  m_openclThreadsPerHash :: u32
  m_globalWorkSizeMultiplier :: u32
  m_localWorkSize :: u32
  m_cudaDeviceCount :: nat
  m_cudaDevices :: "u32 list"
  m_numStreams :: u32
  m_cudaSchedule :: u32
  m_cudaGridSize :: u32
  m_cudaBlockSize :: u32
  m_cudaNoEval :: bool
  m_parallelHash :: u32
  m_dagLoadMode :: u32
  m_dagCreateDevice :: u32
  m_exit :: bool
  m_benchmarkWarmup :: u32
  m_benchmarkTrial :: u32
  m_benchmarkTrials :: u32
  m_benchmarkBlock :: u32
  m_endpoints :: "PoolConnection list"
  m_ep_ix :: nat
  m_maxFarmRetries :: u32
  m_farmRecheckPeriod :: u32
  m_displayInterval :: u32
  m_farmRecheckSet :: bool
  m_worktimeout :: int
  m_show_hwmonitors :: bool
  m_show_power :: bool
  m_api_port :: int
  m_report_stratum_hashrate :: bool
  cli_email :: string
  m_legacyParameters :: bool
  m_newParameters :: bool
  cli_schemes :: schemes

definition k_max_endpoints :: nat where "k_max_endpoints = 6"
definition k_primary_ep_ix :: nat where "k_primary_ep_ix = 0"
definition k_secondary_ep_ix :: nat where "k_secondary_ep_ix = 1"

definition MinerCLI_new :: cli where
  "MinerCLI_new = \<lparr>m_mode = ModeNone, cli_minerType = Mixed, m_openclPlatform = 0, m_miningThreads = -1, m_shouldListDevices = False,
     m_openclSelectedKernel = 0, m_openclDeviceCount = 0, m_openclDevices = replicate MAX_MINERS (-1), m_openclThreadsPerHash = 8,
     m_globalWorkSizeMultiplier = c_defaultGlobalWorkSizeMultiplier, m_localWorkSize = c_defaultLocalWorkSize,
     m_cudaDeviceCount = 0, m_cudaDevices = replicate MAX_MINERS (-1), m_numStreams = c_defaultNumStreams, m_cudaSchedule = 4,
     m_cudaGridSize = c_defaultGridSize, m_cudaBlockSize = c_defaultBlockSize, m_cudaNoEval = True, m_parallelHash = 4,
     m_dagLoadMode = 0, m_dagCreateDevice = 0, m_exit = False, m_benchmarkWarmup = 15, m_benchmarkTrial = 3, m_benchmarkTrials = 5,
     m_benchmarkBlock = 0, m_endpoints = replicate k_max_endpoints PoolConnection_default, m_ep_ix = 0, m_maxFarmRetries = 3,
     m_farmRecheckPeriod = 500, m_displayInterval = 5, m_farmRecheckSet = False, m_worktimeout = 180, m_show_hwmonitors = False,
     m_show_power = False, m_api_port = 0, m_report_stratum_hashrate = False, cli_email = [], m_legacyParameters = False,
     m_newParameters = False, cli_schemes = s_schemes\<rparr>"

definition deprecated :: "cli \<Rightarrow> cli" where
  "deprecated c = c\<lparr>m_legacyParameters := True\<rparr>"

definition on_endpoint :: "nat \<Rightarrow> (PoolConnection \<Rightarrow> PoolConnection) \<Rightarrow> cli \<Rightarrow> cli" where
  "on_endpoint k f c = c\<lparr>m_endpoints := (m_endpoints c)[k := f (m_endpoints c ! k)]\<rparr>"

section \<open>Handlers\<close>

text \<open>\<open>BadArgument\<close> is caught in \<open>main\<close>; an exception of \<open>stol\<close> outside a handler, or the null pointer behind the last
  argument, ends the process.\<close>

datatype cli_error = BadArgument | UncaughtException | NullArgument

type_synonym handler = "string list \<Rightarrow> nat \<Rightarrow> cli \<Rightarrow> (cli_error + nat \<times> cli) option"

definition flag :: "string list \<Rightarrow> (cli \<Rightarrow> cli) \<Rightarrow> handler" where
  "flag names f argv i c = (if argv ! i \<in> set names then Some (Inr (i, f c)) else None)"

definition with_arg :: "string list \<Rightarrow> (string \<Rightarrow> cli \<Rightarrow> cli_error + cli) \<Rightarrow> handler" where
  "with_arg names f argv i c =
     (if argv ! i \<in> set names \<and> i + 1 < length argv
      then Some (bindE (f (argv ! (i + 1)) c) (\<lambda>c'. Inr (i + 1, c'))) else None)"

definition set_arg :: "string list \<Rightarrow> (string \<Rightarrow> cli \<Rightarrow> cli) \<Rightarrow> handler" where
  "set_arg names f = with_arg names (\<lambda>a c. Inr (f a c))"

definition stol_arg :: "string list \<Rightarrow> (u32 \<Rightarrow> cli \<Rightarrow> cli) \<Rightarrow> handler" where
  "stol_arg names f = with_arg names (\<lambda>a c. case stol a of None \<Rightarrow> Inl BadArgument | Some v \<Rightarrow> Inr (f (of_int v) c))"

text \<open>An argument that is taken only if it does not look like an option.\<close>

definition optional_arg :: "string list \<Rightarrow> (string option \<Rightarrow> cli \<Rightarrow> cli) \<Rightarrow> handler" where
  "optional_arg names f argv i c =
     (if argv ! i \<in> set names then
        if i + 1 < length argv \<and> \<not> starts_with_dash (argv ! (i + 1)) then Some (Inr (i + 1, f (Some (argv ! (i + 1))) c))
        else Some (Inr (i, f None c))
      else None)"

subsection \<open>Endpoints\<close>

definition opt_farm :: "uri_lib \<Rightarrow> string \<Rightarrow> cli \<Rightarrow> cli_error + cli" where
  "opt_farm lib url c =
     (case URI lib url of
        None \<Rightarrow> Inl BadArgument
      | Some uri \<Rightarrow>
          if Host lib uri = [] then Inl BadArgument
          else Inr (on_endpoint k_primary_ep_ix
            (\<lambda>e. e\<lparr>pc_host := Host lib uri, pc_path := Path lib uri, pc_port := (if Port lib uri \<noteq> 0 then Port lib uri else 80)\<rparr>)
            ((deprecated c)\<lparr>m_mode := ModeFarm\<rparr>)))"

definition opt_failover :: "uri_lib \<Rightarrow> string \<Rightarrow> cli \<Rightarrow> cli_error + cli" where
  "opt_failover lib url c =
     (let url = (if url = ''exit'' then ''exit:1'' else url) in
      case URI lib url of
        None \<Rightarrow> Inl BadArgument
      | Some uri \<Rightarrow>
          if Host lib uri = [] then Inl BadArgument
          else
            let c1 = on_endpoint k_secondary_ep_ix (\<lambda>e. e\<lparr>pc_host := Host lib uri, pc_path := Path lib uri\<rparr>) (deprecated c) in
            if m_mode c1 = ModeStratum then
              if Port lib uri \<noteq> 0 then Inr (on_endpoint k_secondary_ep_ix (\<lambda>e. e\<lparr>pc_port := Port lib uri\<rparr>) c1) else Inl BadArgument
            else Inr c1)"

definition opt_stratum :: "uri_lib \<Rightarrow> string \<Rightarrow> cli \<Rightarrow> cli_error + cli" where
  "opt_stratum lib url c =
     (case URI lib url of
        None \<Rightarrow> Inl BadArgument
      | Some uri \<Rightarrow>
          if Host lib uri \<noteq> [] \<and> Port lib uri \<noteq> 0
          then Inr (on_endpoint k_primary_ep_ix (\<lambda>e. e\<lparr>pc_host := Host lib uri, pc_port := Port lib uri\<rparr>) ((deprecated c)\<lparr>m_mode := ModeStratum\<rparr>))
          else Inl BadArgument)"

text \<open>Without a colon \<^verbatim>\<open>p + 1\<close> wraps to 0, and the password becomes the whole string.\<close>

definition userpass :: "string \<Rightarrow> PoolConnection \<Rightarrow> PoolConnection" where
  "userpass s e = e\<lparr>pc_user := takeWhile (\<lambda>x. x \<noteq> CHR '':'') s,
     pc_pass := (if CHR '':'' \<in> set s then tl (dropWhile (\<lambda>x. x \<noteq> CHR '':'') s) else s)\<rparr>"

definition opt_ssl :: "string option \<Rightarrow> cli \<Rightarrow> cli" where
  "opt_ssl a c =
     (let secLevel = (case a of
            None \<Rightarrow> TLS12
          | Some s \<Rightarrow> if atoi s = 1 then TLS else if atoi s = 2 then ALLOW_SELFSIGNED else TLS12);
          f = (\<lambda>e. e\<lparr>pc_secLevel := secLevel\<rparr>)
      in on_endpoint k_secondary_ep_ix f (on_endpoint k_primary_ep_ix f (deprecated c)))"

definition opt_protocol :: "string \<Rightarrow> cli \<Rightarrow> cli" where
  "opt_protocol a c =
     (let v = of_int (atoi a); f = (\<lambda>e. e\<lparr>pc_version := v\<rparr>)
      in on_endpoint k_secondary_ep_ix f (on_endpoint k_primary_ep_ix f (deprecated c)))"

definition opt_pool :: "uri_lib \<Rightarrow> string \<Rightarrow> cli \<Rightarrow> cli_error + cli" where
  "opt_pool lib url c =
     (let url = (if url = ''exit'' then ''stratum://exit:1'' else url) in
      case URI lib url of
        None \<Rightarrow> Inl BadArgument
      | Some uri \<Rightarrow>
          if \<not> KnownScheme lib uri (cli_schemes c) then Inl BadArgument
          else if k_max_endpoints \<le> m_ep_ix c then Inl BadArgument
          else
            let (conn, m1) = PoolConnection_of_URI lib uri (cli_schemes c);
                (fam, m2) = ProtoFamily lib uri m1;
                mode = (case fam of STRATUM \<Rightarrow> ModeStratum | GETWORK \<Rightarrow> ModeFarm)
            in if m_mode c \<noteq> ModeNone \<and> m_mode c \<noteq> mode then Inl BadArgument
               else Inr (c\<lparr>m_newParameters := True, m_endpoints := (m_endpoints c)[m_ep_ix c := conn], cli_schemes := m2,
                          m_mode := mode, m_ep_ix := m_ep_ix c + 1\<rparr>))"

definition pool_options :: "uri_lib \<Rightarrow> handler list" where
  "pool_options lib =
    [with_arg [''-F'', ''--farm''] (opt_farm lib),
     with_arg [''-FF'', ''-SF'', ''-FS'', ''--farm-failover'', ''--stratum-failover''] (opt_failover lib),
     stol_arg [''--farm-recheck''] (\<lambda>v c. c\<lparr>m_farmRecheckSet := True, m_farmRecheckPeriod := v\<rparr>),
     stol_arg [''--farm-retries''] (\<lambda>v c. c\<lparr>m_maxFarmRetries := v\<rparr>),
     with_arg [''-S'', ''--stratum''] (opt_stratum lib),
     set_arg [''-O'', ''--userpass''] (\<lambda>a c. on_endpoint k_primary_ep_ix (userpass a) (deprecated c))]"

text \<open>\<open>-SC\<close> does not skip its argument.\<close>

definition removed_option :: handler where
  "removed_option argv i c =
     (if argv ! i \<in> {''-SC'', ''--stratum-client''} \<and> i + 1 < length argv then Some (Inr (i, c)) else None)"

definition credential_options :: "handler list" where
  "credential_options =
    [removed_option,
     set_arg [''-SP'', ''--stratum-protocol''] opt_protocol,
     optional_arg [''--stratum-ssl''] opt_ssl,
     set_arg [''-SE'', ''--stratum-email''] (\<lambda>a c. c\<lparr>cli_email := a\<rparr>),
     set_arg [''-FO'', ''--failover-userpass''] (\<lambda>a c. on_endpoint k_secondary_ep_ix (userpass a) (deprecated c)),
     set_arg [''-u'', ''--user''] (\<lambda>a c. on_endpoint k_primary_ep_ix (\<lambda>e. e\<lparr>pc_user := a\<rparr>) (deprecated c)),
     set_arg [''-p'', ''--pass''] (\<lambda>a c. on_endpoint k_primary_ep_ix (\<lambda>e. e\<lparr>pc_pass := a\<rparr>) (deprecated c)),
     set_arg [''-o'', ''--port''] (\<lambda>a c. on_endpoint k_primary_ep_ix (\<lambda>e. e\<lparr>pc_port := of_int (atoi a)\<rparr>) (deprecated c)),
     set_arg [''-fu'', ''--failover-user''] (\<lambda>a c. on_endpoint k_secondary_ep_ix (\<lambda>e. e\<lparr>pc_user := a\<rparr>) (deprecated c)),
     set_arg [''-fp'', ''--failover-pass''] (\<lambda>a c. on_endpoint k_secondary_ep_ix (\<lambda>e. e\<lparr>pc_pass := a\<rparr>) (deprecated c)),
     set_arg [''-fo'', ''--failover-port''] (\<lambda>a c. on_endpoint k_secondary_ep_ix (\<lambda>e. e\<lparr>pc_port := of_int (atoi a)\<rparr>) (deprecated c))]"

definition report_options :: "uri_lib \<Rightarrow> handler list" where
  "report_options lib =
    [set_arg [''--work-timeout''] (\<lambda>a c. c\<lparr>m_worktimeout := atoi a\<rparr>),
     flag [''-RH'', ''--report-hashrate''] (\<lambda>c. c\<lparr>m_report_stratum_hashrate := True\<rparr>),
     stol_arg [''--display-interval''] (\<lambda>v c. c\<lparr>m_displayInterval := v\<rparr>),
     optional_arg [''-HWMON''] (\<lambda>a c. (case a of None \<Rightarrow> c | Some s \<Rightarrow> c\<lparr>m_show_power := (atoi s \<noteq> 0)\<rparr>)\<lparr>m_show_hwmonitors := True\<rparr>),
     flag [''--exit''] (\<lambda>c. c\<lparr>m_exit := True\<rparr>),
     with_arg [''-P''] (opt_pool lib),
     set_arg [''--api-port''] (\<lambda>a c. c\<lparr>m_api_port := atoi a\<rparr>)]"

subsection \<open>Devices\<close>

text \<open>The loop that takes device numbers until an argument is not a number or the table is full: how many arguments
  it takes, and the new count and table.\<close>

fun take_devices :: "string list \<Rightarrow> nat \<Rightarrow> u32 list \<Rightarrow> nat \<times> nat \<times> u32 list" where
  "take_devices [] n devices = (0, n, devices)"
| "take_devices (a # rest) n devices =
     (if n < MAX_MINERS then
        case stol a of
          None \<Rightarrow> (0, n, devices)
        | Some v \<Rightarrow> let (k, n', devices') = take_devices rest (n + 1) (devices[n := of_int v]) in (k + 1, n', devices')
      else (0, n, devices))"

definition opencl_devices :: handler where
  "opencl_devices argv i c =
     (if argv ! i \<in> {''--opencl-devices'', ''--opencl-device''} then
        let (k, n, devices) = take_devices (drop (i + 1) argv) (m_openclDeviceCount c) (m_openclDevices c)
        in Some (Inr (i + k, c\<lparr>m_openclDeviceCount := n, m_openclDevices := devices\<rparr>))
      else None)"

definition cuda_devices :: handler where
  "cuda_devices argv i c =
     (if argv ! i = ''--cuda-devices'' then
        let (k, n, devices) = take_devices (drop (i + 1) argv) (m_cudaDeviceCount c) (m_cudaDevices c)
        in Some (Inr (i + k, c\<lparr>m_cudaDeviceCount := n, m_cudaDevices := devices\<rparr>))
      else None)"

definition checked_arg :: "string list \<Rightarrow> (u32 \<Rightarrow> bool) \<Rightarrow> (u32 \<Rightarrow> cli \<Rightarrow> cli) \<Rightarrow> handler" where
  "checked_arg names ok f = with_arg names (\<lambda>a c. case stol a of None \<Rightarrow> Inl BadArgument
     | Some v \<Rightarrow> if ok (of_int v) then Inr (f (of_int v) c) else Inl BadArgument)"

definition opencl_options :: "handler list" where
  "opencl_options =
    [stol_arg [''--opencl-platform''] (\<lambda>v c. c\<lparr>m_openclPlatform := v\<rparr>),
     opencl_devices,
     checked_arg [''--cl-parallel-hash''] (\<lambda>v. v = 1 \<or> v = 2 \<or> v = 4 \<or> v = 8) (\<lambda>v c. c\<lparr>m_openclThreadsPerHash := v\<rparr>),
     stol_arg [''--cl-kernel''] (\<lambda>v c. c\<lparr>m_openclSelectedKernel := v\<rparr>),
     stol_arg [''--cl-global-work''] (\<lambda>v c. c\<lparr>m_globalWorkSizeMultiplier := v\<rparr>),
     stol_arg [''--cl-local-work''] (\<lambda>v c. c\<lparr>m_localWorkSize := v\<rparr>),
     flag [''--list-devices''] (\<lambda>c. c\<lparr>m_shouldListDevices := True\<rparr>)]"

definition opt_schedule :: "string \<Rightarrow> cli \<Rightarrow> cli_error + cli" where
  "opt_schedule mode c =
     (if mode = ''auto'' then Inr (c\<lparr>m_cudaSchedule := 0\<rparr>)
      else if mode = ''spin'' then Inr (c\<lparr>m_cudaSchedule := 1\<rparr>)
      else if mode = ''yield'' then Inr (c\<lparr>m_cudaSchedule := 2\<rparr>)
      else if mode = ''sync'' then Inr (c\<lparr>m_cudaSchedule := 4\<rparr>)
      else Inl BadArgument)"

text \<open>\<open>--cuda-streams\<close> does not catch the exception of \<open>stol\<close>.\<close>

definition opt_streams :: "string \<Rightarrow> cli \<Rightarrow> cli_error + cli" where
  "opt_streams a c = (case stol a of None \<Rightarrow> Inl UncaughtException | Some v \<Rightarrow> Inr (c\<lparr>m_numStreams := of_int v\<rparr>))"

definition cuda_options :: "handler list" where
  "cuda_options =
    [stol_arg [''--cuda-grid-size''] (\<lambda>v c. c\<lparr>m_cudaGridSize := v\<rparr>),
     stol_arg [''--cuda-block-size''] (\<lambda>v c. c\<lparr>m_cudaBlockSize := v\<rparr>),
     cuda_devices,
     checked_arg [''--cuda-parallel-hash''] (\<lambda>v. \<not> (v = 0 \<or> 8 < v)) (\<lambda>v c. c\<lparr>m_parallelHash := v\<rparr>),
     with_arg [''--cuda-schedule''] opt_schedule,
     with_arg [''--cuda-streams''] opt_streams,
     flag [''--cuda-noeval''] (\<lambda>c. c\<lparr>m_cudaNoEval := True\<rparr>)]"

subsection \<open>Modes\<close>

text \<open>\<open>single\<close> reads one argument more, which may lie behind the end, and does not catch the exception of \<open>stol\<close>.\<close>

definition dag_load_mode :: handler where
  "dag_load_mode argv i c =
     (if argv ! i \<in> {''-L'', ''--dag-load-mode''} \<and> i + 1 < length argv then
        let mode = argv ! (i + 1) in
        if mode = ''parallel'' then Some (Inr (i + 1, c\<lparr>m_dagLoadMode := 0\<rparr>))
        else if mode = ''sequential'' then Some (Inr (i + 1, c\<lparr>m_dagLoadMode := 1\<rparr>))
        else if mode = ''single'' then
          if i + 2 < length argv then
            case stol (argv ! (i + 2)) of
              None \<Rightarrow> Some (Inl UncaughtException)
            | Some v \<Rightarrow> Some (Inr (i + 2, c\<lparr>m_dagLoadMode := 2, m_dagCreateDevice := of_int v\<rparr>))
          else Some (Inl NullArgument)
        else Some (Inl BadArgument)
      else None)"

definition block_mode :: "string list \<Rightarrow> OperationMode \<Rightarrow> handler" where
  "block_mode names mode argv i c =
     (if argv ! i \<in> set names then
        let c1 = c\<lparr>m_mode := mode\<rparr> in
        if i + 1 < length argv then
          case stol (map to_lower_char (argv ! (i + 1))) of
            Some v \<Rightarrow> Some (Inr (i + 1, c1\<lparr>m_benchmarkBlock := of_int v\<rparr>))
          | None \<Rightarrow> if starts_with_dash (argv ! (i + 1)) then Some (Inr (i, c1)) else Some (Inl BadArgument)
        else Some (Inr (i, c1))
      else None)"

definition mode_options :: "handler list" where
  "mode_options =
    [dag_load_mode,
     stol_arg [''--benchmark-warmup''] (\<lambda>v c. c\<lparr>m_benchmarkWarmup := v\<rparr>),
     stol_arg [''--benchmark-trial''] (\<lambda>v c. c\<lparr>m_benchmarkTrial := v\<rparr>),
     stol_arg [''--benchmark-trials''] (\<lambda>v c. c\<lparr>m_benchmarkTrials := v\<rparr>),
     flag [''-G'', ''--opencl''] (\<lambda>c. c\<lparr>cli_minerType := CL\<rparr>),
     flag [''-U'', ''--cuda''] (\<lambda>c. c\<lparr>cli_minerType := CUDA\<rparr>),
     flag [''-X'', ''--cuda-opencl''] (\<lambda>c. c\<lparr>cli_minerType := Mixed\<rparr>),
     block_mode [''-M'', ''--benchmark''] ModeBenchmark,
     block_mode [''-Z'', ''--simulation''] ModeSimulation,
     stol_arg [''-t'', ''--mining-threads''] (\<lambda>v c. c\<lparr>m_miningThreads := v\<rparr>)]"

section \<open>The option loop\<close>

fun first_match :: "handler list \<Rightarrow> handler" where
  "first_match [] argv i c = None"
| "first_match (h # hs) argv i c = (case h argv i c of None \<Rightarrow> first_match hs argv i c | Some r \<Rightarrow> Some r)"

definition all_options :: "uri_lib \<Rightarrow> handler list" where
  "all_options lib = pool_options lib @ credential_options @ report_options lib @ opencl_options @ cuda_options @ mode_options"

definition interpretOption :: "uri_lib \<Rightarrow> string list \<Rightarrow> nat \<Rightarrow> cli \<Rightarrow> cli_error + bool \<times> nat \<times> cli" where
  "interpretOption lib argv i c =
     (case first_match (all_options lib) argv i c of
        None \<Rightarrow> Inr (False, i, c)
      | Some r \<Rightarrow> bindE r (\<lambda>(i', c').
          if m_legacyParameters c' \<and> m_newParameters c' then Inl BadArgument else Inr (True, i', c')))"

datatype cli_outcome = Configured cli int | ExitStatus int | Terminated cli_error

text \<open>The loop of \<open>main\<close>, with fuel; \<open>verbosity\<close> is \<open>g_logVerbosity\<close>.\<close>

fun main_loop :: "nat \<Rightarrow> uri_lib \<Rightarrow> string list \<Rightarrow> nat \<Rightarrow> cli \<Rightarrow> int \<Rightarrow> cli_outcome option" where
  "main_loop 0 lib argv i c verbosity = None"
| "main_loop (Suc n) lib argv i c verbosity =
     (if i < length argv then
        case interpretOption lib argv i c of
          Inl BadArgument \<Rightarrow> Some (ExitStatus (-1))
        | Inl e \<Rightarrow> Some (Terminated e)
        | Inr (True, i', c') \<Rightarrow> main_loop n lib argv (i' + 1) c' verbosity
        | Inr (False, _, _) \<Rightarrow>
            let arg = argv ! i in
            if arg \<in> {''-v'', ''--verbosity''} \<and> i + 1 < length argv then main_loop n lib argv (i + 2) c (atoi (argv ! (i + 1)))
            else if arg \<in> {''-h'', ''--help''} then Some (ExitStatus 0)
            else if arg \<in> {''-V'', ''--version''} then Some (ExitStatus 0)
            else Some (ExitStatus (-1))
      else Some (Configured c verbosity))"


section \<open>Starting up\<close>

datatype startup_stop = ExitsWith int | ClStops cl_stop | CudaStops cuda_stop

definition lift_cl :: "cl_stop + 'a \<Rightarrow> startup_stop + 'a" where
  "lift_cl r = (case r of Inl e \<Rightarrow> Inl (ClStops e) | Inr x \<Rightarrow> Inr x)"

definition lift_cuda :: "cuda_stop + 'a \<Rightarrow> startup_stop + 'a" where
  "lift_cuda r = (case r of Inl e \<Rightarrow> Inl (CudaStops e) | Inr x \<Rightarrow> Inr x)"

definition setup_opencl :: "cl_driver \<Rightarrow> cli \<times> cl_statics \<Rightarrow> startup_stop + cli \<times> cl_statics" where
  "setup_opencl drv = (\<lambda>(c, cs).
     bindE (lift_cl (if 0 < m_openclDeviceCount c then setDevices (m_openclDevices c) (m_openclDeviceCount c) cs else Inr cs)) (\<lambda>cs1.
       let c1 = (if 0 < m_openclDeviceCount c then c\<lparr>m_miningThreads := of_nat (m_openclDeviceCount c)\<rparr> else c);
           cs2 = setThreadsPerHash (m_openclThreadsPerHash c1) (setCLKernel (m_openclSelectedKernel c1) cs1);
           (r, cs3) = cl_configureGPU drv (m_localWorkSize c1) (m_globalWorkSizeMultiplier c1) (m_openclPlatform c1) 0 (m_dagLoadMode c1)
             (m_dagCreateDevice c1) (m_exit c1) cs2
       in bindE (lift_cl r) (\<lambda>b. if \<not> b then Inl (ExitsWith 1)
            else bindE (lift_cl (setNumInstances drv (m_miningThreads c1) cs3)) (\<lambda>cs4. Inr (c1, cs4)))))"

definition setup_cuda :: "cuda_driver \<Rightarrow> cli \<times> cuda_statics \<Rightarrow> startup_stop + cli \<times> cuda_statics" where
  "setup_cuda drv = (\<lambda>(c, cs).
     bindE (lift_cuda (if 0 < m_cudaDeviceCount c then cuda_setDevices (m_cudaDevices c) (m_cudaDeviceCount c) cs else Inr cs)) (\<lambda>cs1.
       let c1 = (if 0 < m_cudaDeviceCount c then c\<lparr>m_miningThreads := of_nat (m_cudaDeviceCount c)\<rparr> else c) in
       bindE (lift_cuda (cuda_setNumInstances drv (m_miningThreads c1) cs1)) (\<lambda>cs2.
         let (r, cs3) = cuda_configure drv (m_cudaBlockSize c1) (m_cudaGridSize c1) (m_numStreams c1) (m_cudaSchedule c1) 0 (m_dagLoadMode c1)
               (m_dagCreateDevice c1) (m_cudaNoEval c1) (m_exit c1) cs2
         in bindE (lift_cuda r) (\<lambda>b. if \<not> b then Inl (ExitsWith 1) else Inr (c1, setParallelHash (m_parallelHash c1) cs3)))))"

datatype startup = Benchmarks | Mines | NothingToDo

text \<open>\<open>execute\<close> without the listing of devices, which prints and exits.\<close>

definition execute :: "cl_driver \<Rightarrow> cuda_driver \<Rightarrow> cli \<Rightarrow> cl_statics \<Rightarrow> cuda_statics \<Rightarrow> startup_stop + startup \<times> cli \<times> cl_statics \<times> cuda_statics" where
  "execute cldrv cudrv c cls cus =
     (if m_shouldListDevices c then Inl (ExitsWith 0)
      else bindE (if cli_minerType c \<in> {CL, Mixed} then setup_opencl cldrv (c, cls) else Inr (c, cls)) (\<lambda>(c1, cls1).
        bindE (if cli_minerType c1 \<in> {CUDA, Mixed} then setup_cuda cudrv (c1, cus) else Inr (c1, cus)) (\<lambda>(c2, cus1).
          Inr (case m_mode c2 of ModeBenchmark \<Rightarrow> Benchmarks | ModeNone \<Rightarrow> NothingToDo | _ \<Rightarrow> Mines, c2, cls1, cus1))))"

section \<open>Mining\<close>

datatype client_kind = StratumClient int string bool | GetworkClient u32 | SimulationClient u32 u32

definition choose_client :: "cli \<Rightarrow> client_kind option" where
  "choose_client c =
     (case m_mode c of
        ModeStratum \<Rightarrow> Some (StratumClient (m_worktimeout c) (cli_email c) (m_report_stratum_hashrate c))
      | ModeFarm \<Rightarrow> Some (GetworkClient (m_farmRecheckPeriod c))
      | ModeSimulation \<Rightarrow> Some (SimulationClient 20 (m_benchmarkBlock c))
      | _ \<Rightarrow> None)"

definition failover_credentials :: "cli \<Rightarrow> cli" where
  "failover_credentials c =
     (if m_legacyParameters c \<and> pc_user (m_endpoints c ! k_secondary_ep_ix) \<noteq> [] then
        on_endpoint k_secondary_ep_ix (\<lambda>e. e\<lparr>pc_user := pc_user (m_endpoints c ! k_primary_ep_ix), pc_pass := pc_pass (m_endpoints c ! k_primary_ep_ix)\<rparr>) c
      else c)"

fun add_endpoints :: "PoolConnection list \<Rightarrow> manager \<Rightarrow> manager \<times> client_cmd list" where
  "add_endpoints [] m = (m, [])"
| "add_endpoints (e # es) m =
     (if pc_host e = [] then (m, [])
      else let (m1, c1) = addConnection e m; (m2, c2) = add_endpoints es m1 in (m2, c1 @ c2))"

text \<open>\<open>doMiner\<close> up to the start of the pool manager.\<close>

definition start_mining :: "farm \<Rightarrow> cli \<Rightarrow> startup_stop + client_kind \<times> manager \<times> client_cmd list" where
  "start_mining f c =
     (case choose_client c of
        None \<Rightarrow> Inl (ExitsWith 1)
      | Some client \<Rightarrow>
          let m = setReconnectTries (unat (m_maxFarmRetries c)) (PoolManager_new f (cli_minerType c));
              (m1, cmds) = add_endpoints (m_endpoints (failover_credentials c)) m;
              (m2, start_cmds) = PoolManager_start m1
          in Inr (client, m2, cmds @ start_cmds))"

section \<open>Benchmark results\<close>

text \<open>The summary printed after the trials: minimum, mean, maximum and the mean without the extremes, or \<open>None\<close> where the
  code divides by zero or reads the ends of an empty vector.\<close>

definition bench_summary :: "u64 list \<Rightarrow> (u64 \<times> u64 \<times> u64 \<times> u64 option) option" where
  "bench_summary rates =
     (let results = sort rates; trials = of_nat (length rates) in
      if rates = [] then None
      else Some (hd results, sum_list rates div trials, last results,
        if 2 < length results then Some (sum_list (butlast (tl results)) div (trials - 2)) else None))"

definition toJS :: "nat \<Rightarrow> string" where
  "toJS n = (let h = toHex (toCompactBigEndian n 1) 2 DontAdd in ''0x'' @ (if h ! 0 \<noteq> CHR ''0'' then h else drop 1 h))"


section \<open>Well-formed settings\<close>

text \<open>What the types and the checks of the options promise to the rest of the program.\<close>

definition cli_ok :: "cli \<Rightarrow> bool" where
  "cli_ok c \<longleftrightarrow> length (m_endpoints c) = k_max_endpoints \<and> m_ep_ix c \<le> k_max_endpoints \<and> (m_newParameters c \<longleftrightarrow> 0 < m_ep_ix c) \<and>
     m_openclDeviceCount c \<le> MAX_MINERS \<and> length (m_openclDevices c) = MAX_MINERS \<and>
     m_cudaDeviceCount c \<le> MAX_MINERS \<and> length (m_cudaDevices c) = MAX_MINERS \<and>
     m_openclThreadsPerHash c \<in> {1, 2, 4, 8} \<and> 0 < m_parallelHash c \<and> m_parallelHash c \<le> 8 \<and> m_cudaSchedule c \<in> {0, 1, 2, 4} \<and> m_dagLoadMode c \<in> {0, 1, 2}"

text \<open>A handler is good when it moves forward inside the argument vector and keeps the settings well formed.\<close>

definition good :: "handler \<Rightarrow> bool" where
  "good h \<longleftrightarrow> (\<forall>argv i c i' c'. i < length argv \<longrightarrow> h argv i c = Some (Inr (i', c')) \<longrightarrow>
     i \<le> i' \<and> i' < length argv \<and> (cli_ok c \<longrightarrow> cli_ok c'))"

named_theorems good_intros

lemma good_flag [good_intros]: "(\<And>c. cli_ok c \<Longrightarrow> cli_ok (f c)) \<Longrightarrow> good (flag names f)"
  by (auto simp: good_def flag_def split: if_splits)

lemma good_with_arg [good_intros]: "(\<And>a c c'. cli_ok c \<Longrightarrow> f a c = Inr c' \<Longrightarrow> cli_ok c') \<Longrightarrow> good (with_arg names f)"
  by (auto simp: good_def with_arg_def bindE_Inr_iff split: if_splits)

lemma good_set_arg [good_intros]: "(\<And>a c. cli_ok c \<Longrightarrow> cli_ok (f a c)) \<Longrightarrow> good (set_arg names f)"
  unfolding set_arg_def by (rule good_with_arg) auto

lemma good_stol_arg [good_intros]: "(\<And>v c. cli_ok c \<Longrightarrow> cli_ok (f v c)) \<Longrightarrow> good (stol_arg names f)"
  unfolding stol_arg_def by (rule good_with_arg) (auto split: option.splits)

lemma good_checked_arg [good_intros]: "(\<And>v c. cli_ok c \<Longrightarrow> ok v \<Longrightarrow> cli_ok (f v c)) \<Longrightarrow> good (checked_arg names ok f)"
  unfolding checked_arg_def by (rule good_with_arg) (auto split: option.splits if_splits)

lemma good_optional_arg [good_intros]: "(\<And>a c. cli_ok c \<Longrightarrow> cli_ok (f a c)) \<Longrightarrow> good (optional_arg names f)"
  by (auto simp: good_def optional_arg_def split: if_splits)

lemma cli_ok_on_endpoint [simp]: "cli_ok (on_endpoint k f c) = cli_ok c"
  by (simp add: cli_ok_def on_endpoint_def)

lemma cli_ok_updates [simp]:
  "cli_ok (c\<lparr>cli_minerType := x0\<rparr>) = cli_ok c"
  "cli_ok (c\<lparr>m_openclPlatform := x1\<rparr>) = cli_ok c"
  "cli_ok (c\<lparr>m_miningThreads := x2\<rparr>) = cli_ok c"
  "cli_ok (c\<lparr>m_shouldListDevices := x3\<rparr>) = cli_ok c"
  "cli_ok (c\<lparr>m_openclSelectedKernel := x4\<rparr>) = cli_ok c"
  "cli_ok (c\<lparr>m_globalWorkSizeMultiplier := x5\<rparr>) = cli_ok c"
  "cli_ok (c\<lparr>m_localWorkSize := x6\<rparr>) = cli_ok c"
  "cli_ok (c\<lparr>m_numStreams := x7\<rparr>) = cli_ok c"
  "cli_ok (c\<lparr>m_cudaGridSize := x8\<rparr>) = cli_ok c"
  "cli_ok (c\<lparr>m_cudaBlockSize := x9\<rparr>) = cli_ok c"
  "cli_ok (c\<lparr>m_cudaNoEval := x10\<rparr>) = cli_ok c"
  "cli_ok (c\<lparr>m_dagCreateDevice := x11\<rparr>) = cli_ok c"
  "cli_ok (c\<lparr>m_exit := x12\<rparr>) = cli_ok c"
  "cli_ok (c\<lparr>m_benchmarkWarmup := x13\<rparr>) = cli_ok c"
  "cli_ok (c\<lparr>m_benchmarkTrial := x14\<rparr>) = cli_ok c"
  "cli_ok (c\<lparr>m_benchmarkTrials := x15\<rparr>) = cli_ok c"
  "cli_ok (c\<lparr>m_benchmarkBlock := x16\<rparr>) = cli_ok c"
  "cli_ok (c\<lparr>m_maxFarmRetries := x17\<rparr>) = cli_ok c"
  "cli_ok (c\<lparr>m_farmRecheckPeriod := x18\<rparr>) = cli_ok c"
  "cli_ok (c\<lparr>m_displayInterval := x19\<rparr>) = cli_ok c"
  "cli_ok (c\<lparr>m_farmRecheckSet := x20\<rparr>) = cli_ok c"
  "cli_ok (c\<lparr>m_worktimeout := x21\<rparr>) = cli_ok c"
  "cli_ok (c\<lparr>m_show_hwmonitors := x22\<rparr>) = cli_ok c"
  "cli_ok (c\<lparr>m_show_power := x23\<rparr>) = cli_ok c"
  "cli_ok (c\<lparr>m_api_port := x24\<rparr>) = cli_ok c"
  "cli_ok (c\<lparr>m_report_stratum_hashrate := x25\<rparr>) = cli_ok c"
  "cli_ok (c\<lparr>cli_email := x26\<rparr>) = cli_ok c"
  "cli_ok (c\<lparr>m_legacyParameters := x27\<rparr>) = cli_ok c"
  "cli_ok (c\<lparr>m_mode := x28\<rparr>) = cli_ok c"
  by (simp_all add: cli_ok_def)

lemma cli_ok_deprecated [simp]: "cli_ok (deprecated c) = cli_ok c"
  by (simp add: deprecated_def)

lemma cli_ok_checked:
  "v \<in> {1, 2, 4, 8} \<Longrightarrow> cli_ok c \<Longrightarrow> cli_ok (c\<lparr>m_openclThreadsPerHash := v\<rparr>)"
  "0 < v \<Longrightarrow> v \<le> 8 \<Longrightarrow> cli_ok c \<Longrightarrow> cli_ok (c\<lparr>m_parallelHash := v\<rparr>)"
  "v \<in> {0, 1, 2, 4} \<Longrightarrow> cli_ok c \<Longrightarrow> cli_ok (c\<lparr>m_cudaSchedule := v\<rparr>)"
  "v \<in> {0, 1, 2} \<Longrightarrow> cli_ok c \<Longrightarrow> cli_ok (c\<lparr>m_dagLoadMode := v\<rparr>)"
  by (simp_all add: cli_ok_def)

lemma cli_ok_opt_farm: "cli_ok c \<Longrightarrow> opt_farm lib a c = Inr c' \<Longrightarrow> cli_ok c'"
  by (auto simp: opt_farm_def split: option.splits if_splits)

lemma cli_ok_opt_failover: "cli_ok c \<Longrightarrow> opt_failover lib a c = Inr c' \<Longrightarrow> cli_ok c'"
  by (auto simp: opt_failover_def Let_def split: option.splits if_splits)

lemma cli_ok_opt_stratum: "cli_ok c \<Longrightarrow> opt_stratum lib a c = Inr c' \<Longrightarrow> cli_ok c'"
  by (auto simp: opt_stratum_def split: option.splits if_splits)

lemma cli_ok_next_endpoint:
  "cli_ok c \<Longrightarrow> m_ep_ix c < k_max_endpoints \<Longrightarrow>
    cli_ok (c\<lparr>m_newParameters := True, m_endpoints := (m_endpoints c)[m_ep_ix c := e], cli_schemes := t, m_mode := o', m_ep_ix := m_ep_ix c + 1\<rparr>)"
  by (simp add: cli_ok_def)

lemma cli_ok_opt_pool: "cli_ok c \<Longrightarrow> opt_pool lib a c = Inr c' \<Longrightarrow> cli_ok c'"
  unfolding opt_pool_def Let_def
  by (auto simp: not_le simp del: One_nat_def intro: cli_ok_next_endpoint [simplified] split: option.splits if_splits prod.splits)

lemmas good_endpoint_args =
  good_with_arg [OF cli_ok_opt_farm] good_with_arg [OF cli_ok_opt_failover] good_with_arg [OF cli_ok_opt_stratum]
  good_with_arg [OF cli_ok_opt_pool]

lemma good_pool_options: "list_all good (pool_options lib)"
  unfolding pool_options_def list.pred_inject
  by (intro conjI good_endpoint_args TrueI good_set_arg good_stol_arg) simp_all

lemma good_credential_options: "list_all good credential_options"
proof -
  have "good removed_option" unfolding good_def removed_option_def by (simp split: if_split)
  then show ?thesis
    unfolding credential_options_def list.pred_inject
    by (intro conjI good_intros TrueI) (simp_all add: opt_protocol_def opt_ssl_def Let_def)
qed

lemma good_report_options: "list_all good (report_options lib)"
  unfolding report_options_def list.pred_inject
  by (intro conjI good_endpoint_args TrueI good_set_arg good_stol_arg good_flag good_optional_arg) (simp_all split: option.split)

lemma take_devices_ok:
  "take_devices rest n devices = (k, n', devices') \<Longrightarrow> k \<le> length rest \<and> length devices' = length devices \<and> (n \<le> MAX_MINERS \<longrightarrow> n' \<le> MAX_MINERS)"
  by (induction rest n devices arbitrary: k n' devices' rule: take_devices.induct)
    (auto split: if_splits option.splits prod.splits)

lemma good_opencl_devices: "good opencl_devices"
proof -
  have "cli_ok c \<Longrightarrow> n \<le> MAX_MINERS \<Longrightarrow> length ds = MAX_MINERS \<Longrightarrow> cli_ok (c\<lparr>m_openclDeviceCount := n, m_openclDevices := ds\<rparr>)"
    and "cli_ok c \<Longrightarrow> m_openclDeviceCount c \<le> MAX_MINERS \<and> length (m_openclDevices c) = MAX_MINERS" for c n ds
    by (simp_all add: cli_ok_def)
  then show ?thesis
    unfolding good_def opencl_devices_def by (fastforce split: if_splits prod.splits dest!: take_devices_ok)
qed

lemma good_cuda_devices: "good cuda_devices"
proof -
  have "cli_ok c \<Longrightarrow> n \<le> MAX_MINERS \<Longrightarrow> length ds = MAX_MINERS \<Longrightarrow> cli_ok (c\<lparr>m_cudaDeviceCount := n, m_cudaDevices := ds\<rparr>)"
    and "cli_ok c \<Longrightarrow> m_cudaDeviceCount c \<le> MAX_MINERS \<and> length (m_cudaDevices c) = MAX_MINERS" for c n ds
    by (simp_all add: cli_ok_def)
  then show ?thesis
    unfolding good_def cuda_devices_def by (fastforce split: if_splits prod.splits dest!: take_devices_ok)
qed

lemma good_opencl_options: "list_all good opencl_options"
  unfolding opencl_options_def list.pred_inject
  by (intro conjI good_intros TrueI good_opencl_devices cli_ok_checked) simp_all

lemma cli_ok_opt_schedule: "cli_ok c \<Longrightarrow> opt_schedule a c = Inr c' \<Longrightarrow> cli_ok c'"
  unfolding opt_schedule_def by (auto intro!: cli_ok_checked split: if_splits)

lemma cli_ok_opt_streams: "cli_ok c \<Longrightarrow> opt_streams a c = Inr c' \<Longrightarrow> cli_ok c'"
  unfolding opt_streams_def by (auto split: option.splits)

lemma good_cuda_options: "list_all good cuda_options"
  unfolding cuda_options_def list.pred_inject
  by (intro conjI TrueI good_cuda_devices good_with_arg [OF cli_ok_opt_schedule] good_with_arg [OF cli_ok_opt_streams]
        good_stol_arg good_flag good_checked_arg cli_ok_checked) (simp_all add: word_gt_0 linorder_not_less)

lemma good_dag_load_mode: "good dag_load_mode"
  unfolding good_def dag_load_mode_def Let_def by (auto intro: cli_ok_checked split: if_splits option.splits)

lemma good_block_mode: "good (block_mode names mode)"
  unfolding good_def block_mode_def Let_def by (auto split: if_splits option.splits)

lemma good_mode_options: "list_all good mode_options"
  unfolding mode_options_def list.pred_inject
  by (intro conjI good_intros TrueI good_dag_load_mode good_block_mode) simp_all

lemma good_first_match: "list_all good hs \<Longrightarrow> good (first_match hs)"
proof (induction hs)
  case (Cons h hs)
  then have "good h" "good (first_match hs)" by simp_all
  then show ?case unfolding good_def first_match.simps by (metis option.case_eq_if option.collapse)
qed (simp add: good_def)

lemma good_all_options: "good (first_match (all_options lib))"
  by (rule good_first_match) (simp add: all_options_def good_pool_options good_credential_options good_report_options
      good_opencl_options good_cuda_options good_mode_options)

lemma interpretOption_Inr:
  assumes "interpretOption lib argv i c = Inr (b, i', c')" "i < length argv"
  shows "i \<le> i' \<and> i' < length argv \<and> (cli_ok c \<longrightarrow> cli_ok c') \<and> (if b then \<not> (m_legacyParameters c' \<and> m_newParameters c') else i' = i \<and> c' = c)"
  using assms good_all_options [of lib]
  by (auto simp: interpretOption_def good_def bindE_Inr_iff split: option.splits if_splits prod.splits)


section \<open>The loop\<close>

definition settings_ok :: "cli \<Rightarrow> bool" where
  "settings_ok c \<longleftrightarrow> cli_ok c \<and> \<not> (m_legacyParameters c \<and> m_newParameters c)"

text \<open>One round of the loop ends it or goes on behind the index, whatever fuel is left.\<close>

lemma main_loop_step:
  obtains (stop) r where "\<And>k. main_loop (Suc k) lib argv i c v = Some r" "\<And>c' v'. r = Configured c' v' \<Longrightarrow> c' = c"
  | (go) j d w where "i < j" "i < length argv" "\<And>k. main_loop (Suc k) lib argv i c v = main_loop k lib argv j d w"
      "settings_ok c \<Longrightarrow> settings_ok d"
proof (cases "i < length argv")
  case False
  show thesis by (rule stop [of "Configured c v"]) (use False in simp_all)
next
  case i: True
  show thesis
  proof (cases "interpretOption lib argv i c")
    case (Inl e)
    show thesis by (rule stop [of "if e = BadArgument then ExitStatus (-1) else Terminated e"]) (use Inl i in \<open>cases e; simp\<close>)+
  next
    case (Inr x)
    then obtain b k d where x: "interpretOption lib argv i c = Inr (b, k, d)" by (cases x) auto
    note ok = interpretOption_Inr [OF x i]
    show thesis
    proof (cases b)
      case True
      then show thesis using ok i x by (intro go [of "k + 1" d v]) (simp_all add: settings_ok_def)
    next
      case False
      then have x: "interpretOption lib argv i c = Inr (False, k, d)" using x by simp
      show thesis
      proof (cases "argv ! i \<in> {''-v'', ''--verbosity''} \<and> i + 1 < length argv")
        case True
        show thesis by (rule go [of "i + 2" c "atoi (argv ! (i + 1))"]) (use True i x in \<open>simp_all add: Let_def\<close>)
      next
        case nv: False
        show thesis
        proof (rule stop [of "if argv ! i \<in> {''-h'', ''--help'', ''-V'', ''--version''} then ExitStatus 0 else ExitStatus (-1)"])
          show "main_loop (Suc k') lib argv i c v = Some (if argv ! i \<in> {''-h'', ''--help'', ''-V'', ''--version''} then ExitStatus 0 else ExitStatus (-1))" for k'
            using nv i by (simp only: main_loop.simps x Let_def if_True if_False sum.case prod.case bool.case) auto
        qed (simp split: if_splits)
      qed
    qed
  qed
qed

lemma main_loop_ok:
  "main_loop n lib argv i c v = Some (Configured c' v') \<Longrightarrow> settings_ok c \<Longrightarrow> settings_ok c'"
proof (induction n arbitrary: i c v)
  case (Suc n)
  show ?case by (rule main_loop_step [of lib argv i c v]) (use Suc in \<open>auto\<close>)
qed simp

lemma main_loop_total: "length argv - i < n \<Longrightarrow> \<exists>r. \<forall>k \<ge> n. main_loop k lib argv i c v = Some r"
proof (induction n arbitrary: i c v)
  case (Suc n)
  have shift: "(\<forall>k \<ge> Suc n. P k) \<longleftrightarrow> (\<forall>k \<ge> n. P (Suc k))" for P :: "nat \<Rightarrow> bool" by (metis Suc_le_D Suc_le_mono)
  show ?case
  proof (rule main_loop_step [of lib argv i c v])
    fix j d w assume "i < j" "i < length argv" "\<And>k. main_loop (Suc k) lib argv i c v = main_loop k lib argv j d w"
    with Suc.IH [of j d w] Suc.prems show ?thesis unfolding shift by simp
  qed (simp only: shift, blast)
qed simp

section \<open>Pools\<close>

text \<open>A URL of a listed stratum scheme, and the connection built from it.\<close>

definition pool_url :: "uri_lib \<Rightarrow> string \<Rightarrow> PoolConnection \<Rightarrow> bool" where
  "pool_url lib u conn \<longleftrightarrow> u \<noteq> ''exit'' \<and> pc_host conn \<noteq> [] \<and>
     (case URI lib u of None \<Rightarrow> False | Some p \<Rightarrow> KnownScheme lib p s_schemes \<and>
        PoolConnection_of_URI lib p s_schemes = (conn, s_schemes) \<and> ProtoFamily lib p s_schemes = (STRATUM, s_schemes))"

definition next_pool :: "PoolConnection \<Rightarrow> cli \<Rightarrow> cli" where
  "next_pool conn c = c\<lparr>m_newParameters := True, m_endpoints := (m_endpoints c)[m_ep_ix c := conn], cli_schemes := s_schemes,
     m_mode := ModeStratum, m_ep_ix := m_ep_ix c + 1\<rparr>"

lemma opt_pool_url:
  assumes "pool_url lib u conn" "m_mode c \<in> {ModeNone, ModeStratum}" "cli_schemes c = s_schemes" "m_ep_ix c < k_max_endpoints"
  shows "opt_pool lib u c = Inr (next_pool conn c)"
  using assms by (auto simp: opt_pool_def pool_url_def next_pool_def split: option.splits)

lemma interpret_pool:
  assumes "argv ! i = ''-P''" "i + 1 < length argv" "opt_pool lib (argv ! (i + 1)) c = Inr c'" "\<not> (m_legacyParameters c' \<and> m_newParameters c')"
  shows "interpretOption lib argv i c = Inr (True, i + 1, c')"
proof -
  have "first_match (all_options lib) argv i c = Some (Inr (i + 1, c'))"
    using assms(1-3)
    by (simp add: all_options_def pool_options_def credential_options_def report_options_def with_arg_def set_arg_def stol_arg_def flag_def
        optional_arg_def removed_option_def)
  then show ?thesis using assms(4) by (simp add: interpretOption_def)
qed


text \<open>Reading \<open>-P\<close> options one after the other.\<close>

definition pool_args :: "string list \<Rightarrow> string list" where
  "pool_args us = concat (map (\<lambda>u. [''-P'', u]) us)"

lemma pools_loop:
  assumes "list_all2 (pool_url lib) us conns" "drop i argv = pool_args us" "i \<le> length argv" "length us < n"
    "m_ep_ix c + length us \<le> k_max_endpoints" "m_mode c \<in> {ModeNone, ModeStratum}" "cli_schemes c = s_schemes" "\<not> m_legacyParameters c"
  shows "main_loop n lib argv i c v = Some (Configured (fold next_pool conns c) v)"
  using assms
proof (induction us arbitrary: conns i n c)
  case Nil
  then have "length argv \<le> i" by (simp add: pool_args_def)
  then show ?case using Nil by (cases n) auto
next
  case (Cons u us)
  then obtain conn conns' where c: "conns = conn # conns'" "pool_url lib u conn" "list_all2 (pool_url lib) us conns'"
    by (auto simp: list_all2_Cons1)
  have d: "drop i argv = ''-P'' # u # pool_args us" using Cons.prems(2) by (simp add: pool_args_def)
  then have i: "i + 1 < length argv" "argv ! i = ''-P''" "argv ! (i + 1) = u" "drop (i + 2) argv = pool_args us"
    using length_drop [of i argv] nth_drop [of i argv 0] nth_drop [of i argv 1] drop_drop [of 2 i argv] Cons.prems(3)
    by (simp_all add: add.commute)
  have p: "opt_pool lib (argv ! (i + 1)) c = Inr (next_pool conn c)"
    using c(2) Cons.prems(5-7) i(3) by (intro opt_pool_url) simp_all
  have o: "interpretOption lib argv i c = Inr (True, i + 1, next_pool conn c)"
    using i p Cons.prems(8) by (intro interpret_pool) (simp_all add: next_pool_def)
  obtain n' where n: "n = Suc n'" "length us < n'" using Cons.prems(4) by (cases n) auto
  have "main_loop n' lib argv (i + 2) (next_pool conn c) v = Some (Configured (fold next_pool conns' (next_pool conn c)) v)"
    using Cons.prems(5,8) n(2) i(1,4) c(3) by (intro Cons.IH) (simp_all add: next_pool_def)
  then show ?case using o i(1) n(1) c(1) by simp
qed

lemma fold_next_pool:
  "m_ep_ix c + length conns \<le> length (m_endpoints c) \<Longrightarrow>
    m_endpoints (fold next_pool conns c) = take (m_ep_ix c) (m_endpoints c) @ conns @ drop (m_ep_ix c + length conns) (m_endpoints c) \<and>
    (conns \<noteq> [] \<longrightarrow> m_mode (fold next_pool conns c) = ModeStratum) \<and>
    m_legacyParameters (fold next_pool conns c) = m_legacyParameters c \<and> m_worktimeout (fold next_pool conns c) = m_worktimeout c \<and>
    cli_email (fold next_pool conns c) = cli_email c \<and> m_report_stratum_hashrate (fold next_pool conns c) = m_report_stratum_hashrate c"
proof (induction conns arbitrary: c)
  case (Cons x conns)
  have "m_ep_ix (next_pool x c) + length conns \<le> length (m_endpoints (next_pool x c))" using Cons.prems by (simp add: next_pool_def)
  from Cons.IH [OF this] Cons.prems show ?case
    by (cases conns) (simp_all add: next_pool_def take_Suc_conv_app_nth)
qed simp

lemma add_endpoints_prefix:
  assumes "\<forall>e \<in> set es. pc_host e \<noteq> []" "\<forall>e \<in> set (take 1 rest). pc_host e = []"
  shows "m_connections (fst (add_endpoints (es @ rest) m)) = m_connections m @ es \<and>
    snd (add_endpoints (es @ rest) m) = (if m_connections m = [] \<and> es \<noteq> [] then [SetConnection (hd es)] else []) \<and>
    m_activeConnectionIdx (fst (add_endpoints (es @ rest) m)) = m_activeConnectionIdx m"
  using assms
proof (induction es arbitrary: m)
  case Nil
  then show ?case by (cases rest) auto
next
  case (Cons e es)
  then show ?case by (cases "m_connections m") (simp_all add: addConnection_def Let_def split_def)
qed

lemma initial_settings: "settings_ok MinerCLI_new"
  by (simp add: settings_ok_def cli_ok_def MinerCLI_new_def)

section \<open>Properties\<close>

text \<open>
  C36: reading the command line always ends: with more fuel than there are arguments the option loop returns, and
  the outcome does not depend on the fuel.
\<close>

theorem main_loop_terminates:
  assumes "length argv < n"
  shows "\<exists>r. \<forall>k \<ge> n. main_loop k lib argv i c v = Some r"
  using assms by (intro main_loop_total) simp

theorem main_loop_terminates_witness:
  "\<exists>r. main_loop 4 demo_lib [''ethminer'', ''-L'', ''sequential''] 1 MinerCLI_new 5 = Some r \<and>
    main_loop 9 demo_lib [''ethminer'', ''-L'', ''sequential''] 1 MinerCLI_new 5 = Some r"
  using main_loop_terminates [of "[''ethminer'', ''-L'', ''sequential'']" 4 demo_lib 1 MinerCLI_new 5] by auto

text \<open>
  C37: every command line that is accepted leaves well-formed settings: six endpoints and a cursor inside them,
  device tables of full length with counts inside them, the checked numbers in their ranges, and never both the
  deprecated options and \<open>-P\<close>; so the selected devices can be handed to the miners without an access out of
  range.
\<close>

theorem accepted_settings_ok:
  assumes "main_loop n lib argv 1 MinerCLI_new v = Some (Configured c w)"
  shows "cli_ok c \<and> \<not> (m_legacyParameters c \<and> m_newParameters c) \<and>
    (\<exists>cs. setDevices (m_openclDevices c) (m_openclDeviceCount c) cl_statics_init = Inr cs) \<and>
    (\<exists>cs. cuda_setDevices (m_cudaDevices c) (m_cudaDeviceCount c) cuda_statics_init = Inr cs)"
proof -
  have ok: "settings_ok c" using main_loop_ok [OF assms initial_settings] .
  then have "m_openclDeviceCount c \<le> 32" "length (m_openclDevices c) = 32" "m_cudaDeviceCount c \<le> 32" "length (m_cudaDevices c) = 32"
    by (simp_all add: settings_ok_def cli_ok_def MAX_MINERS_def LOG2_MAX_MINERS_def)
  then show ?thesis
    using ok unfolding settings_ok_def
    by (simp add: setDevices_def cuda_setDevices_def cl_statics_init_def cuda_statics_init_def MAX_MINERS_def LOG2_MAX_MINERS_def)
qed

definition demo_argv :: "string list" where
  "demo_argv = [''ethminer'', ''-G'', ''--opencl-devices'', ''0'', ''2'', ''--cl-parallel-hash'', ''4'']"

theorem accepted_settings_ok_witness:
  "\<exists>c. main_loop 8 demo_lib demo_argv 1 MinerCLI_new 5 = Some (Configured c 5) \<and> cli_ok c \<and> m_openclDeviceCount c = 2"
proof -
  have r: "case main_loop 8 demo_lib demo_argv 1 MinerCLI_new 5 of Some (Configured c w) \<Rightarrow> m_openclDeviceCount c = 2 \<and> w = 5 | _ \<Rightarrow> False"
    by code_simp
  then obtain c where c: "main_loop 8 demo_lib demo_argv 1 MinerCLI_new 5 = Some (Configured c 5)" "m_openclDeviceCount c = 2"
    by (auto split: option.splits cli_outcome.splits)
  with accepted_settings_ok [OF c(1)] show ?thesis by blast
qed

text \<open>
  The pools given with \<open>-P\<close> reach the pool manager: for up to six URLs of listed stratum schemes the option
  loop accepts the command line, a stratum client is chosen, the manager holds exactly their connections
  in the order given, and it starts by connecting the client to the first one.
\<close>

theorem pools_reach_manager:
  assumes "list_all2 (pool_url lib) us conns" "us \<noteq> []" "length us \<le> k_max_endpoints"
  shows "\<exists>c m. main_loop (length us + 1) lib (prog # pool_args us) 1 MinerCLI_new v = Some (Configured c v) \<and>
    start_mining f c = Inr (StratumClient 180 [] False, m, [SetConnection (hd conns), Connect]) \<and>
    m_connections m = conns \<and> m_running m \<and> m_activeConnectionIdx m = 0"
proof -
  let ?c = "fold next_pool conns MinerCLI_new"
  have len: "length conns = length us" "conns \<noteq> []" using assms(1,2) by (auto simp: list_all2_lengthD)
  have loop: "main_loop (length us + 1) lib (prog # pool_args us) 1 MinerCLI_new v = Some (Configured ?c v)"
    using assms by (intro pools_loop [of lib us]) (simp_all add: MinerCLI_new_def)
  have e: "m_endpoints ?c = conns @ drop (length us) (replicate k_max_endpoints PoolConnection_default)"
      "m_mode ?c = ModeStratum" "\<not> m_legacyParameters ?c" "m_worktimeout ?c = 180" "cli_email ?c = []" "\<not> m_report_stratum_hashrate ?c"
    using fold_next_pool [of MinerCLI_new conns] len assms(3) by (simp_all add: MinerCLI_new_def)
  have h: "\<forall>x \<in> set conns. pc_host x \<noteq> []"
    using assms(1) by (induction rule: list_all2_induct) (auto simp: pool_url_def)
  have d: "\<forall>x \<in> set (take 1 (drop (length us) (replicate k_max_endpoints PoolConnection_default))). pc_host x = []"
    by (auto simp: PoolConnection_default_def dest!: in_set_takeD in_set_dropD)
  let ?m0 = "setReconnectTries (unat (m_maxFarmRetries ?c)) (PoolManager_new f (cli_minerType ?c))"
  obtain m1 cmds where m1: "add_endpoints (m_endpoints ?c) ?m0 = (m1, cmds)" by fastforce
  then have "m_connections m1 = conns" "cmds = [SetConnection (hd conns)]" "m_activeConnectionIdx m1 = 0"
    using add_endpoints_prefix [OF h d, of ?m0] len(2) e(1) by (simp_all add: setReconnectTries_def PoolManager_new_def)
  with loop m1 e len(2) show ?thesis
    by (simp add: start_mining_def choose_client_def failover_credentials_def PoolManager_start_def)
qed

text \<open>A library that knows two URLs.\<close>

definition two_pools :: uri_lib where
  "two_pools = demo_lib\<lparr>uri_parse := (\<lambda>s.
     if s = ''stratum+tcp://a:1'' then Some \<lparr>u_scheme = Some ''stratum+tcp'', u_user_info = None, u_host = Some ''a'', u_port = Some ''1'', u_path = None\<rparr>
     else if s = ''stratum2+ssl://b:2'' then Some \<lparr>u_scheme = Some ''stratum2+ssl'', u_user_info = None, u_host = Some ''b'', u_port = Some ''2'', u_path = None\<rparr>
     else if s = ''stratum://exit:1'' then Some \<lparr>u_scheme = Some ''stratum'', u_user_info = None, u_host = Some ''exit'', u_port = Some ''1'', u_path = None\<rparr>
     else None)\<rparr>"

definition pool_a :: PoolConnection where
  "pool_a = \<lparr>pc_host = ''a'', pc_port = 1, pc_user = [], pc_pass = [], pc_secLevel = SecNone, pc_version = 0, pc_path = []\<rparr>"

definition pool_b :: PoolConnection where
  "pool_b = \<lparr>pc_host = ''b'', pc_port = 2, pc_user = [], pc_pass = [], pc_secLevel = TLS12, pc_version = 2, pc_path = []\<rparr>"

lemma two_pools_urls: "pool_url two_pools ''stratum+tcp://a:1'' pool_a" "pool_url two_pools ''stratum2+ssl://b:2'' pool_b"
  by code_simp+

theorem pools_reach_manager_witness:
  "\<exists>c m. main_loop 3 two_pools [''ethminer'', ''-P'', ''stratum+tcp://a:1'', ''-P'', ''stratum2+ssl://b:2''] 1 MinerCLI_new 5 = Some (Configured c 5) \<and>
    start_mining demo_farm c = Inr (StratumClient 180 [] False, m, [SetConnection pool_a, Connect]) \<and> m_connections m = [pool_a, pool_b]"
proof -
  have "list_all2 (pool_url two_pools) [''stratum+tcp://a:1'', ''stratum2+ssl://b:2''] [pool_a, pool_b]" using two_pools_urls by simp
  from pools_reach_manager [OF this, of "''ethminer''" 5 demo_farm] show ?thesis
    by (simp add: pool_args_def k_max_endpoints_def numeral_3_eq_3 del: main_loop.simps) blast
qed

text \<open>
  The documented \<open>-P exit\<close>, which is to end the program when the other pools fail, is always refused: the scheme
  \<open>stratum\<close> of the URL put in its place is not in the table.
\<close>

theorem exit_pool_refused:
  assumes "uri_parse lib ''stratum://exit:1'' = Some p" "u_scheme p = Some ''stratum''" "boost_trim lib ''stratum'' = ''stratum''"
    "cli_schemes c = s_schemes" "argv ! i = ''-P''" "argv ! (i + 1) = ''exit''" "i + 1 < length argv"
  shows "interpretOption lib argv i c = Inl BadArgument"
proof -
  have "map_of s_schemes ''stratum'' = None" by code_simp
  moreover have "URI lib ''stratum://exit:1'' = Some p" using assms(1) by (simp add: URI_def)
  ultimately have "opt_pool lib ''exit'' c = Inl BadArgument" using assms(2-4) by (simp add: opt_pool_def KnownScheme_def)
  then show ?thesis
    using assms(5-7)
    by (simp add: interpretOption_def all_options_def pool_options_def credential_options_def report_options_def with_arg_def set_arg_def
        stol_arg_def flag_def optional_arg_def removed_option_def)
qed

text \<open>The simulation mode alone never mines: without an endpoint the pool manager does not start.\<close>

theorem simulation_never_starts:
  assumes "m_mode c = ModeSimulation" "pc_host (m_endpoints c ! 0) = []" "m_endpoints c \<noteq> []" "\<not> m_legacyParameters c"
  shows "\<exists>m. start_mining f c = Inr (SimulationClient 20 (m_benchmarkBlock c), m, []) \<and> \<not> m_running m"
proof -
  obtain e es where "m_endpoints c = e # es" using assms(3) by (cases "m_endpoints c") auto
  then show ?thesis
    using assms by (simp add: start_mining_def choose_client_def failover_credentials_def PoolManager_start_def setReconnectTries_def PoolManager_new_def)
qed

text \<open>Credentials given for the failover pool are replaced by those of the primary pool; when they are omitted, which is when
  the help promises the primary ones, they stay empty.\<close>

theorem failover_credentials_inverted:
  assumes "m_legacyParameters c" "length (m_endpoints c) = k_max_endpoints"
  shows "pc_user (m_endpoints (failover_credentials c) ! 1) =
    (if pc_user (m_endpoints c ! 1) = [] then [] else pc_user (m_endpoints c ! 0))"
  using assms by (simp add: failover_credentials_def on_endpoint_def k_secondary_ep_ix_def k_primary_ep_ix_def k_max_endpoints_def)

lemma unat_sum_list: "sum_list (map unat xs) < 2 ^ 64 \<Longrightarrow> unat (sum_list xs :: u64) = sum_list (map unat xs)"
  by (induction xs) (auto simp: unat_word_ariths)

lemma sum_list_bounds:
  fixes xs :: "nat list"
  shows "(\<And>x. x \<in> set xs \<Longrightarrow> lo \<le> x) \<Longrightarrow> lo * length xs \<le> sum_list xs" "(\<And>x. x \<in> set xs \<Longrightarrow> x \<le> hi) \<Longrightarrow> sum_list xs \<le> hi * length xs"
  by (induction xs) (auto intro: add_mono)

text \<open>The summary of a benchmark: the extremes are those of the measured rates, and the mean lies between them as long as the
  sum of the rates does not overflow.\<close>

theorem bench_summary_ordered:
  assumes "bench_summary rates = Some (lo, mean, hi, inner)" "sum_list (map unat rates) < 2 ^ 64" "length rates < 2 ^ 32"
  shows "lo \<in> set rates \<and> hi \<in> set rates \<and> (\<forall>x \<in> set rates. lo \<le> x \<and> x \<le> hi) \<and> lo \<le> mean \<and> mean \<le> hi"
proof -
  have ne2: "rates \<noteq> []" using assms(1) by (auto simp: bench_summary_def Let_def)
  then have ne: "sort rates \<noteq> []" "rates \<noteq> []" by (metis length_0_conv length_sort) (rule ne2)
  have d: "lo = hd (sort rates)" "mean = sum_list rates div of_nat (length rates)" "hi = last (sort rates)"
    using assms(1) by (auto simp: bench_summary_def Let_def split: if_splits)
  have m: "lo \<in> set rates" "hi \<in> set rates" unfolding d using hd_in_set [OF ne(1)] last_in_set [OF ne(1)] by simp_all
  have b: "lo \<le> x \<and> x \<le> hi" if "x \<in> set rates" for x
  proof -
    have "x \<in> set (sort rates)" using that by simp
    then obtain k where k: "k < length (sort rates)" "sort rates ! k = x" unfolding in_set_conv_nth by blast
    then show ?thesis
      using sorted_nth_mono [OF sorted_sort [of rates], of 0 k] sorted_nth_mono [OF sorted_sort [of rates], of k "length (sort rates) - 1"] ne
      by (simp add: d hd_conv_nth last_conv_nth)
  qed
  have u: "unat (of_nat (length rates) :: u64) = length rates" using assms(3) by (simp add: unat_of_nat)
  have v: "unat mean = sum_list (map unat rates) div length rates"
    unfolding d by (simp add: unat_div_distrib u unat_sum_list [OF assms(2)])
  have "unat lo * length rates \<le> sum_list (map unat rates)" "sum_list (map unat rates) \<le> unat hi * length rates"
    using sum_list_bounds [of "map unat rates"] b by (auto simp: word_le_nat_alt)
  then have "unat lo \<le> unat mean" "unat mean \<le> unat hi"
    unfolding v using ne(2) by (simp_all add: div_le_mono less_eq_div_iff_mult_less_eq) (metis div_le_mono length_greater_0_conv nonzero_mult_div_cancel_right less_numeral_extra(3))
  with m b show ?thesis by (simp add: word_le_nat_alt)
qed

text \<open>\<open>toJS\<close> prints numbers the way the pool manager prints the hash rate.\<close>

lemma toJS_hashrate: "toJS (unat r) = hashrate_text r"
  by (simp add: toJS_def hashrate_text_def)

end
