(* ===== verification/BlockHeader.thy ===== *)
theory BlockHeader
  imports Rlp EthashAux
begin

text \<open>
  Block headers: \<^verbatim>\<open>libethcore/BlockHeader.{h,cpp}\<close>.  Parsing reads the first thirteen fields of the header
  list through one cached view; the hash without seal is taken over the same fields written by the
  RLP stream.  \<open>m_hashWithout\<close> and \<open>m_boundary\<close> are caches, empty when zero.
\<close>

section \<open>Data\<close>

datatype block_error = RlpError rlp_error | InvalidBlockFormat nat | InvalidNumber | TooMuchGasUsed

record BlockHeader =
  m_parentHash :: bytes
  m_sha3Uncles :: bytes
  m_coinbaseAddress :: bytes
  m_stateRoot :: bytes
  m_transactionsRoot :: bytes
  m_receiptsRoot :: bytes
  m_logBloom :: bytes
  m_number :: nat
  m_gasLimit :: nat
  m_gasUsed :: nat
  m_timestamp :: nat
  m_extraData :: bytes
  m_difficulty :: nat
  m_hashWithout :: bytes
  m_boundary :: bytes

definition BasicFields :: nat where "BasicFields = 13"

definition Invalid256 :: nat where "Invalid256 = 2 ^ 256 - 1"

definition BlockHeader_default :: BlockHeader where
  "BlockHeader_default = \<lparr>m_parentHash = h256_zero, m_sha3Uncles = h256_zero, m_coinbaseAddress = replicate 20 0,
     m_stateRoot = h256_zero, m_transactionsRoot = h256_zero, m_receiptsRoot = h256_zero, m_logBloom = replicate 256 0,
     m_number = 0, m_gasLimit = 0, m_gasUsed = 0, m_timestamp = Invalid256, m_extraData = [], m_difficulty = 0,
     m_hashWithout = h256_zero, m_boundary = h256_zero\<rparr>"

section \<open>Difficulty and boundary\<close>

definition noteDirty :: "BlockHeader \<Rightarrow> BlockHeader" where
  "noteDirty h = h\<lparr>m_hashWithout := h256_zero, m_boundary := h256_zero\<rparr>"

definition setNumber :: "nat \<Rightarrow> BlockHeader \<Rightarrow> BlockHeader" where
  "setNumber v h = noteDirty (h\<lparr>m_number := v\<rparr>)"

definition setDifficulty :: "nat \<Rightarrow> BlockHeader \<Rightarrow> BlockHeader" where
  "setDifficulty v h = noteDirty (h\<lparr>m_difficulty := v\<rparr>)"

text \<open>The quotient is converted to 256 bits, which turns \<open>2^256\<close> into zero.\<close>

definition boundary :: "BlockHeader \<Rightarrow> bytes \<times> BlockHeader" where
  "boundary h =
     (let h' = (if \<not> hash_bool (m_boundary h) \<and> m_difficulty h \<noteq> 0
                then h\<lparr>m_boundary := FixedHash_of_arith 32 ((2 ^ 256 div m_difficulty h) mod 2 ^ 256)\<rparr> else h)
      in (m_boundary h', h'))"

section \<open>Hash without seal\<close>

text \<open>One \<open>operator<<\<close> after the other.\<close>

definition stream_hash :: "bytes \<Rightarrow> rlp_error + RLPStream \<Rightarrow> rlp_error + RLPStream" where
  "stream_hash b r = bindE r (append_bytes b False)"

definition stream_int :: "nat \<Rightarrow> rlp_error + RLPStream \<Rightarrow> rlp_error + RLPStream" where
  "stream_int i r = bindE r (append_int i)"

definition streamRLPFields :: "BlockHeader \<Rightarrow> RLPStream \<Rightarrow> rlp_error + RLPStream" where
  "streamRLPFields h s =
     stream_hash (m_extraData h) (stream_int (m_timestamp h) (stream_int (m_gasUsed h) (stream_int (m_gasLimit h)
       (stream_int (m_number h) (stream_int (m_difficulty h) (stream_hash (m_logBloom h) (stream_hash (m_receiptsRoot h)
         (stream_hash (m_transactionsRoot h) (stream_hash (m_stateRoot h) (stream_hash (m_coinbaseAddress h)
           (stream_hash (m_sha3Uncles h) (stream_hash (m_parentHash h) (Inr s)))))))))))))"

definition hashWithout :: "BlockHeader \<Rightarrow> rlp_error + bytes \<times> BlockHeader" where
  "hashWithout h =
     (if hash_bool (m_hashWithout h) then Inr (m_hashWithout h, h)
      else bindE (appendList BasicFields RLPStream_new) (\<lambda>s.
           bindE (streamRLPFields h s) (\<lambda>s.
           bindE (stream_out s) (\<lambda>out.
             let h' = h\<lparr>m_hashWithout := dev_sha3 out\<rparr> in Inr (m_hashWithout h', h')))))"

section \<open>Parsing\<close>

definition lift_rlp :: "rlp_error + 'a \<Rightarrow> block_error + 'a" where
  "lift_rlp r = (case r of Inl e \<Rightarrow> Inl (RlpError e) | Inr x \<Rightarrow> Inr x)"

definition extractHeader :: "bytes \<Rightarrow> block_error + bytes" where
  "extractHeader block =
     bindE (lift_rlp (RLP_new block VeryStrict)) (\<lambda>root.
     if \<not> isList root then Inl (InvalidBlockFormat 0)
     else bindE (lift_rlp (rlp_index 0 (fresh_view root))) (\<lambda>(header, v).
     if \<not> isList header then Inl (InvalidBlockFormat 0)
     else bindE (lift_rlp (rlp_index 1 v)) (\<lambda>(txs, v).
     if \<not> isList txs then Inl (InvalidBlockFormat 1)
     else bindE (lift_rlp (rlp_index 2 v)) (\<lambda>(uncles, v).
     if \<not> isList uncles then Inl (InvalidBlockFormat 2)
     else Inr header))))"

text \<open>The handler around the fields accesses the bad field once more, for its message; should that access throw, its
  exception is the one that leaves.\<close>

definition bad_field :: "nat \<Rightarrow> rlp_view \<Rightarrow> rlp_error \<Rightarrow> rlp_error" where
  "bad_field i v e = (case rlp_index i v of Inl e' \<Rightarrow> e' | Inr _ \<Rightarrow> e)"

definition read_field :: "nat \<Rightarrow> (bytes \<Rightarrow> rlp_error + 'a) \<Rightarrow> rlp_view \<Rightarrow> rlp_error + 'a \<times> rlp_view" where
  "read_field i conv v =
     (case rlp_index i v of
        Inl e \<Rightarrow> Inl (bad_field i v e)
      | Inr (r, v') \<Rightarrow> (case conv r of Inl e \<Rightarrow> Inl (bad_field i v' e) | Inr x \<Rightarrow> Inr (x, v')))"

definition hash_field :: "nat \<Rightarrow> nat \<Rightarrow> rlp_view \<Rightarrow> rlp_error + bytes \<times> rlp_view" where
  "hash_field n i v = read_field i (\<lambda>r. toHash n r VeryStrict) v"

definition int_field :: "nat \<Rightarrow> rlp_view \<Rightarrow> rlp_error + nat \<times> rlp_view" where
  "int_field i v = read_field i (\<lambda>r. toInt (Some 32) r Strict) v"

definition read_header :: "BlockHeader \<Rightarrow> rlp_view \<Rightarrow> rlp_error + BlockHeader" where
  "read_header h v =
     bindE (hash_field 32 0 v) (\<lambda>(parentHash, v).
     bindE (hash_field 32 1 v) (\<lambda>(sha3Uncles, v).
     bindE (hash_field 20 2 v) (\<lambda>(coinbase, v).
     bindE (hash_field 32 3 v) (\<lambda>(stateRoot, v).
     bindE (hash_field 32 4 v) (\<lambda>(transactionsRoot, v).
     bindE (hash_field 32 5 v) (\<lambda>(receiptsRoot, v).
     bindE (hash_field 256 6 v) (\<lambda>(logBloom, v).
     bindE (int_field 7 v) (\<lambda>(difficulty, v).
     bindE (int_field 8 v) (\<lambda>(number, v).
     bindE (int_field 9 v) (\<lambda>(gasLimit, v).
     bindE (int_field 10 v) (\<lambda>(gasUsed, v).
     bindE (int_field 11 v) (\<lambda>(timestamp, v).
     bindE (read_field 12 toBytes v) (\<lambda>(extraData, v).
       Inr (h\<lparr>m_parentHash := parentHash, m_sha3Uncles := sha3Uncles, m_coinbaseAddress := coinbase, m_stateRoot := stateRoot,
              m_transactionsRoot := transactionsRoot, m_receiptsRoot := receiptsRoot, m_logBloom := logBloom,
              m_difficulty := difficulty, m_number := number, m_gasLimit := gasLimit, m_gasUsed := gasUsed,
              m_timestamp := timestamp, m_extraData := extraData\<rparr>))))))))))))))"

definition populateFromHeader :: "bytes \<Rightarrow> BlockHeader \<Rightarrow> block_error + BlockHeader" where
  "populateFromHeader header h =
     bindE (lift_rlp (read_header h (fresh_view header))) (\<lambda>h.
       if 2 ^ 32 - 1 < m_number h then Inl InvalidNumber
       else if m_gasLimit h < m_gasUsed h then Inl TooMuchGasUsed
       else Inr h)"

definition BlockHeader_of_block :: "bytes \<Rightarrow> block_error + BlockHeader" where
  "BlockHeader_of_block block = bindE (extractHeader block) (\<lambda>header. populateFromHeader header BlockHeader_default)"

text \<open>The work package of a header (\<^verbatim>\<open>EthashAux.h\<close>); the conversion of the number library to \<open>int\<close>
  is the parameter \<open>to_int\<close>.\<close>

definition WorkPackage_of_header :: "(nat \<Rightarrow> int) \<Rightarrow> BlockHeader \<Rightarrow> rlp_error + WorkPackage" where
  "WorkPackage_of_header to_int h =
     (let (b, h) = boundary h in
      bindE (hashWithout h) (\<lambda>(hw, h).
        Inr (WorkPackage_default\<lparr>wp_boundary := b, wp_header := hw,
               wp_epoch := sint ((of_int (to_int (m_number h)) :: u32) div of_nat ETHASH_EPOCH_LENGTH), wp_height := of_nat (m_number h)\<rparr>)))"

section \<open>Facts\<close>

definition header_items :: "BlockHeader \<Rightarrow> item list" where
  "header_items h = map Data [m_parentHash h, m_sha3Uncles h, m_coinbaseAddress h, m_stateRoot h, m_transactionsRoot h,
     m_receiptsRoot h, m_logBloom h, toCompactBigEndian (m_difficulty h) 0, toCompactBigEndian (m_number h) 0,
     toCompactBigEndian (m_gasLimit h) 0, toCompactBigEndian (m_gasUsed h) 0, toCompactBigEndian (m_timestamp h) 0, m_extraData h]"

definition header_ok :: "BlockHeader \<Rightarrow> bool" where
  "header_ok h \<longleftrightarrow>
     length (m_parentHash h) = 32 \<and> length (m_sha3Uncles h) = 32 \<and> length (m_coinbaseAddress h) = 20 \<and>
     length (m_stateRoot h) = 32 \<and> length (m_transactionsRoot h) = 32 \<and> length (m_receiptsRoot h) = 32 \<and>
     length (m_logBloom h) = 256 \<and> m_difficulty h < 2 ^ 256 \<and> m_number h < 2 ^ 32 \<and> m_gasLimit h < 2 ^ 256 \<and>
     m_gasUsed h \<le> m_gasLimit h \<and> m_timestamp h < 2 ^ 256 \<and> length (m_extraData h) < 2 ^ 32"

lemma length_header_items [simp]: "length (header_items h) = 13"
  by (simp add: header_items_def)

lemma u256_bytes: "i < 2 ^ 256 \<longleftrightarrow> i < (256 :: nat) ^ 32"
  by (simp add: power_mult [of 2 8 32, simplified])

lemma compact_u256: "i < 2 ^ 256 \<Longrightarrow> length (toCompactBigEndian i 0) \<le> 32"
  by (simp only: u256_bytes length_compact bytesRequired_le)

lemma max_len_big: "n \<le> 2 ^ 32 \<Longrightarrow> n < max_len"
  by (simp add: max_len_def)

lemma header_encodable: "header_ok h \<Longrightarrow> list_all encodable (header_items h)"
  using compact_u256 [of "m_difficulty h"] compact_u256 [of "m_number h"] compact_u256 [of "m_gasLimit h"]
    compact_u256 [of "m_gasUsed h"] compact_u256 [of "m_timestamp h"]
  by (simp add: header_ok_def header_items_def max_len_def)

text \<open>Reading one field of an encoded list through a view; the remaining program goes on with some valid view.\<close>

lemma read_hash:
  assumes "encodable (RList xs)" "view_ok xs v" "i < length xs" "i < 100" "xs ! i = Data b" "length b = n" "n \<le> 2 ^ 32"
    "\<And>v'. view_ok xs v' \<Longrightarrow> f (b, v') = r"
  shows "bindE (hash_field n i v) f = r"
proof -
  obtain v' where "rlp_index i v = Inr (encode (Data b), v')" "view_ok xs v'"
    using rlp_index_encode [OF assms(1,2), of i] assms(3-5) by auto
  then show ?thesis
    using assms(8) toHash_encode [OF assms(6) max_len_big [OF assms(7)]] by (simp add: hash_field_def read_field_def)
qed

lemma read_int:
  assumes "encodable (RList xs)" "view_ok xs v" "i < length xs" "i < 100" "xs ! i = Data (toCompactBigEndian k 0)" "k < 2 ^ 256"
    "\<And>v'. view_ok xs v' \<Longrightarrow> f (k, v') = r"
  shows "bindE (int_field i v) f = r"
proof -
  obtain v' where "rlp_index i v = Inr (encode (Data (toCompactBigEndian k 0)), v')" "view_ok xs v'"
    using rlp_index_encode [OF assms(1,2), of i] assms(3-5) by auto
  then show ?thesis
    using assms(7) toInt_encode [of k 32] assms(6) max_len_big [of 32] by (simp add: int_field_def read_field_def u256_bytes)
qed

lemma read_bytes:
  assumes "encodable (RList xs)" "view_ok xs v" "i < length xs" "i < 100" "xs ! i = Data b"
    "\<And>v'. view_ok xs v' \<Longrightarrow> f (b, v') = r"
  shows "bindE (read_field i toBytes v) f = r"
proof -
  obtain v' where "rlp_index i v = Inr (encode (Data b), v')" "view_ok xs v'"
    using rlp_index_encode [OF assms(1,2), of i] assms(3-5) by auto
  moreover have "encodable (Data b)" using assms(1,3,5) by (auto simp: list_all_length)
  ultimately show ?thesis
    using assms(6) toBytes_encode(2) [of b] by (simp add: read_field_def)
qed

lemma header_nth:
  "header_items h ! 0 = Data (m_parentHash h)" "header_items h ! 1 = Data (m_sha3Uncles h)"
  "header_items h ! 2 = Data (m_coinbaseAddress h)" "header_items h ! 3 = Data (m_stateRoot h)"
  "header_items h ! 4 = Data (m_transactionsRoot h)" "header_items h ! 5 = Data (m_receiptsRoot h)"
  "header_items h ! 6 = Data (m_logBloom h)" "header_items h ! 7 = Data (toCompactBigEndian (m_difficulty h) 0)"
  "header_items h ! 8 = Data (toCompactBigEndian (m_number h) 0)" "header_items h ! 9 = Data (toCompactBigEndian (m_gasLimit h) 0)"
  "header_items h ! 10 = Data (toCompactBigEndian (m_gasUsed h) 0)" "header_items h ! 11 = Data (toCompactBigEndian (m_timestamp h) 0)"
  "header_items h ! 12 = Data (m_extraData h)"
  by (simp_all add: header_items_def)

definition same_fields :: "BlockHeader \<Rightarrow> BlockHeader \<Rightarrow> BlockHeader" where
  "same_fields h g = h\<lparr>m_hashWithout := m_hashWithout g, m_boundary := m_boundary g\<rparr>"

lemma read_header_encode:
  assumes "header_ok h" "encodable (RList (header_items h @ extra))" "view_ok (header_items h @ extra) v"
  shows "read_header g v = Inr (same_fields h g)"
proof -
  note ok = assms(1) [unfolded header_ok_def]
  have lt: "m_number h < 2 ^ 256" "m_gasUsed h < 2 ^ 256" using ok by auto
  show ?thesis
    unfolding read_header_def split_conv
    by (rule read_hash [OF assms(2)], (assumption | rule assms(3)), simp, simp,
        simp add: header_nth nth_append del: One_nat_def, simp add: ok, simp, unfold split_conv)+
      ((rule read_int [OF assms(2)], assumption, simp, simp, simp add: header_nth nth_append, (use ok lt in blast), unfold split_conv)+,
       rule read_bytes [OF assms(2)], assumption, simp, simp, simp add: header_nth nth_append, simp add: same_fields_def)
qed

lemma extractHeader_encode:
  assumes "encodable (RList [RList hs, RList txs, RList us])"
  shows "extractHeader (encode (RList [RList hs, RList txs, RList us])) = Inr (encode (RList hs))"
proof -
  let ?xs = "[RList hs, RList txs, RList us]"
  have l: "isList (encode (RList ys))" if "encodable (RList ys)" for ys using that by (rule reads_RList(1))
  obtain v1 where 1: "rlp_index 0 (fresh_view (encode (RList ?xs))) = Inr (encode (RList hs), v1)" "view_ok ?xs v1"
    using rlp_index_encode [OF assms fresh_view_ok, of 0] by auto
  obtain v2 where 2: "rlp_index 1 v1 = Inr (encode (RList txs), v2)" "view_ok ?xs v2"
    using rlp_index_encode [OF assms 1(2), of 1] by auto
  obtain v3 where 3: "rlp_index 2 v2 = Inr (encode (RList us), v3)"
    using rlp_index_encode [OF assms 2(2), of 2] by auto
  have e: "encodable (RList hs)" "encodable (RList txs)" "encodable (RList us)" using assms by (simp_all del: encodable.simps(2) add: encodable.simps(2) [of ?xs])
  show ?thesis
    using 1(1) 2(1) 3 RLP_new_encode(1) [OF assms] l [OF assms] l [OF e(1)] l [OF e(2)] l [OF e(3)]
    by (simp add: extractHeader_def lift_rlp_def del: encode.simps One_nat_def)
qed

lemma stream_fields: "header_ok h \<Longrightarrow> streamRLPFields h s = emit_all (header_items h) s"
proof -
  assume ok: "header_ok h"
  have i: "append_int k = append_bytes (toCompactBigEndian k 0) False" if "k < 2 ^ 256" for k
    using append_int_encode [of k] compact_u256 [OF that] max_len_big [of "bytesRequired k"] by (simp add: fun_eq_iff length_compact)
  have b: "bindE (bindE r f) g = bindE r (\<lambda>x. bindE (f x) g)" for r :: "rlp_error + RLPStream" and f and g :: "_ \<Rightarrow> rlp_error + RLPStream"
    by (cases r) simp_all
  have u: "bindE r Inr = r" for r :: "rlp_error + RLPStream" by (cases r) simp_all
  have lt: "m_number h < 2 ^ 256" "m_gasUsed h < 2 ^ 256" "m_difficulty h < 2 ^ 256" "m_gasLimit h < 2 ^ 256" "m_timestamp h < 2 ^ 256"
    using ok by (auto simp: header_ok_def)
  show ?thesis
    unfolding streamRLPFields_def stream_hash_def stream_int_def header_items_def list.map emit_all.simps emit.simps
      i [OF lt(1)] i [OF lt(2)] i [OF lt(3)] i [OF lt(4)] i [OF lt(5)] b by (simp add: u)
qed

lemma length_encode_data: "length b < max_len \<Longrightarrow> length (encode (Data b)) \<le> 9 + length b"
  using bytesRequired_le8 [of "length b"] by (simp add: length_prefix)

lemma length_encode_list:
  "list_all encodable (map Data ds) \<Longrightarrow>
    length (concat (map encode (map Data ds))) \<le> sum_list (map (\<lambda>b. 9 + length b) ds)"
proof (induction ds)
  case (Cons b ds)
  then show ?case using length_encode_data [of b] by (simp del: encode.simps)
qed simp

lemma header_list_encodable: "header_ok h \<Longrightarrow> encodable (RList (header_items h))"
proof -
  assume ok: "header_ok h"
  have "length (concat (map encode (header_items h))) \<le> 117 + 596 + length (m_extraData h)"
    using length_encode_list [OF header_encodable [OF ok, unfolded header_items_def]] ok
      compact_u256 [of "m_difficulty h"] compact_u256 [of "m_number h"]
      compact_u256 [of "m_gasLimit h"] compact_u256 [of "m_gasUsed h"] compact_u256 [of "m_timestamp h"]
    by (simp add: header_items_def header_ok_def del: encode.simps)
  then show ?thesis using header_encodable [OF ok] ok by (simp add: header_ok_def max_len_def)
qed

lemma hashWithout_encode:
  assumes "header_ok h" "\<not> hash_bool (m_hashWithout h)"
  shows "hashWithout h = Inr (dev_sha3 (encode (RList (header_items h))), h\<lparr>m_hashWithout := dev_sha3 (encode (RList (header_items h)))\<rparr>)"
proof -
  from emit_encode [OF header_list_encodable [OF assms(1)], of RLPStream_new]
  have "bindE (bindE (appendList 13 RLPStream_new) (emit_all (header_items h))) stream_out = Inr (encode (RList (header_items h)))"
    by (simp add: RLPStream_new_def noteAppended_def stream_out_def del: encode.simps)
  then show ?thesis
    using assms(2) stream_fields [OF assms(1)]
    by (auto simp: hashWithout_def BasicFields_def Let_def bindE_def split: sum.splits)
qed

lemma hash_bool_zero [simp]: "\<not> hash_bool h256_zero"
  by (simp add: hash_bool_def h256_zero_def list_ex_iff)

lemma boundary_fresh:
  "\<not> hash_bool (m_boundary h) \<Longrightarrow> m_difficulty h \<noteq> 0 \<Longrightarrow>
    boundary h = (FixedHash_of_arith 32 ((2 ^ 256 div m_difficulty h) mod 2 ^ 256),
      h\<lparr>m_boundary := FixedHash_of_arith 32 ((2 ^ 256 div m_difficulty h) mod 2 ^ 256)\<rparr>)"
  unfolding boundary_def Let_def by (simp only: if_True simp_thms) simp

lemma boundary_cached: "hash_bool (m_boundary h) \<Longrightarrow> boundary h = (m_boundary h, h)"
  by (simp add: boundary_def)

lemma boundary_value: "q < 2 ^ 256 \<Longrightarrow> FixedHash_to_arith 32 (FixedHash_of_arith 32 q) = q"
  by (simp only: FixedHash_to_arith_def FixedHash_of_arith_def) (simp add: fromBigEndian_exact u256_bytes [symmetric])

lemma boundary_value_zero: "FixedHash_to_arith 32 h256_zero = 0"
proof -
  have "be_value (replicate n 0) = 0" for n
    by (induction n) (simp_all add: be_value_simps(2) replicate_append_same [symmetric] del: replicate.simps(2) replicate_Suc)
  then show ?thesis by (simp add: FixedHash_to_arith_def fromBigEndian_exact h256_zero_def)
qed

section \<open>Properties\<close>

text \<open>
  C31: a header survives serialisation: from the RLP of a block whose header list starts with the thirteen
  fields, followed by anything (the seal), the fields are read back exactly, and the hash without seal of
  the header read is the Keccak hash of the list of these fields alone.
\<close>

theorem header_roundtrip:
  assumes "header_ok h" "encodable (RList [RList (header_items h @ seal), RList txs, RList uncles])"
  shows "\<exists>g. BlockHeader_of_block (encode (RList [RList (header_items h @ seal), RList txs, RList uncles])) = Inr g \<and>
    g = h\<lparr>m_hashWithout := h256_zero, m_boundary := h256_zero\<rparr> \<and>
    (\<exists>g'. hashWithout g = Inr (dev_sha3 (encode (RList (header_items h))), g'))"
proof -
  let ?g = "h\<lparr>m_hashWithout := h256_zero, m_boundary := h256_zero\<rparr>"
  have e: "encodable (RList (header_items h @ seal))" using assms(2) by (simp del: encode.simps)
  have "same_fields h BlockHeader_default = ?g" by (simp add: same_fields_def BlockHeader_default_def)
  then have r: "read_header BlockHeader_default (fresh_view (encode (RList (header_items h @ seal)))) = Inr ?g"
    using read_header_encode [OF assms(1) e fresh_view_ok, of BlockHeader_default] by simp
  have "m_number h < 2 ^ 32" "m_gasUsed h \<le> m_gasLimit h" using assms(1) by (simp_all add: header_ok_def)
  then have b: "BlockHeader_of_block (encode (RList [RList (header_items h @ seal), RList txs, RList uncles])) = Inr ?g"
    using extractHeader_encode [OF assms(2)] r
    by (simp add: BlockHeader_of_block_def populateFromHeader_def lift_rlp_def del: encode.simps)
  have g: "header_ok ?g" "header_items ?g = header_items h" using assms(1) by (simp_all add: header_ok_def header_items_def)
  have "hashWithout ?g = Inr (dev_sha3 (encode (RList (header_items h))), ?g\<lparr>m_hashWithout := dev_sha3 (encode (RList (header_items h)))\<rparr>)"
    using hashWithout_encode [OF g(1)] g(2) by simp
  with b show ?thesis by blast
qed

theorem header_roundtrip_witness:
  "\<exists>g. BlockHeader_of_block (encode (RList [RList (header_items (BlockHeader_default\<lparr>m_timestamp := 5\<rparr>) @ [Data [1]]), RList [], RList []])) = Inr g \<and>
     m_timestamp g = 5"
proof -
  let ?h = "BlockHeader_default\<lparr>m_timestamp := 5\<rparr>"
  have ok: "header_ok ?h" by (simp add: header_ok_def BlockHeader_default_def h256_zero_def)
  have c: "toCompactBigEndian 0 0 = []" "toCompactBigEndian 5 0 = [5]" by (simp_all add: toCompactBigEndian_def bytesRequired.simps)
  have n: "bytesRequired 256 = 2" "bytesRequired 452 = 2" by (simp_all add: bytesRequired.simps)
  have "encodable (RList [RList (header_items ?h @ [Data [1]]), RList [], RList []])"
    by (simp add: header_items_def BlockHeader_default_def h256_zero_def c n prefix_def max_len_def length_compact)
  from header_roundtrip [OF ok this] show ?thesis by auto
qed

text \<open>
  The boundary of a difficulty \<open>d > 1\<close> is \<open>2^256 div d\<close>, it is computed once and cached, and a new
  difficulty clears the cache; the boundary of difficulty one, which should accept every hash, is zero.
\<close>

theorem boundary_of_difficulty:
  assumes "d < 2 ^ 256" "boundary (setDifficulty d h) = (b, h')"
  shows "FixedHash_to_arith 32 b = (if d \<le> 1 then 0 else 2 ^ 256 div d) \<and> m_boundary h' = b \<and> boundary h' = (b, h')"
proof -
  define q where "q = (2 ^ 256 div d) mod (2 ^ 256 :: nat)"
  define g where "g = setDifficulty d h"
  have g: "\<not> hash_bool (m_boundary g)" "m_difficulty g = d" "m_boundary g = h256_zero"
    by (simp_all add: g_def setDifficulty_def noteDirty_def)
  show ?thesis
  proof (cases "d = 0")
    case True
    then have "boundary g = (h256_zero, g)" using g by (simp add: boundary_def Let_def)
    then show ?thesis using assms(2) g True by (auto simp: g_def boundary_value_zero)
  next
    case False
    have "boundary g = (FixedHash_of_arith 32 q, g\<lparr>m_boundary := FixedHash_of_arith 32 q\<rparr>)"
      using boundary_fresh [OF g(1)] g(2) False unfolding q_def by metis
    then have b: "b = FixedHash_of_arith 32 q" "h' = g\<lparr>m_boundary := b\<rparr>" using assms(2) by (simp_all add: g_def)
    have "boundary h' = (b, h')"
      using boundary_fresh [of h'] boundary_cached [of h'] g(2) False b q_def by (cases "hash_bool (m_boundary h')") simp_all
    moreover have "FixedHash_to_arith 32 b = q" using boundary_value [of q] by (simp add: b q_def)
    moreover have "q = (if d \<le> 1 then 0 else 2 ^ 256 div d)"
    proof (cases "d = 1")
      case False
      with \<open>d \<noteq> 0\<close> have "1 < d" by simp
      then have "(2 ^ 256 :: nat) div d < 2 ^ 256" by (intro div_less_dividend zero_less_power) simp_all
      then show ?thesis using \<open>1 < d\<close> by (simp only: q_def mod_less) simp
    qed (simp add: q_def)
    ultimately show ?thesis using b(2) by simp
  qed
qed

theorem boundary_of_difficulty_witness:
  "FixedHash_to_arith 32 (fst (boundary (setDifficulty 2 BlockHeader_default))) = 2 ^ 255 \<and>
   FixedHash_to_arith 32 (fst (boundary (setDifficulty 1 BlockHeader_default))) = 0"
  using boundary_of_difficulty [of 2 BlockHeader_default, OF _ surjective_pairing]
    boundary_of_difficulty [of 1 BlockHeader_default, OF _ surjective_pairing] by simp

end
