(* ===== verification/Logging.thy ===== *)
theory Logging
  imports FixedHash
begin

text \<open>
  The log of \<^verbatim>\<open>libdevcore/Log.h\<close> and \<^verbatim>\<open>libdevcore/Log.cpp\<close> with the colours of \<^verbatim>\<open>libdevcore/Terminal.h\<close>: channels and their
  verbosity, the stream object that collects one entry with automatic spaces and tags, the \<open>append\<close> overloads as the
  constructors of \<open>log_value\<close>, and the output, which removes the colour codes when colours are off.  The time of day and the
  name of the thread are arguments.  The facts relate the entry printed without colours to a rendering that never produces any.
\<close>

section \<open>Terminal colours\<close>

definition csi :: "string \<Rightarrow> string" where
  "csi code = [CHR 0x1B, CHR 0x5B] @ code @ ''m''"

definition EthReset :: string where "EthReset = csi ''0''"
definition EthBlack :: string where "EthBlack = csi ''30''"
definition EthGray :: string where "EthGray = csi ''37''"
definition EthWhite :: string where "EthWhite = csi ''97''"
definition EthRed :: string where "EthRed = csi ''91''"
definition EthGreen :: string where "EthGreen = csi ''32''"
definition EthLime :: string where "EthLime = csi ''92''"
definition EthOrange :: string where "EthOrange = csi ''33''"
definition EthYellow :: string where "EthYellow = csi ''93''"
definition EthNavy :: string where "EthNavy = csi ''34''"
definition EthBlue :: string where "EthBlue = csi ''94''"
definition EthViolet :: string where "EthViolet = csi ''35''"
definition EthPurple :: string where "EthPurple = csi ''95''"
definition EthTeal :: string where "EthTeal = csi ''36''"
definition EthBlackBold :: string where "EthBlackBold = csi ''1;30''"
definition EthWhiteBold :: string where "EthWhiteBold = csi ''1;97''"
definition EthRedBold :: string where "EthRedBold = csi ''1;91''"
definition EthTealBold :: string where "EthTealBold = csi ''1;36''"
definition EthOnRed :: string where "EthOnRed = csi ''101''"
definition EthNavyUnder :: string where "EthNavyUnder = csi ''4;34''"

lemmas colour_defs = EthReset_def EthBlack_def EthGray_def EthWhite_def EthRed_def EthGreen_def EthLime_def EthOrange_def EthYellow_def
  EthNavy_def EthBlue_def EthViolet_def EthPurple_def EthTeal_def EthBlackBold_def EthWhiteBold_def EthRedBold_def
  EthTealBold_def EthOnRed_def EthNavyUnder_def

section \<open>Channels\<close>

text \<open>The members of a channel class; the names are the UTF-8 bytes of the symbols.\<close>

record channel =
  ch_class :: string
  ch_name :: string
  ch_verbosity :: int
  ch_debug :: bool

definition LogChannel :: channel where
  "LogChannel = \<lparr>ch_class = ''LogChannel'', ch_name = EthGray @ concat (replicate 3 [CHR 0xC2, CHR 0xB7]),
     ch_verbosity = 1, ch_debug = True\<rparr>"

definition LeftChannel :: channel where
  "LeftChannel = LogChannel\<lparr>ch_class := ''LeftChannel'',
     ch_name := EthNavy @ [CHR 0xE2, CHR 0x97, CHR 0x80] @ concat (replicate 2 [CHR 0xE2, CHR 0x96, CHR 0xAC])\<rparr>"

definition RightChannel :: channel where
  "RightChannel = LogChannel\<lparr>ch_class := ''RightChannel'',
     ch_name := EthGreen @ concat (replicate 2 [CHR 0xE2, CHR 0x96, CHR 0xAC]) @ [CHR 0xE2, CHR 0x96, CHR 0xB6]\<rparr>"

definition WarnChannel :: channel where
  "WarnChannel = LogChannel\<lparr>ch_class := ''WarnChannel'', ch_name := EthOnRed @ EthBlackBold @ ''  '' @ [CHR 0xE2, CHR 0x9C, CHR 0x98],
     ch_verbosity := 0, ch_debug := False\<rparr>"

definition NoteChannel :: channel where
  "NoteChannel = LogChannel\<lparr>ch_class := ''NoteChannel'', ch_name := EthBlue @ ''  '' @ [CHR 0xE2, CHR 0x84, CHR 0xB9], ch_debug := False\<rparr>"

definition DebugChannel :: channel where
  "DebugChannel = LogChannel\<lparr>ch_class := ''DebugChannel'', ch_name := EthWhite @ ''  '' @ [CHR 0xE2, CHR 0x97, CHR 0x87], ch_verbosity := 0\<rparr>"

definition MiningChannel :: channel where
  "MiningChannel = LogChannel\<lparr>ch_class := ''MiningChannel'', ch_name := EthGreen @ ''  m'', ch_verbosity := 2, ch_debug := False\<rparr>"

definition CLChannel :: channel where
  "CLChannel = LogChannel\<lparr>ch_class := ''CLChannel'', ch_name := EthOrange @ '' cl'', ch_verbosity := 2, ch_debug := False\<rparr>"

definition CLSwitchChannel :: channel where
  "CLSwitchChannel = LogChannel\<lparr>ch_class := ''CLSwitchChannel'', ch_name := EthOrange @ '' cl'', ch_verbosity := 6, ch_debug := False\<rparr>"

definition CUDAChannel :: channel where
  "CUDAChannel = LogChannel\<lparr>ch_class := ''CUDAChannel'', ch_name := EthOrange @ '' cu'', ch_verbosity := 2, ch_debug := False\<rparr>"

definition CUDASwitchChannel :: channel where
  "CUDASwitchChannel = LogChannel\<lparr>ch_class := ''CUDASwitchChannel'', ch_name := EthOrange @ '' cu'', ch_verbosity := 6, ch_debug := False\<rparr>"

lemmas channel_defs = LogChannel_def LeftChannel_def RightChannel_def WarnChannel_def NoteChannel_def DebugChannel_def MiningChannel_def
  CLChannel_def CLSwitchChannel_def CUDAChannel_def CUDASwitchChannel_def

section \<open>Values\<close>

datatype LogTag = TagNone | TagUrl | TagError | TagSpecial

text \<open>One constructor per overload of \<open>append\<close>: machine integers, the big integers, a double (by the text the stream gives
  it), hashes of any width, strings, byte vectors, the containers in their order of iteration, pairs, and everything else by
  its \<open>toString\<close>.\<close>

datatype log_value = LInt int | LBig int | LDouble string | LHash bytes | LString string | LBytes bytes
  | LVector "log_value list" | LSet "log_value list" | LMap "(log_value \<times> log_value) list" | LPair log_value log_value | LText string

definition hash_mark :: "nat \<Rightarrow> string \<times> string" where
  "hash_mark n = (if n = 20 then (EthRed, ''@'') else if n = 32 then (EthWhite, ''#'') else if n = 64 then (EthTeal, ''##'') else (EthTeal, ''#''))"

text \<open>The elements of a container with the separator the counter \<open>n\<close> selects.\<close>

fun log_elements :: "string \<Rightarrow> nat \<Rightarrow> string list \<Rightarrow> string" where
  "log_elements col n [] = []"
| "log_elements col n (x # xs) = (if n \<noteq> 0 then col @ '', '' @ EthReset else []) @ x @ log_elements col (n + 1) xs"

fun append_value :: "log_value \<Rightarrow> string" where
  "append_value (LInt i) = EthWhite @ int_text i @ EthReset"
| "append_value (LBig i) = EthNavy @ int_text i @ EthReset"
| "append_value (LDouble t) = EthBlue @ t @ EthReset"
| "append_value (LHash h) = fst (hash_mark (length h)) @ snd (hash_mark (length h)) @ hash_abridged h @ EthReset"
| "append_value (LString s) = EthGreen @ [CHR 0x22] @ s @ [CHR 0x22] @ EthReset"
| "append_value (LBytes b) = EthYellow @ ''%'' @ toHex b 2 DontAdd @ EthReset"
| "append_value (LVector vs) = EthWhite @ ''['' @ EthReset @ log_elements EthWhite 0 (map append_value vs) @ EthWhite @ '']'' @ EthReset"
| "append_value (LSet vs) = EthYellow @ ''{'' @ EthReset @ log_elements EthYellow 0 (map append_value vs) @ EthYellow @ ''}'' @ EthReset"
| "append_value (LMap kvs) = EthLime @ ''{'' @ EthReset @
     log_elements EthLime 0 (map (\<lambda>(k, v). append_value k @ EthLime @ '': '' @ EthReset @ append_value v) kvs) @ EthLime @ ''}'' @ EthReset"
| "append_value (LPair a b) = EthPurple @ ''('' @ EthReset @ append_value a @ EthPurple @ '', '' @ EthReset @ append_value b @ EthPurple @ '')'' @ EthReset"
| "append_value (LText t) = t"

section \<open>Entries\<close>

text \<open>The state the stream object and the output read: the globals \<open>g_logVerbosity\<close>, \<open>g_useColor\<close> and \<open>s_logOverride\<close> (by the
  name of the channel class), the time and thread name of the moment, and whether the program is built with \<^verbatim>\<open>NDEBUG\<close>.\<close>

record log_env =
  g_logVerbosity :: int
  g_useColor :: bool
  s_logOverride :: "string \<rightharpoonup> bool"
  time_text :: string
  thread_name :: string
  ndebug :: bool

record log_stream =
  m_sstr :: string
  m_logTag :: LogTag

definition pad_right :: "nat \<Rightarrow> string \<Rightarrow> string" where
  "pad_right w s = s @ replicate (w - length s) CHR '' ''"

definition log_prefix :: "log_env \<Rightarrow> channel \<Rightarrow> string" where
  "log_prefix env ch = ch_name ch @ ''  '' @ EthViolet @ time_text env @ EthReset @ EthBlack @ ''|'' @ EthNavy @
     pad_right 8 (thread_name env) @ EthReset @ EthBlack @ ''|'' @ EthTeal @ EthReset @ ''  ''"

definition stream_new :: "log_env \<Rightarrow> channel \<Rightarrow> log_stream" where
  "stream_new env ch =
     \<lparr>m_sstr = (if ch_verbosity ch \<le> g_logVerbosity env \<and> s_logOverride env (ch_class ch) \<noteq> Some False then log_prefix env ch else []),
      m_logTag = TagNone\<rparr>"

fun tag_colour :: "LogTag \<Rightarrow> string" where
  "tag_colour TagUrl = EthNavyUnder"
| "tag_colour TagError = EthRedBold"
| "tag_colour TagSpecial = EthWhiteBold"
| "tag_colour TagNone = []"

definition comment :: "string \<Rightarrow> log_stream \<Rightarrow> log_stream" where
  "comment t s = s\<lparr>m_sstr := m_sstr s @ tag_colour (m_logTag s) @ t @ EthReset, m_logTag := TagNone\<rparr>"

definition append_stream :: "log_value \<Rightarrow> log_stream \<Rightarrow> log_stream" where
  "append_stream v s = s\<lparr>m_sstr := m_sstr s @ append_value v\<rparr>"

definition autospace :: "bool \<Rightarrow> log_stream \<Rightarrow> log_stream" where
  "autospace auto_spacing s =
     (if auto_spacing \<and> m_sstr s \<noteq> [] \<and> last (m_sstr s) \<noteq> CHR '' '' then s\<lparr>m_sstr := m_sstr s @ '' ''\<rparr> else s)"

text \<open>The three shift operators of the stream.\<close>

datatype log_item = ItemString string | ItemTag LogTag | ItemValue log_value

fun log_put :: "log_env \<Rightarrow> channel \<Rightarrow> bool \<Rightarrow> log_item \<Rightarrow> log_stream \<Rightarrow> log_stream" where
  "log_put env ch sp (ItemString t) s = (if ch_verbosity ch \<le> g_logVerbosity env then comment t (autospace sp s) else s)"
| "log_put env ch sp (ItemTag t) s = s\<lparr>m_logTag := t\<rparr>"
| "log_put env ch sp (ItemValue v) s = (if ch_verbosity ch \<le> g_logVerbosity env then append_stream v (autospace sp s) else s)"

text \<open>The output: \<open>skip\<close> is set inside an escape sequence.\<close>

fun strip_colour :: "bool \<Rightarrow> string \<Rightarrow> string" where
  "strip_colour skip [] = []"
| "strip_colour skip (c # s) =
     (if \<not> skip \<and> c = CHR 0x1B then strip_colour True s
      else if skip \<and> c = CHR ''m'' then strip_colour False s
      else if \<not> skip then c # strip_colour skip s
      else strip_colour skip s)"

definition simpleDebugOut :: "log_env \<Rightarrow> string \<Rightarrow> string" where
  "simpleDebugOut env s = (if g_useColor env then s @ [CHR 0x0A] else strip_colour False s @ [CHR 0x0A])"

text \<open>One statement \<^verbatim>\<open>clog(X) << a << b ...\<close> (\<^verbatim>\<open>cslog\<close> without automatic spaces): what reaches the standard error stream,
  \<open>None\<close> when the destructor posts nothing or the build leaves the statement out.\<close>

definition log_entry :: "log_env \<Rightarrow> channel \<Rightarrow> bool \<Rightarrow> log_item list \<Rightarrow> string option" where
  "log_entry env ch sp items =
     (if ndebug env \<and> ch_debug ch then None
      else let s = fold (log_put env ch sp) items (stream_new env ch)
           in if ch_verbosity ch \<le> g_logVerbosity env then Some (simpleDebugOut env (m_sstr s)) else None)"

section \<open>The text without colours\<close>

text \<open>The specification: values, separators and the prefix without any escape sequence; texts that come from elsewhere are
  taken without theirs.\<close>

definition plain :: "string \<Rightarrow> string" where
  "plain t = strip_colour False t"

fun plain_elements :: "string list \<Rightarrow> string" where
  "plain_elements [] = []"
| "plain_elements [x] = x"
| "plain_elements (x # y # xs) = x @ '', '' @ plain_elements (y # xs)"

fun plain_value :: "log_value \<Rightarrow> string" where
  "plain_value (LInt i) = int_text i"
| "plain_value (LBig i) = int_text i"
| "plain_value (LDouble t) = plain t"
| "plain_value (LHash h) = snd (hash_mark (length h)) @ hash_abridged h"
| "plain_value (LString s) = [CHR 0x22] @ plain s @ [CHR 0x22]"
| "plain_value (LBytes b) = ''%'' @ toHex b 2 DontAdd"
| "plain_value (LVector vs) = ''['' @ plain_elements (map plain_value vs) @ '']''"
| "plain_value (LSet vs) = ''{'' @ plain_elements (map plain_value vs) @ ''}''"
| "plain_value (LMap kvs) = ''{'' @ plain_elements (map (\<lambda>(k, v). plain_value k @ '': '' @ plain_value v) kvs) @ ''}''"
| "plain_value (LPair a b) = ''('' @ plain_value a @ '', '' @ plain_value b @ '')''"
| "plain_value (LText t) = plain t"

text \<open>Every escape sequence of a text is finished inside it.\<close>

fun skip_after :: "bool \<Rightarrow> string \<Rightarrow> bool" where
  "skip_after skip [] = skip"
| "skip_after skip (c # s) = skip_after (if \<not> skip then c = CHR 0x1B else c \<noteq> CHR ''m'') s"

definition esc_closed :: "string \<Rightarrow> bool" where
  "esc_closed t \<longleftrightarrow> \<not> skip_after False t"

fun value_closed :: "log_value \<Rightarrow> bool" where
  "value_closed (LDouble t) = esc_closed t"
| "value_closed (LString t) = esc_closed t"
| "value_closed (LText t) = esc_closed t"
| "value_closed (LVector vs) = (\<forall>v \<in> set vs. value_closed v)"
| "value_closed (LSet vs) = (\<forall>v \<in> set vs. value_closed v)"
| "value_closed (LMap kvs) = (\<forall>(k, v) \<in> set kvs. value_closed k \<and> value_closed v)"
| "value_closed (LPair a b) = (value_closed a \<and> value_closed b)"
| "value_closed _ = True"

text \<open>An entry without colours: \<open>blank\<close> says that the text so far needs no space behind it, which is so at the start and after
  a text that ends in a space; after a coloured part the reset code is in the way, and a space is always inserted.\<close>

fun value_blank :: "bool \<Rightarrow> log_value \<Rightarrow> bool" where
  "value_blank blank (LText t) = (if t = [] then blank else last t = CHR '' '')"
| "value_blank blank _ = False"

fun plain_items :: "bool \<Rightarrow> bool \<Rightarrow> log_item list \<Rightarrow> string" where
  "plain_items sp blank [] = []"
| "plain_items sp blank (ItemTag t # is) = plain_items sp blank is"
| "plain_items sp blank (ItemString t # is) = (if sp \<and> \<not> blank then '' '' else []) @ plain t @ plain_items sp False is"
| "plain_items sp blank (ItemValue v # is) =
     (if sp \<and> \<not> blank then '' '' else []) @ plain_value v @ plain_items sp (value_blank (sp \<or> blank) v) is"

definition plain_prefix :: "log_env \<Rightarrow> channel \<Rightarrow> string" where
  "plain_prefix env ch = plain (ch_name ch) @ ''  '' @ plain (time_text env) @ ''|'' @
     plain (pad_right 8 (thread_name env)) @ ''|  ''"

fun item_closed :: "log_item \<Rightarrow> bool" where
  "item_closed (ItemString t) = esc_closed t"
| "item_closed (ItemTag t) = True"
| "item_closed (ItemValue v) = value_closed v"

section \<open>Removal of colours\<close>

lemma strip_append: "strip_colour k (s @ t) = strip_colour k s @ strip_colour (skip_after k s) t"
  by (induction k s rule: skip_after.induct) auto

lemma skip_after_append: "skip_after k (s @ t) = skip_after (skip_after k s) t"
  by (induction k s rule: skip_after.induct) auto

lemma plain_append [simp]: "esc_closed s \<Longrightarrow> plain (s @ t) = plain s @ plain t"
  by (simp add: plain_def esc_closed_def strip_append)

lemma closed_append [simp]: "esc_closed s \<Longrightarrow> esc_closed (s @ t) \<longleftrightarrow> esc_closed t"
  by (simp add: esc_closed_def skip_after_append)

lemma plain_Nil [simp]: "plain [] = []" and closed_Nil [simp]: "esc_closed []"
  by (simp_all add: plain_def esc_closed_def)

lemma plain_Cons [simp]: "c \<noteq> CHR 0x1B \<Longrightarrow> plain (c # s) = c # plain s"
  by (simp add: plain_def)

lemma esc_closed_Cons [simp]: "c \<noteq> CHR 0x1B \<Longrightarrow> esc_closed (c # s) = esc_closed s"
  by (simp add: esc_closed_def)

lemma no_escape: "CHR 0x1B \<notin> set s \<Longrightarrow> strip_colour False s = s \<and> \<not> skip_after False s"
  by (induction s) auto

lemma plain_same: "CHR 0x1B \<notin> set s \<Longrightarrow> plain s = s" and esc_closed_same: "CHR 0x1B \<notin> set s \<Longrightarrow> esc_closed s"
  by (simp_all add: plain_def esc_closed_def no_escape)

lemma plain_colour [simp]:
  "plain EthReset = []" "plain EthBlack = []" "plain EthGray = []" "plain EthWhite = []" "plain EthRed = []" "plain EthGreen = []"
  "plain EthLime = []" "plain EthOrange = []" "plain EthYellow = []" "plain EthNavy = []" "plain EthBlue = []" "plain EthViolet = []" "plain EthPurple = []"
  "plain EthTeal = []" "plain EthBlackBold = []" "plain EthWhiteBold = []" "plain EthRedBold = []" "plain EthTealBold = []"
  "plain EthOnRed = []" "plain EthNavyUnder = []"
  by (simp_all add: colour_defs csi_def plain_def)

lemma closed_colour [simp]:
  "esc_closed EthReset" "esc_closed EthBlack" "esc_closed EthGray" "esc_closed EthWhite" "esc_closed EthRed" "esc_closed EthGreen"
  "esc_closed EthLime" "esc_closed EthOrange" "esc_closed EthYellow" "esc_closed EthNavy" "esc_closed EthBlue" "esc_closed EthViolet" "esc_closed EthPurple"
  "esc_closed EthTeal" "esc_closed EthBlackBold" "esc_closed EthWhiteBold" "esc_closed EthRedBold" "esc_closed EthTealBold"
  "esc_closed EthOnRed" "esc_closed EthNavyUnder"
  by (simp_all add: colour_defs csi_def esc_closed_def)

lemma last_reset [simp]: "last (s @ EthReset) = CHR ''m''"
  by (simp add: EthReset_def csi_def)

lemma digit_no_escape: "d < 10 \<Longrightarrow> CHR 0x1B \<noteq> digit_char d"
proof
  assume d: "d < 10" "CHR 0x1B = digit_char d"
  then have "(of_char (digit_char d) :: nat) = of_char (CHR 0x1B)" by metis
  then show False using d(1) by (simp add: digit_char_def)
qed

lemma fromHex_char_escape: "fromHex_char (CHR 0x1B) = None"
  by (simp add: fromHex_char_def)

lemma hex_no_escape: "d < 16 \<Longrightarrow> CHR 0x1B \<noteq> hex_char d"
  using fromHex_char_hex_char [of d] by (metis fromHex_char_escape option.distinct(1))

lemma to_string_no_escape [simp]: "CHR 0x1B \<notin> set (to_string n)"
proof (induction n rule: to_string.induct)
  case (1 n)
  then show ?case using digit_no_escape [of n] digit_no_escape [of "n mod 10"] by (simp add: to_string.simps [of n])
qed

lemma int_text_no_escape [simp]: "CHR 0x1B \<notin> set (int_text i)"
  by (simp add: int_text_def)

lemma byte_nibbles: "unat (b :: byte) div 16 < 16" "unat b mod 16 < 16"
  using unsigned_less [of b, where ?'a = nat] by (auto intro: less_mult_imp_div_less)

lemma toHex_no_escape [simp]: "CHR 0x1B \<notin> set (toHex b 2 DontAdd)"
  by (auto simp: toHex_pairs hex_pairs_def hex_no_escape byte_nibbles)

lemma abridged_no_escape [simp]: "CHR 0x1B \<notin> set (hash_abridged h)"
  by (simp add: hash_abridged_def)

lemma hash_mark_simps [simp]:
  "plain (fst (hash_mark n)) = []" "esc_closed (fst (hash_mark n))" "CHR 0x1B \<notin> set (snd (hash_mark n))"
  by (simp_all add: hash_mark_def)

lemmas plain_texts = plain_same esc_closed_same

lemma log_elements_plain:
  assumes "\<forall>x \<in> set xs. esc_closed x" "esc_closed col" "plain col = []"
  shows "esc_closed (log_elements col n xs)"
    and "plain (log_elements col n xs) = (if n \<noteq> 0 \<and> xs \<noteq> [] then '', '' else []) @ plain_elements (map plain xs)"
proof -
  have "esc_closed (log_elements col n xs) \<and>
    plain (log_elements col n xs) = (if n \<noteq> 0 \<and> xs \<noteq> [] then '', '' else []) @ plain_elements (map plain xs)"
    using assms(1)
  proof (induction xs arbitrary: n)
    case (Cons x xs)
    then show ?case using assms(2,3) plain_texts [of "'', ''"] by (cases xs) auto
  qed simp
  then show "esc_closed (log_elements col n xs)"
    and "plain (log_elements col n xs) = (if n \<noteq> 0 \<and> xs \<noteq> [] then '', '' else []) @ plain_elements (map plain xs)" by simp_all
qed

lemma container_plain:
  assumes "\<And>v. v \<in> set vs \<Longrightarrow> esc_closed (f v) \<and> plain (f v) = g v" "esc_closed col" "plain col = []"
  shows "esc_closed (log_elements col 0 (map f vs))" "plain (log_elements col 0 (map f vs)) = plain_elements (map g vs)"
proof -
  have m: "map plain (map f vs) = map g vs" "\<forall>x \<in> set (map f vs). esc_closed x" using assms(1) by simp_all
  show "esc_closed (log_elements col 0 (map f vs))" "plain (log_elements col 0 (map f vs)) = plain_elements (map g vs)"
    using log_elements_plain [OF m(2) assms(2,3), of 0] unfolding m(1) by simp_all
qed

lemma append_value_plain:
  "value_closed v \<Longrightarrow> esc_closed (append_value v) \<and> plain (append_value v) = plain_value v"
proof (induction v rule: append_value.induct)
  case (7 vs)
  then show ?case by (simp add: container_plain [where g = plain_value])
next
  case (8 vs)
  then show ?case by (simp add: container_plain [where g = plain_value])
next
  case (9 kvs)
  define f where "f = (\<lambda>(k, v). append_value k @ EthLime @ '': '' @ EthReset @ append_value v)"
  define g where "g = (\<lambda>(k, v). plain_value k @ '': '' @ plain_value v)"
  have "esc_closed (f (k, v)) \<and> plain (f (k, v)) = g (k, v)" if kv: "(k, v) \<in> set kvs" for k v
    using "9.IH"(1) [OF kv refl] "9.IH"(2) [OF kv refl] "9.prems" kv by (auto simp: f_def g_def)
  then have "esc_closed (f p) \<and> plain (f p) = g p" if "p \<in> set kvs" for p using that by (cases p) blast
  then show ?case unfolding append_value.simps plain_value.simps f_def [symmetric] g_def [symmetric] by (simp add: container_plain [where g = g])
qed (simp_all add: plain_texts)

section \<open>Entries without colours\<close>

definition ends_blank :: "string \<Rightarrow> bool" where
  "ends_blank s \<longleftrightarrow> s = [] \<or> last s = CHR '' ''"

lemma m_last_reset [simp]: "last EthReset = CHR ''m''" "EthReset \<noteq> []"
  by (simp_all add: EthReset_def csi_def)

lemma value_ends: "ends_blank (s @ append_value v) = value_blank (ends_blank s) v"
  by (cases v) (auto simp: ends_blank_def last_append)

lemma tag_colour_simps [simp]: "plain (tag_colour t) = []" "esc_closed (tag_colour t)"
  by (cases t; simp)+

lemma autospace_simps [simp]:
  "m_logTag (autospace sp s) = m_logTag s"
  "esc_closed (m_sstr s) \<Longrightarrow> esc_closed (m_sstr (autospace sp s))"
  "esc_closed (m_sstr s) \<Longrightarrow> plain (m_sstr (autospace sp s)) = plain (m_sstr s) @ (if sp \<and> \<not> ends_blank (m_sstr s) then '' '' else [])"
  "ends_blank (m_sstr (autospace sp s)) \<longleftrightarrow> sp \<or> ends_blank (m_sstr s)"
  by (auto simp: autospace_def ends_blank_def)

lemma comment_ends [simp]: "\<not> ends_blank (a @ b @ c @ EthReset)"
  by (simp add: ends_blank_def)

lemma put_all:
  assumes "ch_verbosity ch \<le> g_logVerbosity env" "\<forall>i \<in> set items. item_closed i" "esc_closed (m_sstr s)"
  shows "plain (m_sstr (fold (log_put env ch sp) items s)) = plain (m_sstr s) @ plain_items sp (ends_blank (m_sstr s)) items"
  using assms(2,3)
proof (induction items arbitrary: s)
  case (Cons i items)
  have c: "esc_closed (m_sstr (log_put env ch sp i s))"
    using assms(1) Cons.prems append_value_plain by (cases i) (auto simp: comment_def append_stream_def)
  show ?case
    using assms(1) Cons.prems Cons.IH [OF _ c] append_value_plain
    by (cases i) (auto simp: comment_def append_stream_def value_ends)
qed simp

lemma pad_right_simps [simp]: "esc_closed t \<Longrightarrow> esc_closed (pad_right w t)" "esc_closed t \<Longrightarrow> plain (pad_right w t) = plain t @ replicate (w - length t) CHR '' ''"
  by (auto simp: pad_right_def intro: plain_texts)

lemma log_prefix_simps:
  assumes "esc_closed (ch_name ch)" "esc_closed (time_text env)" "esc_closed (thread_name env)"
  shows "esc_closed (log_prefix env ch)" "plain (log_prefix env ch) = plain_prefix env ch" "ends_blank (log_prefix env ch)"
  using assms by (auto simp: log_prefix_def plain_prefix_def ends_blank_def)

lemma strip_no_escape: "CHR 0x1B \<notin> set (strip_colour k s)"
  by (induction k s rule: strip_colour.induct) auto

lemma channel_names_closed: "\<forall>ch \<in> {LogChannel, LeftChannel, RightChannel, WarnChannel, NoteChannel, DebugChannel, MiningChannel,
    CLChannel, CLSwitchChannel, CUDAChannel, CUDASwitchChannel}. esc_closed (ch_name ch)"
  by (simp add: channel_defs numeral_3_eq_3 numeral_2_eq_2)

section \<open>Properties\<close>

text \<open>
  Without colours an entry is the prefix and its items in the plain rendering, which never writes an escape character, with one
  space where the text so far does not end in one; every text the program puts in has to finish the escape sequences it starts.
\<close>

theorem uncoloured_entry:
  assumes "\<not> g_useColor env" "ch_verbosity ch \<le> g_logVerbosity env" "\<not> (ndebug env \<and> ch_debug ch)"
    and "esc_closed (ch_name ch)" "esc_closed (time_text env)" "esc_closed (thread_name env)" "\<forall>i \<in> set items. item_closed i"
  shows "\<exists>text. log_entry env ch sp items = Some (text @ [CHR 0x0A]) \<and> CHR 0x1B \<notin> set text \<and>
    text = (if s_logOverride env (ch_class ch) = Some False then [] else plain_prefix env ch) @ plain_items sp True items"
proof -
  define s where "s = stream_new env ch"
  have s: "esc_closed (m_sstr s)" "plain (m_sstr s) = (if s_logOverride env (ch_class ch) = Some False then [] else plain_prefix env ch)" "ends_blank (m_sstr s)"
    using assms(2,4-6) by (auto simp: s_def stream_new_def log_prefix_simps ends_blank_def [of "[]"])
  define out where "out = plain (m_sstr (fold (log_put env ch sp) items s))"
  have "log_entry env ch sp items = Some (out @ [CHR 0x0A])"
    using assms(1-3) by (auto simp: log_entry_def simpleDebugOut_def plain_def s_def out_def Let_def)
  moreover have "CHR 0x1B \<notin> set out" unfolding out_def plain_def by (rule strip_no_escape)
  moreover have "out = plain (m_sstr s) @ plain_items sp True items"
    unfolding out_def using put_all [OF assms(2,7) s(1), of sp] s(3) by simp
  ultimately show ?thesis unfolding s(2) by blast
qed

definition quiet_env :: log_env where
  "quiet_env = \<lparr>g_logVerbosity = 5, g_useColor = False, s_logOverride = Map.empty, time_text = ''12:00:00'', thread_name = ''main'', ndebug = True\<rparr>"

lemma quiet_numbers: "int_text 1 = ''1''" "int_text 2 = ''2''"
  by code_simp+

theorem uncoloured_entry_witness:
  "\<exists>text. log_entry quiet_env NoteChannel True [ItemString ''Epoch'', ItemValue (LVector [LInt 1, LInt 2])] = Some (text @ [CHR 0x0A]) \<and>
     CHR 0x1B \<notin> set text \<and> text = plain_prefix quiet_env NoteChannel @ ''Epoch [1, 2]''"
  using uncoloured_entry [of quiet_env NoteChannel "[ItemString ''Epoch'', ItemValue (LVector [LInt 1, LInt 2])]" True]
    channel_names_closed plain_texts
  by (simp add: quiet_env_def NoteChannel_def LogChannel_def quiet_numbers)

text \<open>
  An override of \<open>False\<close> does not disable a channel: the entry is still posted and only loses its prefix.
\<close>

theorem override_keeps_entry:
  assumes "s_logOverride env (ch_class ch) = Some False" "ch_verbosity ch \<le> g_logVerbosity env" "\<not> (ndebug env \<and> ch_debug ch)"
  shows "log_entry env ch True [ItemString t] = Some (simpleDebugOut env (t @ EthReset))"
  using assms by (auto simp: log_entry_def stream_new_def autospace_def comment_def)

text \<open>
  An override of \<open>True\<close> does not enable a channel above the verbosity.
\<close>

theorem override_enables_nothing:
  assumes "g_logVerbosity env < ch_verbosity ch"
  shows "log_entry env ch sp items = None"
  using assms by (auto simp: log_entry_def Let_def)

text \<open>
  Started with the default verbosity, the program never prints what it logs on the switch channels of the miners.
\<close>

definition g_logVerbosity_default :: int where
  "g_logVerbosity_default = 5"

theorem switch_channels_silent:
  assumes "g_logVerbosity env = g_logVerbosity_default" "ch \<in> {CLSwitchChannel, CUDASwitchChannel}"
  shows "log_entry env ch sp items = None"
  by (rule override_enables_nothing) (use assms in \<open>auto simp: channel_defs g_logVerbosity_default_def\<close>)

text \<open>
  A text that leaves an escape sequence open swallows what follows it, up to the next \<open>m\<close>.
\<close>

theorem open_escape_swallows:
  assumes "\<not> esc_closed t" "CHR ''m'' \<notin> set u"
  shows "plain (t @ u) = plain t"
proof -
  have "strip_colour True u = []" using assms(2) by (induction u) auto
  then show ?thesis using assms(1) by (simp add: plain_def esc_closed_def strip_append)
qed

end
