(* ===== verification/Frontend.thy ===== *)
theory Frontend
  imports Cli BlockHeader Logging
begin

text \<open>
  What \<^verbatim>\<open>ethminer/MinerAux.h\<close> does once the miner runs: the statistics line of \<open>doMiner\<close>'s loop with the stream operators of
  \<^verbatim>\<open>libethcore/Miner.h\<close> (single-precision arithmetic and fixed-point output included), the loop itself with the signal handler,
  and the benchmark of \<open>doBenchmark\<close> with its trials.  What other threads do while the front end sleeps is an argument,
  constrained in the facts to the steps of miners and of the hash-rate timer.
\<close>

section \<open>Numbers as text\<close>

text \<open>Floating-point numbers that are not negative are kept as multiples of \<open>2^-64\<close>: \<open>to_float p n d\<close> is \<open>n / d\<close> rounded to \<open>p\<close>
  significant bits, to even in the middle.  Every \<open>float\<close> (24 bits) the program forms is zero or at least \<open>10^-6\<close> and every
  \<open>double\<close> (53 bits) is zero or at least one, so that the representation has room for all their bits.\<close>

definition round_even :: "nat \<Rightarrow> nat \<Rightarrow> nat" where
  "round_even a b = (let q = a div b; r = a mod b in if 2 * r < b \<or> (2 * r = b \<and> even q) then q else q + 1)"

fun log2 :: "nat \<Rightarrow> nat" where
  "log2 n = (if n < 2 then 0 else 1 + log2 (n div 2))"

declare log2.simps [simp del]

definition to_float :: "nat \<Rightarrow> nat \<Rightarrow> nat \<Rightarrow> nat" where
  "to_float p n d = (let u = 2 ^ (log2 (n * 2 ^ 64 div d) - (p - 1)) in round_even (n * 2 ^ 64) (d * u) * u)"

text \<open>\<^verbatim>\<open>rate / 1000000.0f\<close>: the conversion to \<open>float\<close> and the division.\<close>

definition mega :: "u64 \<Rightarrow> nat" where
  "mega r = to_float 24 (to_float 24 (unat r) 1) (2 ^ 64 * 1000000)"

text \<open>\<^verbatim>\<open>std::fixed << std::setprecision(k)\<close>.\<close>

definition fixed_dec :: "nat \<Rightarrow> nat \<Rightarrow> string" where
  "fixed_dec k x = (let c = round_even (x * 10 ^ k) (2 ^ 64) in to_string (c div 10 ^ k) @ ''.'' @ setw0 k (to_string (c mod 10 ^ k)))"

definition pad_left :: "nat \<Rightarrow> string \<Rightarrow> string" where
  "pad_left w s = replicate (w - length s) CHR '' '' @ s"

text \<open>The stream operators.  \<^verbatim>\<open>powerW / 1000.0\<close> is printed with no decimals: the double nearest to a multiple of a thousandth is
  on the same side of the middle between two integers, or in the middle itself.\<close>

definition show_hw :: "HwMonitor \<Rightarrow> string" where
  "show_hw hw =
     (let power = (if powerMW hw \<noteq> 0 then to_string (round_even (unat (powerMW hw)) 1000) @ ''W'' else [])
      in int_text (sint (tempC hw)) @ ''C '' @ int_text (sint (fanP hw)) @ ''% '' @ power)"

definition show_gpu :: "WorkingProgress \<Rightarrow> nat \<Rightarrow> string" where
  "show_gpu p i =
     ''gpu/'' @ to_string i @ '' '' @ EthTeal @ pad_left 5 (fixed_dec 2 (mega (minerRate p (minersHashes p ! i)))) @ EthReset @
     (if length (minerMonitors p) = length (minersHashes p) then '' '' @ EthTeal @ show_hw (minerMonitors p ! i) @ EthReset else []) @ ''  ''"

definition show_progress :: "WorkingProgress \<Rightarrow> string" where
  "show_progress p =
     ''Speed '' @ EthTealBold @ pad_left 6 (fixed_dec 2 (mega (rate p))) @ EthReset @ '' Mh/s    '' @
     concat (map (show_gpu p) [0..<length (minersHashes p)])"

text \<open>The difficulty a pool sets (\<^verbatim>\<open>libpoolprotocols/PoolManager.cpp\<close>).  The conversion of the integer library to \<open>double\<close> is the
  parameter \<open>to_double\<close>, in multiples of \<open>2^-64\<close>.\<close>

definition diff_units :: "string list" where
  "diff_units = [''hashes'', ''kilohashes'', ''megahashes'', ''gigahashes'', ''terahashes'', ''petahashes'']"

function diff_loop :: "nat \<Rightarrow> nat \<Rightarrow> nat \<times> nat" where
  "diff_loop diff i =
     (if 1000 * 2 ^ 64 < diff \<and> i < length diff_units - 2 then diff_loop (to_float 53 diff (2 ^ 64 * 1000)) (i + 1) else (diff, i))"
  by auto
termination
  by (relation "measure (\<lambda>(diff, i). length diff_units - i)") auto

declare diff_loop.simps [simp del]

definition diffToDisplay :: "nat \<Rightarrow> string" where
  "diffToDisplay diff = (let (d, i) = diff_loop diff 0 in fixed_dec 4 d @ '' '' @ diff_units ! i)"

text \<open>The items of the entry for a new difficulty; a zero boundary makes the division throw before.\<close>

definition difficulty_items :: "(nat \<Rightarrow> nat) \<Rightarrow> h256 \<Rightarrow> log_item list" where
  "difficulty_items to_double b =
     [ItemValue (LText ''New pool difficulty:''), ItemValue (LText EthWhite),
      ItemString (diffToDisplay (to_double (2 ^ 256 div FixedHash_to_arith 32 b))), ItemValue (LText EthReset)]"

section \<open>Facts on numbers\<close>

lemma round_even_error:
  assumes "0 < b"
  shows "2 * \<bar>int b * int (round_even a b) - int a\<bar> \<le> int b"
proof -
  define q r where "q = int (a div b)" and "r = int (a mod b)"
  have a: "int a = int b * q + r" "0 \<le> r" "r < int b"
    using assms by (simp_all add: q_def r_def flip: of_nat_mult of_nat_add)
  have "int (round_even a b) = (if 2 * r < int b \<or> (2 * r = int b \<and> even (a div b)) then q else q + 1)"
    by (auto simp: round_even_def q_def r_def Let_def)
  then show ?thesis using a by (auto simp: algebra_simps)
qed

lemma log2_le: "0 < n \<Longrightarrow> 2 ^ log2 n \<le> n"
proof (induction n rule: log2.induct)
  case (1 n)
  then show ?case by (cases "n < 2") (simp_all add: log2.simps [of n])
qed

lemma log2_less: "n < 2 ^ (log2 n + 1)"
proof (induction n rule: log2.induct)
  case (1 n)
  then show ?case by (cases "n < 2") (simp_all add: log2.simps [of n])
qed

lemma to_float_error:
  assumes "2 ^ q \<le> n * 2 ^ 64 div d" "0 < d"
  shows "2 ^ Suc q * \<bar>int d * int (to_float (Suc q) n d) - int n * 2 ^ 64\<bar> \<le> int n * 2 ^ 64"
proof -
  define m u :: nat where "m = n * 2 ^ 64 div d" and "u = 2 ^ (log2 m - q)"
  have "(2 :: nat) ^ q < 2 ^ (log2 m + 1)" using assms(1) log2_less [of m] unfolding m_def by linarith
  then have "q \<le> log2 m" by (simp only: power_strict_increasing_iff)
  then have "u * 2 ^ q = 2 ^ log2 m" by (simp only: u_def power_add [symmetric] le_add_diff_inverse2)
  moreover have "0 < m" using less_le_trans [OF _ assms(1), of 0] by (simp add: m_def)
  ultimately have "u * 2 ^ q \<le> m" using log2_le [of m] by simp
  then have "u * 2 ^ q * d \<le> m * d" by (rule mult_le_mono1)
  also have "m * d \<le> n * 2 ^ 64" unfolding m_def by (rule div_times_less_eq_dividend)
  finally have "int (u * 2 ^ q * d) \<le> int (n * 2 ^ 64)" by (simp only: of_nat_le_iff)
  then have u: "int d * int u * 2 ^ q \<le> int n * 2 ^ 64" by (simp add: mult_ac)
  have "2 * \<bar>int (d * u) * int (round_even (n * 2 ^ 64) (d * u)) - int (n * 2 ^ 64)\<bar> \<le> int (d * u)"
    by (rule round_even_error) (use assms(2) in \<open>simp add: u_def\<close>)
  moreover have "to_float (Suc q) n d = round_even (n * 2 ^ 64) (d * u) * u" by (simp add: to_float_def Let_def u_def m_def)
  ultimately have "2 * \<bar>int d * int (to_float (Suc q) n d) - int n * 2 ^ 64\<bar> \<le> int d * int u" by (simp add: mult_ac)
  moreover have "2 ^ Suc q * x \<le> y" if "2 * x \<le> z" "z * 2 ^ q \<le> y" for x y z :: int
    using order_trans [OF mult_right_mono [OF that(1), of "2 ^ q"] that(2)] by (simp add: mult_ac)
  ultimately show ?thesis using u by blast
qed

lemma to_float_zero [simp]: "to_float p 0 d = 0"
  by (auto simp: to_float_def round_even_def)

definition hundredths :: "u64 \<Rightarrow> nat" where
  "hundredths r = round_even (mega r * 100) (2 ^ 64)"

lemma hundredths_error:
  assumes "unat r < 2 ^ 35"
  shows "\<bar>int (hundredths r) * 10000 - int (unat r)\<bar> < 10000"
proof (cases "unat r = 0")
  case True
  then show ?thesis by (simp add: hundredths_def mega_def round_even_def)
next
  case False
  define R F N C where "R = int (unat r)" and "F = int (to_float 24 (unat r) 1)" and "N = int (mega r)" and "C = int (hundredths r)"
  have R: "1 \<le> R" "R < 2 ^ 35" using False assms of_nat_less_iff [of "unat r" "2 ^ 35", where ?'a = int] unfolding R_def by (linarith, simp only: of_nat_power of_nat_numeral)
  have 1: "2 ^ 24 * \<bar>F - R * 2 ^ 64\<bar> \<le> R * 2 ^ 64"
    using to_float_error [of 23 "unat r" 1] False by (simp add: F_def R_def)
  then have F: "2 ^ 63 \<le> F" using R(1) by (simp add: abs_le_iff)
  then have "2 ^ 23 \<le> to_float 24 (unat r) 1 * 2 ^ 64 div (2 ^ 64 * 1000000)"
    by (simp add: F_def div_mult2_eq)
  from to_float_error [OF this] have e: "2 ^ 24 * \<bar>int (2 ^ 64 * 1000000) * N - F * 2 ^ 64\<bar> \<le> F * 2 ^ 64"
    unfolding N_def F_def mega_def by simp
  have x: "int (2 ^ 64 * 1000000) * N - F * 2 ^ 64 = 2 ^ 64 * (1000000 * N - F)" by simp
  from e have 2: "2 ^ 24 * \<bar>1000000 * N - F\<bar> \<le> F" unfolding x abs_mult by simp
  have 3: "2 * \<bar>2 ^ 64 * C - 100 * N\<bar> \<le> 2 ^ 64"
    using round_even_error [of "2 ^ 64" "mega r * 100"] by (simp add: C_def hundredths_def N_def)
  have a: "\<bar>F - R * 2 ^ 64\<bar> \<le> 2 ^ 75" using 1 R(2) by simp
  then have "F \<le> 2 ^ 99 + 2 ^ 75" using R(2) by (simp add: abs_le_iff)
  then have b: "\<bar>1000000 * N - F\<bar> \<le> 2 ^ 75 + 2 ^ 51" using 2 by simp
  have c: "\<bar>2 ^ 64 * C - 100 * N\<bar> \<le> 2 ^ 63" using 3 by simp
  show ?thesis using a b c unfolding C_def [symmetric] R_def [symmetric] by (simp add: abs_le_iff abs_less_iff)
qed

lemma fixed_dec_hundredths: "fixed_dec 2 (mega r) = to_string (hundredths r div 100) @ ''.'' @ setw0 2 (to_string (hundredths r mod 100))"
  by (simp add: fixed_dec_def hundredths_def Let_def)

lemma diff_loop_range: "i \<le> 4 \<Longrightarrow> diff_loop diff i = (d, j) \<Longrightarrow> i \<le> j \<and> j \<le> 4 \<and> (j < 4 \<longrightarrow> d \<le> 1000 * 2 ^ 64)"
proof (induction diff i rule: diff_loop.induct)
  case (1 diff i)
  show ?case
  proof (cases "1000 * 2 ^ 64 < diff \<and> i < length diff_units - 2")
    case True
    then have "diff_loop (to_float 53 diff (2 ^ 64 * 1000)) (i + 1) = (d, j)" "i + 1 \<le> 4"
      using 1(3) by (simp_all only: diff_loop.simps [of diff i]) (simp_all add: diff_units_def)
    from 1(1) [OF True this(2,1)] show ?thesis by simp
  next
    case False
    then have "diff = d" "i = j" using 1(3) by (simp_all only: diff_loop.simps [of diff i] if_False prod.inject)
    then show ?thesis using False 1(2) by (auto simp: diff_units_def)
  qed
qed

section \<open>The statistics line\<close>

definition not_connected :: string where
  "not_connected = ''not-connected''"

text \<open>One round of the loop of \<open>doMiner\<close> and the items it hands to the log; \<open>connected\<close> is what the client answers.\<close>

definition display_round :: "hw_handle option \<times> hw_handle option \<times> hw_handle option \<Rightarrow> cli \<Rightarrow> bool \<Rightarrow> nat \<Rightarrow> manager \<Rightarrow> manager \<times> log_item list" where
  "display_round hw c connected now m =
     (if connected then
        let (nv, adl, sysfs) = hw;
            (mp, f) = miningProgress nv adl sysfs (m_show_hwmonitors c) (m_show_power c) (m_farm m)
        in (m\<lparr>m_farm := f\<rparr>,
            [ItemValue (LText (show_progress mp)), ItemValue (LText (show_stats (m_solutionStats f))), ItemString (farmLaunchedFormatted now f)])
      else (m, [ItemValue (LText not_connected)]))"

text \<open>The loop over the moments at which its condition is tested: the flag \<open>g_running\<close>, the answer of the client, the time,
  and what the other threads do to the manager during the following sleep.  The value is the manager, the entries, the
  commands of the final stop, and whether the loop has ended.\<close>

record moment =
  mo_running :: bool
  mo_connected :: bool
  mo_now :: nat
  mo_sleep :: "manager \<Rightarrow> manager"

definition signalHandler :: "moment \<Rightarrow> moment" where
  "signalHandler mo = mo\<lparr>mo_running := False\<rparr>"

fun display_loop :: "hw_handle option \<times> hw_handle option \<times> hw_handle option \<Rightarrow> cli \<Rightarrow> moment list \<Rightarrow> manager \<Rightarrow>
    manager \<times> log_item list list \<times> client_cmd list \<times> bool" where
  "display_loop hw c [] m = (m, [], [], False)"
| "display_loop hw c (mo # mos) m =
     (if mo_running mo \<and> m_running m then
        let (m1, entry) = display_round hw c (mo_connected mo) (mo_now mo) m;
            (m2, entries, cmds, done) = display_loop hw c mos (mo_sleep mo m1)
        in (m2, entry # entries, cmds, done)
      else let (m1, cmds) = PoolManager_stop (mo_connected mo) m in (m1, [], cmds, True))"

lemma blanks_plain [simp]: "CHR 0x1B \<notin> set s \<Longrightarrow> CHR 0x1B \<notin> set (pad_left w s)"
  by (simp add: pad_left_def)

lemma fixed_dec_plain [simp]: "CHR 0x1B \<notin> set (fixed_dec k x)"
  by (simp add: fixed_dec_def Let_def setw0_def)

lemma show_hw_plain [simp]: "CHR 0x1B \<notin> set (show_hw h)"
  by (simp add: show_hw_def Let_def)

text \<open>The text of one device without colours.\<close>

definition gpu_text :: "WorkingProgress \<Rightarrow> nat \<Rightarrow> string" where
  "gpu_text p i = ''gpu/'' @ to_string i @ '' '' @ pad_left 5 (fixed_dec 2 (mega (minerRate p (minersHashes p ! i)))) @
     (if length (minerMonitors p) = length (minersHashes p) then '' '' @ show_hw (minerMonitors p ! i) else []) @ ''  ''"

lemma show_gpu_plain: "esc_closed (show_gpu p i)" "plain (show_gpu p i) = gpu_text p i"
  by (simp_all add: show_gpu_def gpu_text_def plain_texts)

lemma concat_plain:
  "(\<And>x. x \<in> set xs \<Longrightarrow> esc_closed (f x)) \<Longrightarrow> esc_closed (concat (map f xs)) \<and> plain (concat (map f xs)) = concat (map (plain \<circ> f) xs)"
  by (induction xs) auto

lemma show_progress_plain:
  "esc_closed (show_progress p)"
  "plain (show_progress p) = ''Speed '' @ pad_left 6 (fixed_dec 2 (mega (rate p))) @ '' Mh/s    '' @ concat (map (gpu_text p) [0..<length (minersHashes p)])"
proof -
  have "plain \<circ> show_gpu p = gpu_text p" by (auto simp: show_gpu_plain)
  then show "esc_closed (show_progress p)"
    "plain (show_progress p) = ''Speed '' @ pad_left 6 (fixed_dec 2 (mega (rate p))) @ '' Mh/s    '' @ concat (map (gpu_text p) [0..<length (minersHashes p)])"
    using concat_plain [of "[0..<length (minersHashes p)]" "show_gpu p"] show_gpu_plain(1)
    by (simp_all add: show_progress_def plain_texts)
qed

lemma show_stats_plain [simp]: "CHR 0x1B \<notin> set (show_stats s)" "CHR 0x1B \<notin> set (farmLaunchedFormatted now f)"
  by (simp_all add: show_stats_def farmLaunchedFormatted_def pad0_def Let_def)

lemma show_progress_ends: "show_progress p \<noteq> []" "last (show_progress p) = CHR '' ''"
proof -
  have "xs = [] \<or> last (concat (map (show_gpu p) xs)) = CHR '' '' \<and> concat (map (show_gpu p) xs) \<noteq> []" for xs
    by (induction xs) (auto simp: show_gpu_def last_append)
  from this [of "[0..<length (minersHashes p)]"] show "show_progress p \<noteq> []" "last (show_progress p) = CHR '' ''"
    by (auto simp: show_progress_def last_append)
qed

lemma show_stats_ends: "show_stats s \<noteq> []" "last (show_stats s) = CHR '']''"
  by (simp_all add: show_stats_def)

lemma display_round_connected:
  "display_round hw c True now m = (m', items) \<Longrightarrow>
     m' = m\<lparr>m_farm := (m_farm m)\<lparr>m_progress := m_progress (m_farm m')\<rparr>\<rparr> \<and>
     items = [ItemValue (LText (show_progress (m_progress (m_farm m')))), ItemValue (LText (show_stats (m_solutionStats (m_farm m)))),
       ItemString (farmLaunchedFormatted now (m_farm m))]"
  by (auto simp: display_round_def miningProgress_def farmLaunchedFormatted_def Let_def split: prod.splits)

section \<open>Benchmark\<close>

text \<open>The two sealers, present when their support is compiled in, with the number of instances they report.\<close>

definition bench_sealers :: "nat option \<Rightarrow> nat option \<Rightarrow> string \<rightharpoonup> nat" where
  "bench_sealers opencl cuda = (\<lambda>s. if s = ''opencl'' then opencl else if s = ''cuda'' then cuda else None)"

text \<open>What the benchmark gets from outside: the time at which a trial sets its work, what the miners and the timer do to the farm
  during the pause (of so many seconds) of a trial, and the random engine.\<close>

record 'g bench_env =
  be_now :: "u32 \<Rightarrow> nat"
  be_pause :: "u32 \<Rightarrow> u32 \<Rightarrow> farm \<Rightarrow> farm"
  be_draw :: "'g \<Rightarrow> u16 \<times> 'g"

record 'g bench_state =
  bs_genesis :: BlockHeader
  bs_current :: WorkPackage
  bs_farm :: farm
  bs_engine :: 'g
  bs_results :: "u64 list"

definition bench_round :: "'g bench_env \<Rightarrow> u32 \<Rightarrow> u32 \<Rightarrow> u32 \<Rightarrow> 'g bench_state \<Rightarrow> 'g bench_state" where
  "bench_round env warmup trial i s =
     (let (header, engine) = hash_random (be_draw env) 32 (bs_engine s);
          (b, genesis) = boundary (bs_genesis s);
          current = (bs_current s)\<lparr>wp_header := header, wp_boundary := b\<rparr>;
          f1 = setWork current (be_now env i) (bs_farm s);
          f2 = be_pause env i (if i \<noteq> 0 then trial else warmup) f1;
          (mp, f3) = miningProgress None None None False False f2
      in s\<lparr>bs_genesis := genesis, bs_current := current, bs_farm := f3, bs_engine := engine,
           bs_results := (if i \<noteq> 0 then bs_results s @ [rate mp] else bs_results s)\<rparr>)"

text \<open>\<^verbatim>\<open>for (unsigned i = 0; i <= _trials; ++i)\<close>; the counter wraps.\<close>

partial_function (option) bench_trials :: "'g bench_env \<Rightarrow> u32 \<Rightarrow> u32 \<Rightarrow> u32 \<Rightarrow> u32 \<Rightarrow> 'g bench_state \<Rightarrow> 'g bench_state option" where
  "bench_trials env warmup trial trials i s =
     (if i \<le> trials then bench_trials env warmup trial trials (i + 1) (bench_round env warmup trial i s) else Some s)"

definition bench_genesis :: "u32 \<Rightarrow> BlockHeader" where
  "bench_genesis block = setDifficulty (2 ^ 64) (setNumber (unat block) BlockHeader_default)"

text \<open>The farm with its miners; \<open>None\<close> when \<open>start\<close> does not return.\<close>

definition bench_start :: "MinerType \<Rightarrow> farm \<Rightarrow> farm option" where
  "bench_start t f =
     (let go = (\<lambda>sealer. case start sealer False f of (StartReturned b, g) \<Rightarrow> Some g | (StartBlocks, g) \<Rightarrow> None)
      in if t = CL then go ''opencl'' else if t = CUDA then go ''cuda'' else Some f)"

text \<open>The whole benchmark: \<open>None\<close> when it does not end; otherwise the rates in the order of the trials and the summary.\<close>

definition doBenchmark :: "(nat \<Rightarrow> int) \<Rightarrow> 'g bench_env \<Rightarrow> (string \<rightharpoonup> nat) \<Rightarrow> MinerType \<Rightarrow> u32 \<Rightarrow> u32 \<Rightarrow> u32 \<Rightarrow> u32 \<Rightarrow> u64 \<Rightarrow> nat \<Rightarrow> 'g \<Rightarrow>
    (rlp_error + 'g bench_state \<times> (u64 \<times> u64 \<times> u64 \<times> u64 option) option) option" where
  "doBenchmark to_int env sealers t warmup trial trials block scrambler launched g =
     (let genesis = bench_genesis block in
      case bench_start t (setSealers sealers (farm_new scrambler launched)) of
        None \<Rightarrow> None
      | Some f1 \<Rightarrow>
          (case WorkPackage_of_header to_int genesis of
             Inl e \<Rightarrow> Some (Inl e)
           | Inr current \<Rightarrow>
               map_option (\<lambda>s. Inr (s, bench_summary (bs_results s)))
                 (bench_trials env warmup trial trials 0
                    \<lparr>bs_genesis = genesis, bs_current = current, bs_farm = f1, bs_engine = g, bs_results = []\<rparr>)))"

section \<open>The trials\<close>

definition bench_rounds :: "'g bench_env \<Rightarrow> u32 \<Rightarrow> u32 \<Rightarrow> nat list \<Rightarrow> 'g bench_state \<Rightarrow> 'g bench_state" where
  "bench_rounds env warmup trial is s = fold (\<lambda>i. bench_round env warmup trial (of_nat i)) is s"

lemma bench_trials_rounds:
  assumes "trials \<noteq> - 1"
  shows "i \<le> trials \<Longrightarrow> bench_trials env warmup trial trials i s = Some (bench_rounds env warmup trial [unat i..<Suc (unat trials)] s)"
proof (induction "unat trials - unat i" arbitrary: i s)
  case 0
  then have "i = trials" by (simp add: word_le_nat_alt word_unat_eq_iff)
  moreover have "\<not> trials + 1 \<le> trials" using assms by (simp add: inc_less_eq_self_iff_eq)
  ultimately show ?case
    by (simp add: bench_trials.simps [of _ _ _ trials trials] bench_trials.simps [of _ _ _ trials "trials + 1"] bench_rounds_def)
next
  case (Suc k)
  then have less: "i < trials" by (simp add: word_less_nat_alt)
  then have "1 + i \<noteq> 0" using less by (auto simp: add_eq_0_iff)
  then have u: "unat (i + 1) = Suc (unat i)" "i + 1 \<le> trials"
    using unatSuc [of i] inc_le [OF less] by (simp_all add: add.commute)
  show ?case
    using Suc.hyps(1) [of "i + 1"] Suc.hyps(2) Suc.prems u
    by (simp add: bench_trials.simps [of _ _ _ trials i] bench_rounds_def upt_conv_Cons [of "unat i"])
qed

lemma bench_trials_endless: "bench_trials env warmup trial (- 1) i s = None"
proof -
  have "trials \<noteq> - 1" if "bench_trials env warmup trial trials i s = Some r" for trials r
    by (rule bench_trials.raw_induct [where P = "\<lambda>env warmup trial trials i s r. trials \<noteq> - 1", OF _ that]) (auto split: if_splits)
  then show ?thesis by (cases "bench_trials env warmup trial (- 1) i s") auto
qed

lemma bench_rounds_append: "bench_rounds env warmup trial (is @ js) s = bench_rounds env warmup trial js (bench_rounds env warmup trial is s)"
  by (simp add: bench_rounds_def)

lemma bench_round_results:
  "length (bs_results (bench_round env warmup trial i s)) = length (bs_results s) + (if i = 0 then 0 else 1)"
  by (auto simp: bench_round_def Let_def split: prod.splits)

lemma bench_rounds_results:
  "n < 2 ^ 32 \<Longrightarrow> length (bs_results (bench_rounds env warmup trial [0..<Suc n] s)) = length (bs_results s) + n"
proof (induction n)
  case 0
  then show ?case by (simp add: bench_rounds_def bench_round_results)
next
  case (Suc n)
  have "unat (of_nat (Suc n) :: u32) = Suc n" using Suc.prems by (simp add: unsigned_of_nat take_bit_nat_eq_self del: of_nat_Suc)
  then have "(of_nat (Suc n) :: u32) \<noteq> 0" by (metis nat.distinct(1) unat_0)
  then show ?case using Suc unfolding upt_Suc_append [OF le0, of "Suc n"] bench_rounds_append
    by (simp add: bench_rounds_def bench_round_results del: of_nat_Suc upt_Suc)
qed

text \<open>What may happen to the farm during a pause: the timer collects hash rates, miners count hashes and report wrong solutions.\<close>

inductive pause_step :: "farm \<Rightarrow> farm \<Rightarrow> bool" where
  ps_timer: "pause_step f (processHashRate ec now f)"
| ps_hashes: "pause_step f (f\<lparr>m_miners := (m_miners f)[i := addHashCount n (m_miners f ! i)]\<rparr>)"
| ps_failed: "pause_step f (failedSolution f)"

inductive_cases pause_stepE: "pause_step f g"

definition pauses_ok :: "'g bench_env \<Rightarrow> bool" where
  "pauses_ok env \<longleftrightarrow> (\<forall>i d f. pause_step\<^sup>*\<^sup>* f (be_pause env i d f))"

text \<open>A farm without miners stays without hashes.\<close>

definition silent :: "farm \<Rightarrow> bool" where
  "silent f \<longleftrightarrow> m_miners f = [] \<and> m_lastProgresses f = []"

lemma silent_step: "pause_step f g \<Longrightarrow> silent f \<Longrightarrow> silent g"
  by (erule pause_stepE) (auto simp: silent_def farm_ops)

lemma silent_pause: "pause_step\<^sup>*\<^sup>* f g \<Longrightarrow> silent f \<Longrightarrow> silent g"
  by (induction rule: rtranclp_induct) (auto intro: silent_step)

lemma silent_setWork: "silent f \<Longrightarrow> silent (setWork w now f)"
  by (auto simp: silent_def setWork_def collectHashRate_def Let_def)

lemma silent_rate: "silent f \<Longrightarrow> miningProgress nv adl sysfs hwmon pw f = (mp, g) \<Longrightarrow> rate mp = 0 \<and> silent g"
  by (auto simp: silent_def miningProgress_def rate_def Let_def)

lemma bench_round_parts:
  fixes s :: "'g bench_state"
  defines "w \<equiv> \<lambda>env. (bs_current s)\<lparr>wp_header := fst (hash_random (be_draw env) 32 (bs_engine s)), wp_boundary := fst (boundary (bs_genesis s))\<rparr>"
  defines "f \<equiv> \<lambda>env warmup trial i. be_pause env i (if i \<noteq> 0 then trial else warmup) (setWork (w env) (be_now env i) (bs_farm s))"
  shows "bs_farm (bench_round env warmup trial i s) = snd (miningProgress None None None False False (f env warmup trial i))"
    and "bs_results (bench_round env warmup trial i s) =
      bs_results s @ (if i \<noteq> 0 then [rate (fst (miningProgress None None None False False (f env warmup trial i)))] else [])"
    and "bs_current (bench_round env warmup trial i s) = w env"
    and "bs_genesis (bench_round env warmup trial i s) = snd (boundary (bs_genesis s))"
  by (simp_all add: bench_round_def w_def f_def Let_def split_def)

lemma bench_round_silent:
  assumes "pauses_ok env" "silent (bs_farm s)" "set (bs_results s) \<subseteq> {0}"
  shows "silent (bs_farm (bench_round env warmup trial i s)) \<and> set (bs_results (bench_round env warmup trial i s)) \<subseteq> {0}"
proof -
  let ?w = "(bs_current s)\<lparr>wp_header := fst (hash_random (be_draw env) 32 (bs_engine s)), wp_boundary := fst (boundary (bs_genesis s))\<rparr>"
  let ?f = "be_pause env i (if i \<noteq> 0 then trial else warmup) (setWork ?w (be_now env i) (bs_farm s))"
  have "silent ?f"
    using assms(1) silent_pause silent_setWork [OF assms(2)] unfolding pauses_ok_def by blast
  from silent_rate [OF this surjective_pairing] show ?thesis
    using assms(3) unfolding bench_round_parts by auto
qed

lemma bench_rounds_silent:
  "pauses_ok env \<Longrightarrow> silent (bs_farm s) \<Longrightarrow> set (bs_results s) \<subseteq> {0} \<Longrightarrow> set (bs_results (bench_rounds env warmup trial is s)) \<subseteq> {0}"
  unfolding bench_rounds_def by (induction "is" arbitrary: s) (simp_all add: bench_round_silent del: subset_singleton_iff)

text \<open>All miners hold the farm's package, which fits the benchmark.\<close>

definition bench_work :: "u32 \<Rightarrow> WorkPackage \<Rightarrow> bool" where
  "bench_work block w \<longleftrightarrow> wp_height w = of_nat (unat block) \<and> FixedHash_to_arith 32 (wp_boundary w) = 2 ^ 192"

definition works_on :: "WorkPackage \<Rightarrow> farm \<Rightarrow> bool" where
  "works_on w f \<longleftrightarrow> fm_work f = w \<and> (\<forall>m \<in> set (m_miners f). mi_work m = w)"

lemma works_on_step: "pause_step f g \<Longrightarrow> works_on w f \<Longrightarrow> works_on w g"
proof (erule pause_stepE)
  fix i n
  assume g: "g = f\<lparr>m_miners := (m_miners f)[i := addHashCount n (m_miners f ! i)]\<rparr>" and w: "works_on w f"
  have "map mi_work (m_miners g) = map mi_work (m_miners f)"
    unfolding g by (cases "i < length (m_miners f)") (simp_all add: map_update_same addHashCount_def not_less list_update_beyond)
  then have "mi_work ` set (m_miners g) = mi_work ` set (m_miners f)" by (metis set_map)
  then show "works_on w g" using g w by (auto simp: works_on_def)
qed (auto simp: works_on_def farm_ops)

lemma works_on_pause: "pause_step\<^sup>*\<^sup>* f g \<Longrightarrow> works_on w f \<Longrightarrow> works_on w g"
  by (induction rule: rtranclp_induct) (auto intro: works_on_step)

lemma setWork_works: "wp_header w \<noteq> wp_header (fm_work f) \<Longrightarrow> works_on w (setWork w now f)"
  by (auto simp: works_on_def setWork_def collectHashRate_def miner_setWork_def Let_def)

lemma setWork_keeps: "works_on v f \<Longrightarrow> works_on v (setWork w now f) \<or> works_on w (setWork w now f)"
  by (auto simp: works_on_def setWork_def collectHashRate_def miner_setWork_def Let_def)

definition gen_ok :: "BlockHeader \<Rightarrow> bool" where
  "gen_ok h \<longleftrightarrow> FixedHash_to_arith 32 (fst (boundary h)) = 2 ^ 192 \<and> boundary (snd (boundary h)) = boundary h"

lemma gen_ok_bench: "gen_ok (bench_genesis block)"
proof -
  obtain b h where b: "boundary (bench_genesis block) = (b, h)" by fastforce
  have "(2 :: nat) ^ 64 < 2 ^ 256" "\<not> (2 :: nat) ^ 64 \<le> 1" "(2 :: nat) ^ 256 div 2 ^ 64 = 2 ^ 192" by simp_all
  with boundary_of_difficulty [of "2 ^ 64" "setNumber (unat block) BlockHeader_default" b h] b
  show ?thesis unfolding gen_ok_def bench_genesis_def by (simp only: if_False fst_conv snd_conv)
qed

definition bench_inv :: "u32 \<Rightarrow> 'g bench_state \<Rightarrow> bool" where
  "bench_inv block s \<longleftrightarrow> gen_ok (bs_genesis s) \<and> wp_height (bs_current s) = of_nat (unat block) \<and>
     (\<exists>w. bench_work block w \<and> works_on w (bs_farm s))"

lemma bench_round_inv:
  assumes "pauses_ok env" "gen_ok (bs_genesis s)" "wp_height (bs_current s) = of_nat (unat block)"
    and "bench_inv block s \<or> fst (hash_random (be_draw env) 32 (bs_engine s)) \<noteq> wp_header (fm_work (bs_farm s))"
  shows "bench_inv block (bench_round env warmup trial i s)"
proof -
  define w where "w = (bs_current s)\<lparr>wp_header := fst (hash_random (be_draw env) 32 (bs_engine s)), wp_boundary := fst (boundary (bs_genesis s))\<rparr>"
  define f where "f = setWork w (be_now env i) (bs_farm s)"
  have w: "bench_work block w" "wp_header w = fst (hash_random (be_draw env) 32 (bs_engine s))"
    using assms(2,3) by (simp_all add: bench_work_def w_def gen_ok_def)
  then have "\<exists>v. bench_work block v \<and> works_on v f"
    using assms(4) setWork_keeps setWork_works [of w "bs_farm s"] unfolding f_def bench_inv_def by metis
  then have "\<exists>v. bench_work block v \<and> works_on v (be_pause env i (if i \<noteq> 0 then trial else warmup) f)"
    using assms(1) works_on_pause unfolding pauses_ok_def by blast
  then show ?thesis
    using assms(2,3) unfolding bench_inv_def bench_round_parts f_def w_def
    by (auto simp: gen_ok_def works_on_def miningProgress_def Let_def)
qed

lemma bench_inv_round: "pauses_ok env \<Longrightarrow> bench_inv block s \<Longrightarrow> bench_inv block (bench_round env warmup trial i s)"
  by (rule bench_round_inv) (simp_all add: bench_inv_def)

lemma bench_rounds_inv: "pauses_ok env \<Longrightarrow> bench_inv block s \<Longrightarrow> bench_inv block (bench_rounds env warmup trial is s)"
  unfolding bench_rounds_def by (induction "is" arbitrary: s) (simp_all add: bench_inv_round)

lemma bench_package:
  "\<exists>current. WorkPackage_of_header to_int (bench_genesis block) = Inr current \<and> wp_height current = of_nat (unat block)"
proof -
  obtain b h where b: "boundary (bench_genesis block) = (b, h)" by fastforce
  then have h: "h = (bench_genesis block)\<lparr>m_boundary := m_boundary h\<rparr>" by (auto simp: boundary_def Let_def split: if_splits)
  have n: "m_number h = unat block" by (subst h) (simp add: bench_genesis_def setDifficulty_def setNumber_def noteDirty_def)
  have "header_ok (bench_genesis block)" "m_hashWithout (bench_genesis block) = h256_zero"
    using unsigned_less [of block, where ?'a = nat]
    by (simp_all add: header_ok_def bench_genesis_def setDifficulty_def setNumber_def noteDirty_def BlockHeader_default_def Invalid256_def h256_zero_def)
  then have "header_ok h" "\<not> hash_bool (m_hashWithout h)" by (subst h, simp add: header_ok_def)+
  from hashWithout_encode [OF this] b n show ?thesis by (simp add: WorkPackage_of_header_def)
qed

lemma bench_start_fresh: "\<exists>f. bench_start t (setSealers sealers (farm_new scrambler launched)) = Some f \<and> fm_work f = WorkPackage_default \<and>
    (t = Mixed \<longrightarrow> silent f)"
  by (auto simp: bench_start_def start_def setSealers_def farm_new_def silent_def Let_def split: option.splits)

lemma doBenchmark_ends:
  assumes "trials \<noteq> - 1"
  obtains s where "doBenchmark to_int env sealers t warmup trial trials block scrambler launched g = Some (Inr (s, bench_summary (bs_results s)))"
    and "length (bs_results s) = unat trials"
    and "pauses_ok env \<Longrightarrow> t = Mixed \<Longrightarrow> set (bs_results s) \<subseteq> {0}"
    and "pauses_ok env \<Longrightarrow> fst (hash_random (be_draw env) 32 g) \<noteq> h256_zero \<Longrightarrow> bench_inv block s"
proof -
  obtain f where f: "bench_start t (setSealers sealers (farm_new scrambler launched)) = Some f" "fm_work f = WorkPackage_default" "t = Mixed \<longrightarrow> silent f"
    using bench_start_fresh by blast
  obtain current where c: "WorkPackage_of_header to_int (bench_genesis block) = Inr current" "wp_height current = of_nat (unat block)"
    using bench_package by blast
  define s0 where "s0 = \<lparr>bs_genesis = bench_genesis block, bs_current = current, bs_farm = f, bs_engine = g, bs_results = []\<rparr>"
  define s where "s = bench_rounds env warmup trial [0..<Suc (unat trials)] s0"
  have "doBenchmark to_int env sealers t warmup trial trials block scrambler launched g = Some (Inr (s, bench_summary (bs_results s)))"
    using bench_trials_rounds [OF assms, of 0 env warmup trial s0] f(1) c(1) by (simp add: doBenchmark_def s_def s0_def Let_def del: upt_Suc)
  moreover have "length (bs_results s) = unat trials"
    using bench_rounds_results [of "unat trials" env warmup trial s0] unsigned_less [of trials, where ?'a = nat] by (simp add: s_def s0_def del: upt_Suc)
  moreover have "set (bs_results s) \<subseteq> {0}" if "pauses_ok env" "t = Mixed"
    unfolding s_def by (rule bench_rounds_silent) (use that f(3) in \<open>simp_all add: s0_def\<close>)
  moreover have "bench_inv block s" if "pauses_ok env" "fst (hash_random (be_draw env) 32 g) \<noteq> h256_zero"
  proof -
    have "bench_inv block (bench_round env warmup trial 0 s0)"
      by (rule bench_round_inv) (use that f(2) c(2) gen_ok_bench in \<open>simp_all add: s0_def WorkPackage_default_def\<close>)
    from bench_rounds_inv [OF that(1) this, of warmup trial "[1..<Suc (unat trials)]"] show ?thesis
      by (simp add: s_def bench_rounds_def upt_conv_Cons del: upt_Suc)
  qed
  ultimately show ?thesis by (rule that)
qed

section \<open>Properties\<close>

text \<open>
  C38: while the pool is connected, the statistics entry without colours is the farm's rate, the devices, the solution counters and
  the time since launch, each behind one space; the printed speed, which passes through two single-precision roundings and one
  decimal rounding, is less than \<open>0.01\<close> Mh/s away from the rate for every rate below \<open>2^35\<close> hashes per second.
\<close>

theorem statistics_line:
  assumes "\<not> g_useColor env" "2 \<le> g_logVerbosity env" "s_logOverride env ''MiningChannel'' \<noteq> Some False"
    and "esc_closed (time_text env)" "esc_closed (thread_name env)"
    and "display_round hw c True now m = (m', items)" "p = m_progress (m_farm m')" "unat (rate p) < 2 ^ 35"
  shows "\<exists>h. log_entry env MiningChannel True items = Some (plain_prefix env MiningChannel @
      ''Speed '' @ pad_left 6 (to_string (h div 100) @ ''.'' @ setw0 2 (to_string (h mod 100))) @ '' Mh/s    '' @
      concat (map (gpu_text p) [0..<length (minersHashes p)]) @ show_stats (m_solutionStats (m_farm m)) @ '' '' @
      farmLaunchedFormatted now (m_farm m) @ [CHR 0x0A]) \<and>
    \<bar>int h * 10000 - int (unat (rate p))\<bar> < 10000"
proof -
  have ch: "ch_verbosity MiningChannel = 2" "\<not> ch_debug MiningChannel" "ch_class MiningChannel = ''MiningChannel''" "esc_closed (ch_name MiningChannel)"
    using channel_names_closed by (simp_all add: MiningChannel_def)
  have items: "items = [ItemValue (LText (show_progress p)), ItemValue (LText (show_stats (m_solutionStats (m_farm m)))),
      ItemString (farmLaunchedFormatted now (m_farm m))]"
    using display_round_connected [OF assms(6)] assms(7) by blast
  then have closed: "\<forall>i \<in> set items. item_closed i" by (simp add: show_progress_plain plain_texts)
  from uncoloured_entry [OF assms(1) _ _ ch(4) assms(4,5) closed, of True] assms(2,3) ch
  have "log_entry env MiningChannel True items = Some (plain_prefix env MiningChannel @ plain_items True True items @ [CHR 0x0A])" by auto
  moreover have "plain_items True True items = plain (show_progress p) @ show_stats (m_solutionStats (m_farm m)) @ '' '' @ farmLaunchedFormatted now (m_farm m)"
    unfolding items by (simp add: show_progress_ends show_stats_ends plain_texts)
  ultimately show ?thesis
    using hundredths_error [OF assms(8)] by (intro exI [of _ "hundredths (rate p)"]) (simp add: show_progress_plain fixed_dec_hundredths)
qed

lemma idle_round:
  "display_round hw c True now (PoolManager_new (farm_new x y) t) =
    (let m = PoolManager_new (farm_new x y) t in m\<lparr>m_farm := (m_farm m)\<lparr>m_progress := empty_progress\<rparr>\<rparr>,
     snd (display_round hw c True now (PoolManager_new (farm_new x y) t)))"
  by (simp add: display_round_def miningProgress_def PoolManager_new_def farm_new_def empty_progress_def Let_def split: prod.splits)

lemma zero_text: "to_string 0 = ''0''"
  by code_simp

lemma idle_texts:
  "pad_left 6 (to_string (0 div 100) @ ''.'' @ setw0 2 (to_string (0 mod 100))) = ''  0.00''"
  "show_stats stats_new = ''[A0+0:R0+0:F0]''" "farmLaunchedFormatted 0 (farm_new 0 0) = ''Time: 00:00''"
  by (simp add: zero_text pad_left_def setw0_def numeral_2_eq_2, simp add: zero_text show_stats_def stats_new_def,
      simp add: zero_text farmLaunchedFormatted_def farm_new_def pad0_def)

theorem statistics_line_witness:
  "log_entry quiet_env MiningChannel True (snd (display_round (None, None, None) MinerCLI_new True 0 (PoolManager_new (farm_new 0 0) Mixed))) =
     Some (plain_prefix quiet_env MiningChannel @ ''Speed   0.00 Mh/s    [A0+0:R0+0:F0] Time: 00:00'' @ [CHR 0x0A])"
proof -
  have r: "rate empty_progress = 0" "minersHashes empty_progress = []" by (simp_all add: empty_progress_def rate_def)
  have f: "m_farm (PoolManager_new (farm_new 0 0) Mixed) = farm_new 0 0" "m_solutionStats (farm_new 0 0) = stats_new"
    by (simp_all add: PoolManager_new_def farm_new_def)
  from statistics_line [OF _ _ _ _ _ idle_round [of "(None, None, None)" MinerCLI_new 0 0 0 Mixed] refl, of quiet_env]
  obtain h :: nat where "log_entry quiet_env MiningChannel True (snd (display_round (None, None, None) MinerCLI_new True 0 (PoolManager_new (farm_new 0 0) Mixed))) =
      Some (plain_prefix quiet_env MiningChannel @ ''Speed '' @ pad_left 6 (to_string (h div 100) @ ''.'' @ setw0 2 (to_string (h mod 100))) @ '' Mh/s    '' @
        show_stats stats_new @ '' '' @ farmLaunchedFormatted 0 (farm_new 0 0) @ [CHR 0x0A])" "\<bar>int h * 10000\<bar> < 10000"
    by (auto simp: quiet_env_def plain_texts Let_def r f)
  moreover from this(2) have "h = 0" by simp
  ultimately show ?thesis using idle_texts by simp
qed

text \<open>
  A difficulty is shown with one of the first five units and, below the largest of them, with at most 1000 of it: petahashes,
  which the table holds, are never shown.
\<close>

theorem difficulty_unit:
  "\<exists>d i. diffToDisplay diff = fixed_dec 4 d @ '' '' @ diff_units ! i \<and> i < 5 \<and> (i < 4 \<longrightarrow> d \<le> 1000 * 2 ^ 64)"
proof -
  obtain d i where d: "diff_loop diff 0 = (d, i)" by fastforce
  then have "diffToDisplay diff = fixed_dec 4 d @ '' '' @ diff_units ! i" by (simp add: diffToDisplay_def)
  moreover have "i < 5 \<and> (i < 4 \<longrightarrow> d \<le> 1000 * 2 ^ 64)" using diff_loop_range [OF _ d] by auto
  ultimately show ?thesis by blast
qed

text \<open>
  Once the signal handler has cleared the flag the loop ends at the next test of its condition, has stopped the manager,
  and has written one entry for each earlier test.
\<close>

theorem display_loop_stops:
  assumes "\<forall>mo \<in> set before. mo_running mo" "\<forall>mo \<in> set before. \<forall>m. m_running (mo_sleep mo m) = m_running m" "m_running m"
  shows "\<exists>m' entries cmds. display_loop hw c (before @ signalHandler mo # after) m = (m', entries, cmds, True) \<and>
    length entries = length before \<and> \<not> m_running m' \<and> \<not> isMining (m_farm m') \<and> cmds = (if mo_connected mo then [Disconnect] else [])"
  using assms
proof (induction before arbitrary: m)
  case Nil
  then show ?case
    by (auto simp: signalHandler_def PoolManager_stop_def shut_down_miners_def isMining_def stop_def)
next
  case (Cons b before)
  obtain m1 entry where d: "display_round hw c (mo_connected b) (mo_now b) m = (m1, entry)" by fastforce
  have "m_running m1" using d Cons.prems(3) by (auto simp: display_round_def split: if_splits prod.splits)
  with Cons.IH [of "mo_sleep b m1"] Cons.prems d show ?case by (fastforce simp: Let_def)
qed

text \<open>
  The benchmark returns one rate per trial, except with \<open>2^32 - 1\<close> trials, where the counter never exceeds the bound; with no
  trial the summary reads the ends of an empty vector and divides by zero.
\<close>

theorem benchmark_ends:
  "if trials = - 1 then doBenchmark to_int env sealers t warmup trial trials block scrambler launched g = None
   else \<exists>s summary. doBenchmark to_int env sealers t warmup trial trials block scrambler launched g = Some (Inr (s, summary)) \<and>
     length (bs_results s) = unat trials \<and> (summary = None \<longleftrightarrow> trials = 0)"
proof (cases "trials = - 1")
  case True
  then show ?thesis
    using bench_start_fresh [of t sealers scrambler launched] bench_package [of to_int block]
    by (auto simp: doBenchmark_def bench_trials_endless Let_def)
next
  case False
  then obtain s where s: "doBenchmark to_int env sealers t warmup trial trials block scrambler launched g = Some (Inr (s, bench_summary (bs_results s)))"
      "length (bs_results s) = unat trials"
    by (rule doBenchmark_ends)
  have "bench_summary (bs_results s) = None \<longleftrightarrow> trials = 0"
    using s(2) by (cases "bs_results s") (auto simp: bench_summary_def Let_def unat_eq_0)
  then show ?thesis using False s by auto
qed

text \<open>
  Without \<open>-G\<close> or \<open>-U\<close> the miner type is \<open>Mixed\<close>, for which the benchmark starts no miner: every measured rate is zero.
\<close>

theorem mixed_benchmark_is_zero:
  assumes "pauses_ok env" "trials \<noteq> - 1"
  shows "\<exists>s summary. doBenchmark to_int env sealers (cli_minerType MinerCLI_new) warmup trial trials block scrambler launched g = Some (Inr (s, summary)) \<and>
    bs_results s = replicate (unat trials) 0"
proof -
  from assms(2) obtain s where s: "doBenchmark to_int env sealers (cli_minerType MinerCLI_new) warmup trial trials block scrambler launched g = Some (Inr (s, bench_summary (bs_results s)))"
      "length (bs_results s) = unat trials" "pauses_ok env \<Longrightarrow> cli_minerType MinerCLI_new = Mixed \<Longrightarrow> set (bs_results s) \<subseteq> {0}"
    by (rule doBenchmark_ends) blast
  moreover have "cli_minerType MinerCLI_new = Mixed" by (simp add: MinerCLI_new_def)
  ultimately have "bs_results s = replicate (unat trials) 0"
    using assms(1) by (intro replicate_eqI) auto
  then show ?thesis using s(1) by blast
qed

text \<open>
  After the benchmark every miner holds a package of the chosen block with the boundary \<open>2^192\<close> of difficulty \<open>2^64\<close>; only a
  warm-up header of zeros, which equals that of the empty package, leaves the miners without work.
\<close>

theorem benchmark_work:
  assumes "pauses_ok env" "trials \<noteq> - 1" "fst (hash_random (be_draw env) 32 g) \<noteq> h256_zero"
  shows "\<exists>s summary. doBenchmark to_int env sealers t warmup trial trials block scrambler launched g = Some (Inr (s, summary)) \<and>
    (\<forall>m \<in> set (m_miners (bs_farm s)). wp_height (mi_work m) = of_nat (unat block) \<and> FixedHash_to_arith 32 (wp_boundary (mi_work m)) = 2 ^ 192)"
proof -
  from assms(2) obtain s where s: "doBenchmark to_int env sealers t warmup trial trials block scrambler launched g = Some (Inr (s, bench_summary (bs_results s)))"
      "pauses_ok env \<Longrightarrow> fst (hash_random (be_draw env) 32 g) \<noteq> h256_zero \<Longrightarrow> bench_inv block s"
    by (rule doBenchmark_ends) blast
  then obtain w where "bench_work block w" "works_on w (bs_farm s)" using assms(1,3) unfolding bench_inv_def by blast
  then have "\<forall>m \<in> set (m_miners (bs_farm s)). wp_height (mi_work m) = of_nat (unat block) \<and> FixedHash_to_arith 32 (wp_boundary (mi_work m)) = 2 ^ 192"
    by (auto simp: bench_work_def works_on_def)
  then show ?thesis using s(1) by blast
qed

end
