(* ===== verification/Worker.thy ===== *)
theory Worker
  imports Prelude
begin

text \<open>
  The worker thread of \<^verbatim>\<open>libdevcore/Worker.{h,cpp}\<close> as an interleaving of two parties that share the
  atomic \<open>m_state\<close>: the thread with its loop around \<open>workLoop\<close>, and a controller that executes
  \<open>startWorking\<close>, \<open>stopWorking\<close> and the destructor.  Every controller operation holds the mutex
  \<open>x_work\<close> from beginning to end, so there is one controller program counter.  Each atomic access is
  one step.  The body \<open>workLoop\<close> belongs to the derived class: at each of its steps it may return or go on, and
  whether a wait ends is stated in terms of that.
\<close>

section \<open>State\<close>

datatype WorkerState = Starting | Started | Stopping | Stopped | Killing

text \<open>Program counter of the thread: before the test of the outer loop, before the exchange to
  \<open>Started\<close>, inside \<open>workLoop\<close>, before the exchange to \<open>Stopped\<close>, after it (with the state it
  replaced), polling for a new order, and ended.\<close>

datatype wpc = NotRunning | LoopHead | TryStart | Working | Finish | AfterStop WorkerState | Parked | Done

text \<open>Program counter of the controller: no operation, or waiting in one of the three operations.\<close>

datatype cpc = CIdle | StartWait | StopWait | Joining | Destroyed

record worker =
  m_state :: WorkerState
  m_work :: bool
  wp :: wpc
  cp :: cpc

definition worker_new :: worker where
  "worker_new = \<lparr>m_state = Starting, m_work = False, wp = NotRunning, cp = CIdle\<rparr>"

definition shouldStop :: "worker \<Rightarrow> bool" where
  "shouldStop s \<longleftrightarrow> m_state s \<noteq> Started"

section \<open>Atomic operations\<close>

definition compare_exchange :: "WorkerState \<Rightarrow> WorkerState \<Rightarrow> worker \<Rightarrow> worker" where
  "compare_exchange expected desired s = (if m_state s = expected then s\<lparr>m_state := desired\<rparr> else s)"

section \<open>Controller operations\<close>

definition startWorking :: "worker \<Rightarrow> worker" where
  "startWorking s =
     (if m_work s then (compare_exchange Stopped Starting s)\<lparr>cp := StartWait\<rparr>
      else s\<lparr>m_state := Starting, m_work := True, wp := LoopHead, cp := StartWait\<rparr>)"

definition stopWorking :: "worker \<Rightarrow> worker" where
  "stopWorking s = (if m_work s then (compare_exchange Started Stopping s)\<lparr>cp := StopWait\<rparr> else s)"

definition destroy :: "worker \<Rightarrow> worker" where
  "destroy s = (if m_work s then s\<lparr>m_state := Killing, cp := Joining\<rparr> else s\<lparr>cp := Destroyed\<rparr>)"

text \<open>The conditions the three operations wait for.\<close>

fun wait_over :: "worker \<Rightarrow> bool" where
  "wait_over s =
     (case cp s of
        StartWait \<Rightarrow> m_state s \<noteq> Starting
      | StopWait \<Rightarrow> m_state s = Stopped
      | Joining \<Rightarrow> wp s = Done
      | _ \<Rightarrow> False)"

definition finish_wait :: "worker \<Rightarrow> worker" where
  "finish_wait s = (if cp s = Joining then s\<lparr>m_work := False, wp := NotRunning, cp := Destroyed\<rparr> else s\<lparr>cp := CIdle\<rparr>)"

inductive cstep :: "worker \<Rightarrow> worker \<Rightarrow> bool" where
  c_start: "cp s = CIdle \<Longrightarrow> cstep s (startWorking s)"
| c_stop: "cp s = CIdle \<Longrightarrow> cstep s (stopWorking s)"
| c_destroy: "cp s = CIdle \<Longrightarrow> cstep s (destroy s)"
| c_return: "wait_over s \<Longrightarrow> cstep s (finish_wait s)"

section \<open>Thread steps\<close>

text \<open>The next step of the thread; \<open>None\<close> when it has none (not running, ended, or polling a stopped
  state).  \<open>returns\<close> says whether \<open>workLoop\<close>, where the thread is inside it, returns at this step; otherwise it stays
  there, which a loop that never looks at \<open>shouldStop\<close> does for ever.\<close>

definition thread_step :: "bool \<Rightarrow> worker \<Rightarrow> worker option" where
  "thread_step returns s =
     (case wp s of
        LoopHead \<Rightarrow> Some (s\<lparr>wp := (if m_state s = Killing then Done else TryStart)\<rparr>)
      | TryStart \<Rightarrow> Some ((compare_exchange Starting Started s)\<lparr>wp := Working\<rparr>)
      | Working \<Rightarrow> Some (if returns then s\<lparr>wp := Finish\<rparr> else s)
      | Finish \<Rightarrow> Some (s\<lparr>m_state := Stopped, wp := AfterStop (m_state s)\<rparr>)
      | AfterStop ex \<Rightarrow>
          Some (if ex = Killing \<or> ex = Starting then s\<lparr>m_state := ex, wp := Parked\<rparr> else s\<lparr>wp := Parked\<rparr>)
      | Parked \<Rightarrow> if m_state s = Stopped then None else Some (s\<lparr>wp := LoopHead\<rparr>)
      | _ \<Rightarrow> None)"

inductive worker_step :: "worker \<Rightarrow> worker \<Rightarrow> bool" where
  ctrl: "cstep s s' \<Longrightarrow> worker_step s s'"
| thread: "thread_step returns s = Some s' \<Longrightarrow> worker_step s s'"

inductive worker_reachable :: "worker \<Rightarrow> bool" where
  init: "worker_reachable worker_new"
| step: "worker_reachable s \<Longrightarrow> worker_step s s' \<Longrightarrow> worker_reachable s'"

inductive_cases cstepE: "cstep s s'"
inductive_cases worker_stepE: "worker_step s s'"

section \<open>Invariant\<close>

text \<open>The combinations of controller, state and thread position that occur.\<close>

definition after_run :: "wpc set" where
  "after_run = {AfterStop Started, AfterStop Stopping, Parked}"

definition winv :: "worker \<Rightarrow> bool" where
  "winv s \<longleftrightarrow>
     (m_work s \<longleftrightarrow> wp s \<noteq> NotRunning) \<and>
     (\<not> m_work s \<longrightarrow> cp s \<in> {CIdle, Destroyed}) \<and>
     (m_work s \<longrightarrow>
       (case cp s of
          CIdle \<Rightarrow> m_state s = Started \<and> wp s \<in> {Working, Finish} \<or> m_state s = Stopped \<and> wp s \<in> after_run
        | StartWait \<Rightarrow> m_state s = Starting \<and> (wp s \<in> {LoopHead, TryStart} \<or> wp s \<in> after_run) \<or>
            m_state s = Started \<and> wp s \<in> {Working, Finish} \<or> m_state s = Stopped \<and> wp s \<in> after_run
        | StopWait \<Rightarrow> m_state s = Stopping \<and> wp s \<in> {Working, Finish} \<or> m_state s = Stopped \<and> wp s \<in> after_run
        | Joining \<Rightarrow> m_state s = Killing \<and> (wp s \<in> {LoopHead, Working, Finish, Done} \<or> wp s \<in> after_run) \<or>
            m_state s = Stopped \<and> wp s = AfterStop Killing
        | Destroyed \<Rightarrow> False))"

lemma winv_new: "winv worker_new"
  by (simp add: winv_def worker_new_def)

lemma winv_cstep: "cstep s s' \<Longrightarrow> winv s \<Longrightarrow> winv s'"
  by (erule cstepE)
    (auto simp: winv_def startWorking_def stopWorking_def destroy_def finish_wait_def compare_exchange_def after_run_def
      split: cpc.splits if_splits)

lemma winv_thread: "thread_step returns s = Some s' \<Longrightarrow> winv s \<Longrightarrow> winv s'"
  by (cases "cp s"; cases "wp s")
    (auto simp: winv_def thread_step_def compare_exchange_def after_run_def split: if_splits)

lemma worker_reachable_inv: "worker_reachable s \<Longrightarrow> winv s"
proof (induction rule: worker_reachable.induct)
  case init
  show ?case by (rule winv_new)
next
  case (step s s')
  from step.hyps(2) show ?case
    by (cases rule: worker_step.cases) (use step.IH winv_cstep winv_thread in blast)+
qed

section \<open>Waiting ends\<close>

text \<open>How many thread steps a waiting controller still has to let pass.\<close>

fun wait_rank :: "worker \<Rightarrow> nat" where
  "wait_rank s =
     (case wp s of
        Working \<Rightarrow> 6 | Finish \<Rightarrow> 5 | AfterStop _ \<Rightarrow> 4 | Parked \<Rightarrow> 3 | LoopHead \<Rightarrow> 2 | TryStart \<Rightarrow> 1 | _ \<Rightarrow> 0)"

lemma wait_progress:
  assumes "winv s" "cp s \<in> {StartWait, StopWait, Joining}" "\<not> wait_over s" "wp s \<noteq> Working"
  shows "\<exists>s'. thread_step returns s = Some s' \<and> cp s' = cp s \<and>
    (wait_over s' \<or> wp s' \<noteq> Working \<and> wait_rank s' < wait_rank s)"
  using assms
  by (cases "cp s"; cases "wp s")
    (auto simp: winv_def thread_step_def compare_exchange_def after_run_def split: if_splits)

text \<open>Once the awaited condition holds, the thread cannot undo it.\<close>

lemma wait_stable:
  assumes "winv s" "wait_over s" "thread_step returns s = Some s'"
  shows "wait_over s' \<and> cp s' = cp s"
  using assms
  by (cases "cp s"; cases "wp s")
    (auto simp: winv_def thread_step_def compare_exchange_def after_run_def split: if_splits)

text \<open>Running the thread alone for at most \<open>n\<close> steps; \<open>r i\<close> says whether \<open>workLoop\<close>, if running then, returns at
  step \<open>i\<close>.\<close>

fun thread_run :: "(nat \<Rightarrow> bool) \<Rightarrow> nat \<Rightarrow> worker \<Rightarrow> worker" where
  "thread_run r 0 s = s"
| "thread_run r (Suc n) s = (case thread_step (r 0) s of None \<Rightarrow> s | Some s' \<Rightarrow> thread_run (\<lambda>i. r (Suc i)) n s')"

lemma thread_run_stable: "winv s \<Longrightarrow> wait_over s \<Longrightarrow> wait_over (thread_run r n s)"
proof (induction n arbitrary: s r)
  case (Suc n)
  show ?case
  proof (cases "thread_step (r 0) s")
    case None
    then show ?thesis using Suc.prems by (simp del: wait_over.simps)
  next
    case (Some s')
    then show ?thesis
      using Suc.IH [of s'] wait_stable [OF Suc.prems Some] winv_thread [OF Some Suc.prems(1)]
      by (simp del: wait_over.simps)
  qed
qed simp

lemma thread_run_finishes:
  assumes "winv s" "cp s \<in> {StartWait, StopWait, Joining}" "wp s \<noteq> Working" "wait_rank s < n"
  shows "wait_over (thread_run r n s)"
  using assms
proof (induction n arbitrary: s r)
  case (Suc n)
  show ?case
  proof (cases "wait_over s")
    case True
    then show ?thesis by (rule thread_run_stable [OF Suc.prems(1)])
  next
    case False
    obtain s' where s': "thread_step (r 0) s = Some s'" "cp s' = cp s"
        "wait_over s' \<or> wp s' \<noteq> Working \<and> wait_rank s' < wait_rank s"
      using wait_progress [OF Suc.prems(1,2) False Suc.prems(3)] by blast
    have inv: "winv s'" using winv_thread [OF s'(1) Suc.prems(1)] .
    show ?thesis
      using s' thread_run_stable [OF inv] Suc.IH [OF inv] Suc.prems by (auto simp del: wait_over.simps wait_rank.simps)
  qed
qed simp

text \<open>From inside \<open>workLoop\<close>: at most seven steps more than it takes to return.\<close>

lemma thread_run_returns:
  assumes "winv s" "cp s \<in> {StartWait, StopWait, Joining}" "wp s = Working" "r j" "j + 7 \<le> n"
  shows "wait_over (thread_run r n s)"
  using assms(4,5)
proof (induction j arbitrary: r n)
  case 0
  then obtain k where n: "n = Suc k" "6 \<le> k" by (cases n) auto
  let ?s = "s\<lparr>wp := Finish\<rparr>"
  have step: "thread_step (r 0) s = Some ?s" using 0 assms(3) by (simp add: thread_step_def)
  have "wait_over (thread_run (\<lambda>i. r (Suc i)) k ?s)"
    using winv_thread [OF step assms(1)] assms(2) n(2) by (intro thread_run_finishes) simp_all
  then show ?case by (simp add: n step del: wait_over.simps)
next
  case (Suc j)
  then obtain k where n: "n = Suc k" "j + 7 \<le> k" by (cases n) auto
  show ?case
  proof (cases "r 0")
    case True
    let ?s = "s\<lparr>wp := Finish\<rparr>"
    have step: "thread_step (r 0) s = Some ?s" using True assms(3) by (simp add: thread_step_def)
    have "wait_over (thread_run (\<lambda>i. r (Suc i)) k ?s)"
      using winv_thread [OF step assms(1)] assms(2) n(2) by (intro thread_run_finishes) simp_all
    then show ?thesis by (simp add: n step del: wait_over.simps)
  next
    case False
    then have "thread_step (r 0) s = Some s" using assms(3) by (simp add: thread_step_def)
    then show ?thesis using Suc.IH [of "\<lambda>i. r (Suc i)" k] Suc.prems n by (simp del: wait_over.simps)
  qed
qed

text \<open>A body that never returns keeps the thread where it is.\<close>

lemma thread_run_stuck: "wp s = Working \<Longrightarrow> \<forall>i. \<not> r i \<Longrightarrow> thread_run r n s = s"
  by (induction n arbitrary: r) (simp_all add: thread_step_def)

lemma started_reachable: "worker_reachable (startWorking worker_new)"
proof -
  have "cstep worker_new (startWorking worker_new)" by (rule c_start) (simp add: worker_new_def)
  then show ?thesis by (rule worker_reachable.step [OF worker_reachable.init worker_step.ctrl])
qed

lemma thread_run_reachable: "worker_reachable s \<Longrightarrow> worker_reachable (thread_run r n s)"
proof (induction n arbitrary: s r)
  case (Suc n)
  show ?case
  proof (cases "thread_step (r 0) s")
    case (Some s')
    then have "worker_reachable s'" by (rule worker_reachable.step [OF Suc.prems worker_step.thread])
    then show ?thesis using Some by (simp add: Suc.IH)
  qed (use Suc.prems in simp)
qed simp

section \<open>Properties\<close>

text \<open>
  C18: in every interleaving \<open>workLoop\<close> runs only while the state is \<open>Started\<close>, \<open>Stopping\<close> or
  \<open>Killing\<close>; in particular, when \<open>stopWorking\<close> or the destructor has returned, it is not running.
\<close>

theorem worker_safety:
  assumes "worker_reachable s"
  shows "(wp s = Working \<longrightarrow> m_state s \<in> {Started, Stopping, Killing}) \<and>
    (cp s = StopWait \<and> wait_over s \<longrightarrow> wp (finish_wait s) \<notin> {LoopHead, TryStart, Working, Finish}) \<and>
    (cp s = Destroyed \<longrightarrow> wp s = NotRunning)"
  using worker_reachable_inv [OF assms]
  by (auto simp: winv_def finish_wait_def after_run_def split: cpc.splits)

theorem worker_safety_witness:
  "wp (thread_run (\<lambda>i. True) 2 (startWorking worker_new)) = Working \<and> m_state (thread_run (\<lambda>i. True) 2 (startWorking worker_new)) \<in> {Started, Stopping, Killing}"
proof -
  have "wp (thread_run (\<lambda>i. True) 2 (startWorking worker_new)) = Working"
    by (simp add: numeral_2_eq_2 thread_step_def startWorking_def worker_new_def compare_exchange_def)
  then show ?thesis using worker_safety [OF thread_run_reachable [OF started_reachable]] by simp
qed

text \<open>
  C19: which waits end.  Take any reachable state in which an operation waits, and any behaviour \<open>r\<close> of \<open>workLoop\<close>.
  \<open>startWorking\<close> is through after at most seven steps of the thread, whatever \<open>workLoop\<close> does.  \<open>stopWorking\<close> and the
  destructor are through seven steps after \<open>workLoop\<close> has returned; they wait for ever exactly when the thread is
  inside a \<open>workLoop\<close> that never returns.  Once the condition holds, it holds until the operation returns.
\<close>

theorem worker_waits_end:
  assumes "worker_reachable s"
  shows "(cp s = StartWait \<and> 7 \<le> n \<longrightarrow> wait_over (thread_run r n s)) \<and>
    (cp s \<in> {StopWait, Joining} \<and> r j \<and> j + 7 \<le> n \<longrightarrow> wait_over (thread_run r n s)) \<and>
    (cp s \<in> {StopWait, Joining} \<longrightarrow>
       ((\<forall>n. \<not> wait_over (thread_run r n s)) \<longleftrightarrow> wp s = Working \<and> (\<forall>j. \<not> r j)))"
proof -
  note inv = worker_reachable_inv [OF assms]
  have rank: "wait_rank s < n" if "7 \<le> n" for n
  proof -
    have "wait_rank s \<le> 6" by (simp split: wpc.split)
    then show ?thesis using that by linarith
  qed
  have other: "wait_over (thread_run r n s)" if "cp s \<in> {StartWait, StopWait, Joining}" "wp s \<noteq> Working" "7 \<le> n" for n
    using thread_run_finishes [OF inv that(1,2) rank [OF that(3)]] .
  have "wait_over s" if "cp s = StartWait" "wp s = Working"
    using inv that by (auto simp: winv_def after_run_def)
  then have start: "wait_over (thread_run r n s)" if "cp s = StartWait" "7 \<le> n" for n
    using that other thread_run_stable [OF inv] by (cases "wp s = Working") auto
  have stop: "wait_over (thread_run r n s)" if "cp s \<in> {StopWait, Joining}" "r j" "j + 7 \<le> n" for j n
    using that other thread_run_returns [OF inv, of r j n] by (cases "wp s = Working") auto
  have "\<not> wait_over s" if "cp s \<in> {StopWait, Joining}" "wp s = Working"
    using inv that by (auto simp: winv_def after_run_def)
  then have stuck: "(\<forall>n. \<not> wait_over (thread_run r n s)) \<longleftrightarrow> wp s = Working \<and> (\<forall>j. \<not> r j)"
    if "cp s \<in> {StopWait, Joining}"
    using that stop other [of 7] thread_run_stuck [of s r] by (metis insertI2 order_refl)
  show ?thesis using start stop stuck by blast
qed

text \<open>A controller stops a thread that is inside \<open>workLoop\<close>: with a body that returns at the fourth step, and with one that
  never does.\<close>

theorem worker_waits_end_witness:
  "wait_over (thread_run (\<lambda>i. i = 3) 10 (stopWorking ((thread_run (\<lambda>i. False) 2 (startWorking worker_new))\<lparr>cp := CIdle\<rparr>))) \<and>
   (\<forall>n. \<not> wait_over (thread_run (\<lambda>i. False) n (stopWorking ((thread_run (\<lambda>i. False) 2 (startWorking worker_new))\<lparr>cp := CIdle\<rparr>))))"
proof -
  let ?w = "thread_run (\<lambda>i. False) 2 (startWorking worker_new)"
  let ?s = "stopWorking (?w\<lparr>cp := CIdle\<rparr>)"
  have w: "?w = \<lparr>m_state = Started, m_work = True, wp = Working, cp = StartWait\<rparr>"
    by (simp add: numeral_2_eq_2 thread_step_def startWorking_def worker_new_def compare_exchange_def)
  have "cstep ?w (finish_wait ?w)" by (rule c_return) (simp add: w)
  moreover have "finish_wait ?w = ?w\<lparr>cp := CIdle\<rparr>" by (simp add: w finish_wait_def)
  ultimately have "worker_reachable (?w\<lparr>cp := CIdle\<rparr>)"
    using worker_reachable.step [OF thread_run_reachable [OF started_reachable] worker_step.ctrl] by metis
  then have reach: "worker_reachable ?s" by (rule worker_reachable.step [OF _ worker_step.ctrl [OF c_stop]]) simp
  have s: "cp ?s = StopWait" "wp ?s = Working" by (simp_all add: w stopWorking_def compare_exchange_def)
  show ?thesis
    using worker_waits_end [OF reach, of 10 "\<lambda>i. i = 3" 3] worker_waits_end [OF reach, of 0 "\<lambda>i. False" 0] s by auto
qed

end
