(* ===== verification/Stratum.thy ===== *)
theory Stratum
  imports Complex_Main PoolManager
begin

text \<open>
  The stratum client of \<^verbatim>\<open>libpoolprotocols/stratum/EthStratumClient.{h,cpp}\<close> with its three protocol
  versions.  JSON values are an abstract type; the accessors of the JSON library are the fields of the
  record \<open>json_api\<close>, an argument of the definitions, and \<open>json_laws\<close> states the documented behaviour the
  properties use.  Difficulties are rationals; the rounding of double arithmetic is the parameter \<open>rnd\<close>.
  Handlers return the new state with the requests they issue, in order; \<open>Inl\<close> is an exception that
  leaves the handler (and, through the service thread, ends the program) or a null dereference.
\<close>

section \<open>JSON\<close>

record 'j json_api =
  j_null :: "'j"
  j_string :: "string \<Rightarrow> 'j"
  j_int :: "int \<Rightarrow> 'j"
  j_bool :: "bool \<Rightarrow> 'j"
  j_member :: "'j \<Rightarrow> string \<Rightarrow> 'j option"
  j_elem :: "'j \<Rightarrow> nat \<Rightarrow> 'j option"
  j_isArray :: "'j \<Rightarrow> bool"
  j_asString :: "'j \<Rightarrow> string option"
  j_asInt :: "'j \<Rightarrow> int option"
  j_asBool :: "'j \<Rightarrow> bool option"
  j_asDouble :: "'j \<Rightarrow> rat option"

definition json_get :: "'j json_api \<Rightarrow> 'j \<Rightarrow> string \<Rightarrow> 'j \<Rightarrow> 'j" where
  "json_get api v k d = (case j_member api v k of Some x \<Rightarrow> x | None \<Rightarrow> d)"

definition json_at :: "'j json_api \<Rightarrow> 'j \<Rightarrow> nat \<Rightarrow> 'j \<Rightarrow> 'j" where
  "json_at api v i d = (case j_elem api v i of Some x \<Rightarrow> x | None \<Rightarrow> d)"

text \<open>Strings convert to themselves and not to integers; the null value converts to zero and is no array.\<close>

definition json_laws :: "'j json_api \<Rightarrow> bool" where
  "json_laws api \<longleftrightarrow>
     (\<forall>s. j_asString api (j_string api s) = Some s) \<and> (\<forall>s. j_asInt api (j_string api s) = None) \<and>
     (\<forall>i. j_asInt api (j_int api i) = Some i) \<and> (\<forall>b. j_asBool api (j_bool api b) = Some b) \<and>
     j_asInt api (j_null api) = Some 0 \<and> \<not> j_isArray api (j_null api)"

section \<open>Difficulty\<close>

fun diff_scale :: "(rat \<Rightarrow> rat) \<Rightarrow> nat \<Rightarrow> rat \<Rightarrow> nat \<times> rat" where
  "diff_scale rnd 0 diff = (0, diff)"
| "diff_scale rnd (Suc k) diff =
     (if 1 < diff then diff_scale rnd k (rnd (diff / 4294967296)) else (Suc k, diff))"

definition diffToTarget :: "(rat \<Rightarrow> rat) \<Rightarrow> rat \<Rightarrow> bytes" where
  "diffToTarget rnd diff0 =
     (let (k, diff) = diff_scale rnd 6 diff0;
          m = of_int \<lfloor>rnd (4294901760 / diff)\<rfloor> :: u64;
          target2 = (if m = 0 \<and> k = 6 then replicate 8 (- 1)
                     else (replicate 8 0)[k := ucast m, k + 1 := ucast (drop_bit 32 m)] :: u32 list)
      in rev (concat (map word_to_le target2)))"

section \<open>State\<close>

datatype serror = JsonError | BadHex | EpochTooHigh | StringOutOfRange | NullSocket

datatype sout = Write string | ReadLine | Resolve | AsyncConnect | Notify client_event

record stratum =
  st_conn :: PoolConnection
  m_connection :: PoolConnection
  m_worker :: string
  st_authorized :: bool
  st_connected :: bool
  m_pending :: nat
  m_current :: WorkPackage
  m_stale :: bool
  st_socket :: bool
  m_worktimer :: bool
  m_responsetimer :: bool
  m_hashrate_event :: bool
  m_response_pending :: bool
  m_email :: string
  m_rate :: string
  m_nextWorkDifficulty :: rat
  m_extraNonce :: bytes
  m_extraNonceHexSize :: nat
  m_submit_hashrate :: bool
  m_submit_hashrate_id :: string
  m_linkdown :: bool
  st_aux :: ethash_aux

text \<open>An exception in a handler is caught nowhere: it leaves \<^verbatim>\<open>io_service::run\<close> and ends the process, together with the fields
  that had been assigned before it.  The left side therefore carries no state.\<close>

type_synonym sres = "serror + stratum \<times> sout list"

definition isConnected :: "stratum \<Rightarrow> bool" where
  "isConnected s \<longleftrightarrow> st_connected s \<and> st_authorized s"

definition secure_socket :: "stratum \<Rightarrow> bool" where
  "secure_socket s \<longleftrightarrow> pc_secLevel (m_connection s) \<noteq> SecNone"

text \<open>Sequencing: the requests of the second part follow those of the first.\<close>

definition andThen :: "sres \<Rightarrow> (stratum \<Rightarrow> sres) \<Rightarrow> sres" where
  "andThen r f = bindE r (\<lambda>(s, o1). bindE (f s) (\<lambda>(s', o2). Inr (s', o1 @ o2)))"

section \<open>Connection\<close>

definition setConnection :: "PoolConnection \<Rightarrow> stratum \<Rightarrow> stratum" where
  "setConnection c s = s\<lparr>st_conn := c\<rparr>"

definition connect :: "stratum \<Rightarrow> stratum \<times> sout list" where
  "connect s = (s\<lparr>m_connection := st_conn s, st_authorized := False, st_connected := False, st_socket := True\<rparr>, [Resolve])"

text \<open>\<open>disconnect\<close> closes and drops the socket; without one it dereferences a null pointer.\<close>

definition disconnect :: "stratum \<Rightarrow> sres" where
  "disconnect s =
     (if \<not> st_socket s then Inl NullSocket
      else Inr (s\<lparr>m_worktimer := False, m_responsetimer := False, m_response_pending := False, m_linkdown := True,
                  st_socket := False, st_authorized := False, st_connected := False\<rparr>, [Notify EvDisconnected]))"

definition resolve_handler :: "bool \<Rightarrow> stratum \<Rightarrow> sres" where
  "resolve_handler ec s = (if ec then disconnect s else Inr (s, [AsyncConnect]))"

definition reset_work_timeout :: "stratum \<Rightarrow> stratum" where
  "reset_work_timeout s = s\<lparr>m_worktimer := True\<rparr>"

text \<open>The login name up to the first dot and the worker name after it; without a dot the position is
  \<open>npos\<close>, whose successor is zero, and the worker name is the whole login name.\<close>

definition login_user :: "string \<Rightarrow> string" where
  "login_user u = takeWhile (\<lambda>c. c \<noteq> CHR ''.'') u"

definition login_worker :: "string \<Rightarrow> string" where
  "login_worker u = (if CHR ''.'' \<in> set u then drop 1 (dropWhile (\<lambda>c. c \<noteq> CHR ''.'') u) else u)"

definition line :: "string \<Rightarrow> string" where
  "line t = t @ [CHR 0x0A]"

definition login_request :: "string \<Rightarrow> stratum \<Rightarrow> string" where
  \<open>login_request project_version s =
     (let user = login_user (pc_user (m_connection s)) in
      if pc_version (m_connection s) = 0 then line ''{"id": 1, "method": "mining.subscribe", "params": []}''
      else if pc_version (m_connection s) = 1 then
        (if m_email s = [] then
           line (''{"id": 1, "worker":"'' @ m_worker s @ ''", "method": "eth_submitLogin", "params": ["'' @ user @ ''"]}'')
         else
           line (''{"id": 1, "worker":"'' @ m_worker s @ ''", "method": "eth_submitLogin", "params": ["'' @ user @
             ''", "'' @ m_email s @ ''"]}''))
      else if pc_version (m_connection s) = 2 then
        line (''{"id": 1, "method": "mining.subscribe", "params": ["ethminer/'' @ project_version @ ''","EthereumStratum/1.0.0"]}'')
      else [])\<close>

definition connect_handler :: "string \<Rightarrow> bool \<Rightarrow> bool \<Rightarrow> stratum \<Rightarrow> sres" where
  "connect_handler project_version ec handshake_failed s =
     (if ec then disconnect s
      else
        let s = s\<lparr>st_connected := True, m_linkdown := False\<rparr> in
        andThen (Inr (s, [Notify EvConnected])) (\<lambda>s.
          if secure_socket s \<and> handshake_failed then disconnect s
          else
            let s = reset_work_timeout s;
                s = (if pc_version (m_connection s) = 1 then s\<lparr>m_worker := login_worker (pc_user (m_connection s))\<rparr>
                     else if pc_version (m_connection s) \<in> {0, 2} then s\<lparr>st_authorized := True\<rparr> else s)
            in Inr (s, [Write (login_request project_version s)])))"

section \<open>Reading\<close>

definition readline :: "stratum \<Rightarrow> stratum \<times> sout list" where
  "readline s = (if m_pending s = 0 then (s\<lparr>m_pending := 1\<rparr>, [ReadLine]) else (s, []))"

definition handleResponse :: "bool \<Rightarrow> stratum \<Rightarrow> stratum \<times> sout list" where
  "handleResponse ec s = (if ec then (s, []) else readline s)"

definition hash_of :: "nat \<Rightarrow> string \<Rightarrow> serror + bytes" where
  "hash_of n t = (case FixedHash_of_string n t of Inl _ \<Rightarrow> Inl BadHex | Inr h \<Rightarrow> Inr h)"

definition epoch_of :: "h256 \<Rightarrow> ethash_aux \<Rightarrow> serror + int \<times> ethash_aux" where
  "epoch_of seed aux =
     (case toEpoch seed aux of (Inr e, aux') \<Rightarrow> Inr (int e, aux') | (Inl _, aux') \<Rightarrow> Inl EpochTooHigh)"

definition as_string :: "'j json_api \<Rightarrow> 'j \<Rightarrow> serror + string" where
  "as_string api v = (case j_asString api v of Some t \<Rightarrow> Inr t | None \<Rightarrow> Inl JsonError)"

definition as_int :: "'j json_api \<Rightarrow> 'j \<Rightarrow> serror + int" where
  "as_int api v = (case j_asInt api v of Some t \<Rightarrow> Inr t | None \<Rightarrow> Inl JsonError)"

definition as_bool :: "'j json_api \<Rightarrow> 'j \<Rightarrow> serror + bool" where
  "as_bool api v = (case j_asBool api v of Some t \<Rightarrow> Inr t | None \<Rightarrow> Inl JsonError)"

definition processExtranonce :: "string \<Rightarrow> stratum \<Rightarrow> serror + stratum" where
  "processExtranonce enonce s =
     bindE (hash_of 8 (enonce @ replicate (16 - length enonce) CHR ''0'')) (\<lambda>h.
       Inr (s\<lparr>m_extraNonceHexSize := length enonce, m_extraNonce := h\<rparr>))"

definition ethash_swap_u64 :: "u64 \<Rightarrow> u64" where
  "ethash_swap_u64 x = word_of_le (rev (word_to_le x))"

text \<open>\<open>startNonce\<close> has 32 bits; the assignment keeps the low half of the swapped value.\<close>

definition start_nonce_of :: "bytes \<Rightarrow> u32" where
  "start_nonce_of extraNonce = ucast (ethash_swap_u64 (word_of_le extraNonce))"

definition resize :: "nat \<Rightarrow> char \<Rightarrow> string \<Rightarrow> string" where
  "resize n c t = take n t @ replicate (n - length t) c"

definition fix_share_target :: "string \<Rightarrow> serror + string" where
  "fix_share_target t =
     (let l = length t in
      if l < 66 then
        (if l < 2 then Inl StringOutOfRange else Inr (''0x'' @ replicate (66 - l) CHR ''0'' @ drop 2 t))
      else Inr t)"

text \<open>The work notification of \<open>EthereumStratum/1.0.0\<close>.\<close>

definition notify_nicehash :: "(rat \<Rightarrow> rat) \<Rightarrow> 'j json_api \<Rightarrow> 'j \<Rightarrow> string \<Rightarrow> stratum \<Rightarrow> sres" where
  "notify_nicehash rnd api params job s =
     bindE (as_string api (json_at api params 1 (j_string api []))) (\<lambda>sSeedHash.
     bindE (as_string api (json_at api params 2 (j_string api []))) (\<lambda>sHeaderHash.
     bindE (as_int api (json_at api params 3 (j_string api []))) (\<lambda>iBlockHeight.
       if sHeaderHash \<noteq> [] \<and> sSeedHash \<noteq> [] then
         bindE (hash_of 32 sHeaderHash) (\<lambda>header.
         bindE (hash_of 32 sSeedHash) (\<lambda>seed.
         bindE (epoch_of seed (st_aux s)) (\<lambda>(epoch, aux).
         bindE (hash_of 32 (resize 64 CHR ''0'' job)) (\<lambda>jobHash.
           let s = reset_work_timeout s;
               w = (m_current s)\<lparr>wp_header := header, wp_epoch := epoch, wp_height := of_int iBlockHeight,
                     wp_boundary := diffToTarget rnd (m_nextWorkDifficulty s),
                     wp_startNonce := start_nonce_of (m_extraNonce s),
                     wp_exSizeBits := int (m_extraNonceHexSize s) * 4,
                     wp_job_len := int (length job), wp_job := jobHash\<rparr>
           in Inr (s\<lparr>m_current := w, st_aux := aux\<rparr>, [Notify (EvWorkReceived w)])))))
       else Inr (s, []))))"

text \<open>The work notification of the other two versions; \<open>index\<close> is the position of the header hash.\<close>

definition notify_plain :: "'j json_api \<Rightarrow> 'j \<Rightarrow> nat \<Rightarrow> string \<Rightarrow> stratum \<Rightarrow> sres" where
  "notify_plain api params index job s =
     bindE (as_string api (json_at api params index (j_string api []))) (\<lambda>sHeaderHash.
     bindE (as_string api (json_at api params (index + 1) (j_string api []))) (\<lambda>sSeedHash.
     bindE (as_string api (json_at api params (index + 2) (j_string api []))) (\<lambda>sShareTarget0.
     bindE (as_int api (json_at api params (index + 3) (j_string api []))) (\<lambda>iBlockHeight.
     bindE (fix_share_target sShareTarget0) (\<lambda>sShareTarget.
       if sHeaderHash \<noteq> [] \<and> sSeedHash \<noteq> [] \<and> sShareTarget \<noteq> [] then
         bindE (hash_of 32 sHeaderHash) (\<lambda>headerHash.
           if headerHash \<noteq> wp_header (m_current s) then
             bindE (hash_of 32 sSeedHash) (\<lambda>seed.
             bindE (epoch_of seed (st_aux s)) (\<lambda>(epoch, aux).
             bindE (hash_of 32 sShareTarget) (\<lambda>boundary.
             bindE (hash_of 32 job) (\<lambda>jobHash.
               let s = reset_work_timeout s;
                   w = (m_current s)\<lparr>wp_header := headerHash, wp_epoch := epoch, wp_boundary := boundary,
                         wp_height := of_int iBlockHeight, wp_job := jobHash\<rparr>
               in Inr (s\<lparr>m_current := w, st_aux := aux\<rparr>, [Notify (EvWorkReceived w)])))))
           else Inr (s, []))
       else Inr (s, []))))))"

definition notify :: "(rat \<Rightarrow> rat) \<Rightarrow> 'j json_api \<Rightarrow> 'j \<Rightarrow> nat \<Rightarrow> stratum \<Rightarrow> sres" where
  "notify rnd api params index s =
     (if j_isArray api params then
        bindE (as_string api (json_at api params 0 (j_string api []))) (\<lambda>job.
          let s = (if m_response_pending s then s\<lparr>m_stale := True\<rparr> else s) in
          if pc_version (m_connection s) = 2 then notify_nicehash rnd api params job s
          else notify_plain api params index job s)
      else Inr (s, []))"

definition set_difficulty :: "'j json_api \<Rightarrow> 'j \<Rightarrow> stratum \<Rightarrow> sres" where
  "set_difficulty api params s =
     (if j_isArray api params then
        (case j_asDouble api (json_at api params 0 (j_int api 1)) of
           None \<Rightarrow> Inl JsonError
         | Some d \<Rightarrow> Inr (s\<lparr>m_nextWorkDifficulty := (if d \<le> 1 / 10000 then 1 / 10000 else d)\<rparr>, []))
      else Inr (s, []))"

definition set_extranonce :: "'j json_api \<Rightarrow> 'j \<Rightarrow> nat \<Rightarrow> stratum \<Rightarrow> serror + stratum" where
  "set_extranonce api params i s =
     (if j_isArray api params then
        bindE (as_string api (json_at api params i (j_string api []))) (\<lambda>enonce. processExtranonce enonce s)
      else Inr s)"

definition subscribed :: "'j json_api \<Rightarrow> 'j \<Rightarrow> stratum \<Rightarrow> sres" where
  \<open>subscribed api r s =
     bindE (if pc_version (m_connection s) = 2
            then set_extranonce api (json_get api r ''result'' (j_null api)) 1 (s\<lparr>m_nextWorkDifficulty := 1\<rparr>)
            else Inr s) (\<lambda>s.
       let c = m_connection s;
           sub = (if pc_version c = 2 then line ''{"id": 2, "method": "mining.extranonce.subscribe", "params": []}'' else []) in
       if pc_version c \<noteq> 1 then
         Inr (s, [Write (sub @ line (''{"id": 3, "method": "mining.authorize", "params": ["'' @ pc_user c @ ''","'' @ pc_pass c @ ''"]}''))])
       else Inr (s\<lparr>st_authorized := True\<rparr>, [Write (line ''{"id": 5, "method": "eth_getWork", "params": []}'')]))\<close>

definition notification :: "(rat \<Rightarrow> rat) \<Rightarrow> string \<Rightarrow> 'j json_api \<Rightarrow> 'j \<Rightarrow> int \<Rightarrow> stratum \<Rightarrow> sres" where
  \<open>notification rnd project_version api r i s =
     (let proxy = pc_version (m_connection s) = 1; nicehash = pc_version (m_connection s) = 2 in
      bindE (if proxy then Inr ''mining.notify'' else as_string api (json_get api r ''method'' (j_string api []))) (\<lambda>meth.
        if meth = ''mining.notify'' then
          notify rnd api (json_get api r (if proxy then ''result'' else ''params'') (j_null api)) (if proxy then 0 else 1) s
        else if meth = ''mining.set_difficulty'' \<and> nicehash then
          set_difficulty api (json_get api r ''params'' (j_null api)) s
        else if meth = ''mining.set_extranonce'' \<and> nicehash then
          bindE (set_extranonce api (json_get api r ''params'' (j_null api)) 0 s) (\<lambda>s. Inr (s, []))
        else if meth = ''client.get_version'' then
          Inr (s, [Write (line (''{"error": null, "id" : '' @ (if i < 0 then ''-'' else []) @ to_string (nat \<bar>i\<bar>) @
            '', "result" : "'' @ project_version @ ''"}''))])
        else Inr (s, [])))\<close>

definition processReponse :: "(rat \<Rightarrow> rat) \<Rightarrow> string \<Rightarrow> 'j json_api \<Rightarrow> 'j \<Rightarrow> stratum \<Rightarrow> sres" where
  "processReponse rnd project_version api r s =
     (let err = json_get api r ''error'' (j_null api) in
      bindE (if j_isArray api err then as_string api (json_at api err 1 (j_string api ''Unknown error'')) else Inr []) (\<lambda>_.
      bindE (as_int api (json_get api r ''id'' (j_null api))) (\<lambda>i.
        if i = 1 then subscribed api r s
        else if i = 2 then Inr (s, [])
        else if i = 3 then
          bindE (as_bool api (json_get api r ''result'' (j_null api))) (\<lambda>b.
            let s = s\<lparr>st_authorized := b\<rparr> in if b then Inr (s, []) else disconnect s)
        else if i = 4 then
          bindE (as_bool api (json_get api r ''result'' (j_bool api False))) (\<lambda>b.
            let s = s\<lparr>m_responsetimer := False, m_response_pending := False\<rparr> in
            Inr (s, [Notify (if b then EvAccepted (m_stale s) else EvRejected (m_stale s))]))
        else notification rnd project_version api r i s)))"

text \<open>One line read from the pool; \<open>parse\<close> is the JSON reader.\<close>

definition readResponse :: "(rat \<Rightarrow> rat) \<Rightarrow> string \<Rightarrow> 'j json_api \<Rightarrow> (string \<Rightarrow> 'j option) \<Rightarrow> bool \<Rightarrow> nat \<Rightarrow> string \<Rightarrow> stratum \<Rightarrow> sres" where
  "readResponse rnd project_version api parse ec bytes_transferred response s =
     (let s = s\<lparr>m_pending := m_pending s - 1\<rparr> in
      if \<not> ec \<and> bytes_transferred \<noteq> 0 then
        andThen
          (if response \<noteq> [] \<and> hd response = CHR ''{'' \<and> last response = CHR ''}'' then
             (case parse response of Some r \<Rightarrow> processReponse rnd project_version api r s | None \<Rightarrow> Inr (s, []))
           else Inr (s, []))
          (\<lambda>s. Inr (if st_connected s then readline s else (s, [])))
      else if st_connected s then disconnect s
      else Inr (s, []))"

section \<open>Timers and submissions\<close>

definition work_timeout_handler :: "bool \<Rightarrow> stratum \<Rightarrow> sres" where
  "work_timeout_handler ec s = (if ec then Inr (s, []) else disconnect s)"

definition response_timeout_handler :: "bool \<Rightarrow> stratum \<Rightarrow> sres" where
  "response_timeout_handler ec s = (if ec then Inr (s, []) else disconnect s)"

definition hashrate_event_handler :: "bool \<Rightarrow> stratum \<Rightarrow> stratum \<times> sout list" where
  \<open>hashrate_event_handler ec s =
     (if ec \<or> m_linkdown s then (s, [])
      else (s, [Write (line (''{"id": 6, "jsonrpc":"2.0", "method": "eth_submitHashrate", "params": ["'' @ m_rate s @
                  ''","0x'' @ m_submit_hashrate_id s @ ''"]}''))]))\<close>

definition submitHashrate :: "string \<Rightarrow> stratum \<Rightarrow> stratum" where
  "submitHashrate r s =
     (if \<not> m_submit_hashrate s \<or> m_linkdown s then s else s\<lparr>m_rate := r, m_hashrate_event := True\<rparr>)"

text \<open>\<open>substr\<close> throws when its start lies beyond the end.\<close>

definition substr :: "string \<Rightarrow> nat \<Rightarrow> nat \<Rightarrow> serror + string" where
  "substr t p n = (if length t < p then Inl StringOutOfRange else Inr (take n (drop p t)))"

definition submission_json :: "Solution \<Rightarrow> stratum \<Rightarrow> serror + string" where
  \<open>submission_json sol s =
     (let c = m_connection s; w = sol_work sol; nonceHex = toHex_u64 (sol_nonce sol) in
      if pc_version c = 0 then
        Inr (line (''{"id": 4, "method": "mining.submit", "params": ["'' @ pc_user c @ ''","'' @ hash_hex (wp_job w) @
          ''","0x'' @ nonceHex @ ''","0x'' @ hash_hex (wp_header w) @ ''","0x'' @ hash_hex (sol_mixHash sol) @ ''"]}''))
      else if pc_version c = 1 then
        Inr (line (''{"id": 4, "worker":"'' @ m_worker s @ ''", "method": "eth_submitWork", "params": ["0x'' @ nonceHex @
          ''","0x'' @ hash_hex (wp_header w) @ ''","0x'' @ hash_hex (sol_mixHash sol) @ ''"]}''))
      else if pc_version c = 2 then
        bindE (substr (hash_hex (wp_job w)) 0 (nat (wp_job_len w))) (\<lambda>job.
        bindE (substr nonceHex (m_extraNonceHexSize s) (16 - m_extraNonceHexSize s)) (\<lambda>rest.
          Inr (line (''{"id": 4, "method": "mining.submit", "params": ["'' @ pc_user c @ ''","'' @ job @ ''","'' @ rest @ ''"]}''))))
      else Inr [])\<close>

definition submitSolution :: "Solution \<Rightarrow> stratum \<Rightarrow> sres" where
  "submitSolution sol s =
     bindE (submission_json sol s) (\<lambda>json.
       Inr (s\<lparr>m_stale := sol_stale sol, m_response_pending := True, m_responsetimer := True\<rparr>, [Write json]))"


section \<open>Hexadecimal input\<close>

text \<open>The bytes of a string of hexadecimal digits.\<close>

fun unhex :: "string \<Rightarrow> bytes" where
  "unhex (a # b # r) = of_nat (the (fromHex_char a) * 16 + the (fromHex_char b)) # unhex r"
| "unhex _ = []"

lemma fromHex_pairs_unhex:
  assumes "even (length s - i)" "all_hex (drop i s)"
  shows "fromHex_pairs s t i ret = Inr (ret @ unhex (drop i s))"
  using assms
proof (induction "length s - i" arbitrary: i ret rule: less_induct)
  case less
  show ?case
  proof (cases "i < length s")
    case False
    then show ?thesis by (subst fromHex_pairs.simps) simp
  next
    case True
    note step = fromHex_pairs_step [OF less.prems(1) True]
    obtain h l where hl: "fromHex_char (s ! i) = Some h" "fromHex_char (s ! Suc i) = Some l"
      using less.prems(2) by (auto simp: step(1) all_hex_def)
    have "fromHex_pairs s t (i + 2) ret' = Inr (ret' @ unhex (drop (i + 2) s))" for ret'
      using True less.prems(2) step(2) by (intro less.hyps) (auto simp: step(1) all_hex_def)
    then show ?thesis by (simp only: step(1,3) hl option.case prod.case unhex.simps) simp
  qed
qed

lemma fromHex_unhex: "even (length s) \<Longrightarrow> all_hex (hex_digits s) \<Longrightarrow> fromHex s t = Inr (unhex (hex_digits s))"
proof -
  assume ev: "even (length s)" and ah: "all_hex (hex_digits s)"
  show ?thesis
  proof (cases "char_at s 0 = CHR ''0'' \<and> char_at s 1 = CHR ''x''")
    case True
    then have d: "hex_digits s = drop 2 s" by (simp add: hex_digits_def)
    have "fromHex s t = fromHex_pairs s t 2 []"
      unfolding fromHex_def Let_def if_P [OF True] using ev by (simp add: even_iff_mod_2_eq_zero)
    moreover have "even (length s - 2)" using ev by simp
    ultimately show ?thesis using fromHex_pairs_unhex [of s 2 t "[]"] ah d by simp
  next
    case False
    then have d: "hex_digits s = s" by (simp only: hex_digits_def if_False)
    have "fromHex s t = fromHex_pairs s t 0 []"
      unfolding fromHex_def Let_def if_not_P [OF False] using ev by (simp add: even_iff_mod_2_eq_zero)
    then show ?thesis using fromHex_pairs_unhex [of s 0 t "[]"] ev ah d by simp
  qed
qed

lemma length_unhex: "length (unhex s) = length s div 2"
  by (induction s rule: unhex.induct) auto

lemma fromHex_char_less: "fromHex_char c = Some v \<Longrightarrow> v < 16"
  by (auto simp: fromHex_char_def Let_def split: if_splits)

lemma hex_value_Cons: "hex_value (c # s) = the (fromHex_char c) * 16 ^ length s + hex_value s"
proof (induction s rule: rev_induct)
  case (snoc d s)
  have "hex_value ((c # s) @ [d]) = 16 * hex_value (c # s) + the (fromHex_char d)" by (rule hex_value_snoc)
  then show ?case using snoc by (simp add: hex_value_snoc algebra_simps)
qed (simp add: hex_value_def)

lemma be_value_unhex: "even (length s) \<Longrightarrow> all_hex s \<Longrightarrow> be_value (unhex s) = hex_value s"
proof (induction s rule: unhex.induct)
  case (1 a b r)
  then obtain h l where hl: "fromHex_char a = Some h" "fromHex_char b = Some l" by (auto simp: all_hex_def)
  have lt: "h < 16" "l < 16" using hl fromHex_char_less by blast+
  have un: "unat (of_nat k :: byte) = k" if "k < 256" for k :: nat
    using that by (simp add: unsigned_of_nat take_bit_nat_eq_self)
  have u: "unat (of_nat (h * 16 + l) :: byte) = h * 16 + l" by (rule un) (use lt in linarith)
  have p: "(256 :: nat) ^ (length r div 2) = 16 ^ length r"
    using 1 by (auto elim!: evenE simp: power_mult)
  have IH: "be_value (unhex r) = hex_value r" using 1 by (simp add: all_hex_def)
  show ?case
    unfolding unhex.simps be_value_Cons hl option.sel u length_unhex p hex_value_Cons IH
    by (simp add: algebra_simps)
qed (simp_all add: hex_value_def)

lemma all_hex_digits: "all_hex s \<Longrightarrow> hex_digits s = s"
  by (cases s; cases "tl s") (auto simp: hex_digits_def char_at_def all_hex_def fromHex_char_def)

lemma word_of_be: "(word_of_le (rev bs) :: 'a::len word) = of_nat (be_value bs)"
proof (induction bs rule: rev_induct)
  case (snoc b bs)
  have "(ucast b :: 'a word) OR push_bit 8 x = ucast b + push_bit 8 x" for x :: "'a word"
    by (rule disjunctive_add [symmetric])
      (auto simp: bit_ucast_iff bit_push_bit_iff dest: bit_imp_le_length)
  then show ?case
    by (simp add: snoc push_bit_eq_mult)
qed simp


lemma hash_of_hex:
  assumes "even (length t)" "all_hex (hex_digits t)" "length (hex_digits t) = 2 * n"
  shows "hash_of n t = Inr (unhex (hex_digits t))"
  using assms by (simp add: hash_of_def FixedHash_of_string_def fromHex_unhex FixedHash_of_bytes_def length_unhex)

lemma hex_value_zeros: "hex_value (e @ replicate n CHR ''0'') = hex_value e * 16 ^ n"
proof (induction n)
  case (Suc n)
  have "e @ replicate (Suc n) CHR ''0'' = (e @ replicate n CHR ''0'') @ [CHR ''0'']" by (simp add: replicate_append_same)
  then show ?case using Suc by (simp only: hex_value_snoc) (simp add: fromHex_char_def)
qed simp

lemma all_hex_append [simp]: "all_hex (a @ b) \<longleftrightarrow> all_hex a \<and> all_hex b" "all_hex (replicate n CHR ''0'')"
  by (simp_all add: all_hex_def) (simp add: list_all_length fromHex_char_def)

lemma start_nonce_value: "length bs = 8 \<Longrightarrow> start_nonce_of bs = of_nat (be_value bs)"
  by (simp add: start_nonce_of_def ethash_swap_u64_def word_of_be unsigned_of_nat word_of_nat_eq_iff take_bit_take_bit)


lemma toEpoch_found:
  assumes "aux_reachable aux" "e < 2048" "epoch_seed e = seed"
  obtains e' where "first_epoch seed e'" "fst (toEpoch seed aux) = Inr e'"
proof -
  have ok: "aux_ok aux" using assms(1) by (rule aux_reachable_ok)
  have "find_epoch seed 0 h256_zero \<noteq> 2048" using find_epoch_first(3) [of seed e] assms(2,3) by auto
  then have "find_epoch seed 0 h256_zero < 2048" using find_epoch_first(2) [of seed] by linarith
  then show thesis
    using that [of "m_cached_epoch aux"] that [of "find_epoch seed 0 h256_zero"] find_epoch_first(1) [of seed] ok
    by (cases "seed = m_cached_seed aux") (auto simp: toEpoch_def Let_def aux_ok_def)
qed

section \<open>Notifications\<close>

text \<open>The message \<open>mining.notify\<close> of the plain protocol: job, header, seed and target as strings, and a height.\<close>

definition notify_message :: "'j json_api \<Rightarrow> 'j \<Rightarrow> string \<Rightarrow> string \<Rightarrow> string \<Rightarrow> string \<Rightarrow> int \<Rightarrow> bool" where
  "notify_message api r job header seed target height \<longleftrightarrow>
     j_member api r ''error'' = None \<and> j_member api r ''id'' = None \<and>
     j_member api r ''method'' = Some (j_string api ''mining.notify'') \<and>
     (\<exists>p. j_member api r ''params'' = Some p \<and> j_isArray api p \<and>
        j_elem api p 0 = Some (j_string api job) \<and> j_elem api p 1 = Some (j_string api header) \<and>
        j_elem api p 2 = Some (j_string api seed) \<and> j_elem api p 3 = Some (j_string api target) \<and>
        j_elem api p 4 = Some (j_int api height))"

definition is_hash_text :: "string \<Rightarrow> bool" where
  "is_hash_text t \<longleftrightarrow> all_hex (hex_digits t) \<and> length (hex_digits t) = 64"

lemma hash_of_text: "is_hash_text t \<Longrightarrow> hash_of 32 t = Inr (unhex (hex_digits t))" "is_hash_text t \<Longrightarrow> t \<noteq> []"
  using even_hex_digits [of t] by (auto simp: is_hash_text_def hash_of_hex hex_digits_def char_at_def)

lemma fix_share_target_hex:
  assumes "all_hex ds" "length ds \<le> 64"
  obtains t where "fix_share_target (''0x'' @ ds) = Inr t" "is_hash_text t" "hex_value (hex_digits t) = hex_value ds"
proof -
  let ?t = "''0x'' @ replicate (64 - length ds) CHR ''0'' @ ds"
  have f: "fix_share_target (''0x'' @ ds) = Inr ?t"
    using assms(2) by (cases "length ds = 64") (simp_all add: fix_share_target_def)
  have "hex_value (replicate n CHR ''0'' @ ds) = hex_value ds" for n
    by (induction n) (simp_all add: hex_value_drop0)
  then show thesis
    using that [OF f] assms by (simp add: is_hash_text_def hex_digits_def char_at_def)
qed

lemma notify_dispatch:
  assumes "json_laws api" "notify_message api r job header seed target height" "pc_version (m_connection s) = 0"
  obtains p where "processReponse rnd v api r s = notify rnd api p 1 s" "j_isArray api p"
    "as_string api (json_at api p 0 (j_string api [])) = Inr job"
    "as_string api (json_at api p 1 (j_string api [])) = Inr header"
    "as_string api (json_at api p 2 (j_string api [])) = Inr seed"
    "as_string api (json_at api p 3 (j_string api [])) = Inr target"
    "as_int api (json_at api p 4 (j_string api [])) = Inr height"
proof -
  obtain p where p: "j_member api r ''params'' = Some p" "j_isArray api p"
      "j_elem api p 0 = Some (j_string api job)" "j_elem api p 1 = Some (j_string api header)"
      "j_elem api p 2 = Some (j_string api seed)" "j_elem api p 3 = Some (j_string api target)"
      "j_elem api p 4 = Some (j_int api height)"
    using assms(2) by (auto simp: notify_message_def)
  have "processReponse rnd v api r s = notify rnd api p 1 s"
    using assms p(1) by (simp add: processReponse_def notification_def notify_message_def json_get_def json_laws_def
        as_int_def as_string_def)
  then show thesis
    using that [of p] p assms(1) by (simp add: json_at_def as_string_def as_int_def json_laws_def del: One_nat_def)
qed


text \<open>A new header becomes a work package.\<close>

lemma notify_plain_new:
  assumes "as_string api (json_at api p 1 (j_string api [])) = Inr header"
    "as_string api (json_at api p 2 (j_string api [])) = Inr seed"
    "as_string api (json_at api p 3 (j_string api [])) = Inr (''0x'' @ ds)"
    "as_int api (json_at api p 4 (j_string api [])) = Inr height"
    "is_hash_text job" "is_hash_text header" "is_hash_text seed" "all_hex ds" "length ds \<le> 64"
    "aux_reachable (st_aux s)" "e < 2048" "epoch_seed e = unhex (hex_digits seed)"
    "unhex (hex_digits header) \<noteq> wp_header (m_current s)"
  obtains s' w where "notify_plain api p 1 job s = Inr (s', [Notify (EvWorkReceived w)])" "m_current s' = w" "m_worktimer s'"
    "wp_header w = unhex (hex_digits header)" "wp_job w = unhex (hex_digits job)" "wp_height w = of_int height"
    "first_epoch (unhex (hex_digits seed)) (nat (wp_epoch w))" "FixedHash_to_arith 32 (wp_boundary w) = hex_value ds"
    "wp_startNonce w = wp_startNonce (m_current s)" "wp_exSizeBits w = wp_exSizeBits (m_current s)"
proof -
  obtain t where t: "fix_share_target (''0x'' @ ds) = Inr t" "is_hash_text t" "hex_value (hex_digits t) = hex_value ds"
    using fix_share_target_hex [OF assms(8,9)] by blast
  obtain e' where e': "first_epoch (unhex (hex_digits seed)) e'" "fst (toEpoch (unhex (hex_digits seed)) (st_aux s)) = Inr e'"
    using toEpoch_found [OF assms(10-12)] by blast
  then obtain aux where "toEpoch (unhex (hex_digits seed)) (st_aux s) = (Inr e', aux)" by (metis prod.collapse)
  then have ep: "epoch_of (unhex (hex_digits seed)) (st_aux s) = Inr (int e', aux)" by (simp add: epoch_of_def)
  have b: "FixedHash_to_arith 32 (unhex (hex_digits t)) = hex_value ds"
    using t(2,3) by (simp add: FixedHash_to_arith_def fromBigEndian_exact length_unhex be_value_unhex is_hash_text_def)
  let ?w = "(m_current s)\<lparr>wp_header := unhex (hex_digits header), wp_epoch := int e', wp_boundary := unhex (hex_digits t),
    wp_height := of_int height, wp_job := unhex (hex_digits job)\<rparr>"
  have "notify_plain api p 1 job s =
      Inr ((reset_work_timeout s)\<lparr>m_current := ?w, st_aux := aux\<rparr>, [Notify (EvWorkReceived ?w)])"
    using assms(1-4,13) hash_of_text [OF assms(5)] hash_of_text [OF assms(6)] hash_of_text [OF assms(7)]
      hash_of_text [OF t(2)] ep t(1)
    by (simp add: notify_plain_def reset_work_timeout_def Let_def del: One_nat_def)
  then show thesis by (rule that) (simp_all add: e' b reset_work_timeout_def)
qed


section \<open>Job identifiers\<close>

text \<open>Lower-case digits are what printing produces, so printing what was read gives the text back.\<close>

definition lower_hex :: "string \<Rightarrow> bool" where
  "lower_hex t = list_all (\<lambda>c. \<exists>d < 16. c = hex_char d) t"

lemma lower_hex_all_hex: "lower_hex t \<Longrightarrow> all_hex t"
  by (auto simp: lower_hex_def all_hex_def list_all_iff)

lemma lower_hex_zeros [simp]: "lower_hex (a @ b) \<longleftrightarrow> lower_hex a \<and> lower_hex b" "lower_hex (replicate n CHR ''0'')"
proof -
  have "CHR ''0'' = hex_char 0" by (simp add: hex_char_def)
  then show "lower_hex (replicate n CHR ''0'')" by (auto simp: lower_hex_def list_all_length intro: exI [of _ 0])
qed (simp add: lower_hex_def)

lemma hex_pairs_unhex: "even (length t) \<Longrightarrow> lower_hex t \<Longrightarrow> hex_pairs (unhex t) = t"
proof (induction t rule: unhex.induct)
  case (1 a b r)
  then obtain h l where hl: "h < 16" "a = hex_char h" "l < 16" "b = hex_char l" by (auto simp: lower_hex_def)
  have "unat (of_nat k :: byte) = k" if "k < 256" for k :: nat
    using that by (simp add: unsigned_of_nat take_bit_nat_eq_self)
  moreover have "h * 16 + l < 256" using hl by linarith
  ultimately have u: "unat (of_nat (h * 16 + l) :: byte) = h * 16 + l" by blast
  have "unhex (a # b # r) = of_nat (h * 16 + l) # unhex r" using hl by (simp del: of_nat_add of_nat_mult)
  then show ?case
    using 1 hl u by (simp add: hex_pairs_def lower_hex_def del: of_nat_add of_nat_mult)
qed (simp_all add: hex_pairs_def)

lemma length_hex_string: "n < 16 ^ Suc k \<Longrightarrow> length (hex_string n) \<le> Suc k"
proof (induction k arbitrary: n)
  case (Suc k)
  have "n div 16 < 16 ^ Suc k" using Suc.prems by (simp add: div_less_iff_less_mult mult.commute)
  then show ?case using Suc.IH [of "n div 16"] by (subst hex_string.simps) auto
qed (subst hex_string.simps, simp)

lemma length_toHex_u64: "length (toHex_u64 n) = 16"
proof -
  have "unat n < 16 ^ Suc 15" using unsigned_less [of n] by simp
  then have "length (hex_string (unat n)) \<le> 16" using length_hex_string [of "unat n" 15] by simp
  then show ?thesis by (simp add: toHex_u64_def setw0_def)
qed

text \<open>A state of the client with nothing pending.\<close>

definition demo_stratum :: "u32 \<Rightarrow> stratum" where
  "demo_stratum v = \<lparr>st_conn = PoolConnection_default, m_connection = PoolConnection_default\<lparr>pc_version := v, pc_user := ''u''\<rparr>,
     m_worker = [], st_authorized = True, st_connected = True, m_pending = 0, m_current = WorkPackage_default, m_stale = False,
     st_socket = True, m_worktimer = True, m_responsetimer = False, m_hashrate_event = False, m_response_pending = False,
     m_email = [], m_rate = [], m_nextWorkDifficulty = 1, m_extraNonce = replicate 8 0, m_extraNonceHexSize = 0,
     m_submit_hashrate = False, m_submit_hashrate_id = [], m_linkdown = False, st_aux = aux_init\<rparr>"

datatype demo_json = DNull | DStr string | DInt int | DBool bool | DArr "demo_json list" | DObj "(string \<times> demo_json) list"

definition demo_api :: "demo_json json_api" where
  "demo_api = \<lparr>j_null = DNull, j_string = DStr, j_int = DInt, j_bool = DBool,
     j_member = (\<lambda>v k. case v of DObj ms \<Rightarrow> map_of ms k | _ \<Rightarrow> None),
     j_elem = (\<lambda>v i. case v of DArr a \<Rightarrow> (if i < length a then Some (a ! i) else None) | _ \<Rightarrow> None),
     j_isArray = (\<lambda>v. case v of DArr a \<Rightarrow> True | _ \<Rightarrow> False),
     j_asString = (\<lambda>v. case v of DStr t \<Rightarrow> Some t | _ \<Rightarrow> None),
     j_asInt = (\<lambda>v. case v of DInt i \<Rightarrow> Some i | DNull \<Rightarrow> Some 0 | _ \<Rightarrow> None),
     j_asBool = (\<lambda>v. case v of DBool b \<Rightarrow> Some b | _ \<Rightarrow> None),
     j_asDouble = (\<lambda>v. case v of DInt i \<Rightarrow> Some (of_int i) | _ \<Rightarrow> None)\<rparr>"

definition demo_notify :: demo_json where
  "demo_notify = DObj [(''method'', DStr ''mining.notify''),
     (''params'', DArr [DStr (replicate 64 CHR ''a''), DStr (replicate 64 CHR ''b''), DStr (replicate 64 CHR ''0''), DStr ''0xff'', DInt 7])]"

lemma is_hash_text_replicate: "fromHex_char c \<noteq> None \<Longrightarrow> is_hash_text (replicate 64 c)"
  using all_hex_digits [of "replicate 64 c"] by (simp add: is_hash_text_def all_hex_def list_all_length)

lemma hex_digits_replicate: "fromHex_char c \<noteq> None \<Longrightarrow> hex_digits (replicate n c) = replicate n c"
  by (rule all_hex_digits) (simp add: all_hex_def list_all_length)

lemma unhex_replicate: "fromHex_char c = Some v \<Longrightarrow> unhex (replicate (2 * n) c) = replicate n (of_nat (v * 16 + v))"
  by (induction n) simp_all

lemma demo_notify_facts:
  "json_laws demo_api"
  "notify_message demo_api demo_notify (replicate 64 CHR ''a'') (replicate 64 CHR ''b'') (replicate 64 CHR ''0'') (''0x'' @ ''ff'') 7"
  "is_hash_text (replicate 64 CHR ''a'')" "is_hash_text (replicate 64 CHR ''b'')" "is_hash_text (replicate 64 CHR ''0'')"
  "epoch_seed 0 = unhex (hex_digits (replicate 64 CHR ''0''))" "all_hex ''ff''"
proof -
  show "json_laws demo_api" by (simp add: json_laws_def demo_api_def)
  show "notify_message demo_api demo_notify (replicate 64 CHR ''a'') (replicate 64 CHR ''b'') (replicate 64 CHR ''0'') (''0x'' @ ''ff'') 7"
    unfolding notify_message_def demo_notify_def demo_api_def by simp
  show "is_hash_text (replicate 64 CHR ''a'')" "is_hash_text (replicate 64 CHR ''b'')" "is_hash_text (replicate 64 CHR ''0'')"
    by (rule is_hash_text_replicate, simp add: fromHex_char_def)+
  show "all_hex ''ff''" by (simp add: all_hex_def fromHex_char_def)
  show "epoch_seed 0 = unhex (hex_digits (replicate 64 CHR ''0''))"
    using unhex_replicate [of "CHR ''0''" 0 32] hex_digits_replicate [of "CHR ''0''" 64]
    by (simp add: epoch_seed_def h256_zero_def fromHex_char_def)
qed

section \<open>The client behind the manager's interface\<close>

definition events :: "sout list \<Rightarrow> client_event list" where
  "events os = concat (map (\<lambda>x. case x of Notify e \<Rightarrow> [e] | _ \<Rightarrow> []) os)"

definition client_disconnect :: "stratum \<Rightarrow> (stratum \<times> client_event list) option" where
  "client_disconnect s = (case disconnect s of Inl e \<Rightarrow> None | Inr (s', os) \<Rightarrow> Some (s', events os))"

text \<open>A connected client, and one with a running timer, has a socket.\<close>

definition stratum_ok :: "stratum \<Rightarrow> bool" where
  "stratum_ok s \<longleftrightarrow> (st_connected s \<or> m_worktimer s \<longrightarrow> st_socket s)"

interpretation sc: pool_client client_disconnect isConnected stratum_ok
  by unfold_locales (auto simp: client_disconnect_def disconnect_def isConnected_def stratum_ok_def events_def)

lemma ok_disconnect: "disconnect s = Inr (s', os) \<Longrightarrow> stratum_ok s'"
  by (auto simp: disconnect_def stratum_ok_def split: if_splits)

lemma ok_connect: "stratum_ok s \<Longrightarrow> stratum_ok (fst (connect s))" "st_socket (fst (connect s))"
  by (simp_all add: connect_def stratum_ok_def)

lemma ok_connect_handler: "st_socket s \<Longrightarrow> connect_handler v ec hs s = Inr (s', os) \<Longrightarrow> stratum_ok s'"
  by (auto simp: connect_handler_def andThen_def bindE_Inr_iff Let_def reset_work_timeout_def stratum_ok_def disconnect_def
      split: if_splits)

lemma ok_socket: "st_socket s \<Longrightarrow> stratum_ok s"
  by (simp add: stratum_ok_def)

lemma same_socket_notify:
  "notify_nicehash rnd api p job s = Inr (s', os) \<Longrightarrow> st_socket s' = st_socket s \<and> st_connected s' = st_connected s"
  "notify_plain api p i job s = Inr (s', os) \<Longrightarrow> st_socket s' = st_socket s \<and> st_connected s' = st_connected s"
  by (auto simp: notify_nicehash_def notify_plain_def bindE_Inr_iff Let_def reset_work_timeout_def split: if_splits)

lemma same_socket_extranonce:
  "set_extranonce api p i s = Inr s' \<Longrightarrow> st_socket s' = st_socket s"
  by (auto simp: set_extranonce_def processExtranonce_def bindE_Inr_iff split: if_splits)

lemma same_socket_work: "notify rnd api p i s = Inr (s', os) \<Longrightarrow> st_socket s' = st_socket s"
proof (cases "j_isArray api p")
  case True
  assume n: "notify rnd api p i s = Inr (s', os)"
  define t where "t = (if m_response_pending s then s\<lparr>m_stale := True\<rparr> else s)"
  have "st_socket t = st_socket s" by (simp add: t_def)
  moreover obtain job where "notify_nicehash rnd api p job t = Inr (s', os) \<or> notify_plain api p i job t = Inr (s', os)"
    using n True by (auto simp: notify_def bindE_Inr_iff Let_def t_def split: if_splits)
  ultimately show ?thesis using same_socket_notify by metis
qed (simp add: notify_def)

lemma same_socket_difficulty: "set_difficulty api p s = Inr (s', os) \<Longrightarrow> st_socket s' = st_socket s"
  by (auto simp: set_difficulty_def split: if_splits option.splits)

lemma ok_notification:
  assumes "st_socket s" "notification rnd v api r i s = Inr (s', os)"
  shows "st_socket s'"
proof -
  have keep: "notify rnd api p k s = Inr (s', os) \<Longrightarrow> st_socket s'" "set_difficulty api p s = Inr (s', os) \<Longrightarrow> st_socket s'"
      "bindE (set_extranonce api p k s) (\<lambda>s. Inr (s, [])) = Inr (s', os) \<Longrightarrow> st_socket s'" for p k
    using assms(1) by (auto simp: bindE_Inr_iff dest: same_socket_work same_socket_difficulty same_socket_extranonce)
  show ?thesis
    using assms(2) unfolding notification_def Let_def bindE_Inr_iff [of "if pc_version (m_connection s) = 1 then _ else _"]
    by (elim exE conjE) (use assms(1) in \<open>auto split: if_split_asm dest: keep\<close>)
qed

text \<open>Whatever the pool sends, a client with a socket never dereferences a null one.\<close>

lemma ok_processReponse:
  assumes "st_socket s" "processReponse rnd v api r s = Inr (s', os)"
  shows "stratum_ok s'"
proof -
  consider "subscribed api r s = Inr (s', os)" | t where "disconnect t = Inr (s', os)" | "st_socket s'"
    | i where "notification rnd v api r i s = Inr (s', os)"
    using assms by (auto simp: processReponse_def bindE_Inr_iff Let_def split: if_splits)
  then show ?thesis
  proof cases
    case 1
    then have "st_socket s'"
      using assms(1) by (auto simp: subscribed_def bindE_Inr_iff Let_def dest: same_socket_extranonce split: if_splits)
    then show ?thesis by (rule ok_socket)
  next
    case (2 t)
    then show ?thesis by (rule ok_disconnect)
  next
    case 3
    then show ?thesis by (rule ok_socket)
  next
    case (4 i)
    then show ?thesis by (rule ok_socket [OF ok_notification [OF assms(1)]])
  qed
qed

text \<open>A notification without a share target throws.\<close>

lemma short_target_throws:
  assumes "json_laws api" "notify_message api r job header seed target height" "pc_version (m_connection s) = 0" "length target < 2"
  shows "processReponse rnd v api r s = Inl StringOutOfRange"
proof -
  obtain p where p: "processReponse rnd v api r s = notify rnd api p 1 s" "j_isArray api p"
    "as_string api (json_at api p 0 (j_string api [])) = Inr job"
    "as_string api (json_at api p 1 (j_string api [])) = Inr header"
    "as_string api (json_at api p 2 (j_string api [])) = Inr seed"
    "as_string api (json_at api p 3 (j_string api [])) = Inr target"
    "as_int api (json_at api p 4 (j_string api [])) = Inr height"
    using notify_dispatch [OF assms(1-3)] by blast
  have "fix_share_target target = Inl StringOutOfRange" using assms(4) by (simp add: fix_share_target_def)
  then show ?thesis using p assms(3) by (simp add: notify_def notify_plain_def Let_def del: One_nat_def)
qed

lemma worker_without_dot: "CHR ''.'' \<notin> set u \<Longrightarrow> login_worker u = u \<and> login_user u = u"
  by (simp add: login_worker_def login_user_def takeWhile_eq_all_conv)
    blast

section \<open>Properties\<close>

text \<open>
  C24: a well-formed work notification of the plain protocol with a new header is handed on exactly:
  header, job and height are those of the message, the epoch is the first one with the given seed, the
  boundary has the numeric value of the (possibly shortened) share target, and the timeout is restarted;
  a notification with the current header has no effect but marking a pending answer stale.
\<close>

theorem stratum_notify_work:
  assumes "json_laws api" "notify_message api r job header seed (''0x'' @ ds) height" "pc_version (m_connection s) = 0"
    "is_hash_text job" "is_hash_text header" "is_hash_text seed" "all_hex ds" "length ds \<le> 64"
    "aux_reachable (st_aux s)" "e < 2048" "epoch_seed e = unhex (hex_digits seed)"
  shows "if unhex (hex_digits header) = wp_header (m_current s)
    then processReponse rnd v api r s = Inr (s\<lparr>m_stale := m_stale s \<or> m_response_pending s\<rparr>, [])
    else \<exists>s' w. processReponse rnd v api r s = Inr (s', [Notify (EvWorkReceived w)]) \<and> m_current s' = w \<and> m_worktimer s' \<and>
      wp_header w = unhex (hex_digits header) \<and> wp_job w = unhex (hex_digits job) \<and> wp_height w = of_int height \<and>
      first_epoch (unhex (hex_digits seed)) (nat (wp_epoch w)) \<and> FixedHash_to_arith 32 (wp_boundary w) = hex_value ds"
proof -
  obtain p where p: "processReponse rnd v api r s = notify rnd api p 1 s" "j_isArray api p"
    "as_string api (json_at api p 0 (j_string api [])) = Inr job"
    "as_string api (json_at api p 1 (j_string api [])) = Inr header"
    "as_string api (json_at api p 2 (j_string api [])) = Inr seed"
    "as_string api (json_at api p 3 (j_string api [])) = Inr (''0x'' @ ds)"
    "as_int api (json_at api p 4 (j_string api [])) = Inr height"
    using notify_dispatch [OF assms(1-3)] by blast
  define t where "t = s\<lparr>m_stale := m_stale s \<or> m_response_pending s\<rparr>"
  have t: "m_current t = m_current s" "st_aux t = st_aux s" by (simp_all add: t_def)
  have "(if m_response_pending s then s\<lparr>m_stale := True\<rparr> else s) = t" by (simp add: t_def)
  then have n: "processReponse rnd v api r s = notify_plain api p 1 job t"
    using p(1-3) assms(3) by (simp add: notify_def Let_def t_def)
  show ?thesis
  proof (cases "unhex (hex_digits header) = wp_header (m_current s)")
    case True
    obtain tt where tt: "fix_share_target (''0x'' @ ds) = Inr tt" using fix_share_target_hex [OF assms(7,8)] by blast
    have "notify_plain api p 1 job t = Inr (t, [])"
      using p(4-7) tt True hash_of_text [OF assms(5)] by (simp add: notify_plain_def t del: One_nat_def)
    with n True show ?thesis by (simp add: t_def)
  next
    case False
    then have "unhex (hex_digits header) \<noteq> wp_header (m_current t)" by (simp add: t)
    from notify_plain_new [OF p(4-7) assms(4-8) _ assms(10,11) this] assms(9) t(2)
    show ?thesis using n False by (metis (no_types, lifting))
  qed
qed

theorem stratum_notify_work_witness:
  "\<exists>s' w. processReponse id ''1'' demo_api demo_notify (demo_stratum 0) = Inr (s', [Notify (EvWorkReceived w)]) \<and>
     FixedHash_to_arith 32 (wp_boundary w) = hex_value ''ff''"
proof -
  have "unhex (hex_digits (replicate 64 CHR ''b'')) = replicate 32 187"
    using unhex_replicate [of "CHR ''b''" 11 32] hex_digits_replicate [of "CHR ''b''" 64] by (simp add: fromHex_char_def)
  then have "unhex (hex_digits (replicate 64 CHR ''b'')) \<noteq> wp_header (m_current (demo_stratum 0))"
    by (simp add: demo_stratum_def WorkPackage_default_def h256_zero_def)
  then show ?thesis
    using stratum_notify_work [OF demo_notify_facts(1,2) _ demo_notify_facts(3-5,7) _ _ _ demo_notify_facts(6),
        of "demo_stratum 0" id "''1''"]
    by (auto simp: demo_stratum_def intro: aux_reachable.start)
qed

text \<open>
  The extra nonce of \<open>EthereumStratum\<close> is lost: an extra nonce of up to eight digits is stored left-aligned
  in the 64-bit value, but the start nonce of the work package keeps only its low 32 bits, which are zero.
\<close>

theorem extranonce_lost:
  assumes "all_hex en" "length en \<le> 8"
  shows "\<exists>s'. processExtranonce en s = Inr s' \<and> m_extraNonceHexSize s' = length en \<and>
    be_value (m_extraNonce s') = hex_value en * 16 ^ (16 - length en) \<and> start_nonce_of (m_extraNonce s') = 0"
proof -
  let ?t = "en @ replicate (16 - length en) CHR ''0''"
  have ah: "all_hex ?t" using assms(1) by simp
  have len: "length ?t = 16" using assms(2) by simp
  have h: "hash_of 8 ?t = Inr (unhex ?t)" using hash_of_hex [of ?t 8] ah len by (simp add: all_hex_digits)
  have v: "be_value (unhex ?t) = hex_value en * 16 ^ (16 - length en)"
    using be_value_unhex [OF _ ah] len by (simp add: hex_value_zeros)
  have "16 - length en = 8 + (8 - length en)" using assms(2) by simp
  then have "(16 :: nat) ^ (16 - length en) = 16 ^ 8 * 16 ^ (8 - length en)" by (simp only: power_add)
  then have "2 ^ 32 dvd be_value (unhex ?t)" by (simp add: v)
  then have "(of_nat (be_value (unhex ?t)) :: u32) = 0" by (simp add: word_of_nat_eq_0_iff)
  then have "start_nonce_of (unhex ?t) = 0" using start_nonce_value [of "unhex ?t"] len by (simp add: length_unhex)
  then show ?thesis by (simp add: processExtranonce_def h v)
qed

theorem extranonce_lost_witness: "\<exists>s'. processExtranonce ''af4c'' (demo_stratum 2) = Inr s' \<and> start_nonce_of (m_extraNonce s') = 0"
  using extranonce_lost [of "''af4c''" "demo_stratum 2"] by (auto simp: all_hex_def fromHex_char_def)

text \<open>
  The job identifier survives: a lower-case hexadecimal identifier of up to 64 digits received from
  an \<open>EthereumStratum\<close> pool is sent back unchanged with a solution of that work, followed by the nonce
  without its first digits, as many as the extra nonce has.
\<close>

theorem nicehash_job_echoed:
  assumes "notify_nicehash rnd api p job s = Inr (s', [Notify (EvWorkReceived w)])" "lower_hex job" "length job \<le> 64"
    "sol_work sol = w" "pc_version (m_connection t) = 2" "m_extraNonceHexSize t \<le> 16"
  shows \<open>submission_json sol t = Inr (line (''{"id": 4, "method": "mining.submit", "params": ["'' @ pc_user (m_connection t) @
      ''","'' @ job @ ''","'' @ drop (m_extraNonceHexSize t) (toHex_u64 (sol_nonce sol)) @ ''"]}''))\<close>
proof -
  let ?t = "resize 64 CHR ''0'' job"
  have lh: "lower_hex ?t" "length ?t = 64" using assms(2,3) by (simp_all add: resize_def)
  then have ah: "all_hex ?t" by (simp add: lower_hex_all_hex)
  have h: "hash_of 32 ?t = Inr (unhex ?t)" using hash_of_hex [of ?t 32] ah lh(2) by (simp add: all_hex_digits)
  have w: "wp_job w = unhex ?t" "wp_job_len w = int (length job)"
    using assms(1) by (auto simp: notify_nicehash_def bindE_Inr_iff h Let_def split: if_splits)
  have "hash_hex (unhex ?t) = ?t" using hex_pairs_unhex [of ?t] lh by (simp add: hash_hex_def toHex_pairs)
  then have "take (length job) (hash_hex (unhex ?t)) = job" using assms(3) by (simp add: resize_def)
  then show ?thesis
    using assms(4-6) w by (simp add: submission_json_def substr_def Let_def length_toHex_u64)
qed

definition demo_params :: demo_json where
  "demo_params = DArr [DStr ''bf'', DStr (replicate 64 CHR ''0''), DStr (replicate 64 CHR ''b''), DInt 7]"

definition demo_solution :: "WorkPackage \<Rightarrow> Solution" where
  "demo_solution w = \<lparr>sol_nonce = 77, sol_mixHash = h256_zero, sol_work = w, sol_stale = False\<rparr>"

theorem nicehash_job_echoed_witness:
  "\<exists>s' w. notify_nicehash id demo_api demo_params ''bf'' (demo_stratum 2) = Inr (s', [Notify (EvWorkReceived w)]) \<and>
     (\<exists>pre post. submission_json (demo_solution w) s' = Inr (pre @ ''bf'' @ post))"
proof -
  have z: "toEpoch (replicate 32 0) aux_init = (Inr 0, aux_init)" by (simp add: toEpoch_def aux_init_def h256_zero_def)
  have h: "hash_of 32 (replicate 64 CHR ''0'') = Inr (replicate 32 0)" "hash_of 32 (replicate 64 CHR ''b'') = Inr (replicate 32 187)"
    using hash_of_text(1) [OF demo_notify_facts(5)] hash_of_text(1) [OF demo_notify_facts(4)]
      unhex_replicate [of "CHR ''0''" 0 32] hex_digits_replicate [of "CHR ''0''" 64]
      unhex_replicate [of "CHR ''b''" 11 32] hex_digits_replicate [of "CHR ''b''" 64] by (simp_all add: fromHex_char_def)
  have lb: "lower_hex ''bf''"
    by (auto simp: lower_hex_def hex_char_def intro: exI [of _ 11] exI [of _ 15])
  have "resize 64 CHR ''0'' ''bf'' = ''bf'' @ replicate 62 CHR ''0''" by (simp add: resize_def)
  then have lh: "lower_hex (resize 64 CHR ''0'' ''bf'')" using lb by (simp only: lower_hex_zeros)
  then have j: "\<exists>b. hash_of 32 (resize 64 CHR ''0'' ''bf'') = Inr b"
    using hash_of_hex [of "resize 64 CHR ''0'' ''bf''" 32] lower_hex_all_hex [OF lh]
    by (simp add: all_hex_digits resize_def)
  then obtain s' w where n: "notify_nicehash id demo_api demo_params ''bf'' (demo_stratum 2) = Inr (s', [Notify (EvWorkReceived w)])"
      "pc_version (m_connection s') = 2" "m_extraNonceHexSize s' = 0"
    by (auto simp: notify_nicehash_def as_string_def as_int_def json_at_def demo_api_def demo_params_def h epoch_of_def z
        demo_stratum_def Let_def reset_work_timeout_def)
  have "\<exists>pre post. submission_json (demo_solution w) s' = Inr (pre @ ''bf'' @ post)"
    using nicehash_job_echoed [OF n(1) lb _ _ n(2), of "demo_solution w"] n(3)
    by (intro exI [of _ \<open>''{"id": 4, "method": "mining.submit", "params": ["'' @ pc_user (m_connection s') @ ''","''\<close>]
        exI [of _ \<open>''","'' @ toHex_u64 77 @ ''"]}'' @ [CHR 0x0A]\<close>]) (simp add: demo_solution_def line_def)
  with n(1) show ?thesis by blast
qed

end
