(* ===== verification/Clients.thy ===== *)
theory Clients
  imports Stratum BlockHeader
begin

text \<open>
  The other two pool clients: \<^verbatim>\<open>libpoolprotocols/getwork/EthGetworkClient.{h,cpp}\<close> with the calls of the generated
  stub \<^verbatim>\<open>jsonrpc_getwork.h\<close>, and \<^verbatim>\<open>libpoolprotocols/testing/SimulateClient.{h,cpp}\<close>.  Each operation and
  each round of a work loop is one step that returns the new state and what it does outward: remote calls and
  callbacks of the pool manager.  The answers of the server, random hashes and elapsed times are arguments of
  the steps.  Both clients are instances of the interface \<open>pool_client\<close> of the pool manager.
\<close>

section \<open>Getwork\<close>

record getwork =
  gw_conn :: PoolConnection
  gw_connection_changed :: bool
  gw_connected :: bool
  gw_url :: "string option"
  m_farmRecheckPeriod :: u32
  m_currentHashrateToSubmit :: string
  m_solutionToSubmit :: Solution
  m_justConnected :: bool
  m_client_id :: h256
  m_prevWorkPackage :: WorkPackage

datatype gw_out = Rpc string "string list" | Callback client_event

definition no_solution :: Solution where
  "no_solution = \<lparr>sol_nonce = 0, sol_mixHash = h256_zero, sol_work = WorkPackage_default, sol_stale = False\<rparr>"

definition EthGetworkClient_new :: "u32 \<Rightarrow> getwork" where
  "EthGetworkClient_new farmRecheckPeriod = \<lparr>gw_conn = PoolConnection_default, gw_connection_changed = True, gw_connected = False, gw_url = None,
     m_farmRecheckPeriod = farmRecheckPeriod, m_currentHashrateToSubmit = [], m_solutionToSubmit = no_solution, m_justConnected = False,
     m_client_id = h256_zero, m_prevWorkPackage = WorkPackage_default\<rparr>"

definition gw_setConnection :: "PoolConnection \<Rightarrow> getwork \<Rightarrow> getwork" where
  "gw_setConnection conn s = s\<lparr>gw_conn := conn, gw_connection_changed := True\<rparr>"

definition gw_connect :: "h256 \<Rightarrow> getwork \<Rightarrow> getwork" where
  "gw_connect random_id s =
     (let s1 = (if gw_connection_changed s
                then s\<lparr>gw_url := Some (''http://'' @ pc_host (gw_conn s) @ '':'' @ to_string (unat (pc_port (gw_conn s))) @ pc_path (gw_conn s))\<rparr> else s)
      in s1\<lparr>m_client_id := random_id, gw_connection_changed := False, m_justConnected := True\<rparr>)"

definition gw_disconnect :: "getwork \<Rightarrow> getwork \<times> gw_out list" where
  "gw_disconnect s = (s\<lparr>gw_connected := False, m_justConnected := False\<rparr>, [Callback EvDisconnected])"

definition gw_submitHashrate :: "string \<Rightarrow> getwork \<Rightarrow> getwork" where
  "gw_submitHashrate r s = s\<lparr>m_currentHashrateToSubmit := r\<rparr>"

definition gw_submitSolution :: "Solution \<Rightarrow> getwork \<Rightarrow> getwork" where
  "gw_submitSolution sol s = s\<lparr>m_solutionToSubmit := sol\<rparr>"

text \<open>\<open>answer\<close> is the boolean of the server, \<open>None\<close> a \<open>JsonRpcException\<close>, also the one the stub throws for another
  type.\<close>

definition submit_call :: "Solution \<Rightarrow> gw_out" where
  "submit_call sol = Rpc ''eth_submitWork''
     [''0x'' @ toHex_u64 (sol_nonce sol), ''0x'' @ hash_hex (wp_header (sol_work sol)), ''0x'' @ hash_hex (sol_mixHash sol)]"

text \<open>\<open>during\<close> is a solution that \<open>submitSolution\<close> stores, on another thread, while the call is under way: the
  arguments have been read before, and the nonce is reset after it.\<close>

definition gw_submit :: "bool option \<Rightarrow> Solution option \<Rightarrow> getwork \<Rightarrow> getwork \<times> gw_out list" where
  "gw_submit answer during s =
     (let sol = m_solutionToSubmit s in
      if sol_nonce sol = 0 then (s, [])
      else
        let s1 = (case during of None \<Rightarrow> s | Some sol' \<Rightarrow> gw_submitSolution sol' s) in
        case answer of
          None \<Rightarrow> (s1, [submit_call sol])
        | Some accepted \<Rightarrow> (s1\<lparr>m_solutionToSubmit := (m_solutionToSubmit s1)\<lparr>sol_nonce := 0\<rparr>\<rparr>,
            [submit_call sol, Callback (if accepted then EvAccepted False else EvRejected False)]))"

text \<open>The array answered to \<open>eth_getWork\<close>: \<open>None\<close> stands for an element \<open>asString\<close> refuses; a missing element is the null
  value, whose string is empty.\<close>

datatype gw_reply = RpcException | RpcArray "string option list"

definition elem_string :: "string option list \<Rightarrow> nat \<Rightarrow> serror + string" where
  "elem_string vs i = (if i < length vs then (case vs ! i of None \<Rightarrow> Inl JsonError | Some t \<Rightarrow> Inr t) else Inr [])"

definition right_aligned :: "string \<Rightarrow> h256" where
  "right_aligned t = (case fromHex t DontThrow of Inl _ \<Rightarrow> h256_zero | Inr b \<Rightarrow> FixedHash_of_bytes 32 b AlignRight)"

definition gw_getWork :: "gw_reply \<Rightarrow> getwork \<Rightarrow> ethash_aux \<Rightarrow> serror + getwork \<times> gw_out list \<times> ethash_aux" where
  "gw_getWork reply s aux =
     (case reply of
        RpcException \<Rightarrow> let (s', out) = gw_disconnect s in Inr (s', out, aux)
      | RpcArray vs \<Rightarrow>
          bindE (bindE (elem_string vs 0) (hash_of 32)) (\<lambda>header.
          bindE (bindE (elem_string vs 1) (hash_of 32)) (\<lambda>seed.
          bindE (epoch_of seed aux) (\<lambda>(epoch, aux').
          bindE (elem_string vs 3) (\<lambda>height.
            let (s1, out1) = (if m_justConnected s then (s\<lparr>m_justConnected := False, gw_connected := True\<rparr>, [Callback EvConnected]) else (s, []))
            in if header \<noteq> wp_header (m_prevWorkPackage s1) then
                 bindE (elem_string vs 2) (\<lambda>target.
                   let w = (m_prevWorkPackage s1)\<lparr>wp_header := header, wp_epoch := epoch, wp_height := sc_value (strtoul 0 height),
                         wp_boundary := right_aligned target\<rparr>
                   in Inr (s1\<lparr>m_prevWorkPackage := w\<rparr>, out1 @ [Callback (EvWorkReceived w)], aux'))
               else Inr (s1, out1, aux'))))))"

definition gw_hashrate :: "getwork \<Rightarrow> getwork \<times> gw_out list" where
  "gw_hashrate s =
     (if m_currentHashrateToSubmit s = [] then (s, [])
      else (s\<lparr>m_currentHashrateToSubmit := []\<rparr>, [Rpc ''eth_submitHashrate'' [m_currentHashrateToSubmit s, ''0x'' @ hash_hex (m_client_id s)]]))"

text \<open>One round of \<open>workLoop\<close>; an exception that is no \<open>JsonRpcException\<close> leaves the loop.  A solution stored while no
  \<open>eth_submitWork\<close> is under way counts as stored between two rounds.\<close>

definition gw_round :: "bool option \<Rightarrow> Solution option \<Rightarrow> gw_reply \<Rightarrow> getwork \<Rightarrow> ethash_aux \<Rightarrow> serror + getwork \<times> gw_out list \<times> ethash_aux" where
  "gw_round answer during reply s aux =
     (if gw_connected s \<or> m_justConnected s then
        let (s1, out1) = gw_submit answer during s in
        bindE (gw_getWork reply s1 aux) (\<lambda>(s2, out2, aux').
          let (s3, out3) = gw_hashrate s2 in Inr (s3, out1 @ [Rpc ''eth_getWork'' []] @ out2 @ out3, aux'))
      else Inr (s, [], aux))"

text \<open>The loop \<^verbatim>\<open>while (true)\<close> for the rounds in which the environment behaves as listed.\<close>

fun gw_rounds :: "(bool option \<times> Solution option \<times> gw_reply) list \<Rightarrow> getwork \<Rightarrow> ethash_aux \<Rightarrow> serror + getwork \<times> gw_out list \<times> ethash_aux" where
  "gw_rounds [] s aux = Inr (s, [], aux)"
| "gw_rounds ((answer, during, reply) # rs) s aux =
     bindE (gw_round answer during reply s aux) (\<lambda>(s1, out1, aux1).
     bindE (gw_rounds rs s1 aux1) (\<lambda>(s2, out2, aux2). Inr (s2, out1 @ out2, aux2)))"

section \<open>Simulation\<close>

record simulator =
  sim_connected :: bool
  m_uppDifficulty :: bool
  m_sim_difficulty :: u32
  m_block :: u32
  m_time :: nat
  sim_genesis :: BlockHeader
  sim_current :: WorkPackage

text \<open>The client with the block and package its work loop prepares.\<close>

definition SimulateClient_new :: "(nat \<Rightarrow> int) \<Rightarrow> u32 \<Rightarrow> u32 \<Rightarrow> nat \<Rightarrow> rlp_error + simulator" where
  "SimulateClient_new to_int difficulty block now =
     (let genesis = setNumber (unat block) BlockHeader_default in
      bindE (WorkPackage_of_header to_int genesis) (\<lambda>current.
        Inr \<lparr>sim_connected = False, m_uppDifficulty = False, m_sim_difficulty = difficulty - 1, m_block = block, m_time = now,
             sim_genesis = genesis, sim_current = current\<rparr>))"

definition sim_connect :: "simulator \<Rightarrow> simulator \<times> client_event list" where
  "sim_connect s = (s\<lparr>sim_connected := True, m_uppDifficulty := True\<rparr>, [EvConnected])"

definition sim_disconnect :: "simulator \<Rightarrow> simulator \<times> client_event list" where
  "sim_disconnect s = (s\<lparr>sim_connected := False\<rparr>, [EvDisconnected])"

definition sim_submitSolution :: "Solution \<Rightarrow> simulator \<Rightarrow> ethash_aux \<Rightarrow> ethash_error + simulator \<times> client_event list \<times> ethash_aux" where
  "sim_submitSolution sol s aux =
     (case eval (wp_epoch (sol_work sol)) (wp_header (sol_work sol)) (sol_nonce sol) aux of
        (Inl e, aux') \<Rightarrow> Inl e
      | (Inr r, aux') \<Rightarrow>
          Inr (s\<lparr>m_uppDifficulty := True\<rparr>, [if hash_less (res_value r) (wp_boundary (sol_work sol)) then EvAccepted False else EvRejected False], aux'))"

definition next_difficulty :: "nat \<Rightarrow> u32 \<Rightarrow> u32" where
  "next_difficulty sec d = (let d1 = (if sec < 12 then d + 1 else d) in if 18 < sec then d1 - 1 else d1)"

text \<open>One round of the work loop; \<open>now\<close> is in seconds.  \<^verbatim>\<open>u256(1) << m_difficulty\<close> drops the bits above 255.\<close>

definition sim_round :: "nat \<Rightarrow> h256 \<Rightarrow> simulator \<Rightarrow> simulator \<times> client_event list" where
  "sim_round now random_hash s =
     (if sim_connected s \<and> m_uppDifficulty s then
        let d = next_difficulty (now - m_time s) (m_sim_difficulty s);
            (b, genesis) = boundary (noteDirty (setDifficulty (2 ^ unat d mod 2 ^ 256) (sim_genesis s)));
            w = (sim_current s)\<lparr>wp_header := random_hash, wp_boundary := b\<rparr>
        in (s\<lparr>m_uppDifficulty := False, m_sim_difficulty := d, m_time := now, sim_genesis := genesis, sim_current := w\<rparr>, [EvWorkReceived w])
      else (s, []))"

section \<open>The interface of the manager\<close>

definition gw_events :: "gw_out list \<Rightarrow> client_event list" where
  "gw_events os = concat (map (\<lambda>x. case x of Callback e \<Rightarrow> [e] | _ \<Rightarrow> []) os)"

definition getwork_disconnect :: "getwork \<Rightarrow> (getwork \<times> client_event list) option" where
  "getwork_disconnect s = (case gw_disconnect s of (s', out) \<Rightarrow> Some (s', gw_events out))"

interpretation gw: pool_client getwork_disconnect gw_connected "\<lambda>_. True"
  by unfold_locales (simp add: getwork_disconnect_def gw_disconnect_def gw_events_def)

interpretation sim: pool_client "\<lambda>s. Some (sim_disconnect s)" sim_connected "\<lambda>_. True"
  by unfold_locales (simp add: sim_disconnect_def)

text \<open>Stopping the manager with either client ends the mining and is not undone by the callback.\<close>

lemma getwork_stop_final:
  assumes "gw_connected c" "m_running m" "active_connection m \<noteq> Inl NoSuchConnection" "PoolManager_stop True m = (m', cmds)"
  shows "\<exists>c'. getwork_disconnect c = Some (c', [EvDisconnected]) \<and> \<not> gw_connected c' \<and> \<not> isMining (m_farm m') \<and>
    onDisconnected (gw_connected c') m' = Inr (m', [])"
  by (rule gw.stop_is_final [of c m m' cmds]) (use assms in auto)

lemma simulator_stop_final:
  assumes "sim_connected c" "m_running m" "active_connection m \<noteq> Inl NoSuchConnection" "PoolManager_stop True m = (m', cmds)"
  shows "\<exists>c'. sim_disconnect c = (c', [EvDisconnected]) \<and> \<not> sim_connected c' \<and> \<not> isMining (m_farm m') \<and>
    onDisconnected (sim_connected c') m' = Inr (m', [])"
  by (rule sim.stop_is_final [of c m m' cmds]) (use assms in auto)

section \<open>Properties\<close>

text \<open>The calls for solutions in a round.\<close>

definition submits :: "gw_out list \<Rightarrow> gw_out list" where
  "submits out = filter (\<lambda>x. case x of Rpc f _ \<Rightarrow> f = ''eth_submitWork'' | _ \<Rightarrow> False) out"

lemma submits_simps [simp]:
  "submits [] = []" "submits (a @ b) = submits a @ submits b" "submits (Callback e # out) = submits out"
  "submits (submit_call sol # out) = submit_call sol # submits out" "submits (Rpc ''eth_getWork'' vs # out) = submits out"
  "submits (Rpc ''eth_submitHashrate'' vs # out) = submits out"
  by (simp_all add: submits_def submit_call_def)

abbreviation gw_live :: "getwork \<Rightarrow> bool" where
  "gw_live s \<equiv> gw_connected s \<or> m_justConnected s"

lemma gw_getWork_submits:
  "gw_getWork reply s aux = Inr (s', out, aux') \<Longrightarrow>
   submits out = [] \<and> m_solutionToSubmit s' = m_solutionToSubmit s \<and> (gw_live s' \<longleftrightarrow> reply \<noteq> RpcException \<and> gw_live s)"
  by (auto simp: gw_getWork_def gw_disconnect_def bindE_Inr_iff Let_def split: gw_reply.splits if_splits prod.splits)

lemma gw_hashrate_submits:
  "gw_hashrate s = (s', out) \<Longrightarrow> submits out = [] \<and> m_solutionToSubmit s' = m_solutionToSubmit s \<and> gw_live s' = gw_live s"
  by (auto simp: gw_hashrate_def split: if_splits)

lemma gw_round_Inr:
  assumes "gw_round answer during reply s aux = Inr (s', out, aux')" "gw_live s"
  obtains s1 out1 s2 out2 out3 where "gw_submit answer during s = (s1, out1)" "gw_getWork reply s1 aux = Inr (s2, out2, aux')"
    "gw_hashrate s2 = (s', out3)" "out = out1 @ [Rpc ''eth_getWork'' []] @ out2 @ out3"
proof -
  obtain s1 out1 where s1: "gw_submit answer during s = (s1, out1)" by fastforce
  with assms obtain s2 out2 where s2: "gw_getWork reply s1 aux = Inr (s2, out2, aux')"
      "(case gw_hashrate s2 of (s3, out3) \<Rightarrow> (s3, out1 @ [Rpc ''eth_getWork'' []] @ out2 @ out3)) = (s', out)"
    by (auto simp: gw_round_def bindE_Inr_iff split_def Let_def)
  obtain s3 out3 where "gw_hashrate s2 = (s3, out3)" by fastforce
  with s1 s2 show thesis by (intro that [of s1 out1 s2 out2 out3]) auto
qed

lemma gw_round_dead: "\<not> gw_live s \<Longrightarrow> gw_round answer during reply s aux = Inr (s, [], aux)"
  by (simp add: gw_round_def)

text \<open>The slot for the solution after a round that submits \<open>sol\<close>.\<close>

definition slot_after :: "bool option \<Rightarrow> Solution option \<Rightarrow> Solution \<Rightarrow> Solution" where
  "slot_after answer during sol =
     (let slot = (case during of None \<Rightarrow> sol | Some sol' \<Rightarrow> sol') in if answer = None then slot else slot\<lparr>sol_nonce := 0\<rparr>)"

lemma gw_round_submits:
  assumes "gw_round answer during reply s aux = Inr (s', out, aux')" "gw_live s"
  shows "submits out = (if sol_nonce (m_solutionToSubmit s) = 0 then [] else [submit_call (m_solutionToSubmit s)])"
    and "m_solutionToSubmit s' = (if sol_nonce (m_solutionToSubmit s) = 0 then m_solutionToSubmit s
      else slot_after answer during (m_solutionToSubmit s))"
    and "gw_live s' \<longleftrightarrow> reply \<noteq> RpcException"
  by (rule gw_round_Inr [OF assms];
      use assms(2) in \<open>auto simp: gw_submit_def gw_submitSolution_def slot_after_def Let_def split: if_splits option.splits
        dest!: gw_getWork_submits gw_hashrate_submits\<close>)+

lemma gw_rounds_Cons:
  assumes "gw_rounds ((answer, during, reply) # rs) s aux = Inr (s', out, aux')"
  obtains s1 out1 aux1 out2 where "gw_round answer during reply s aux = Inr (s1, out1, aux1)"
    "gw_rounds rs s1 aux1 = Inr (s', out2, aux')" "out = out1 @ out2"
  using assms by (auto simp: bindE_Inr_iff split_def)

text \<open>Rounds that submit nothing: the slot is empty, or the connection is lost.\<close>

lemma gw_rounds_silent:
  "gw_rounds rs s aux = Inr (s', out, aux') \<Longrightarrow> sol_nonce (m_solutionToSubmit s) = 0 \<or> \<not> gw_live s \<Longrightarrow>
   submits out = [] \<and> m_solutionToSubmit s' = m_solutionToSubmit s \<and> (\<not> gw_live s \<longrightarrow> s' = s)"
proof (induction rs arbitrary: s aux out)
  case (Cons x rs)
  obtain answer during reply where x: "x = (answer, during, reply)" by (cases x)
  obtain s1 out1 aux1 out2 where step: "gw_round answer during reply s aux = Inr (s1, out1, aux1)"
      "gw_rounds rs s1 aux1 = Inr (s', out2, aux')" "out = out1 @ out2"
    using Cons.prems(1) unfolding x by (rule gw_rounds_Cons)
  show ?case
  proof (cases "gw_live s")
    case True
    then have "sol_nonce (m_solutionToSubmit s) = 0" using Cons.prems(2) by simp
    with gw_round_submits [OF step(1) True] Cons.IH [OF step(2)] True step(3) show ?thesis by auto
  next
    case False
    with step(1) gw_round_dead [OF False] have "s1 = s" "out1 = []" by auto
    with Cons.IH [OF step(2)] False step(3) show ?thesis by auto
  qed
qed simp

text \<open>Rounds in which the submission fails and the work arrives.\<close>

lemma gw_rounds_failing:
  "gw_rounds (fails @ rs) s aux = Inr (s', out, aux') \<Longrightarrow> \<forall>(a, d, r) \<in> set fails. a = None \<and> d = None \<and> r \<noteq> RpcException \<Longrightarrow>
   gw_live s \<Longrightarrow> sol_nonce (m_solutionToSubmit s) \<noteq> 0 \<Longrightarrow>
   \<exists>s1 aux1 out2. gw_rounds rs s1 aux1 = Inr (s', out2, aux') \<and> gw_live s1 \<and> m_solutionToSubmit s1 = m_solutionToSubmit s \<and>
     submits out = replicate (length fails) (submit_call (m_solutionToSubmit s)) @ submits out2"
proof (induction fails arbitrary: s aux out)
  case (Cons x fails)
  obtain reply where x: "x = (None, None, reply)" "reply \<noteq> RpcException" using Cons.prems(2) by (cases x) auto
  obtain s1 out1 aux1 out2 where step: "gw_round None None reply s aux = Inr (s1, out1, aux1)"
      "gw_rounds (fails @ rs) s1 aux1 = Inr (s', out2, aux')" "out = out1 @ out2"
    using Cons.prems(1) unfolding x append_Cons by (rule gw_rounds_Cons)
  have "gw_live s1" "m_solutionToSubmit s1 = m_solutionToSubmit s" "submits out1 = [submit_call (m_solutionToSubmit s)]"
    using gw_round_submits [OF step(1) Cons.prems(3)] Cons.prems(4) x(2) by (auto simp: slot_after_def)
  with Cons.IH [OF step(2)] Cons.prems step(3) show ?case by fastforce
qed auto

lemma gw_slot:
  "sols \<noteq> [] \<Longrightarrow> m_solutionToSubmit (fold gw_submitSolution sols s) = last sols"
  "gw_live (fold gw_submitSolution sols s) = gw_live s"
  by (induction sols arbitrary: s) (auto simp: gw_submitSolution_def)

text \<open>
  C39: the getwork client has room for one solution.  Of all solutions handed to it between two rounds only
  the last one is submitted.  It is submitted again in every round as long as submitting fails and work
  arrives.  Once the server has answered, whatever else happens in that and all later rounds, nothing more is
  submitted until another solution is handed over: neither this solution again, nor one that was handed over
  while the answered call was under way, which is lost.  If a failed submission is followed by a failed request for
  work, the connection counts as lost: no later round submits anything, but the slot is kept, and the first round after
  a reconnection submits it.
\<close>

theorem getwork_keeps_last_solution:
  assumes "gw_connected s \<or> m_justConnected s" "sols \<noteq> []" "sol_nonce (last sols) \<noteq> 0"
    "\<forall>(a, d, r) \<in> set fails. a = None \<and> d = None \<and> r \<noteq> RpcException"
    "gw_rounds (fails @ (answer, during, reply) # rest) (fold gw_submitSolution sols s) aux = Inr (s', out, aux')"
  shows "(answer \<noteq> None \<longrightarrow> submits out = replicate (length fails + 1) (submit_call (last sols)) \<and>
       sol_nonce (m_solutionToSubmit s') = 0) \<and>
    (answer = None \<and> reply = RpcException \<longrightarrow> submits out = replicate (length fails + 1) (submit_call (last sols)) \<and>
       m_solutionToSubmit s' = (case during of None \<Rightarrow> last sols | Some sol' \<Rightarrow> sol') \<and>
       (\<forall>i a d r aux2 t out2 aux3. gw_round a d r (gw_connect i s') aux2 = Inr (t, out2, aux3) \<longrightarrow>
          submits out2 = (if sol_nonce (m_solutionToSubmit s') = 0 then [] else [submit_call (m_solutionToSubmit s')])))"
proof -
  let ?s = "fold gw_submitSolution sols s"
  obtain s1 aux1 out2 where f: "gw_rounds ((answer, during, reply) # rest) s1 aux1 = Inr (s', out2, aux')" "gw_live s1"
      "m_solutionToSubmit s1 = last sols" "submits out = replicate (length fails) (submit_call (last sols)) @ submits out2"
    using gw_rounds_failing [OF assms(5,4)] gw_slot(1) [OF assms(2), of s] gw_slot(2) [of sols s] assms(1,3) by auto
  obtain s2 out3 aux2 out4 where g: "gw_round answer during reply s1 aux1 = Inr (s2, out3, aux2)"
      "gw_rounds rest s2 aux2 = Inr (s', out4, aux')" "out2 = out3 @ out4"
    using f(1) by (rule gw_rounds_Cons)
  have slot: "m_solutionToSubmit s2 = slot_after answer during (last sols)" "submits out3 = [submit_call (last sols)]"
      "gw_live s2 \<longleftrightarrow> reply \<noteq> RpcException"
    using gw_round_submits [OF g(1) f(2)] f(3) assms(3) by auto
  have silent: "submits out4 = [] \<and> m_solutionToSubmit s' = m_solutionToSubmit s2"
    if "answer \<noteq> None \<or> reply = RpcException"
    using gw_rounds_silent [OF g(2)] that slot by (auto simp: slot_after_def Let_def)
  have "submits out = replicate (length fails + 1) (submit_call (last sols))" if "answer \<noteq> None \<or> reply = RpcException"
    using silent [OF that] slot(2) f(4) g(3) by (simp add: replicate_append_same)
  moreover have "submits out2 = (if sol_nonce (m_solutionToSubmit s') = 0 then [] else [submit_call (m_solutionToSubmit s')])"
    if "gw_round a d r (gw_connect i s') aux2 = Inr (t, out2, aux3)" for i a d r aux2 t out2 aux3
    using gw_round_submits(1) [OF that] by (simp add: gw_connect_def Let_def)
  ultimately show ?thesis using silent slot(1) by (auto simp: slot_after_def Let_def)
qed

definition demo_getwork :: getwork where
  "demo_getwork = (EthGetworkClient_new 500)\<lparr>gw_connected := True\<rparr>"

definition demo_sol :: "u64 \<Rightarrow> Solution" where
  "demo_sol n = no_solution\<lparr>sol_nonce := n\<rparr>"

text \<open>Nonces 5 and 9 are handed over; 9 is submitted and accepted, and nonce 11, handed over meanwhile, never is.\<close>

theorem getwork_keeps_last_solution_witness:
  "\<exists>s' out aux'. gw_rounds [(Some True, Some (demo_sol 11), RpcException), (None, None, RpcException)]
      (fold gw_submitSolution [demo_sol 5, demo_sol 9] demo_getwork) aux_init = Inr (s', out, aux') \<and>
    submits out = [submit_call (demo_sol 9)] \<and> sol_nonce (m_solutionToSubmit s') = 0"
proof -
  let ?rounds = "[] @ (Some True, Some (demo_sol 11), RpcException) # [(None, None, RpcException)]"
  obtain s' out aux' where r: "gw_rounds ?rounds (fold gw_submitSolution [demo_sol 5, demo_sol 9] demo_getwork) aux_init = Inr (s', out, aux')"
    by (simp add: gw_round_def gw_submit_def gw_getWork_def gw_disconnect_def gw_hashrate_def gw_submitSolution_def demo_getwork_def
        demo_sol_def EthGetworkClient_new_def Let_def)
  from getwork_keeps_last_solution [OF _ _ _ _ r] show ?thesis
    using r by (simp add: demo_getwork_def demo_sol_def no_solution_def)
qed

text \<open>
  After a lost connection the miners stay idle while the server repeats its work.  The client has told the manager that
  the connection is lost and, when the server answers again, that it is back; the manager has stopped the miners
  and started new ones, which have no work, but a package with the header of the last one is not delivered.
\<close>

lemma onDisconnected_farm:
  assumes "onDisconnected b m = Inr (m1, cmds)" "m_miners (m_farm m) = [] \<or> isMining (m_farm m)"
  shows "m_miners (m_farm m1) = [] \<and> m_minerType m1 = m_minerType m"
proof -
  have "m_miners (m_farm (shut_down_miners m)) = []" "m_minerType (shut_down_miners m) = m_minerType m"
    using assms(2) by (auto simp: shut_down_miners_def stop_def)
  moreover have "m_miners (m_farm (fst (tryReconnect b n))) = []" "m_minerType (fst (tryReconnect b n)) = m_minerType n"
    if "m_miners (m_farm n) = []" for n
    using that by (auto simp: tryReconnect_def PoolManager_stop_def shut_down_miners_def stop_def set_pool_addresses_def Let_def)
  ultimately show ?thesis using assms(1) by (auto simp: onDisconnected_def bindE_Inr_iff Let_def split: if_splits) (metis fst_conv)+
qed

lemma farm_start_fresh:
  "farm_start sealer False f = Inr g \<Longrightarrow> m_miners f = [] \<Longrightarrow> mi \<in> set (m_miners g) \<Longrightarrow> mi_work mi = WorkPackage_default"
  by (auto simp: farm_start_def start_def new_miner_def Let_def split: if_splits option.splits service.splits)

lemma reconnected_miners_idle:
  assumes "onDisconnected b m = Inr (m1, cmds)" "onConnected m1 = Inr m2" "m_minerType m \<noteq> Mixed" "m_miners (m_farm m) = [] \<or> isMining (m_farm m)"
    "mi \<in> set (m_miners (m_farm m2))"
  shows "mi_work mi = WorkPackage_default"
  using onDisconnected_farm [OF assms(1,4)] assms(2,3,5)
  by (auto simp: onConnected_def spin_up_def bindE_Inr_iff split: if_splits MinerType.splits dest: farm_start_fresh)

theorem getwork_reconnect_without_work:
  assumes "gw_round answer during (RpcArray vs) (gw_connect i (fst (gw_disconnect s))) aux = Inr (s', out, aux')"
    "bindE (elem_string vs 0) (hash_of 32) = Inr (wp_header (m_prevWorkPackage s))"
  shows "EvConnected \<in> set (gw_events out) \<and> (\<forall>w. EvWorkReceived w \<notin> set (gw_events out)) \<and> gw_connected s'"
proof -
  have d: "m_justConnected (gw_connect i (fst (gw_disconnect s)))" "m_prevWorkPackage (gw_connect i (fst (gw_disconnect s))) = m_prevWorkPackage s"
    by (simp_all add: gw_connect_def gw_disconnect_def Let_def)
  show ?thesis
    using assms d
    by (auto simp: gw_round_def gw_submit_def gw_submitSolution_def gw_getWork_def gw_hashrate_def gw_events_def submit_call_def
        bindE_Inr_iff Let_def split: if_splits option.splits prod.splits)
qed

text \<open>
  A round of the simulation that raises new work announces the random header with the boundary \<open>2^(256 - d)\<close> of the adapted
  difficulty exponent \<open>d\<close>.
\<close>

theorem simulation_difficulty:
  assumes "sim_connected s" "m_uppDifficulty s" "d = next_difficulty (now - m_time s) (m_sim_difficulty s)" "0 < unat d" "unat d < 256"
  shows "\<exists>s' w. sim_round now h s = (s', [EvWorkReceived w]) \<and> wp_header w = h \<and>
    FixedHash_to_arith 32 (wp_boundary w) = 2 ^ (256 - unat d) \<and> m_sim_difficulty s' = d"
proof -
  let ?g = "noteDirty (setDifficulty (2 ^ unat d mod 2 ^ 256) (sim_genesis s))"
  obtain b g where b: "boundary ?g = (b, g)" by fastforce
  have p: "2 ^ unat d < (2 :: nat) ^ 256" using assms(5) by (simp only: power_strict_increasing_iff)
  have "?g = setDifficulty (2 ^ unat d) (sim_genesis s)" unfolding mod_less [OF p] by (simp add: setDifficulty_def noteDirty_def)
  with boundary_of_difficulty [OF p, of "sim_genesis s" b g] b
  have "FixedHash_to_arith 32 b = (if 2 ^ unat d \<le> (1 :: nat) then 0 else 2 ^ 256 div 2 ^ unat d)" by simp
  moreover have "\<not> 2 ^ unat d \<le> (1 :: nat)" using assms(4) one_less_power [of "2 :: nat" "unat d"] by simp
  moreover have "(2 :: nat) ^ 256 div 2 ^ unat d = 2 ^ (256 - unat d)" using assms(5) by (simp only: power_diff_power_eq) simp
  ultimately have v: "FixedHash_to_arith 32 b = 2 ^ (256 - unat d)" by metis
  show ?thesis using assms(1,2) assms(3) [symmetric] b v by (simp add: sim_round_def Let_def)
qed

end
