(* ===== verification/Api.thy ===== *)
theory Api
  imports PoolManager
begin

text \<open>
  The remote interface: \<^verbatim>\<open>libapicore/Api.cpp\<close> (which port and mode) and \<^verbatim>\<open>libapicore/ApiServer.cpp\<close> (the
  methods).  The JSON-RPC server is not part of the repository; a call is the lookup of the method among those
  registered.  \<open>fmt\<close> stands for the output of \<open>rate / 1000.0f\<close> without decimals, \<open>project_version\<close> for the generated build
  information, and the handles of the hardware monitor are those of \<^verbatim>\<open>Farm\<close>.
\<close>

section \<open>Port and mode\<close>

text \<open>The port to listen on and whether the server is read-only.\<close>

definition Api_new :: "int \<Rightarrow> (int \<times> bool) option" where
  "Api_new port =
     (let (portNumber, readonly) = (if 0 < port then (port, False) else if port < 0 then (- port, True) else (port, True))
      in if 0 < portNumber then Some (portNumber, readonly) else None)"

definition api_methods :: "bool \<Rightarrow> string list" where
  "api_methods readonly = [''miner_getstat1'', ''miner_getstathr''] @ (if readonly then [] else [''miner_restart'', ''miner_reboot''])"

section \<open>Statistics\<close>

definition running_minutes :: "nat \<Rightarrow> farm \<Rightarrow> nat" where
  "running_minutes now f = (now - m_farm_launched f) div 60000000000"

text \<open>Entries separated inside the loop, with no separator behind the last one.\<close>

definition separated :: "string \<Rightarrow> string list \<Rightarrow> string" where
  "separated sep xs = concat (map (\<lambda>i. xs ! i @ (if int i < int (length xs) - 1 then sep else [])) [0..<length xs])"

definition getMinerStat1 :: "(u64 \<Rightarrow> string) \<Rightarrow> string \<Rightarrow> hw_handle option \<Rightarrow> hw_handle option \<Rightarrow> hw_handle option \<Rightarrow> nat \<Rightarrow> farm \<Rightarrow>
    string list \<times> farm" where
  "getMinerStat1 fmt project_version nvmlh adlh sysfsh now f =
     (let s = m_solutionStats f;
          (p, f') = miningProgress nvmlh adlh sysfsh True False f
      in ([project_version,
           to_string (running_minutes now f),
           fmt (rate p) @ '';'' @ to_string (unat (accepts s)) @ '';'' @ to_string (unat (rejects s)),
           separated '';'' (map (\<lambda>h. fmt (minerRate p h)) (minersHashes p)),
           ''0;0;0'',
           separated '';'' (map (\<lambda>h. ''off'') (minersHashes p)),
           separated ''; '' (map (\<lambda>i. to_string (unat (tempC i)) @ '';'' @ to_string (unat (fanP i))) (minerMonitors p)),
           m_pool_addresses f,
           to_string (unat (failures s)) @ '';0;0;0''], f'))"

record stat_hr =
  hr_version :: string
  hr_runtime :: string
  hr_ethhashrate :: u64
  hr_ethhashrates :: "u64 list"
  hr_ethshares :: u32
  hr_ethrejected :: u32
  hr_ethinvalid :: u32
  hr_ethpoolsw :: nat
  hr_temperatures :: "u32 list"
  hr_fanpercentages :: "u32 list"
  hr_powerusages :: "u32 list"
  hr_pooladdrs :: string

text \<open>The power is given in milliwatts, as in \<^verbatim>\<open>Farm\<close>.\<close>

definition getMinerStatHR :: "string \<Rightarrow> hw_handle option \<Rightarrow> hw_handle option \<Rightarrow> hw_handle option \<Rightarrow> nat \<Rightarrow> farm \<Rightarrow> stat_hr \<times> farm" where
  "getMinerStatHR project_version nvmlh adlh sysfsh now f =
     (let s = m_solutionStats f;
          (p, f') = miningProgress nvmlh adlh sysfsh True True f
      in (\<lparr>hr_version = project_version, hr_runtime = to_string (running_minutes now f), hr_ethhashrate = rate p,
           hr_ethhashrates = map (minerRate p) (minersHashes p), hr_ethshares = accepts s, hr_ethrejected = rejects s,
           hr_ethinvalid = failures s, hr_ethpoolsw = 0, hr_temperatures = map tempC (minerMonitors p),
           hr_fanpercentages = map fanP (minerMonitors p), hr_powerusages = map powerMW (minerMonitors p), hr_pooladdrs = m_pool_addresses f\<rparr>, f'))"

section \<open>Calls\<close>

datatype api_response = MethodNotFound | Stat1 "string list" | StatHR stat_hr | NoValue

text \<open>\<open>miner_restart\<close> runs the restart handler of the pool manager.\<close>

definition api_call :: "(u64 \<Rightarrow> string) \<Rightarrow> string \<Rightarrow> hw_handle option \<Rightarrow> hw_handle option \<Rightarrow> hw_handle option \<Rightarrow> nat \<Rightarrow> bool \<Rightarrow> string \<Rightarrow>
    manager \<Rightarrow> pm_error + api_response \<times> manager" where
  "api_call fmt project_version nvmlh adlh sysfsh now readonly name m =
     (if name \<notin> set (api_methods readonly) then Inr (MethodNotFound, m)
      else if name = ''miner_getstat1'' then
        let (r, f) = getMinerStat1 fmt project_version nvmlh adlh sysfsh now (m_farm m) in Inr (Stat1 r, m\<lparr>m_farm := f\<rparr>)
      else if name = ''miner_getstathr'' then
        let (r, f) = getMinerStatHR project_version nvmlh adlh sysfsh now (m_farm m) in Inr (StatHR r, m\<lparr>m_farm := f\<rparr>)
      else if name = ''miner_restart'' then bindE (onMinerRestart m) (\<lambda>m'. Inr (NoValue, m'))
      else Inr (NoValue, m))"

section \<open>Facts\<close>

lemma miningProgress_frame: "snd (miningProgress n a y hw pw f) = f\<lparr>m_progress := fst (miningProgress n a y hw pw f)\<rparr>"
  by (simp add: miningProgress_def Let_def)

lemma length_monitors: "length (minerMonitors (fst (miningProgress n a y True pw f))) = length (m_miners f)"
proof -
  have "minerMonitors (fold add_progress ps p) = minerMonitors p" for ps p
    by (induction ps arbitrary: p) (simp_all add: add_progress_def)
  then show ?thesis by (simp add: miningProgress_def Let_def)
qed

text \<open>
  A read-only server cannot disturb the mining: whatever method is called, the only thing of the manager that changes is the
  cached progress of the farm.  In particular \<open>miner_restart\<close> is not found there.
\<close>

theorem readonly_api_harmless:
  "\<exists>r p. api_call fmt v n a y now True name m = Inr (r, m\<lparr>m_farm := (m_farm m)\<lparr>m_progress := p\<rparr>\<rparr>) \<and>
    (name \<in> {''miner_restart'', ''miner_reboot''} \<longrightarrow> r = MethodNotFound)"
proof -
  have same: "m = m\<lparr>m_farm := (m_farm m)\<lparr>m_progress := m_progress (m_farm m)\<rparr>\<rparr>" by simp
  have s1: "snd (getMinerStat1 fmt v n a y now f) = f\<lparr>m_progress := fst (miningProgress n a y True False f)\<rparr>" for f
    using miningProgress_frame [of n a y True False f] by (simp add: getMinerStat1_def split_def Let_def)
  have s2: "snd (getMinerStatHR v n a y now f) = f\<lparr>m_progress := fst (miningProgress n a y True True f)\<rparr>" for f
    using miningProgress_frame [of n a y True True f] by (simp add: getMinerStatHR_def split_def Let_def)
  consider "name = ''miner_getstat1''" | "name = ''miner_getstathr''" | "name \<notin> set (api_methods True)" by (auto simp: api_methods_def)
  then show ?thesis
  proof cases
    case 1
    then show ?thesis using s1 [of "m_farm m"] by (auto simp: api_call_def api_methods_def split_def)
  next
    case 2
    then show ?thesis using s2 [of "m_farm m"] by (auto simp: api_call_def api_methods_def split_def)
  next
    case 3
    then have "api_call fmt v n a y now True name m = Inr (MethodNotFound, m)" by (simp add: api_call_def)
    with same show ?thesis by metis
  qed
qed

text \<open>The detailed answer has one temperature, fan speed and power value for every miner.\<close>

theorem stat_hr_per_miner:
  "getMinerStatHR v n a y now f = (r, g) \<Longrightarrow>
    length (hr_temperatures r) = length (m_miners f) \<and> length (hr_fanpercentages r) = length (m_miners f) \<and>
    length (hr_powerusages r) = length (m_miners f)"
  using length_monitors [of n a y True f] by (auto simp: getMinerStatHR_def split_def Let_def)

theorem api_port_mode: "Api_new port = (if port = 0 then None else Some (\<bar>port\<bar>, port < 0))"
  by (simp add: Api_new_def)

end
