(* ===== verification/PoolSystem.thy ===== *)
theory PoolSystem
  imports PoolManager
begin

text \<open>
  The pool manager together with the farm it drives, as \<^verbatim>\<open>MinerCLI::doMiner\<close> puts them together: a step relation over all
  handlers of \<^verbatim>\<open>PoolManager\<close> and the steps of \<^verbatim>\<open>Farm\<close> that happen in between, in any order, and the invariant of the states it
  reaches.
\<close>

section \<open>Steps\<close>

text \<open>The steps of the manager with its farm: the calls of \<open>doMiner\<close>, the callbacks of the client and of the farm, the ticks of
  the work loop, and what the miners and the timer do to the farm in between.\<close>

inductive manager_step :: "manager \<Rightarrow> manager \<Rightarrow> bool" where
  ms_tries: "manager_step m (setReconnectTries n m)"
| ms_add: "manager_step m (fst (addConnection conn m))"
| ms_start: "manager_step m (fst (PoolManager_start m))"
| ms_stop: "manager_step m (fst (PoolManager_stop connected m))"
| ms_connected: "onConnected m = Inr m' \<Longrightarrow> manager_step m m'"
| ms_disconnected: "onDisconnected connected m = Inr (m', cmds) \<Longrightarrow> manager_step m m'"
| ms_work: "onWorkReceived w now m = Inr m' \<Longrightarrow> manager_step m m'"
| ms_accepted: "manager_step m (onSolutionAccepted stale m)"
| ms_rejected: "manager_step m (onSolutionRejected stale m)"
| ms_restart: "onMinerRestart m = Inr m' \<Longrightarrow> manager_step m m'"
| ms_tick: "manager_step m (fst (workLoop_tick m))"
| ms_hashes: "manager_step m (m\<lparr>m_farm := (m_farm m)\<lparr>m_miners := (m_miners (m_farm m))[i := addHashCount n (m_miners (m_farm m) ! i)]\<rparr>\<rparr>)"
| ms_timer: "manager_step m (m\<lparr>m_farm := processHashRate ec now (m_farm m)\<rparr>)"
| ms_failed: "manager_step m (m\<lparr>m_farm := failedSolution (m_farm m)\<rparr>)"
| ms_progress: "manager_step m (m\<lparr>m_farm := snd (miningProgress nv adl sysfs hwmon pw (m_farm m))\<rparr>)"

inductive manager_reachable :: "manager \<Rightarrow> bool" where
  init: "manager_reachable (PoolManager_new (setSealers s (farm_new scrambler now)) t)"
| step: "manager_reachable m \<Longrightarrow> manager_step m m' \<Longrightarrow> manager_reachable m'"

section \<open>Invariant\<close>

definition manager_inv :: "manager \<Rightarrow> bool" where
  "manager_inv m \<longleftrightarrow> farm_inv (m_farm m) \<and> (m_running m \<longrightarrow> m_connections m \<noteq> []) \<and>
     m_activeConnectionIdx m < max 1 (length (m_connections m))"

lemma farm_start_inv: "farm_inv f \<Longrightarrow> mixed \<or> \<not> isMining f \<Longrightarrow> farm_start sealer mixed f = Inr g \<Longrightarrow> farm_inv g"
  using farm_inv_start [of f mixed sealer] by (auto simp: farm_start_def split: prod.splits start_result.splits)

lemma spin_up_inv: "farm_inv f \<Longrightarrow> \<not> isMining f \<Longrightarrow> spin_up t f = Inr g \<Longrightarrow> farm_inv g"
  by (auto simp: spin_up_def bindE_Inr_iff split: MinerType.splits dest: farm_start_inv)

lemma stop_inv: "farm_inv f \<Longrightarrow> farm_inv (stop f)"
  by (rule farm_inv_step [OF fs_stop])

lemma shut_down_simps [simp]:
  "m_running (shut_down_miners m) = m_running m" "m_connections (shut_down_miners m) = m_connections m"
  "m_activeConnectionIdx (shut_down_miners m) = m_activeConnectionIdx m" "m_minerType (shut_down_miners m) = m_minerType m"
  "m_reconnectTry (shut_down_miners m) = m_reconnectTry m"
  by (simp_all add: shut_down_miners_def)

lemma shut_down_idle [simp]: "\<not> isMining (m_farm (shut_down_miners m))"
  by (simp add: shut_down_miners_def stop_def isMining_def)

lemma manager_inv_shut_down: "manager_inv m \<Longrightarrow> manager_inv (shut_down_miners m)"
  by (simp add: manager_inv_def) (simp add: shut_down_miners_def stop_inv)

lemma manager_inv_farm: "manager_inv m \<Longrightarrow> farm_step (m_farm m) f \<Longrightarrow> manager_inv (m\<lparr>m_farm := f\<rparr>)"
  using farm_inv_step by (auto simp: manager_inv_def)

lemma manager_inv_stop: "manager_inv m \<Longrightarrow> manager_inv (fst (PoolManager_stop b m))"
  using manager_inv_shut_down [of "m\<lparr>m_running := False\<rparr>"] by (simp add: PoolManager_stop_def manager_inv_def)

lemma next_pool_index_less: "0 < n \<Longrightarrow> next_pool_index n i < n"
  by (simp add: next_pool_index_def)

lemma manager_inv_reconnect:
  assumes "manager_inv m"
  shows "manager_inv (fst (tryReconnect b m))"
proof -
  let ?i = "next_pool_index (length (m_connections m)) (m_activeConnectionIdx m)"
  let ?m = "m\<lparr>m_reconnectTry := 0, m_activeConnectionIdx := ?i\<rparr>"
  have i: "manager_inv ?m" if "m_connections m \<noteq> []"
    using assms that next_pool_index_less [of "length (m_connections m)"] by (simp add: manager_inv_def less_max_iff_disj)
  have "manager_inv (fst (PoolManager_stop b ?m))" "manager_inv (?m\<lparr>m_farm := set_pool_addresses h p (m_farm ?m)\<rparr>)"
    if "m_connections m \<noteq> []" for h p
    using manager_inv_stop [OF i] manager_inv_farm [OF i fs_pool] that by simp_all
  then show ?thesis using assms
    by (auto simp: tryReconnect_def Let_def manager_inv_def simp del: max.commute)
qed

lemma manager_inv_step: "manager_step m m' \<Longrightarrow> manager_inv m \<Longrightarrow> manager_inv m'"
proof (induction rule: manager_step.induct)
  case (ms_add m conn)
  then show ?case using farm_inv_step [OF fs_pool]
    by (auto simp: addConnection_def Let_def manager_inv_def)
next
  case (ms_connected m m')
  then show ?case by (auto simp: onConnected_def bindE_Inr_iff manager_inv_def split: if_splits dest: spin_up_inv)
next
  case (ms_disconnected connected m m' cmds)
  then show ?case using manager_inv_shut_down [of m] manager_inv_reconnect [of "shut_down_miners m" connected]
    by (auto simp: onDisconnected_def bindE_Inr_iff Let_def split: if_splits)
next
  case (ms_work w now m m')
  then show ?case using farm_inv_step [OF fs_setWork]
    by (auto simp: onWorkReceived_def Let_def bindE_Inr_iff manager_inv_def split: if_splits)
next
  case (ms_restart m m')
  then show ?case using manager_inv_shut_down [of m]
    by (auto simp: onMinerRestart_def Let_def bindE_Inr_iff manager_inv_def dest: spin_up_inv)
next
  case (ms_tick m)
  have "farm_inv (snd (miningProgress None None None False False (m_farm m)))"
    using ms_tick farm_inv_step [OF fs_progress] by (simp add: manager_inv_def)
  then show ?case using ms_tick by (auto simp: workLoop_tick_def Let_def manager_inv_def split_def)
next
  case (ms_stop m connected)
  then show ?case by (rule manager_inv_stop)
next
  case (ms_accepted m stale)
  then show ?case unfolding onSolutionAccepted_def by (rule manager_inv_farm) (rule fs_accepted)
next
  case (ms_rejected m stale)
  then show ?case unfolding onSolutionRejected_def by (rule manager_inv_farm) (rule fs_rejected)
next
  case (ms_hashes m i n)
  then show ?case by (rule manager_inv_farm) (rule fs_hashes)
next
  case (ms_timer m ec now)
  then show ?case by (rule manager_inv_farm) (rule fs_timer)
next
  case (ms_failed m)
  then show ?case by (rule manager_inv_farm) (rule fs_failed)
next
  case (ms_progress m nv adl sysfs hwmon pw)
  then show ?case by (rule manager_inv_farm) (rule fs_progress)
qed (auto simp: manager_inv_def setReconnectTries_def PoolManager_start_def)

lemma manager_reachable_inv: "manager_reachable m \<Longrightarrow> manager_inv m"
proof (induction rule: manager_reachable.induct)
  case (init s scrambler now t)
  have "farm_inv (setSealers s (farm_new scrambler now))"
    by (rule farm_reachable_inv [OF farm_reachable.step [OF farm_reachable.start fs_sealers]])
  then show ?case by (simp add: manager_inv_def PoolManager_new_def)
qed (rule manager_inv_step)

lemma reconnect_goes_on:
  assumes "m_connections m \<noteq> []" "m_running m"
  shows "Connect \<in> set (snd (tryReconnect b m)) \<or> \<not> m_running (fst (tryReconnect b m))"
  using assms by (auto simp: tryReconnect_def PoolManager_stop_def Let_def)

section \<open>Properties\<close>

text \<open>
  C22: the pool manager and its farm stay consistent in every order of events.  Whatever sequence of connections,
  disconnections, jobs, results, restarts, ticks and timer events has occurred, the miners are numbered
  consecutively and work on the farm's package or none; the active pool is one of the configured ones; and while the
  manager runs no handler accesses the pool list out of range, a found solution is submitted, and a lost
  connection is answered by another attempt to connect unless the manager stops.
\<close>

theorem manager_system_ok:
  assumes "manager_reachable m"
  shows "map mi_index (m_miners (m_farm m)) = [0..<length (m_miners (m_farm m))] \<and>
    (\<forall>mi \<in> set (m_miners (m_farm m)). mi_work mi = fm_work (m_farm m) \<or> mi_work mi = WorkPackage_default) \<and>
    (m_connections m \<noteq> [] \<longrightarrow> (\<exists>c \<in> set (m_connections m). active_connection m = Inr c)) \<and>
    (m_running m \<longrightarrow> onSolutionFound sol m = Inr [SubmitSolution sol] \<and>
      (\<exists>m' cmds. onDisconnected b m = Inr (m', cmds) \<and> (Connect \<in> set cmds \<or> \<not> m_running m')))"
proof -
  note inv = manager_reachable_inv [OF assms]
  have active: "\<exists>c \<in> set (m_connections m). active_connection m = Inr c" if "m_connections m \<noteq> []"
    using inv that by (auto simp: manager_inv_def active_connection_def less_max_iff_disj intro: nth_mem)
  have "onSolutionFound sol m = Inr [SubmitSolution sol] \<and>
      (\<exists>m' cmds. onDisconnected b m = Inr (m', cmds) \<and> (Connect \<in> set cmds \<or> \<not> m_running m'))" if run: "m_running m"
  proof -
    have c: "m_connections m \<noteq> []" using inv run by (simp add: manager_inv_def)
    obtain m' cmds where r: "tryReconnect b (shut_down_miners m) = (m', cmds)" by fastforce
    then have "Connect \<in> set cmds \<or> \<not> m_running m'" using reconnect_goes_on [of "shut_down_miners m" b] c run by simp
    then show ?thesis using active [OF c] run r by (auto simp: onSolutionFound_def onDisconnected_def Let_def)
  qed
  then show ?thesis using inv active by (auto simp: manager_inv_def farm_inv_def)
qed

text \<open>A manager with one pool, started.\<close>

theorem manager_system_ok_witness:
  "\<exists>m m' cmds. manager_reachable m \<and> m_running m \<and> onDisconnected False m = Inr (m', cmds) \<and> (Connect \<in> set cmds \<or> \<not> m_running m')"
proof -
  let ?m0 = "PoolManager_new (setSealers (\<lambda>_. None) (farm_new 0 0)) CUDA"
  let ?m = "fst (PoolManager_start (fst (addConnection (PoolConnection_default\<lparr>pc_host := ''pool''\<rparr>) ?m0)))"
  have r: "manager_reachable ?m" by (intro manager_reachable.step [OF manager_reachable.step [OF manager_reachable.init ms_add] ms_start])
  have "m_running ?m" by (simp add: PoolManager_start_def addConnection_def PoolManager_new_def Let_def)
  then show ?thesis using r manager_system_ok [OF r, of undefined False] by blast
qed

end
