(* ===== verification/HwMon.thy ===== *)
theory HwMon
  imports Farm CLib
begin

text \<open>
  Hardware monitoring: \<^verbatim>\<open>libhwmon/wrapnvml.{h,cpp}\<close>, \<^verbatim>\<open>libhwmon/wrapadl.{h,cpp}\<close> and \<^verbatim>\<open>libhwmon/wrapamdsysfs.{h,cpp}\<close>, as compiled on 64-bit Linux
  with CUDA and OpenCL.  The vendor libraries, the OpenCL runtime and the sysfs tree are not part of the repository: they
  are the records \<open>nvml_lib\<close>, \<open>adl_lib\<close>, \<open>cl_runtime\<close> and \<open>sysfs\<close>, arguments of the definitions.  What the farm sees of a
  handle is the record \<open>hw_handle\<close> of \<^verbatim>\<open>Farm\<close>; \<open>wild\<close> stands for what a read outside a table yields.  The results of double
  arithmetic and of \<^verbatim>\<open>atof\<close> are parameters.
\<close>

section \<open>Device tables\<close>

text \<open>The nested loops that relate two lists of devices: whenever \<open>i\<close> and \<open>j\<close> match, each is entered for the
  other.\<close>

definition match_step :: "(nat \<Rightarrow> nat \<Rightarrow> bool) \<Rightarrow> nat \<times> nat \<Rightarrow> int list \<times> int list \<Rightarrow> int list \<times> int list" where
  "match_step P ij tab = (case (ij, tab) of ((i, j), (a, b)) \<Rightarrow> if P i j then (a[i := int j], b[j := int i]) else (a, b))"

definition match_devices :: "(nat \<Rightarrow> nat \<Rightarrow> bool) \<Rightarrow> nat \<Rightarrow> nat \<Rightarrow> int list \<times> int list \<Rightarrow> int list \<times> int list" where
  "match_devices P n m tab = fold (match_step P) (List.product [0..<n] [0..<m]) tab"

text \<open>An element of a table, or whatever memory holds beside it.\<close>

definition table_at :: "(int \<Rightarrow> int) \<Rightarrow> int list \<Rightarrow> int \<Rightarrow> int" where
  "table_at wild tab i = (if 0 \<le> i \<and> i < int (length tab) then tab ! nat i else wild i)"

section \<open>The OpenCL runtime\<close>

text \<open>\<open>None\<close> where \<^verbatim>\<open>cl2.hpp\<close> throws.\<close>

record 'dev cl_runtime =
  cl_platforms :: "(string \<times> 'dev list option) list option"

datatype hw_error = ClException | IndexOutOfRange

definition cl_devices :: "string \<Rightarrow> 'dev cl_runtime \<Rightarrow> hw_error + 'dev list" where
  "cl_devices name rt =
     (case cl_platforms rt of
        None \<Rightarrow> Inl ClException
      | Some ps \<Rightarrow> (case filter (\<lambda>p. fst p = name) ps of
                      [] \<Rightarrow> Inr []
                    | p # _ \<Rightarrow> (case snd p of None \<Rightarrow> Inl ClException | Some ds \<Rightarrow> Inr ds)))"

section \<open>NVML\<close>

type_synonym pci_address = "u32 \<times> u32 \<times> u32"

text \<open>The library: which symbols it has, and its answers per device index.  \<open>nv_pci\<close> is what \<^verbatim>\<open>pciinfo\<close> holds after the
  call (domain, bus, device).\<close>

record nvml_lib =
  nv_has :: "string \<Rightarrow> bool"
  nv_count :: nat
  nv_pci :: "nat \<Rightarrow> pci_address"
  nv_name :: "nat \<Rightarrow> string option"
  nv_temperature :: "nat \<Rightarrow> u32 option"
  nv_fan :: "nat \<Rightarrow> u32 option"
  nv_power :: "nat \<Rightarrow> u32 option"

text \<open>CUDA: number of devices and their PCI positions, \<open>None\<close> where the call fails.\<close>

record cuda_pci =
  cp_count :: "nat option"
  cp_props :: "nat \<Rightarrow> pci_address option"

record wrap_nvml_handle =
  nvml_dll :: nvml_lib
  nvml_gpucount :: nat
  cuda_gpucount :: nat
  nvml_opencl_gpucount :: nat
  nvml_pci :: "pci_address list"
  nvml_cuda_device_id :: "int list"
  cuda_nvml_device_id :: "int list"
  nvml_opencl_device_id :: "int list"
  opencl_nvml_device_id :: "int list"

text \<open>Libraries opened and closed, for the handles' life cycle.\<close>

datatype lib_call = DlOpen | DlClose | LibInit | LibShutdown

definition nvml_symbols :: "string list" where
  "nvml_symbols = [''nvmlInit'', ''nvmlDeviceGetCount_v2'', ''nvmlDeviceGetHandleByIndex_v2'', ''nvmlDeviceGetPciInfo'',
     ''nvmlDeviceGetName'', ''nvmlDeviceGetTemperature'', ''nvmlDeviceGetFanSpeed'', ''nvmlDeviceGetPowerUsage'', ''nvmlShutdown'']"

text \<open>CUDA device \<open>i\<close> and NVML device \<open>j\<close> at the same position; the outer loop runs over CUDA devices.\<close>

definition cuda_nvml_match :: "cuda_pci \<Rightarrow> pci_address list \<Rightarrow> nat \<Rightarrow> nat \<Rightarrow> bool" where
  "cuda_nvml_match cuda pci i j \<longleftrightarrow> cp_props cuda i = Some (pci ! j)"

text \<open>NVML device \<open>i\<close> and OpenCL device \<open>j\<close>: bus and slot, without the domain; \<open>None\<close> where one of the two queries
  fails.\<close>

definition nvml_cl_match :: "pci_address list \<Rightarrow> (u32 \<times> u32) option list \<Rightarrow> nat \<Rightarrow> nat \<Rightarrow> bool" where
  "nvml_cl_match pci devs i j \<longleftrightarrow> devs ! j = Some (snd (pci ! i))"

definition wrap_nvml_create :: "nvml_lib option \<Rightarrow> cuda_pci \<Rightarrow> (u32 \<times> u32) option cl_runtime \<Rightarrow>
    (hw_error + wrap_nvml_handle option) \<times> lib_call list" where
  "wrap_nvml_create dll cuda rt =
     (case dll of
        None \<Rightarrow> (Inr None, [])
      | Some lib \<Rightarrow>
          if \<not> list_all (nv_has lib) nvml_symbols then (Inr None, [DlOpen, DlClose])
          else case cp_count cuda of
            None \<Rightarrow> (Inr None, [DlOpen, LibInit, DlClose])
          | Some cn \<Rightarrow>
              let n = nv_count lib;
                  pci = map (nv_pci lib) [0..<n];
                  (cuda_nvml, nvml_cuda) = match_devices (cuda_nvml_match cuda pci) cn n (replicate cn (-1), replicate n (-1))
              in (case cl_devices ''NVIDIA CUDA'' rt of
                    Inl e \<Rightarrow> Inl e
                  | Inr devs \<Rightarrow>
                      let (nvml_cl, cl_nvml) = match_devices (nvml_cl_match pci devs) n (length devs) (replicate n 0, replicate (length devs) 0)
                      in Inr (Some \<lparr>nvml_dll = lib, nvml_gpucount = n, cuda_gpucount = cn, nvml_opencl_gpucount = length devs, nvml_pci = pci,
                           nvml_cuda_device_id = nvml_cuda, cuda_nvml_device_id = cuda_nvml, nvml_opencl_device_id = nvml_cl,
                           opencl_nvml_device_id = cl_nvml\<rparr>),
                  [DlOpen, LibInit]))"

definition wrap_nvml_destroy :: "wrap_nvml_handle \<Rightarrow> int \<times> lib_call list" where
  "wrap_nvml_destroy h = (0, [LibShutdown, DlClose])"

definition wrap_nvml_get_gpucount :: "wrap_nvml_handle \<Rightarrow> int \<times> nat" where
  "wrap_nvml_get_gpucount h = (0, nvml_gpucount h)"

definition wrap_cuda_get_gpucount :: "wrap_nvml_handle \<Rightarrow> int \<times> nat" where
  "wrap_cuda_get_gpucount h = (0, cuda_gpucount h)"

text \<open>A query answers \<open>None\<close> where it returns -1 and leaves the output alone.\<close>

definition nvml_query :: "(nvml_lib \<Rightarrow> nat \<Rightarrow> 'a option) \<Rightarrow> wrap_nvml_handle \<Rightarrow> int \<Rightarrow> 'a option" where
  "nvml_query f h gpuindex = (if gpuindex < 0 \<or> int (nvml_gpucount h) \<le> gpuindex then None else f (nvml_dll h) (nat gpuindex))"

definition wrap_nvml_get_gpu_name :: "wrap_nvml_handle \<Rightarrow> int \<Rightarrow> string option" where
  "wrap_nvml_get_gpu_name = nvml_query nv_name"

definition wrap_nvml_get_tempC :: "wrap_nvml_handle \<Rightarrow> int \<Rightarrow> u32 option" where
  "wrap_nvml_get_tempC = nvml_query nv_temperature"

definition wrap_nvml_get_fanpcnt :: "wrap_nvml_handle \<Rightarrow> int \<Rightarrow> u32 option" where
  "wrap_nvml_get_fanpcnt = nvml_query nv_fan"

definition wrap_nvml_get_power_usage :: "wrap_nvml_handle \<Rightarrow> int \<Rightarrow> u32 option" where
  "wrap_nvml_get_power_usage = nvml_query nv_power"

definition nvml_hw :: "(int \<Rightarrow> int) \<Rightarrow> wrap_nvml_handle \<Rightarrow> hw_handle" where
  "nvml_hw wild h = \<lparr>cuda_device_id = table_at wild (cuda_nvml_device_id h), opencl_device_id = table_at wild (opencl_nvml_device_id h),
     get_tempC = wrap_nvml_get_tempC h, get_fanpcnt = wrap_nvml_get_fanpcnt h, get_power_usage = wrap_nvml_get_power_usage h\<rparr>"

section \<open>ADL\<close>

text \<open>One logical adapter: its index handle, its PCI position and its name.\<close>

record AdapterInfo =
  iAdapterIndex :: int
  iBusNumber :: int
  iDeviceNumber :: int
  iFunctionNumber :: int
  strAdapterName :: string

text \<open>The library: the adapters after \<^verbatim>\<open>ADL_Adapter_AdapterInfo_Get\<close>, the identifier of an adapter index (\<open>None\<close> when the call
  fails) and the sensors per adapter index.  \<open>adl_power\<close> gives the result code and what \<^verbatim>\<open>power\<close> holds after the call.\<close>

record adl_lib =
  adl_has :: "string \<Rightarrow> bool"
  adl_adapters :: "AdapterInfo list"
  adl_id :: "int \<Rightarrow> int option"
  adl_temperature :: "int \<Rightarrow> int option"
  adl_fan :: "int \<Rightarrow> int option"
  adl_power :: "int \<Rightarrow> int \<times> nat"

record wrap_adl_handle =
  adl_dll :: adl_lib
  adl_gpucount :: nat
  log_gpucount :: nat
  adl_opencl_gpucount :: nat
  phys_logi_device_id :: "int list"
  adl_devs :: "AdapterInfo list"
  adl_opencl_device_id :: "int list"
  opencl_adl_device_id :: "int list"

definition adl_symbols :: "string list" where
  "adl_symbols = [''ADL_Main_Control_Create'', ''ADL_Adapter_NumberOfAdapters_Get'', ''ADL_Adapter_AdapterInfo_Get'',
     ''ADL_Adapter_ID_Get'', ''ADL_Overdrive5_Temperature_Get'', ''ADL_Overdrive5_FanSpeed_Get'', ''ADL_Main_Control_Refresh'',
     ''ADL_Main_Control_Destroy'', ''ADL2_Main_Control_Create'', ''ADL_Main_Control_Destroy'', ''ADL2_Overdrive6_CurrentPower_Get'',
     ''ADL2_Main_Control_Refresh'']"

text \<open>One iteration over the logical adapters: the table, the number of physical adapters and the last identifier.\<close>

definition adl_step :: "adl_lib \<Rightarrow> AdapterInfo \<Rightarrow> int list \<times> nat \<times> int \<Rightarrow> int list \<times> nat \<times> int" where
  "adl_step lib a s =
     (case s of (phys, n, last_adapter) \<Rightarrow>
        case adl_id lib (iAdapterIndex a) of
          None \<Rightarrow> s
        | Some adapterID \<Rightarrow>
            let phys = phys[n := iAdapterIndex a]
            in if adapterID = last_adapter then (phys, n, last_adapter) else (phys, n + 1, adapterID))"

definition adl_physical :: "adl_lib \<Rightarrow> int list \<times> nat \<times> int" where
  "adl_physical lib = fold (adl_step lib) (adl_adapters lib) (replicate (length (adl_adapters lib)) 0, 0, 0)"

text \<open>The PCI topology of an OpenCL device of AMD, \<open>None\<close> when the query fails or it is of another type.  The three
  numbers are \<^verbatim>\<open>cl_char\<close>s.\<close>

type_synonym amd_topology = "(8 word \<times> 8 word \<times> 8 word) option"

definition topology_at :: "amd_topology \<Rightarrow> (int \<times> int \<times> int) \<Rightarrow> bool" where
  "topology_at t p \<longleftrightarrow> (case t of None \<Rightarrow> False | Some (b, d, f) \<Rightarrow> p = (sint b, sint d, sint f))"

text \<open>The adapter entry of a physical GPU: its adapter index taken as a position in the array.\<close>

definition adl_dev :: "AdapterInfo list \<Rightarrow> int list \<Rightarrow> nat \<Rightarrow> hw_error + AdapterInfo" where
  "adl_dev devs phys i =
     (let k = phys ! i in if 0 \<le> k \<and> k < int (length devs) then Inr (devs ! nat k) else Inl IndexOutOfRange)"

definition adl_cl_match :: "AdapterInfo list \<Rightarrow> int list \<Rightarrow> amd_topology list \<Rightarrow> nat \<Rightarrow> nat \<Rightarrow> bool" where
  "adl_cl_match adapters phys devs i j \<longleftrightarrow>
     (case adl_dev adapters phys i of
        Inl _ \<Rightarrow> False
      | Inr a \<Rightarrow> topology_at (devs ! j) (iBusNumber a, iDeviceNumber a, iFunctionNumber a))"

text \<open>An index out of range is met when some OpenCL device has a topology.\<close>

definition adl_tables :: "adl_lib \<Rightarrow> amd_topology cl_runtime \<Rightarrow> int list \<Rightarrow> nat \<Rightarrow> hw_error + nat \<times> int list \<times> int list" where
  "adl_tables lib rt phys n =
     (if n = 0 then Inr (0, [], [])
      else bindE (cl_devices ''AMD Accelerated Parallel Processing'' rt) (\<lambda>devs.
        if (\<exists>i \<in> {0..<n}. adl_dev (adl_adapters lib) phys i = Inl IndexOutOfRange) \<and> (\<exists>t \<in> set devs. t \<noteq> None) then Inl IndexOutOfRange
        else let (adl_cl, cl_adl) = match_devices (adl_cl_match (adl_adapters lib) phys devs) n (length devs)
                    (replicate n 0, replicate (length devs) 0)
             in Inr (length devs, adl_cl, cl_adl)))"

definition wrap_adl_create :: "adl_lib option \<Rightarrow> amd_topology cl_runtime \<Rightarrow> (hw_error + wrap_adl_handle option) \<times> lib_call list" where
  "wrap_adl_create dll rt =
     (case dll of
        None \<Rightarrow> (Inr None, [])
      | Some lib \<Rightarrow>
          if \<not> list_all (adl_has lib) adl_symbols then (Inr None, [DlOpen, DlClose])
          else let (phys, n, last_adapter) = adl_physical lib
               in (bindE (adl_tables lib rt phys n) (\<lambda>(m, adl_cl, cl_adl).
                     Inr (Some \<lparr>adl_dll = lib, adl_gpucount = n, log_gpucount = length (adl_adapters lib), adl_opencl_gpucount = m,
                       phys_logi_device_id = phys, adl_devs = adl_adapters lib, adl_opencl_device_id = adl_cl,
                       opencl_adl_device_id = cl_adl\<rparr>)),
                   [DlOpen, LibInit, LibInit]))"

definition wrap_adl_destroy :: "wrap_adl_handle \<Rightarrow> int \<times> lib_call list" where
  "wrap_adl_destroy h = (0, [LibShutdown, LibShutdown, DlClose])"

definition wrap_adl_get_gpucount :: "wrap_adl_handle \<Rightarrow> int \<times> nat" where
  "wrap_adl_get_gpucount h = (0, adl_gpucount h)"

definition adl_query :: "(adl_lib \<Rightarrow> int \<Rightarrow> 'a option) \<Rightarrow> wrap_adl_handle \<Rightarrow> int \<Rightarrow> 'a option" where
  "adl_query f h gpuindex =
     (if gpuindex < 0 \<or> int (adl_gpucount h) \<le> gpuindex then None else f (adl_dll h) (phys_logi_device_id h ! nat gpuindex))"

text \<open>\<^verbatim>\<open>memcpy\<close> of \<open>bufsize\<close> bytes of the entry's name or of the formatted position, up to the terminating null.\<close>

definition copied :: "nat \<Rightarrow> string \<Rightarrow> string" where
  "copied bufsize s = take bufsize (s @ [CHR 0x00])"

definition wrap_adl_get_gpu_name :: "wrap_adl_handle \<Rightarrow> int \<Rightarrow> nat \<Rightarrow> (hw_error + string) option" where
  "wrap_adl_get_gpu_name h gpuindex bufsize =
     (if gpuindex < 0 \<or> int (adl_gpucount h) \<le> gpuindex then None
      else Some (bindE (adl_dev (adl_devs h) (phys_logi_device_id h) (nat gpuindex)) (\<lambda>a. Inr (copied bufsize (strAdapterName a)))))"

definition wrap_adl_get_gpu_pci_id :: "wrap_adl_handle \<Rightarrow> int \<Rightarrow> nat \<Rightarrow> (hw_error + string) option" where
  "wrap_adl_get_gpu_pci_id h gpuindex bufsize =
     (if gpuindex < 0 \<or> int (adl_gpucount h) \<le> gpuindex then None
      else Some (bindE (adl_dev (adl_devs h) (phys_logi_device_id h) (nat gpuindex)) (\<lambda>a.
        Inr (copied bufsize (printf_x 4 0 @ '':'' @ printf_x 2 (iBusNumber a) @ '':'' @ printf_x 2 (iDeviceNumber a))))))"

text \<open>\<^verbatim>\<open>/\<close> on \<^verbatim>\<open>int\<close> truncates; the factor 3.90625 is 125/32, exact in a \<^verbatim>\<open>double\<close>.  The power is stored whatever
  the result code.\<close>

definition wrap_adl_get_tempC :: "wrap_adl_handle \<Rightarrow> int \<Rightarrow> u32 option" where
  "wrap_adl_get_tempC = adl_query (\<lambda>lib i. map_option (\<lambda>t. of_int (if t < 0 then - (- t div 1000) else t div 1000)) (adl_temperature lib i))"

definition wrap_adl_get_fanpcnt :: "wrap_adl_handle \<Rightarrow> int \<Rightarrow> u32 option" where
  "wrap_adl_get_fanpcnt = adl_query (\<lambda>lib i. map_option of_int (adl_fan lib i))"

definition wrap_adl_get_power_usage :: "wrap_adl_handle \<Rightarrow> int \<Rightarrow> u32 option" where
  "wrap_adl_get_power_usage = adl_query (\<lambda>lib i. Some (of_nat (snd (adl_power lib i) * 125 div 32)))"

definition adl_hw :: "(int \<Rightarrow> int) \<Rightarrow> wrap_adl_handle \<Rightarrow> hw_handle" where
  "adl_hw wild h = \<lparr>cuda_device_id = wild, opencl_device_id = table_at wild (opencl_adl_device_id h),
     get_tempC = wrap_adl_get_tempC h, get_fanpcnt = wrap_adl_get_fanpcnt h, get_power_usage = wrap_adl_get_power_usage h\<rparr>"

section \<open>sysfs\<close>

text \<open>The file system: contents of files, entries of directories, and whether reading a directory ends with an error.\<close>

record sysfs =
  fs_file :: "string \<Rightarrow> string option"
  fs_dir :: "string \<Rightarrow> string list option"
  fs_dir_error :: "string \<Rightarrow> bool"

record wrap_amdsysfs_handle =
  sysfs_gpucount :: nat
  sysfs_opencl_gpucount :: nat
  card_sysfs_device_id :: "int list"
  sysfs_hwmon_id :: "int list"
  sysfs_opencl_device_id :: "int list"
  opencl_sysfs_device_id :: "int list"

definition file_lines :: "sysfs \<Rightarrow> string \<Rightarrow> string list" where
  "file_lines fs name = (case fs_file fs name of None \<Rightarrow> [] | Some s \<Rightarrow> getlines s)"

text \<open>The value, which is stored in any case, and whether it was read.\<close>

definition getFileContentValue :: "sysfs \<Rightarrow> string \<Rightarrow> u32 \<times> bool" where
  "getFileContentValue fs name =
     (let r = strtoul 0 (case file_lines fs name of [] \<Rightarrow> [] | l # _ \<Rightarrow> l)
      in (ucast (sc_value r), \<not> sc_range r \<and> sc_converted r))"

text \<open>The number in a directory name \<^verbatim>\<open><prefix><digits>\<close>, and whether reading it sets \<^verbatim>\<open>errno\<close>.\<close>

definition dir_number :: "string \<Rightarrow> string \<Rightarrow> (u32 \<times> bool) option" where
  "dir_number prefix name =
     (if take (length prefix) name = prefix \<and> list_all is_digit (drop (length prefix) name)
      then let r = strtoul 10 (drop (length prefix) name) in Some (ucast (sc_value r), sc_range r) else None)"

definition card_step :: "string \<Rightarrow> u32 \<times> bool \<Rightarrow> u32 \<times> bool" where
  "card_step name s = (case (dir_number ''card'' name, s) of (None, _) \<Rightarrow> s | (Some (v, e), (n, err)) \<Rightarrow> (max n (v + 1), err \<or> e))"

definition hwmon_step :: "string \<Rightarrow> u32 \<times> bool \<Rightarrow> u32 \<times> bool" where
  "hwmon_step name s = (case (dir_number ''hwmon'' name, s) of (None, _) \<Rightarrow> s | (Some (v, e), (n, err)) \<Rightarrow> (min n v, e))"

definition card_dir :: "int \<Rightarrow> string" where
  "card_dir i = ''/sys/class/drm/card'' @ to_string (unat (of_int i :: u32)) @ ''/device''"

text \<open>One iteration of the loop that keeps the cards of AMD.\<close>

definition amd_step :: "sysfs \<Rightarrow> nat \<Rightarrow> int list \<times> int list \<times> nat \<Rightarrow> int list \<times> int list \<times> nat" where
  "amd_step fs i s =
     (case s of (ids, hw, n) \<Rightarrow>
        let ids = ids[n := -1]; hw = hw[n := -1]; (vendorId, ok) = getFileContentValue fs (card_dir (int i) @ ''/vendor'')
        in if \<not> ok \<or> vendorId \<noteq> 4098 then (ids, hw, n) else (ids[n := sint (of_nat i :: u32)], hw, n + 1))"

text \<open>The smallest hwmon directory of a card; \<open>None\<close> where the handle is given up.\<close>

definition hwmon_index :: "sysfs \<Rightarrow> int \<Rightarrow> int option" where
  "hwmon_index fs sysfsIdx =
     (if sysfsIdx < 0 then None
      else case fs_dir fs (card_dir sysfsIdx @ ''/hwmon'') of
        None \<Rightarrow> None
      | Some names \<Rightarrow>
          let (hwmonIndex, err) = fold hwmon_step names (-1, False)
          in if err \<or> fs_dir_error fs (card_dir sysfsIdx @ ''/hwmon'') \<or> hwmonIndex = -1 then None else Some (sint hwmonIndex))"

function hwmon_ids :: "sysfs \<Rightarrow> nat \<Rightarrow> int list \<Rightarrow> int list \<Rightarrow> nat \<Rightarrow> int list option" where
  "hwmon_ids fs n ids hw i =
     (if i < n then
        case hwmon_index fs (ids ! i) of None \<Rightarrow> None | Some k \<Rightarrow> hwmon_ids fs n ids (hw[i := k]) (i + 1)
      else Some hw)"
  by pat_completeness auto
termination
  by (relation "measure (\<lambda>(fs, n, ids, hw, i). n - i)") auto

declare hwmon_ids.simps [simp del]

subsection \<open>PCI positions\<close>

definition slot_name :: "string list \<Rightarrow> string option" where
  "slot_name lines =
     (case filter (\<lambda>l. 24 < length l \<and> take 13 l = ''PCI_SLOT_NAME'') lines of [] \<Rightarrow> None | l # _ \<Rightarrow> Some (take 12 (drop 14 l)))"

text \<open>The nonempty pieces between the characters \<^verbatim>\<open>:\<close> and \<^verbatim>\<open>.\<close>\<close>

fun pci_parts :: "string \<Rightarrow> string \<Rightarrow> string list" where
  "pci_parts cur [] = (if cur = [] then [] else [cur])"
| "pci_parts cur (c # s) =
     (if c = CHR '':'' \<or> c = CHR ''.'' then (if cur = [] then [] else [cur]) @ pci_parts [] s else pci_parts (cur @ [c]) s)"

definition pci_position :: "sysfs \<Rightarrow> int \<Rightarrow> hw_error + int \<times> int \<times> int" where
  "pci_position fs gpuindex =
     (case slot_name (file_lines fs (card_dir gpuindex @ ''/uevent'')) of
        None \<Rightarrow> Inr (0, 0, 0)
      | Some pciId \<Rightarrow>
          let ps = pci_parts [] pciId
          in if length ps < 4 then Inl IndexOutOfRange else Inr (atoi (ps ! 1), atoi (ps ! 2), atoi (ps ! 3)))"

definition sysfs_cl_match :: "sysfs \<Rightarrow> int list \<Rightarrow> amd_topology list \<Rightarrow> nat \<Rightarrow> nat \<Rightarrow> bool" where
  "sysfs_cl_match fs ids devs i j \<longleftrightarrow> (case pci_position fs (ids ! i) of Inl _ \<Rightarrow> False | Inr p \<Rightarrow> topology_at (devs ! j) p)"

definition sysfs_tables :: "sysfs \<Rightarrow> amd_topology cl_runtime \<Rightarrow> int list \<Rightarrow> nat \<Rightarrow> hw_error + nat \<times> int list \<times> int list" where
  "sysfs_tables fs rt ids n =
     (if n = 0 then Inr (0, [], [])
      else bindE (cl_devices ''AMD Accelerated Parallel Processing'' rt) (\<lambda>devs.
        if (\<exists>i \<in> {0..<n}. pci_position fs (ids ! i) = Inl IndexOutOfRange) \<and> (\<exists>t \<in> set devs. t \<noteq> None) then Inl IndexOutOfRange
        else let (fs_cl, cl_fs) = match_devices (sysfs_cl_match fs ids devs) n (length devs) (replicate n 0, replicate (length devs) 0)
             in Inr (length devs, fs_cl, cl_fs)))"

definition wrap_amdsysfs_create :: "sysfs \<Rightarrow> amd_topology cl_runtime \<Rightarrow> hw_error + wrap_amdsysfs_handle option" where
  "wrap_amdsysfs_create fs rt =
     (case fs_dir fs ''/sys/class/drm'' of
        None \<Rightarrow> Inr None
      | Some names \<Rightarrow>
          let (gpucount, err) = fold card_step names (0, False) in
          if err \<or> fs_dir_error fs ''/sys/class/drm'' then Inr None
          else let m = unat gpucount; (ids, hw, n) = fold (amd_step fs) [0..<m] (replicate m 0, replicate m 0, 0)
               in case hwmon_ids fs n ids hw 0 of
                    None \<Rightarrow> Inr None
                  | Some hw \<Rightarrow>
                      bindE (sysfs_tables fs rt ids n) (\<lambda>(k, fs_cl, cl_fs).
                        Inr (Some \<lparr>sysfs_gpucount = n, sysfs_opencl_gpucount = k, card_sysfs_device_id = ids, sysfs_hwmon_id = hw,
                          sysfs_opencl_device_id = fs_cl, opencl_sysfs_device_id = cl_fs\<rparr>)))"

definition wrap_amdsysfs_destroy :: "wrap_amdsysfs_handle \<Rightarrow> int" where
  "wrap_amdsysfs_destroy h = 0"

definition wrap_amdsysfs_get_gpucount :: "wrap_amdsysfs_handle \<Rightarrow> int \<times> nat" where
  "wrap_amdsysfs_get_gpucount h = (0, sysfs_gpucount h)"

subsection \<open>Queries\<close>

text \<open>The card of an index; the table is read before the index is compared with the number of cards.\<close>

definition sysfs_card :: "(int \<Rightarrow> int) \<Rightarrow> wrap_amdsysfs_handle \<Rightarrow> int \<Rightarrow> int option" where
  "sysfs_card wild h index =
     (let gpuindex = table_at wild (card_sysfs_device_id h) index
      in if gpuindex < 0 \<or> int (sysfs_gpucount h) \<le> index then None else Some gpuindex)"

definition wrap_amdsysfs_get_gpu_pci_id :: "(int \<Rightarrow> int) \<Rightarrow> sysfs \<Rightarrow> wrap_amdsysfs_handle \<Rightarrow> int \<Rightarrow> nat \<Rightarrow> string option" where
  "wrap_amdsysfs_get_gpu_pci_id wild fs h index bufsize =
     (case sysfs_card wild h index of
        None \<Rightarrow> None
      | Some g \<Rightarrow> map_option (copied bufsize) (slot_name (file_lines fs (card_dir g @ ''/uevent''))))"

text \<open>The directory of a card's sensors.\<close>

definition sensor_dir :: "(int \<Rightarrow> int) \<Rightarrow> wrap_amdsysfs_handle \<Rightarrow> int \<Rightarrow> string option" where
  "sensor_dir wild h index =
     (case sysfs_card wild h index of
        None \<Rightarrow> None
      | Some g \<Rightarrow>
          let k = table_at wild (sysfs_hwmon_id h) index
          in if k < 0 then None else Some (card_dir g @ ''/hwmon/hwmon'' @ to_string (unat (of_int k :: u32)) @ ''/''))"

text \<open>A temperature of zero, also one that cannot be read, leaves the output alone although 0 is returned.\<close>

definition wrap_amdsysfs_get_tempC :: "(int \<Rightarrow> int) \<Rightarrow> sysfs \<Rightarrow> wrap_amdsysfs_handle \<Rightarrow> int \<Rightarrow> u32 option" where
  "wrap_amdsysfs_get_tempC wild fs h index =
     (case sensor_dir wild h index of
        None \<Rightarrow> None
      | Some d \<Rightarrow> let temp = fst (getFileContentValue fs (d @ ''temp1_input'')) in if 0 < temp then Some (temp div 1000) else None)"

text \<open>\<open>percent a b\<close> is \<^verbatim>\<open>(unsigned int)(double(a) / double(b) * 100.0)\<close>; both differences are unsigned.\<close>

definition wrap_amdsysfs_get_fanpcnt :: "(u32 \<Rightarrow> u32 \<Rightarrow> u32) \<Rightarrow> (int \<Rightarrow> int) \<Rightarrow> sysfs \<Rightarrow> wrap_amdsysfs_handle \<Rightarrow> int \<Rightarrow> u32 option" where
  "wrap_amdsysfs_get_fanpcnt percent wild fs h index =
     (case sensor_dir wild h index of
        None \<Rightarrow> None
      | Some d \<Rightarrow>
          let pwm = fst (getFileContentValue fs (d @ ''pwm1''));
              pwmMax = fst (getFileContentValue fs (d @ ''pwm1_max''));
              pwmMin = fst (getFileContentValue fs (d @ ''pwm1_min''))
          in Some (percent (pwm - pwmMin) (pwmMax - pwmMin)))"

text \<open>The first match of \<^verbatim>\<open>([\d|\.]+) W \(average GPU\)\<close>: the class holds digits, the bar and the dot.\<close>

definition watt_char :: "char \<Rightarrow> bool" where
  "watt_char c \<longleftrightarrow> is_digit c \<or> c = CHR ''|'' \<or> c = CHR ''.''"

fun average_power :: "string \<Rightarrow> string option" where
  "average_power [] = None"
| "average_power (c # s) =
     (let w = takeWhile watt_char (c # s); r = dropWhile watt_char (c # s)
      in if w \<noteq> [] \<and> take 16 r = '' W (average GPU)'' then Some w else average_power s)"

fun first_power :: "string list \<Rightarrow> string option" where
  "first_power [] = None"
| "first_power (l # ls) = (case average_power l of None \<Rightarrow> first_power ls | Some w \<Rightarrow> Some w)"

text \<open>\<open>milli w\<close> is \<^verbatim>\<open>(unsigned int)(atof(w) * 1000)\<close>.\<close>

definition wrap_amdsysfs_get_power_usage :: "(string \<Rightarrow> u32) \<Rightarrow> (int \<Rightarrow> int) \<Rightarrow> sysfs \<Rightarrow> wrap_amdsysfs_handle \<Rightarrow> int \<Rightarrow> u32 option" where
  "wrap_amdsysfs_get_power_usage milli wild fs h index =
     (case sysfs_card wild h index of
        None \<Rightarrow> None
      | Some g \<Rightarrow> map_option milli (first_power (file_lines fs
          (''/sys/kernel/debug/dri/'' @ to_string (unat (of_int g :: u32)) @ ''/amdgpu_pm_info''))))"

definition sysfs_hw :: "(u32 \<Rightarrow> u32 \<Rightarrow> u32) \<Rightarrow> (string \<Rightarrow> u32) \<Rightarrow> (int \<Rightarrow> int) \<Rightarrow> sysfs \<Rightarrow> wrap_amdsysfs_handle \<Rightarrow> hw_handle" where
  "sysfs_hw percent milli wild fs h = \<lparr>cuda_device_id = wild, opencl_device_id = table_at wild (opencl_sysfs_device_id h),
     get_tempC = wrap_amdsysfs_get_tempC wild fs h, get_fanpcnt = wrap_amdsysfs_get_fanpcnt percent wild fs h,
     get_power_usage = wrap_amdsysfs_get_power_usage milli wild fs h\<rparr>"

section \<open>The tables\<close>

lemma match_step_simp [simp]: "match_step P (i, j) (a, b) = (if P i j then (a[i := int j], b[j := int i]) else (a, b))"
  by (simp add: match_step_def)

lemma length_match_fold [simp]:
  "length (fst (fold (match_step P) ps tab)) = length (fst tab)" "length (snd (fold (match_step P) ps tab)) = length (snd tab)"
  by (induction ps rule: rev_induct) (auto simp: match_step_def split: prod.splits)

text \<open>The last match decides.\<close>

lemma match_fold_nth:
  assumes "i < length a"
  shows "fst (fold (match_step P) ps (a, b)) ! i =
    (let ms = filter (\<lambda>(k, j). k = i \<and> P k j) ps in if ms = [] then a ! i else int (snd (last ms)))"
proof (induction ps rule: rev_induct)
  case (snoc p ps)
  obtain a' b' where f: "fold (match_step P) ps (a, b) = (a', b')" by fastforce
  then have "length a' = length a" using length_match_fold(1) [of P ps "(a, b)"] by simp
  then show ?case using snoc f assms by (cases p; cases "fst p = i") (auto simp: Let_def nth_list_update)
qed simp

lemma match_fold_swap:
  "snd (fold (match_step P) ps (a, b)) = fst (fold (match_step (\<lambda>i j. P j i)) (map prod.swap ps) (b, a))"
proof -
  have "fold (match_step (\<lambda>i j. P j i)) (map prod.swap ps) (b, a) = prod.swap (fold (match_step P) ps (a, b))"
    by (induction ps arbitrary: a b) auto
  then show ?thesis by simp
qed

lemma match_devices_lengths [simp]:
  "length (fst (match_devices P n m tab)) = length (fst tab)" "length (snd (match_devices P n m tab)) = length (snd tab)"
  by (simp_all add: match_devices_def)

lemma match_fold_hit:
  assumes "i < length a" "(i, j) \<in> set ps" "P i j" "\<And>j'. (i, j') \<in> set ps \<Longrightarrow> P i j' \<Longrightarrow> j' = j"
  shows "fst (fold (match_step P) ps (a, b)) ! i = int j"
proof -
  let ?ms = "filter (\<lambda>(k, j). k = i \<and> P k j) ps"
  have ms: "?ms \<noteq> []" using assms(2,3) by (auto simp: filter_empty_conv)
  then have "last ?ms \<in> set ?ms" by (rule last_in_set)
  then have "snd (last ?ms) = j" using assms(4) by auto
  with ms show ?thesis by (simp only: match_fold_nth [OF assms(1)] Let_def) simp
qed

lemma match_fold_miss:
  assumes "i < length a" "\<And>j. (i, j) \<in> set ps \<Longrightarrow> \<not> P i j"
  shows "fst (fold (match_step P) ps (a, b)) ! i = a ! i"
proof -
  have "filter (\<lambda>(k, j). k = i \<and> P k j) ps = []" using assms(2) by (auto simp: filter_empty_conv)
  then show ?thesis by (simp only: match_fold_nth [OF assms(1)] Let_def) simp
qed

lemma match_devices_fst:
  assumes "i < n" "length a = n" "j < m" "P i j" "\<And>j'. j' < m \<Longrightarrow> P i j' \<Longrightarrow> j' = j"
  shows "fst (match_devices P n m (a, b)) ! i = int j"
  unfolding match_devices_def
  by (rule match_fold_hit [where P = P, OF _ _ assms(4)]) (use assms(1-3) in simp, use assms(1-3) in simp, rule assms(5), simp_all)

lemma match_devices_fst_none:
  assumes "i < n" "length a = n" "\<And>j. j < m \<Longrightarrow> \<not> P i j"
  shows "fst (match_devices P n m (a, b)) ! i = a ! i"
  unfolding match_devices_def using assms by (intro match_fold_miss) simp_all

lemma match_devices_snd:
  assumes "j < m" "length b = m" "i < n" "P i j" "\<And>i'. i' < n \<Longrightarrow> P i' j \<Longrightarrow> i' = i"
  shows "snd (match_devices P n m (a, b)) ! j = int i"
  unfolding match_devices_def match_fold_swap
  by (rule match_fold_hit [where P = "\<lambda>j i. P i j", OF _ _ assms(4)]) (use assms(1-3) in simp, use assms(1-3) in force, rule assms(5), auto)

lemma match_devices_snd_none:
  assumes "j < m" "length b = m" "\<And>i. i < n \<Longrightarrow> \<not> P i j"
  shows "snd (match_devices P n m (a, b)) ! j = b ! j"
  unfolding match_devices_def match_fold_swap using assms by (intro match_fold_miss) auto

section \<open>What the farm relies on\<close>

text \<open>A query for an index the provider does not have leaves the report as it is; a provider with negative indices in its
  tables promises this for them too.\<close>

locale hw_provider =
  fixes handle :: "'h \<Rightarrow> hw_handle" and gpus :: "'h \<Rightarrow> nat"
  assumes beyond: "int (gpus h) \<le> i \<Longrightarrow> get_tempC (handle h) i = None \<and> get_fanpcnt (handle h) i = None \<and> get_power_usage (handle h) i = None"
begin

lemma query_beyond: "int (gpus h) \<le> i \<Longrightarrow> hw_query pw (handle h) i r = r"
  using beyond [of h i] by (simp add: hw_query_def Let_def)

end

locale hw_provider_signed = hw_provider +
  assumes negative: "i < 0 \<Longrightarrow> get_tempC (handle h) i = None \<and> get_fanpcnt (handle h) i = None \<and> get_power_usage (handle h) i = None"
begin

lemma query_unmatched: "hw_query pw (handle h) (-1) r = r"
  using negative [of "-1" h] by (simp add: hw_query_def Let_def)

end

lemmas nvml_queries = wrap_nvml_get_tempC_def wrap_nvml_get_fanpcnt_def wrap_nvml_get_power_usage_def nvml_query_def

lemmas adl_queries = wrap_adl_get_tempC_def wrap_adl_get_fanpcnt_def wrap_adl_get_power_usage_def adl_query_def

lemmas sysfs_queries = wrap_amdsysfs_get_tempC_def wrap_amdsysfs_get_fanpcnt_def wrap_amdsysfs_get_power_usage_def sensor_dir_def sysfs_card_def

interpretation nvml: hw_provider_signed "nvml_hw wild" nvml_gpucount for wild
  by unfold_locales (simp_all add: nvml_hw_def nvml_queries)

interpretation adl: hw_provider_signed "adl_hw wild" adl_gpucount for wild
  by unfold_locales (simp_all add: adl_hw_def adl_queries)

interpretation amdsysfs: hw_provider "sysfs_hw percent milli wild fs" sysfs_gpucount for percent milli wild fs
  by unfold_locales (simp add: sysfs_hw_def sysfs_queries Let_def)

section \<open>NVML\<close>

lemma wrap_nvml_create_Some:
  assumes "wrap_nvml_create (Some lib) cuda rt = (Inr (Some h), calls)"
  obtains cn devs where "cp_count cuda = Some cn" "cl_devices ''NVIDIA CUDA'' rt = Inr devs" "nvml_dll h = lib" "nvml_gpucount h = nv_count lib"
    "cuda_nvml_device_id h = fst (match_devices (cuda_nvml_match cuda (map (nv_pci lib) [0..<nv_count lib])) cn (nv_count lib)
       (replicate cn (-1), replicate (nv_count lib) (-1)))"
    "opencl_nvml_device_id h = snd (match_devices (nvml_cl_match (map (nv_pci lib) [0..<nv_count lib]) devs) (nv_count lib) (length devs)
       (replicate (nv_count lib) 0, replicate (length devs) 0))"
  using assms that by (auto simp: wrap_nvml_create_def split_def Let_def split: if_splits option.splits sum.splits)

text \<open>What a device reports: zero where a sensor does not answer.\<close>

definition nvml_report :: "bool \<Rightarrow> nvml_lib \<Rightarrow> nat \<Rightarrow> HwMonitor" where
  "nvml_report pw lib j = \<lparr>tempC = (case nv_temperature lib j of None \<Rightarrow> 0 | Some t \<Rightarrow> t), fanP = (case nv_fan lib j of None \<Rightarrow> 0 | Some t \<Rightarrow> t),
     powerMW = (if pw then (case nv_power lib j of None \<Rightarrow> 0 | Some t \<Rightarrow> t) else 0)\<rparr>"

lemma read_hw_nvml:
  assumes "deviceType info = NVIDIA" "0 \<le> deviceIndex info" "nvml_index (nvml_hw wild h) info = int j" "j < nvml_gpucount h"
  shows "read_hw pw (Some (nvml_hw wild h)) adlh sysfsh info = nvml_report pw (nvml_dll h) j"
  using assms by (auto simp: read_hw_def hw_query_def nvml_hw_def nvml_queries nvml_report_def Let_def split: option.splits)

text \<open>
  C40: the report of a CUDA miner is that of the device in the same PCI slot.  When no two NVML devices share a
  position, the monitor of CUDA device \<open>i\<close> reads the sensors of exactly the NVML device with its domain, bus and device
  number; a CUDA device that NVML does not list reports zeros.
\<close>

theorem monitor_same_slot:
  assumes "wrap_nvml_create (Some lib) cuda rt = (Inr (Some h), calls)" "distinct (map (nv_pci lib) [0..<nv_count lib])"
    "cp_count cuda = Some cn" "i < cn" "deviceType info = NVIDIA" "indexSource info = SourceCUDA" "deviceIndex info = int i"
  shows "(\<forall>j < nv_count lib. cp_props cuda i = Some (nv_pci lib j) \<longrightarrow>
      read_hw pw (Some (nvml_hw wild h)) adlh sysfsh info = nvml_report pw lib j) \<and>
    ((\<forall>j < nv_count lib. cp_props cuda i \<noteq> Some (nv_pci lib j)) \<longrightarrow>
      read_hw pw (Some (nvml_hw wild h)) adlh sysfsh info = \<lparr>tempC = 0, fanP = 0, powerMW = 0\<rparr>)"
proof (rule wrap_nvml_create_Some [OF assms(1)])
  fix cn' devs
  let ?n = "nv_count lib"
  let ?P = "cuda_nvml_match cuda (map (nv_pci lib) [0..<?n])" and ?tab = "(replicate cn (-1), replicate ?n (-1)) :: int list \<times> int list"
  assume "cp_count cuda = Some cn'" and h: "nvml_dll h = lib" "nvml_gpucount h = ?n"
    and t: "cuda_nvml_device_id h = fst (match_devices ?P cn' ?n (replicate cn' (-1), replicate ?n (-1)))"
  with assms(3) have tab: "cuda_nvml_device_id h = fst (match_devices ?P cn ?n ?tab)" by simp
  then have idx: "nvml_index (nvml_hw wild h) info = fst (match_devices ?P cn ?n ?tab) ! i"
    using assms(4,6,7) by (simp add: nvml_index_def nvml_hw_def table_at_def)
  have P: "?P i j \<longleftrightarrow> cp_props cuda i = Some (nv_pci lib j)" if "j < ?n" for j
    using that by (simp add: cuda_nvml_match_def)
  have inj: "inj_on (nv_pci lib) {0..<?n}" using assms(2) by (simp add: distinct_map)
  have hit: "read_hw pw (Some (nvml_hw wild h)) adlh sysfsh info = nvml_report pw lib j"
    if "j < ?n" "cp_props cuda i = Some (nv_pci lib j)" for j
  proof -
    have "j' = j" if "j' < ?n" "?P i j'" for j'
      using that P \<open>cp_props cuda i = _\<close> \<open>j < ?n\<close> inj_onD [OF inj, of j' j] by simp
    then have "nvml_index (nvml_hw wild h) info = int j"
      unfolding idx using that P assms(4) by (intro match_devices_fst) simp_all
    then show ?thesis using read_hw_nvml [of info wild h j] that(1) assms(5,7) h by simp
  qed
  have miss: "read_hw pw (Some (nvml_hw wild h)) adlh sysfsh info = \<lparr>tempC = 0, fanP = 0, powerMW = 0\<rparr>"
    if "\<forall>j < ?n. cp_props cuda i \<noteq> Some (nv_pci lib j)"
  proof -
    have "nvml_index (nvml_hw wild h) info = -1"
      unfolding idx using match_devices_fst_none [of i cn "replicate cn (-1)" ?n ?P] assms(4) that P by simp
    then show ?thesis using assms(5,7) nvml.query_unmatched [of pw wild h] by (simp add: read_hw_def Let_def split: option.split)
  qed
  show ?thesis using hit miss by blast
qed

text \<open>Two devices, in the opposite order for CUDA.\<close>

definition demo_nvml :: nvml_lib where
  "demo_nvml = \<lparr>nv_has = (\<lambda>_. True), nv_count = 2, nv_pci = (\<lambda>j. (0, of_nat j + 1, 0)), nv_name = (\<lambda>_. None),
     nv_temperature = (\<lambda>j. Some (of_nat j + 60)), nv_fan = (\<lambda>_. None), nv_power = (\<lambda>_. None)\<rparr>"

definition demo_pci :: cuda_pci where
  "demo_pci = \<lparr>cp_count = Some 2, cp_props = (\<lambda>i. Some (0, 2 - of_nat i, 0))\<rparr>"

theorem monitor_same_slot_witness:
  "\<exists>h calls. wrap_nvml_create (Some demo_nvml) demo_pci \<lparr>cl_platforms = Some []\<rparr> = (Inr (Some h), calls) \<and>
    tempC (read_hw False (Some (nvml_hw (\<lambda>_. 0) h)) None None \<lparr>deviceType = NVIDIA, indexSource = SourceCUDA, deviceIndex = 0\<rparr>) = 61"
proof -
  let ?info = "\<lparr>deviceType = NVIDIA, indexSource = SourceCUDA, deviceIndex = int 0\<rparr>"
  obtain h calls where c: "wrap_nvml_create (Some demo_nvml) demo_pci \<lparr>cl_platforms = Some []\<rparr> = (Inr (Some h), calls)"
    by (simp add: wrap_nvml_create_def demo_nvml_def demo_pci_def cl_devices_def split_def Let_def list_all_iff)
  have d: "distinct (map (nv_pci demo_nvml) [0..<nv_count demo_nvml])" by (simp add: demo_nvml_def upt_rec)
  have r: "read_hw False (Some (nvml_hw (\<lambda>_. 0) h)) None None ?info = nvml_report False demo_nvml 1"
    using monitor_same_slot [OF c d, of 2 0 ?info False "\<lambda>_. 0" None None, THEN conjunct1, THEN spec [of _ 1]]
    by (simp add: demo_nvml_def demo_pci_def)
  show ?thesis using c r by (auto simp: nvml_report_def demo_nvml_def)
qed

text \<open>An OpenCL device that NVML does not list reports the first NVML device, because the table starts with zeros.\<close>

lemma unmatched_cl_reads_first:
  assumes "wrap_nvml_create (Some lib) cuda rt = (Inr (Some h), calls)" "cl_devices ''NVIDIA CUDA'' rt = Inr devs" "i < length devs"
    "\<forall>j < nv_count lib. devs ! i \<noteq> Some (snd (nv_pci lib j))" "0 < nv_count lib"
    "deviceType info = NVIDIA" "indexSource info = SourceOPENCL" "deviceIndex info = int i"
  shows "read_hw pw (Some (nvml_hw wild h)) adlh sysfsh info = nvml_report pw lib 0"
proof (rule wrap_nvml_create_Some [OF assms(1)])
  fix cn devs'
  let ?n = "nv_count lib"
  let ?P = "nvml_cl_match (map (nv_pci lib) [0..<?n]) devs"
  assume "cl_devices ''NVIDIA CUDA'' rt = Inr devs'" and h: "nvml_dll h = lib" "nvml_gpucount h = ?n"
    and t: "opencl_nvml_device_id h = snd (match_devices (nvml_cl_match (map (nv_pci lib) [0..<?n]) devs') ?n (length devs') (replicate ?n 0, replicate (length devs') 0))"
  then have "opencl_nvml_device_id h = snd (match_devices ?P ?n (length devs) (replicate ?n 0, replicate (length devs) 0))" using assms(2) by simp
  moreover have "\<not> ?P j i" if "j < ?n" for j using that assms(4) by (simp add: nvml_cl_match_def)
  ultimately have "nvml_index (nvml_hw wild h) info = int 0"
    using match_devices_snd_none [of i "length devs" "replicate (length devs) 0" ?n ?P] assms(3,7,8)
    by (simp add: nvml_index_def nvml_hw_def table_at_def)
  then show ?thesis using read_hw_nvml [of info wild h 0] assms(5,6,8) h by simp
qed

text \<open>Every library that was opened is closed again: by \<open>create\<close> when it gives up, otherwise by \<open>destroy\<close>.\<close>

lemma nvml_library_closed:
  assumes "wrap_nvml_create dll cuda rt = (r, calls)" "\<And>e. r \<noteq> Inl e"
  shows "count (mset (calls @ (case r of Inr (Some h) \<Rightarrow> snd (wrap_nvml_destroy h) | _ \<Rightarrow> []))) DlOpen =
    count (mset (calls @ (case r of Inr (Some h) \<Rightarrow> snd (wrap_nvml_destroy h) | _ \<Rightarrow> []))) DlClose"
  using assms by (auto simp: wrap_nvml_create_def wrap_nvml_destroy_def Let_def split_def split: if_splits option.splits sum.splits)

section \<open>ADL\<close>

text \<open>The adapters that start a new identifier, given the last one.\<close>

fun run_heads :: "(int \<Rightarrow> int option) \<Rightarrow> int \<Rightarrow> int list \<Rightarrow> int list" where
  "run_heads ident last_id [] = []"
| "run_heads ident last_id (k # ks) =
     (case ident k of
        None \<Rightarrow> run_heads ident last_id ks
      | Some d \<Rightarrow> if d = last_id then run_heads ident last_id ks else k # run_heads ident d ks)"

lemma length_run_heads: "length (run_heads ident d ks) \<le> length ks"
  by (induction ks arbitrary: d) (auto split: option.splits intro: le_SucI)

lemma adl_step_simp [simp]:
  "adl_step lib a (phys, n, d) =
    (case adl_id lib (iAdapterIndex a) of
       None \<Rightarrow> (phys, n, d)
     | Some x \<Rightarrow> if x = d then (phys[n := iAdapterIndex a], n, d) else (phys[n := iAdapterIndex a], n + 1, x))"
  by (simp add: adl_step_def Let_def split: option.split)

lemma adl_fold:
  assumes "n + length as \<le> length phys" "fold (adl_step lib) as (phys, n, d) = (phys', n', d')"
  shows "n' = n + length (run_heads (adl_id lib) d (map iAdapterIndex as)) \<and> length phys' = length phys \<and>
    take n' phys' = take n phys @ run_heads (adl_id lib) d (map iAdapterIndex as)"
  using assms
proof (induction as arbitrary: phys n d)
  case (Cons a as)
  show ?case
  proof (cases "adl_id lib (iAdapterIndex a)")
    case None
    then show ?thesis using Cons.IH [of n phys d] Cons.prems by auto
  next
    case (Some x)
    then show ?thesis
      using Cons.IH [of n "phys[n := iAdapterIndex a]" d] Cons.IH [of "n + 1" "phys[n := iAdapterIndex a]" x] Cons.prems
      by (auto simp: take_Suc_conv_app_nth split: if_splits)
  qed
qed simp

text \<open>
  The physical adapters are the first logical adapters of each run of equal identifiers, in order and without a write
  outside the table; an initial run with identifier 0 is left out.
\<close>

theorem adl_physical_adapters:
  assumes "wrap_adl_create (Some lib) rt = (Inr (Some h), calls)"
  shows "adl_gpucount h = length (run_heads (adl_id lib) 0 (map iAdapterIndex (adl_adapters lib))) \<and> adl_gpucount h \<le> log_gpucount h \<and>
    take (adl_gpucount h) (phys_logi_device_id h) = run_heads (adl_id lib) 0 (map iAdapterIndex (adl_adapters lib))"
proof -
  obtain phys n d where f: "adl_physical lib = (phys, n, d)" by (cases "adl_physical lib") auto
  from adl_fold [OF _ this [unfolded adl_physical_def]] length_run_heads [of "adl_id lib" 0 "map iAdapterIndex (adl_adapters lib)"]
  show ?thesis using assms f by (auto simp: wrap_adl_create_def bindE_Inr_iff split: if_splits)
qed

section \<open>sysfs\<close>

definition is_amd :: "sysfs \<Rightarrow> nat \<Rightarrow> bool" where
  "is_amd fs i \<longleftrightarrow> getFileContentValue fs (card_dir (int i) @ ''/vendor'') = (4098, True)"

lemma amd_fold:
  assumes "m \<le> length ids" "m \<le> length hw" "fold (amd_step fs) [0..<m] (ids, hw, 0) = (ids', hw', n)"
  shows "n = length (filter (is_amd fs) [0..<m]) \<and> length ids' = length ids \<and> length hw' = length hw \<and>
    take n ids' = map (\<lambda>i. sint (of_nat i :: u32)) (filter (is_amd fs) [0..<m])"
  using assms
proof (induction m arbitrary: ids' hw' n)
  case (Suc m)
  obtain ids1 hw1 n1 where f: "fold (amd_step fs) [0..<m] (ids, hw, 0) = (ids1, hw1, n1)" by (cases "fold (amd_step fs) [0..<m] (ids, hw, 0)")
  note IH = Suc.IH [OF _ _ f]
  have "n1 \<le> m" using IH Suc.prems(1,2) length_filter_le [of "is_amd fs" "[0..<m]"] by simp
  moreover have "amd_step fs m (ids1, hw1, n1) = (ids', hw', n)" using Suc.prems(3) f by simp
  ultimately show ?case using IH Suc.prems(1,2)
    by (cases "getFileContentValue fs (card_dir (int m) @ ''/vendor'')")
      (auto simp: amd_step_def Let_def is_amd_def take_Suc_conv_app_nth split: if_splits)
qed simp

lemma sint_nonneg:
  assumes "0 \<le> sint (of_nat c :: u32)" "c < 2 ^ 32"
  shows "sint (of_nat c :: u32) = int c"
proof -
  have "sint (of_nat c :: u32) = signed_take_bit 31 (int c)" by (simp add: signed_of_nat)
  also have "\<dots> = int c - 2 ^ 32 * of_bool (bit (int c) 31)"
    using assms(2) by (simp add: signed_take_bit_eq_take_bit_minus take_bit_int_eq_self)
  finally show ?thesis using assms by (cases "bit (int c) 31") simp_all
qed

lemma hwmon_ids_Some:
  "hwmon_ids fs n ids hw i = Some hw' \<Longrightarrow> n \<le> length hw \<Longrightarrow>
    length hw' = length hw \<and> (\<forall>k. i \<le> k \<and> k < n \<longrightarrow> hwmon_index fs (ids ! k) = Some (hw' ! k)) \<and> (\<forall>k < i. hw' ! k = hw ! k)"
proof (induction fs n ids hw i rule: hwmon_ids.induct)
  case (1 fs n ids hw i)
  show ?case
  proof (cases "i < n")
    case True
    with 1(2) obtain x where x: "hwmon_index fs (ids ! i) = Some x" "hwmon_ids fs n ids (hw[i := x]) (i + 1) = Some hw'"
      by (subst (asm) hwmon_ids.simps) (auto split: option.splits)
    from 1(1) [OF True x] 1(3) have r: "length hw' = length hw" "\<forall>k. i + 1 \<le> k \<and> k < n \<longrightarrow> hwmon_index fs (ids ! k) = Some (hw' ! k)"
      "\<forall>k < i + 1. hw' ! k = hw[i := x] ! k" by simp_all
    have "hw' ! i = x" using r(3) True 1(3) by simp
    then have "hwmon_index fs (ids ! k) = Some (hw' ! k)" if "i \<le> k" "k < n" for k
      using r(2) x(1) that by (cases "k = i") auto
    then show ?thesis using r by auto
  next
    case False
    then have "hw' = hw" using 1(2) by (subst (asm) hwmon_ids.simps) simp
    then show ?thesis using False by auto
  qed
qed

lemma wrap_amdsysfs_create_Some:
  assumes "wrap_amdsysfs_create fs rt = Inr (Some h)"
  obtains names m ids hw n where "fs_dir fs ''/sys/class/drm'' = Some names" "m = unat (fst (fold card_step names (0, False)))"
    "fold (amd_step fs) [0..<m] (replicate m 0, replicate m 0, 0) = (ids, hw, n)" "hwmon_ids fs n ids hw 0 = Some (sysfs_hwmon_id h)"
    "sysfs_gpucount h = n" "card_sysfs_device_id h = ids"
  using assms that
  by (auto simp: wrap_amdsysfs_create_def bindE_Inr_iff Let_def split: option.splits if_splits prod.splits)

text \<open>
  The cards of AMD are listed in order of their numbers, each with the smallest hwmon directory it has, and the
  temperature, fan and power of entry \<open>k\<close> are read below the directories of the \<open>k\<close>-th such card.
\<close>

theorem sysfs_cards:
  assumes "wrap_amdsysfs_create fs rt = Inr (Some h)" "fs_dir fs ''/sys/class/drm'' = Some names" "k < sysfs_gpucount h"
  defines "cards \<equiv> filter (is_amd fs) [0..<unat (fst (fold card_step names (0, False)))]"
  shows "sysfs_gpucount h = length cards \<and> card_sysfs_device_id h ! k = int (cards ! k) \<and>
    hwmon_index fs (int (cards ! k)) = Some (sysfs_hwmon_id h ! k) \<and> sysfs_card wild h (int k) = Some (int (cards ! k))"
proof (rule wrap_amdsysfs_create_Some [OF assms(1)])
  fix names' m ids hw n
  assume c: "fs_dir fs ''/sys/class/drm'' = Some names'" "m = unat (fst (fold card_step names' (0, False)))"
    "fold (amd_step fs) [0..<m] (replicate m 0, replicate m 0, 0) = (ids, hw, n)" "hwmon_ids fs n ids hw 0 = Some (sysfs_hwmon_id h)"
    "sysfs_gpucount h = n" "card_sysfs_device_id h = ids"
  have cards: "cards = filter (is_amd fs) [0..<m]" using c(1,2) assms(2) by (simp add: cards_def)
  from amd_fold [OF _ _ c(3)] have a: "n = length cards" "length ids = m" "length hw = m"
    "take n ids = map (\<lambda>i. sint (of_nat i :: u32)) cards" unfolding cards by auto
  have "n \<le> m" using a(1) length_filter_le [of "is_amd fs" "[0..<m]"] by (simp add: cards)
  have k: "k < n" using assms(3) c(5) by simp
  have idk: "ids ! k = sint (of_nat (cards ! k) :: u32)"
    using arg_cong [OF a(4), of "\<lambda>xs. xs ! k"] k a(1) by simp
  have hk: "hwmon_index fs (ids ! k) = Some (sysfs_hwmon_id h ! k)" using hwmon_ids_Some [OF c(4)] a(3) \<open>n \<le> m\<close> k by simp
  then have "0 \<le> ids ! k" by (auto simp: hwmon_index_def split: if_splits)
  moreover have "cards ! k < 2 ^ 32"
  proof -
    have "m < 2 ^ 32" using c(2) unsigned_less [of "fst (fold card_step names' (0, False))", where 'a = nat] by simp
    then show ?thesis using nth_mem [of k cards] k a(1) by (auto simp: cards)
  qed
  ultimately have e: "ids ! k = int (cards ! k)"
    unfolding idk by (rule sint_nonneg)
  then show ?thesis
    using hk a(1,2) c(5,6) k \<open>n \<le> m\<close> by (simp add: sysfs_card_def table_at_def Let_def)
qed

subsection \<open>PCI positions\<close>

text \<open>The kernel prints a position in hexadecimal.\<close>

definition slot_of :: "nat \<Rightarrow> nat \<Rightarrow> nat \<Rightarrow> string" where
  "slot_of bus dev fn = printf_x 4 0 @ '':'' @ printf_x 2 (int bus) @ '':'' @ printf_x 2 (int dev) @ ''.'' @ printf_x 1 (int fn)"

lemma hex_char_facts:
  assumes "d < 16"
  shows "is_digit (hex_char d) \<longleftrightarrow> d < 10" "\<not> is_space (hex_char d)" "hex_char d \<noteq> CHR '':''" "hex_char d \<noteq> CHR ''.''"
    "hex_char d \<noteq> CHR ''-''" "hex_char d \<noteq> CHR ''+''" "d < 10 \<Longrightarrow> undigit (hex_char d) = d"
proof -
  have "list_all (\<lambda>d. (is_digit (hex_char d) \<longleftrightarrow> d < 10) \<and> \<not> is_space (hex_char d) \<and> hex_char d \<notin> {CHR '':'', CHR ''.'', CHR ''-'', CHR ''+''} \<and>
    (d < 10 \<longrightarrow> undigit (hex_char d) = d)) [0..<16]" by code_simp
  then show "is_digit (hex_char d) \<longleftrightarrow> d < 10" "\<not> is_space (hex_char d)" "hex_char d \<noteq> CHR '':''" "hex_char d \<noteq> CHR ''.''"
    "hex_char d \<noteq> CHR ''-''" "hex_char d \<noteq> CHR ''+''" "d < 10 \<Longrightarrow> undigit (hex_char d) = d"
    using assms by (auto simp: list_all_iff)
qed

lemma printf_x_2: "n < 256 \<Longrightarrow> printf_x 2 (int n) = [hex_char (n div 16), hex_char (n mod 16)]"
  by (simp add: printf_x_def hex_string_byte unsigned_of_nat take_bit_nat_eq_self)

lemma printf_x_1: "n < 16 \<Longrightarrow> printf_x (Suc 0) (int n) = [hex_char n]"
  by (simp add: printf_x_def setw0_def unsigned_of_nat take_bit_nat_eq_self hex_string.simps)

lemma atoi_hex2:
  assumes "n < 256"
  shows "atoi [hex_char (n div 16), hex_char (n mod 16)] =
    int (if 160 \<le> n then 0 else if 10 \<le> n mod 16 then n div 16 else 10 * (n div 16) + n mod 16)"
proof -
  have d: "n div 16 < 16" using assms by simp
  show ?thesis
    using hex_char_facts [OF d] hex_char_facts [of "n mod 16"]
    by (auto simp: atoi_def read_dec_def)
qed

lemma atoi_hex1: "n < 10 \<Longrightarrow> atoi [hex_char n] = int n"
  using hex_char_facts [of n] by (simp add: atoi_def read_dec_def)

lemma pci_parts_slot:
  assumes "bus < 256" "dev < 256" "fn < 16"
  shows "pci_parts [] (slot_of bus dev fn) = [''0000'', printf_x 2 (int bus), printf_x 2 (int dev), printf_x 1 (int fn)]"
proof -
  have "bus div 16 < 16" "dev div 16 < 16" using assms by simp_all
  moreover have "printf_x 4 0 = ''0000''" by code_simp
  ultimately show ?thesis
    using hex_char_facts(3,4) [of "bus div 16"] hex_char_facts(3,4) [of "bus mod 16"] hex_char_facts(3,4) [of "dev div 16"]
      hex_char_facts(3,4) [of "dev mod 16"] hex_char_facts(3,4) [of fn] assms
    by (simp add: slot_of_def printf_x_2 printf_x_1)
qed

text \<open>
  The position of a card is read in decimal although sysfs prints it in hexadecimal.  For a card at
  bus \<open>bus\<close>, device \<open>dev\<close> and function \<open>fn\<close> the position read is the right one exactly if both numbers are below
  ten, so an OpenCL device on a higher bus is not matched with its card, or matched with another one.
\<close>

theorem sysfs_position_decimal:
  assumes "slot_name (file_lines fs (card_dir g @ ''/uevent'')) = Some (slot_of bus dev fn)" "bus < 256" "dev < 32" "fn < 8"
  shows "\<exists>p. pci_position fs g = Inr p \<and> (p = (int bus, int dev, int fn) \<longleftrightarrow> bus < 10 \<and> dev < 10)"
proof -
  have right: "(if 160 \<le> n then 0 else if 10 \<le> n mod 16 then n div 16 else 10 * (n div 16) + n mod 16) = n \<longleftrightarrow> n < 10" for n :: nat
  proof -
    define q r where "q = n div 16" and "r = n mod 16"
    then have "n = 16 * q + r" "r < 16" by simp_all
    then show ?thesis unfolding q_def [symmetric] r_def [symmetric] by auto
  qed
  have parts: "pci_parts [] (slot_of bus dev fn) = [''0000'', printf_x 2 (int bus), printf_x 2 (int dev), printf_x 1 (int fn)]"
    using assms(2-4) by (intro pci_parts_slot) simp_all
  show ?thesis
    using assms(2-4) right [of bus] right [of dev]
    by (simp add: pci_position_def assms(1) parts Let_def printf_x_2 printf_x_1 atoi_hex2 atoi_hex1 del: split_paired_Ex)
qed

text \<open>A card on bus 10.\<close>

theorem sysfs_position_decimal_witness:
  "\<exists>p. pci_position \<lparr>fs_file = (\<lambda>_. Some ''PCI_SLOT_NAME=0000:0a:00.0''), fs_dir = (\<lambda>_. None), fs_dir_error = (\<lambda>_. False)\<rparr> 0 = Inr p \<and> p \<noteq> (10, 0, 0)"
proof -
  let ?fs = "\<lparr>fs_file = (\<lambda>_. Some ''PCI_SLOT_NAME=0000:0a:00.0''), fs_dir = (\<lambda>_. None), fs_dir_error = (\<lambda>_. False)\<rparr>"
  have "slot_name (getlines ''PCI_SLOT_NAME=0000:0a:00.0'') = Some (slot_of 10 0 0)" by code_simp
  then have "slot_name (file_lines ?fs (card_dir 0 @ ''/uevent'')) = Some (slot_of 10 0 0)" by (simp add: file_lines_def)
  from sysfs_position_decimal [OF this] show ?thesis by simp
qed

text \<open>The default of 255 for the largest fan setting has no effect: when the file is missing the value is 0, so the divisor is
  the negated minimum, or zero.\<close>

lemma missing_pwm_max:
  assumes "sensor_dir wild h i = Some d" "fs_file fs (d @ ''pwm1_max'') = None"
  shows "\<exists>pwm pwmMin. wrap_amdsysfs_get_fanpcnt percent wild fs h i = Some (percent (pwm - pwmMin) (- pwmMin))"
proof -
  have "fst (getFileContentValue fs (d @ ''pwm1_max'')) = 0"
    using assms(2) by (simp add: getFileContentValue_def file_lines_def strtoul_def read_base_def Let_def)
  then show ?thesis using assms(1) by (auto simp: wrap_amdsysfs_get_fanpcnt_def Let_def)
qed

end
