(* ===== verification/RlpConv.thy ===== *)
theory RlpConv
  imports Rlp
begin

text \<open>
  The conversions and overloads of \<^verbatim>\<open>libdevcore/RLP.h\<close> on top of the reader and writer of \<^verbatim>\<open>Rlp\<close>: strings, comparisons,
  vectors, sets, pairs and arrays of a convertible type (the conversion \<open>conv\<close> is an argument), and the writer for hashes
  and vectors.
\<close>

section \<open>Reading\<close>

definition itemCountStrict :: "bytes \<Rightarrow> rlp_error + nat" where
  "itemCountStrict d = (if \<not> isList d then Inl BadCast else bindE (payload d) count_items)"

definition rlp_size :: "bytes \<Rightarrow> rlp_error + nat" where
  "rlp_size d = (if isData d then length_of d else Inr 0)"

definition rlp_toString :: "bytes \<Rightarrow> rlp_error + bytes" where
  "rlp_toString d = (if \<not> isData d then Inr [] else bindE (payload d) (\<lambda>p. bindE (length_of d) (\<lambda>l. Inr (cropped 0 l p))))"

text \<open>Both operators are conjunctions that start with the kind of the item.\<close>

definition eq_string :: "bytes \<Rightarrow> bytes \<Rightarrow> rlp_error + bool" where
  "eq_string d s = (if \<not> isData d then Inr False else bindE (rlp_toString d) (\<lambda>t. Inr (t = s)))"

definition ne_string :: "bytes \<Rightarrow> bytes \<Rightarrow> rlp_error + bool" where
  "ne_string d s = (if \<not> isData d then Inr False else bindE (rlp_toString d) (\<lambda>t. Inr (t \<noteq> s)))"

definition eq_int :: "nat option \<Rightarrow> bytes \<Rightarrow> nat \<Rightarrow> rlp_error + bool" where
  "eq_int maxSize d i = bindE (isInt d) (\<lambda>b. if \<not> b then Inr False else bindE (toInt maxSize d Strict) (\<lambda>j. Inr (j = i)))"

definition ne_int :: "nat option \<Rightarrow> bytes \<Rightarrow> nat \<Rightarrow> rlp_error + bool" where
  "ne_int maxSize d i = bindE (isInt d) (\<lambda>b. if \<not> b then Inr False else bindE (toInt maxSize d Strict) (\<lambda>j. Inr (j \<noteq> i)))"

text \<open>The range loop with a conversion of every item.\<close>

function collect_conv :: "(bytes \<Rightarrow> rlp_error + 'a) \<Rightarrow> iterator \<Rightarrow> rlp_error + 'a list" where
  "collect_conv conv it =
     (if it_current it = [] then Inr []
      else case RLP_new (it_current it) VeryStrict of
        Inl e \<Rightarrow> Inl e
      | Inr x \<Rightarrow> (case conv x of
            Inl e \<Rightarrow> Inl e
          | Inr y \<Rightarrow> (case iterator_next it of
                Inl e \<Rightarrow> Inl e
              | Inr it' \<Rightarrow> bindE (collect_conv conv it') (\<lambda>ys. Inr (y # ys)))))"
  by pat_completeness auto
termination
  by (relation "measure (\<lambda>(conv, it). length (it_current it) + length (it_rest it))")
    (auto simp: iterator_next_def bindE_Inr_iff cropped_def dest: sizeAsEncoded_bounds split: if_splits)

declare collect_conv.simps [simp del]

definition toVector :: "(bytes \<Rightarrow> rlp_error + 'a) \<Rightarrow> bytes \<Rightarrow> rlp_error + 'a list" where
  "toVector conv d =
     (if isList d then bindE (itemCount d) (\<lambda>_. bindE (iterator_begin d) (collect_conv conv)) else Inr [])"

definition toSet :: "(bytes \<Rightarrow> rlp_error + 'a) \<Rightarrow> bytes \<Rightarrow> rlp_error + 'a set" where
  "toSet conv d = (if isList d then bindE (bindE (iterator_begin d) (collect_conv conv)) (\<lambda>ys. Inr (set ys)) else Inr {})"

definition toPair :: "(bytes \<Rightarrow> rlp_error + 'a) \<Rightarrow> (bytes \<Rightarrow> rlp_error + 'b) \<Rightarrow> rlp_view \<Rightarrow> rlp_error + 'a \<times> 'b" where
  "toPair conv1 conv2 v =
     bindE (itemCountStrict (rv_data v)) (\<lambda>n.
       if n \<noteq> 2 then Inl BadCast
       else bindE (rlp_index 0 v) (\<lambda>(x, v). bindE (conv1 x) (\<lambda>a. bindE (rlp_index 1 v) (\<lambda>(y, v). bindE (conv2 y) (\<lambda>b. Inr (a, b))))))"

fun array_loop :: "(bytes \<Rightarrow> rlp_error + 'a) \<Rightarrow> nat list \<Rightarrow> rlp_view \<Rightarrow> rlp_error + 'a list" where
  "array_loop conv [] v = Inr []"
| "array_loop conv (i # is) v =
     bindE (rlp_index i v) (\<lambda>(x, v). bindE (conv x) (\<lambda>a. bindE (array_loop conv is v) (\<lambda>as. Inr (a # as))))"

definition toArray :: "(bytes \<Rightarrow> rlp_error + 'a) \<Rightarrow> nat \<Rightarrow> rlp_view \<Rightarrow> rlp_error + 'a list" where
  "toArray conv n v =
     bindE (itemCountStrict (rv_data v)) (\<lambda>k. if k \<noteq> n then Inl BadCast else array_loop conv [0..<n] v)"

section \<open>Writing\<close>

definition RLPStream_of_list :: "nat \<Rightarrow> rlp_error + RLPStream" where
  "RLPStream_of_list n = appendList n RLPStream_new"

definition append_hash :: "bytes \<Rightarrow> bool \<Rightarrow> bool \<Rightarrow> RLPStream \<Rightarrow> rlp_error + RLPStream" where
  "append_hash h compact allOrNothing s = (if allOrNothing \<and> \<not> hash_bool h then append_bytes [] False s else append_bytes h compact s)"

definition append_rlp :: "bytes \<Rightarrow> nat \<Rightarrow> RLPStream \<Rightarrow> rlp_error + RLPStream" where
  "append_rlp d n s = appendRaw d n s"

fun append_each :: "('a \<Rightarrow> RLPStream \<Rightarrow> rlp_error + RLPStream) \<Rightarrow> 'a list \<Rightarrow> RLPStream \<Rightarrow> rlp_error + RLPStream" where
  "append_each f [] s = Inr s"
| "append_each f (x # xs) s = bindE (f x s) (append_each f xs)"

definition appendVector :: "('a \<Rightarrow> RLPStream \<Rightarrow> rlp_error + RLPStream) \<Rightarrow> 'a list \<Rightarrow> RLPStream \<Rightarrow> rlp_error + RLPStream" where
  "appendVector f xs s = bindE (appendList (length xs) s) (append_each f xs)"

definition stream_clear :: "RLPStream \<Rightarrow> RLPStream" where
  "stream_clear s = s\<lparr>m_out := [], m_listStack := []\<rparr>"

section \<open>Conversions of an encoded list\<close>

text \<open>The conversions in order, up to the first failure.\<close>

fun mapE :: "('x \<Rightarrow> rlp_error + 'a) \<Rightarrow> 'x list \<Rightarrow> rlp_error + 'a list" where
  "mapE f [] = Inr []"
| "mapE f (x # xs) = bindE (f x) (\<lambda>y. bindE (mapE f xs) (\<lambda>ys. Inr (y # ys)))"

lemma collect_conv_encode:
  "encodable x \<Longrightarrow> list_all encodable xs \<Longrightarrow>
    collect_conv conv \<lparr>it_current = encode x, it_rest = concat (map encode xs)\<rparr> = mapE conv (map encode (x # xs))"
proof (induction xs arbitrary: x)
  case Nil
  have "iterator_next \<lparr>it_current = encode x, it_rest = []\<rparr> = Inr \<lparr>it_current = [], it_rest = []\<rparr>"
    by (simp add: iterator_next_def)
  then show ?case using Nil
    by (subst collect_conv.simps)
      (simp add: RLP_new_encode collect_conv.simps [of conv "\<lparr>it_current = [], it_rest = []\<rparr>"] bindE_def split: sum.split)
next
  case (Cons y ys)
  have "iterator_next \<lparr>it_current = encode x, it_rest = concat (map encode (y # ys))\<rparr> =
      Inr \<lparr>it_current = encode y, it_rest = concat (map encode ys)\<rparr>"
    using Cons.prems size_encode [of y "concat (map encode ys)"] by (simp add: iterator_next_def cropped_0_append)
  then show ?case using Cons by (subst collect_conv.simps) (simp add: RLP_new_encode bindE_def split: sum.split)
qed

lemma iterate_encode:
  assumes "encodable (RList xs)"
  shows "bindE (iterator_begin (encode (RList xs))) (collect_conv conv) = mapE conv (map encode xs)"
proof -
  have e: "list_all encodable xs" using assms by simp
  note r = reads_RList [OF assms]
  show ?thesis
  proof (cases xs)
    case Nil
    have "cropped 0 0 [] = []" by (simp add: cropped_def)
    then show ?thesis using r Nil by (simp add: iterator_begin_def collect_conv.simps del: encode.simps)
  next
    case (Cons y ys)
    then show ?thesis
      using r e size_encode [of y "concat (map encode ys)"] collect_conv_encode [of y ys conv]
      by (simp add: iterator_begin_def cropped_0_append del: encode.simps)
  qed
qed

lemma toVector_encode:
  assumes "encodable (RList xs)"
  shows "toVector conv (encode (RList xs)) = mapE conv (map encode xs)"
    and "toSet conv (encode (RList xs)) = bindE (mapE conv (map encode xs)) (\<lambda>ys. Inr (set ys))"
  using reads_RList(1) [OF assms] toList_encode(2) [OF assms] iterate_encode [OF assms, of conv]
  by (simp_all add: toVector_def toSet_def del: encode.simps)

lemma itemCountStrict_encode:
  assumes "encodable it"
  shows "itemCountStrict (encode it) = (case it of Data b \<Rightarrow> Inl BadCast | RList xs \<Rightarrow> Inr (length xs))"
proof (cases it)
  case (Data b)
  then have "\<not> isList (encode it)" using toBytes_encode(1) [of b] assms by (auto simp: isData_def isList_def simp del: encode.simps)
  then show ?thesis using Data by (simp add: itemCountStrict_def)
next
  case (RList xs)
  then show ?thesis using toList_encode(2) [of xs] reads_RList(1) [of xs] assms by (simp add: itemCountStrict_def itemCount_def del: encode.simps)
qed

lemma array_loop_encode:
  assumes "encodable (RList xs)" "view_ok xs v" "list_all (\<lambda>i. i < length xs \<and> i < 2 ^ 64 - 1) is"
  shows "array_loop conv is v = mapE conv (map (\<lambda>i. encode (xs ! i)) is)"
  using assms(2,3)
proof (induction "is" arbitrary: v)
  case (Cons i "is")
  obtain v' where v': "rlp_index i v = Inr (encode (xs ! i), v')" "view_ok xs v'"
    using rlp_index_encode [OF assms(1) Cons.prems(1), of i] Cons.prems(2) by auto
  then show ?case using Cons.IH [OF v'(2)] Cons.prems(2) by simp
qed simp

text \<open>Vectors and arrays agree: an array is the vector when the number of items is the expected one.\<close>

theorem toArray_encode:
  assumes "encodable (RList xs)" "length xs < 2 ^ 64 - 1"
  shows "toArray conv n (fresh_view (encode (RList xs))) =
    (if length xs = n then toVector conv (encode (RList xs)) else Inl BadCast)"
proof -
  have "list_all (\<lambda>i. i < length xs \<and> i < 2 ^ 64 - 1) [0..<length xs]" using assms(2) by (auto simp: list_all_iff)
  from array_loop_encode [OF assms(1) fresh_view_ok this, of conv]
  have "array_loop conv [0..<length xs] (fresh_view (encode (RList xs))) = mapE conv (map (\<lambda>i. encode (xs ! i)) [0..<length xs])" .
  also have "map (\<lambda>i. encode (xs ! i)) [0..<length xs] = map encode xs" by (rule nth_equalityI) simp_all
  finally show ?thesis
    using itemCountStrict_encode [OF assms(1)] toVector_encode(1) [OF assms(1), of conv]
    by (auto simp: toArray_def fresh_view_def simp del: encode.simps)
qed

theorem toPair_encode:
  assumes "encodable (RList [x, y])"
  shows "toPair conv1 conv2 (fresh_view (encode (RList [x, y]))) = bindE (conv1 (encode x)) (\<lambda>a. bindE (conv2 (encode y)) (\<lambda>b. Inr (a, b)))"
proof -
  obtain v1 where v1: "rlp_index 0 (fresh_view (encode (RList [x, y]))) = Inr (encode x, v1)" "view_ok [x, y] v1"
    using rlp_index_encode [OF assms fresh_view_ok, of 0] by auto
  obtain v2 where "rlp_index 1 v1 = Inr (encode y, v2)"
    using rlp_index_encode [OF assms v1(2), of 1] by auto
  then show ?thesis
    using v1(1) itemCountStrict_encode [OF assms] by (simp add: toPair_def fresh_view_def [of "encode (RList [x, y])"] del: encode.simps)
qed

text \<open>A list is neither equal nor unequal to any string, although a string is always one of them.\<close>

theorem string_comparison:
  shows "isList d \<Longrightarrow> eq_string d s = Inr False \<and> ne_string d s = Inr False"
    and "encodable (Data b) \<Longrightarrow> eq_string (encode (Data b)) s = Inr (b = s) \<and> ne_string (encode (Data b)) s = Inr (b \<noteq> s)"
proof -
  show "isList d \<Longrightarrow> eq_string d s = Inr False \<and> ne_string d s = Inr False"
    by (auto simp: eq_string_def ne_string_def isList_def isData_def)
  assume e: "encodable (Data b)"
  have "bindE (length_of (encode (Data b))) (\<lambda>l. Inr (cropped 0 l b)) = (Inr b :: rlp_error + bytes)"
    using toBytes_encode [OF e] reads_data [of b "[]"] e by (simp add: reads_as_def cropped_def del: encode.simps)
  then show "eq_string (encode (Data b)) s = Inr (b = s) \<and> ne_string (encode (Data b)) s = Inr (b \<noteq> s)"
    using toBytes_encode [OF e] by (simp add: eq_string_def ne_string_def rlp_toString_def del: encode.simps)
qed

text \<open>A vector of byte strings is read back as it was written.\<close>

theorem vector_roundtrip:
  assumes "encodable (RList (map Data bs))"
  shows "\<exists>d. bindE (appendVector (\<lambda>b. append_bytes b False) bs RLPStream_new) stream_out = Inr d \<and> toVector toBytes d = Inr bs \<and>
    toSet toBytes d = Inr (set bs)"
proof -
  have "emit_all (map Data bs) = append_each (\<lambda>b. append_bytes b False) bs"
  proof
    show "emit_all (map Data bs) s = append_each (\<lambda>b. append_bytes b False) bs s" for s
      by (induction bs arbitrary: s) (simp_all add: bindE_def split: sum.split)
  qed
  then have "appendVector (\<lambda>b. append_bytes b False) bs RLPStream_new = emit (RList (map Data bs)) RLPStream_new"
    by (simp add: appendVector_def)
  then have w: "bindE (appendVector (\<lambda>b. append_bytes b False) bs RLPStream_new) stream_out = Inr (encode (RList (map Data bs)))"
    using emit_encode [OF assms, of RLPStream_new] by (simp add: RLPStream_new_def noteAppended_def stream_out_def del: emit.simps encode.simps)
  have "mapE toBytes (map encode (map Data bs)) = Inr bs"
    using assms toBytes_encode(2) by (induction bs) (auto simp del: encode.simps)
  then show ?thesis using w toVector_encode [OF assms, of toBytes] by (simp del: encode.simps)
qed

end
