(* ===== verification/Spec2Isabelle.thy ===== *)
theory Spec2Isabelle
  imports KernelText ClKernel CudaHelper VectorRef CudaCompile Cli Frontend Worker Clients Api PoolSystem HwMon RlpConv DagKernel
begin

text \<open>
  A verification development of the ProgPoW miner, a GPU miner whose hash function changes every few
  blocks.

  \<^bold>\<open>The program.\<close>  \<^verbatim>\<open>ethminer/main.cpp\<close> and \<^verbatim>\<open>ethminer/MinerAux.h\<close> read the command line, configure the GPUs and put the parts
  together: a pool client (\<^verbatim>\<open>libpoolprotocols\<close>: Stratum, getwork or a simulation) receives jobs; the pool manager
  hands them to the farm (\<^verbatim>\<open>libethcore/Farm.h\<close>), which gives them to its miners, worker threads
  (\<^verbatim>\<open>libdevcore/Worker.*\<close>) that each drive one GPU (\<^verbatim>\<open>libethash-cuda\<close>, \<^verbatim>\<open>libethash-cl\<close>).  For a new epoch a
  miner computes the light cache on the host (\<^verbatim>\<open>libethash\<close>, \<^verbatim>\<open>libethcore/EthashAux.*\<close>) and the DAG on the device;
  for a new period it generates and compiles the inner loop of the search kernel (\<^verbatim>\<open>libprogpow\<close>).  Solutions go
  back through the farm and the manager to the client.  A remote interface (\<^verbatim>\<open>libapicore\<close>) and the terminal report
  hash rates and the sensors read by \<^verbatim>\<open>libhwmon\<close>.

  \<^bold>\<open>Shared theories.\<close>
  \<^item> \<^verbatim>\<open>Prelude\<close>: machine words, results with errors and their sequencing, decimal printing, list and word lemmas.
  \<^item> \<^verbatim>\<open>CLib\<close>: the C and C++ library conversions used in several places.
  \<^item> \<^verbatim>\<open>CommonData\<close>, \<^verbatim>\<open>FixedHash\<close>, \<^verbatim>\<open>Rlp\<close>, \<^verbatim>\<open>RlpConv\<close> (\<^verbatim>\<open>libdevcore/{CommonData,FixedHash,RLP,vector_ref}\<close>): hexadecimal and big-endian
    conversion with their round trips, hashes whose order is the numeric one, and the RLP reader (with its index cache
    and iterators) and writer (with its stack of open lists), both proved against a recursive encoding.
  \<^item> \<^verbatim>\<open>VectorRef\<close> (\<^verbatim>\<open>libdevcore/{vector_ref.h,Common.h}\<close>): views into a memory in which they may overlap, and vectors that erase their contents.  The
    other theories use byte lists for views; the locale \<open>byte_views\<close> and its interpretation justify that.

  \<^bold>\<open>Hashing.\<close>
  \<^item> \<^verbatim>\<open>ProgPow\<close> (\<^verbatim>\<open>libprogpow/ProgPow.{h,cpp}\<close>): \<open>getKern\<close> is the text the C++ stream produces; \<open>getProg\<close> is the same
    generator read as a program, of which what the comments of the source promise (every register merged, no cache load twice, two
    different sources) holds for every block.
  \<^item> \<^verbatim>\<open>KernelText\<close>: the meaning of that text.  The statements of the generated loop as a small language with a printer and an
    execution that fails on every access out of range, and the program of a period stated directly over its KISS99 stream
    (\<open>spec_prog\<close>); the streamed text is a print of statements whose execution computes that program.
  \<^item> \<^verbatim>\<open>Kernel\<close> (\<^verbatim>\<open>CUDAMiner_kernel.cu\<close>, \<^verbatim>\<open>CLMiner_kernel.cl\<close>): the search kernels with the semantics of the generated loop; the
    lanes of a group run in lock step.  Both flavours compute the same reference hash for every thread, loads stay in
    range, merges lose no entropy, rotations are never by zero, and no thread writes outside the result buffers.
  \<^item> \<^verbatim>\<open>ClKernel\<close> (\<^verbatim>\<open>CLMiner_kernel.cl\<close>): the OpenCL copies of Keccak and KISS99 equal the CUDA ones; the lanes of a group as threads that
    exchange the DAG offset through local memory, right in lock step and with a race otherwise.
  \<^item> \<^verbatim>\<open>Keccak\<close>, \<^verbatim>\<open>DataSizes\<close>, \<^verbatim>\<open>Ethash\<close>, \<^verbatim>\<open>EthashAux\<close> (\<^verbatim>\<open>libethash\<close>, \<^verbatim>\<open>libdevcore/SHA3.cpp\<close>, \<^verbatim>\<open>libethcore/EthashAux.*\<close>): the sponge, both size
    tables entry by entry, the light client with its error returns and the caches of the host.  Light evaluation
    equals full evaluation, and it succeeds for every tabulated epoch.
  \<^item> \<^verbatim>\<open>DagKernel\<close> (\<^verbatim>\<open>CUDAMiner_cuda.cu\<close>, \<^verbatim>\<open>CLMiner_kernel.cl\<close>): the DAG kernels with their unrolled permutations and the launch loops;
    the CUDA one produces exactly the DAG of \<^verbatim>\<open>Ethash\<close>, the OpenCL one does below 4 GB.
  \<^item> \<^verbatim>\<open>CudaHelper\<close> (\<^verbatim>\<open>libethash-cuda/cuda_helper.h\<close>): the PTX instructions, and every function the device code builds from them, in each of
    its variants (a shift C leaves undefined is \<open>None\<close>); which operations on pairs of 32-bit registers implement those on 64-bit words,
    and for which counts.
  \<^item> \<^verbatim>\<open>BlockHeader\<close> (\<^verbatim>\<open>libethcore/BlockHeader.*\<close>): fields, serialisation, hashes and boundary.

  \<^bold>\<open>Mining.\<close>
  \<^item> \<^verbatim>\<open>CudaMiner\<close>, \<^verbatim>\<open>CudaInit\<close> (\<^verbatim>\<open>libethash-cuda/CUDAMiner.*\<close>): the search with its streams and nonce counter, the work
    loop, device setup and the three ways to load the DAG.  Nonce ranges of devices are disjoint, results are attributed
    to the launch they came from, and the kernel is always that of the work's period and height; the DAG is that of its epoch unless a
    load has failed, which the loop does not notice.
  \<^item> \<^verbatim>\<open>CudaCompile\<close> (\<^verbatim>\<open>CUDAMiner.cpp\<close>, \<^verbatim>\<open>CUDAMiner_cuda.h\<close>): the calls that compile and load a kernel with their checks, the
    handlers around the work loop, and that they refine the summary in \<^verbatim>\<open>CudaInit\<close>.
  \<^item> \<^verbatim>\<open>ClMiner\<close> (\<^verbatim>\<open>libethash-cl/CLMiner.*\<close>): device choice, initialisation with the compiled text, work loop; what goes
    wrong on a period change and with 64-bit nonces is proved.
  \<^item> \<^verbatim>\<open>Worker\<close> (\<^verbatim>\<open>libdevcore/Worker.*\<close>): all interleavings of a worker thread with its controller, as a step relation.  Whether
    \<open>workLoop\<close> returns is a parameter: stopping a worker ends exactly when it does.
  \<^item> \<^verbatim>\<open>Farm\<close>, \<^verbatim>\<open>HwMon\<close> (\<^verbatim>\<open>libethcore/{Farm,Miner}.h\<close>, \<^verbatim>\<open>libhwmon\<close>): work distribution, hash-rate window and counters, and the
    three providers of sensor data behind the interface \<open>hw_provider\<close>.

  \<^bold>\<open>Pools.\<close>
  \<^item> \<^verbatim>\<open>PoolUri\<close>, \<^verbatim>\<open>PoolManager\<close>, \<^verbatim>\<open>Stratum\<close>, \<^verbatim>\<open>Clients\<close> (\<^verbatim>\<open>libpoolprotocols\<close>): endpoints, the manager with its callbacks and failover, the
    Stratum client with its three protocol versions, and the getwork (also over sequences of rounds) and simulation clients.  The locale \<open>pool_client\<close> states
    what the manager relies on; all three clients are instances.
  \<^item> \<^verbatim>\<open>PoolSystem\<close>: manager and farm together, under every order of events.
  \<^item> \<^verbatim>\<open>Api\<close> (\<^verbatim>\<open>libapicore\<close>) and \<^verbatim>\<open>Cli\<close> (\<^verbatim>\<open>ethminer\<close>): the remote methods; all options, their effect on the settings, and the start of
    miners and pools.
  \<^item> \<^verbatim>\<open>Logging\<close> (\<^verbatim>\<open>libdevcore/{Log.h,Log.cpp,Terminal.h}\<close>) and \<^verbatim>\<open>Frontend\<close> (\<^verbatim>\<open>ethminer/MinerAux.h\<close>): log entries with and without colours; the
    statistics line with its single-precision arithmetic, the display loop until a signal stops it, and the trials of the
    benchmark.

  \<^bold>\<open>Conventions.\<close>  A struct is a record, a fixed-width integer a word, sizes and unbounded integers are \<open>nat\<close> or \<open>int\<close> with the
  wrap-around written out where it can occur.  A thrown exception, failed assertion or access out of range is the left side of
  a sum or \<open>None\<close>; a handler returns the new state with the calls it makes outward.  Loops are structural or well-founded
  recursions; the benchmark loop, which one setting makes endless, is a partial function with the value \<open>None\<close> there; the only fuel is that of the option loop in \<^verbatim>\<open>Cli\<close>, where more fuel than arguments is shown to be
  enough and not to matter.  A host is little-endian with 64-bit \<^verbatim>\<open>size_t\<close>; the program is built with OpenCL, CUDA and
  the API server on Linux.  Handlers are atomic, as the locks of the source
  make them; where the source has none, what another thread does during a call is an argument (a solution handed to the getwork
  client, the schedule of the lanes in \<^verbatim>\<open>ClKernel\<close>, of the thread in \<^verbatim>\<open>Worker\<close>).

  \<^bold>\<open>Parameters.\<close>  Code outside the repository is an argument of the definitions: the JSON library (\<open>json_api\<close>), the URI library
  (\<open>uri_lib\<close>), the CUDA and OpenCL drivers (\<open>cuda_driver\<close>, \<open>cuda_rtc\<close>, \<open>cl_driver\<close>, \<open>cl_runtime\<close>), the vendor libraries and the file system (\<open>nvml_lib\<close>,
  \<open>adl_lib\<close>, \<open>sysfs\<close>), a run of the search kernel on the device as the hosts see it (\<open>kernel_run\<close>, \<open>cl_run\<close>), random numbers and clocks, and
  the conversion of big integers to \<open>int\<close> and \<open>double\<close>.

  \<^bold>\<open>Across components.\<close>  This theory connects device setup, work loop and search kernel: what the host loads is what the
  kernel reads, as long as the epoch of the package is not earlier than that of its height counted from the fork; the packages of the benchmark and the
  simulation are earlier (\<open>header_package_mismatch\<close>).  Elsewhere \<^verbatim>\<open>CudaInit\<close> connects the host caches with the DAG kernel, \<^verbatim>\<open>ClMiner\<close> the generator with the compiled
  text, \<^verbatim>\<open>Clients\<close> and \<^verbatim>\<open>Stratum\<close> the clients with the manager, \<^verbatim>\<open>HwMon\<close> the sensors with the farm, \<^verbatim>\<open>Frontend\<close> the farm with the log, and \<^verbatim>\<open>Cli\<close> the options with all
  of them.

  \<^bold>\<open>Not modelled.\<close>  The help text and the list of devices (output only); lock and exception classes (no
  behaviour of their own); the D-Bus sender (not compiled by default); the vendored header \<^verbatim>\<open>cl2.hpp\<close>;
  sockets, TLS and HTTP transport; the compiler of the generated kernels.
\<close>

section \<open>Device memory and search kernel\<close>

lemma dag_elms_tabulated:
  assumes "e < 2048"
  shows "unat (of_nat (dag_elms (dag_sizes ! e)) :: u32) = dag_sizes ! e div 256" "64 \<le> dag_sizes ! e div 256"
    "dag_sizes ! e div 256 * PROGPOW_LANES \<le> 2 ^ 32"
proof -
  have b: "2 ^ 30 - 14000 \<le> dag_sizes ! e" "dag_sizes ! e < 2 ^ 35" using dag_sizes_nth [OF assms] dag_sizes_less [OF assms] by auto
  show "unat (of_nat (dag_elms (dag_sizes ! e)) :: u32) = dag_sizes ! e div 256"
    using b(2) by (simp add: dag_elms_def PROGPOW_LANES_def PROGPOW_DAG_LOADS_def unat_of_nat)
  show "64 \<le> dag_sizes ! e div 256" using b(1) by simp
  show "dag_sizes ! e div 256 * PROGPOW_LANES \<le> 2 ^ 32" using b(2) by (simp add: PROGPOW_LANES_def)
qed

text \<open>A DAG element is four nodes; the DAG of one epoch holds the elements of another exactly when that one is not
  later.\<close>

lemma dag_holds_elements:
  assumes "d < 2048" "e < 2048"
  shows "4 * (dag_sizes ! d div 256) \<le> dag_sizes ! e div 64 \<longleftrightarrow> d \<le> e"
proof -
  note b = dag_sizes_nth [OF assms(1)] dag_sizes_nth [OF assms(2)]
  have quarter: "x div 256 = x div 64 div 4" for x :: nat by (simp flip: div_mult2_eq)
  have below: "4 * (x div 256) \<le> x div 64" for x :: nat by (simp add: quarter)
  have above: "y div 64 < 4 * (x div 256)" if "y + 256 \<le> x" for x y :: nat
  proof -
    have "(y + 64 * 4) div 64 \<le> x div 64" using that by (intro div_le_mono) simp
    then have "y div 64 + 4 \<le> x div 64" by simp
    moreover have "a < 4 * (z div 4)" if "a + 4 \<le> z" for a z :: nat using that by presburger
    ultimately show ?thesis unfolding quarter by blast
  qed
  show ?thesis
  proof (cases "d = e")
    case True
    then show ?thesis using below by simp
  next
    case False
    then consider "Suc d \<le> e" | "Suc e \<le> d" by linarith
    then show ?thesis
    proof cases
      case 1
      then have "dag_sizes ! d \<le> dag_sizes ! e" using b by simp
      then have "dag_sizes ! d div 64 \<le> dag_sizes ! e div 64" by (rule div_le_mono)
      with 1 below [of "dag_sizes ! d"] show ?thesis by simp
    next
      case 2
      then have "dag_sizes ! e + 256 \<le> dag_sizes ! d" using b by simp
      then have "dag_sizes ! e div 64 < 4 * (dag_sizes ! d div 256)" by (rule above)
      with 2 show ?thesis by simp
    qed
  qed
qed

text \<open>The loads of a kernel compiled for \<open>elems\<close> elements stay inside a DAG exactly when it holds that many.\<close>

lemma loads_inside_iff:
  assumes "elems \<noteq> 0" "unat elems * PROGPOW_LANES \<le> 2 ^ 32"
  shows "(\<forall>loop lane offset. unat (dag_index elems loop lane offset) div 4 < n) \<longleftrightarrow> 4 * unat elems \<le> n"
proof
  assume all: "\<forall>loop lane offset. unat (dag_index elems loop lane offset) div 4 < n"
  have "0 < unat elems" using assms(1) by (simp add: unat_gt_0)
  then have "unat elems * 16 - 1 < unat elems * PROGPOW_LANES" by (simp add: PROGPOW_LANES_def)
  from dag_index_onto [OF assms this, of 0] all have "(unat elems * 16 - 1) div 4 < n" by metis
  moreover have "(unat elems * 16 - 1) div 4 = 4 * unat elems - 1" using \<open>0 < unat elems\<close> by simp
  ultimately show "4 * unat elems \<le> n" by simp
next
  assume "4 * unat elems \<le> n"
  moreover have "unat (dag_index elems loop lane offset) div 4 < 4 * unat elems" for loop lane offset
    using dag_index_bound(2) [OF assms, of loop lane offset] by (simp add: PROGPOW_LANES_def less_mult_imp_div_less)
  ultimately show "\<forall>loop lane offset. unat (dag_index elems loop lane offset) div 4 < n" by (meson less_le_trans)
qed

lemma kernel_elements:
  assumes "work_reachable I ws" "workLoop_step initialise w ws = DoSearch ws'"
  obtains d where "d = unat (fork_height w) div ETHASH_EPOCH_LENGTH" "d < 2048"
    "ws_kernel ws' = Some (prog_seed_of (fork_height w), dag_elms (dag_sizes ! d))"
  using workLoop_step_kernel [OF _ assms(2)] work_reachable_ok [OF assms(1)]
  by (auto simp: ethash_get_datasize_def split: if_splits)

text \<open>
  C8: initialisation, work loop and search fit together exactly when epoch and height of a package agree.  Let a
  CUDA miner be initialised in parallel mode for the tabulated epoch \<open>e\<close> of a package, and let the work loop, in any
  reachable state, go on to search with that package, so that its kernel is compiled for the number of DAG
  elements that belongs to the package's height.  The cache of the search kernel can then be filled from the DAG
  on the device; every DAG load of the kernel that falls inside the DAG reads the value the light
  client computes; and the loads, in any loop and lane and for any offset, all fall inside if and only if the
  epoch \<open>d\<close> of the height, counted from the fork, is at most \<open>e\<close>.  Where the two epochs are equal the kernel's number of
  elements is that of the loaded DAG, and in every loop each of its entries is read by some lane for some offset.
\<close>

theorem loaded_dag_covers_search:
  assumes "can_load drv cs index e m dev" "cs_dagLoadMode cs = 0" "launch_shape (cs_config cs)" "cs_dagInHostMemory cs = None"
    "aux_reachable aux" "e < 2048" "work_reachable I ws" "workLoop_step initialise w ws = DoSearch ws'"
  shows "\<exists>li m' aux' cs' dag elms. ethash_light_new True True (ETHASH_EPOCH_LENGTH * e) = Inr li \<and>
    cuda_miner_init drv fresh index (int e) m aux cs = (Inr True, m', aux', cs') \<and> m_cuda_dag m' = Some dag \<and>
    PROGPOW_CACHE_BYTES \<le> 64 * length dag \<and> ws_kernel ws' = Some (prog_seed_of (fork_height w), elms) \<and>
    (\<forall>loop lane offset. let i = unat (dag_index (of_nat elms) loop lane offset) div 4 in
       i < length dag \<longrightarrow> dag ! i = Some (ethash_calculate_dag_item li (of_nat i))) \<and>
    ((\<forall>loop lane offset. unat (dag_index (of_nat elms) loop lane offset) div 4 < length dag) \<longleftrightarrow>
       unat (fork_height w) div ETHASH_EPOCH_LENGTH \<le> e) \<and>
    (unat (fork_height w) div ETHASH_EPOCH_LENGTH = e \<longrightarrow> of_nat elms = m_dag_elms m' \<and>
       (\<forall>loop. \<forall>i < elms * PROGPOW_LANES.
          \<exists>lane < PROGPOW_LANES. \<exists>offset. unat (dag_index (of_nat elms) loop (of_nat lane) offset) = i))"
proof -
  let ?dag = "\<lambda>li. map Some (full_dag li (dag_sizes ! e div 64))"
  obtain li m' aux' cs' where li: "ethash_light_new True True (ETHASH_EPOCH_LENGTH * e) = Inr li"
    and init: "cuda_miner_init drv fresh index (int e) m aux cs = (Inr True, m', aux', cs')" "m_cuda_dag m' = Some (?dag li)"
      "m_dag_elms m' = of_nat (dag_elms (dag_sizes ! e))"
    by (rule cuda_miner_init_load [OF assms(1) aux_reachable_ok [OF assms(5)] assms(6), of fresh])
      (use assms(2,4) in \<open>simp add: load_dag_generate [OF _ assms(6,3)] DAG_LOAD_SINGLE_def\<close>)
  obtain d where d: "d = unat (fork_height w) div ETHASH_EPOCH_LENGTH" "d < 2048"
      "ws_kernel ws' = Some (prog_seed_of (fork_height w), dag_elms (dag_sizes ! d))"
    using kernel_elements [OF assms(7,8)] .
  define elms where "elms = dag_elms (dag_sizes ! d)"
  note u = dag_elms_tabulated [OF d(2), folded elms_def]
  have nz: "(of_nat elms :: u32) \<noteq> 0" "unat (of_nat elms :: u32) * PROGPOW_LANES \<le> 2 ^ 32"
    using u by (auto simp: unat_eq_zero simp flip: unat_gt_0)
  have elms: "elms = unat (of_nat elms :: u32)"
    by (simp add: elms_def dag_elms_def unat_of_nat)
  have "PROGPOW_CACHE_BYTES \<le> 64 * length (?dag li)"
    using dag_elms_tabulated(2) [OF assms(6)] by (simp add: full_dag_def PROGPOW_CACHE_BYTES_def)
  moreover have "?dag li ! i = Some (ethash_calculate_dag_item li (of_nat i))" if "i < length (?dag li)" for i
    using that by (simp add: full_dag_def)
  moreover have "(\<forall>loop lane offset. unat (dag_index (of_nat elms) loop lane offset) div 4 < length (?dag li)) \<longleftrightarrow> d \<le> e"
    using loads_inside_iff [OF nz] dag_holds_elements [OF d(2) assms(6)] u(1) by (simp add: full_dag_def)
  moreover have "\<forall>loop. \<forall>i < elms * PROGPOW_LANES.
      \<exists>lane < PROGPOW_LANES. \<exists>offset. unat (dag_index (of_nat elms) loop (of_nat lane) offset) = i"
    using dag_index_onto [OF nz] elms by metis
  moreover have "d = e \<longrightarrow> of_nat elms = m_dag_elms m'" by (simp add: init(3) elms_def)
  ultimately show ?thesis
    unfolding Let_def d(1) [symmetric] using li init(1,2) d(3) [folded elms_def]
    by (intro exI [of _ li] exI [of _ m'] exI [of _ aux'] exI [of _ cs'] exI [of _ "?dag li"] exI [of _ elms]) blast
qed

text \<open>Device 1 of the sample driver; epoch and height both say epoch 323.\<close>

theorem loaded_dag_covers_search_witness:
  "\<exists>li m' aux' cs' dag. cuda_miner_init demo_cuda \<lparr>sr_count = 0, sr_result = []\<rparr> 1 323 demo_miner aux_init cuda_statics_init = (Inr True, m', aux', cs') \<and>
    m_cuda_dag m' = Some dag \<and> unat (dag_index (m_dag_elms m') 63 5 0xFFFFFFFF) div 4 < length dag \<and>
    dag ! (unat (dag_index (m_dag_elms m') 63 5 0xFFFFFFFF) div 4) =
      Some (ethash_calculate_dag_item li (of_nat (unat (dag_index (m_dag_elms m') 63 5 0xFFFFFFFF) div 4)))"
proof -
  let ?w = "WorkPackage_default\<lparr>wp_header := [1], wp_epoch := 323\<rparr>"
  have h: "unat (fork_height ?w) div ETHASH_EPOCH_LENGTH = 323"
    by (simp add: WorkPackage_default_def fork_height_def ETHASH_EPOCH_LENGTH_def)
  have hdr: "h256_zero \<noteq> [1]" "[1] \<noteq> h256_zero" by (auto simp: h256_zero_def dest: arg_cong [where f = length])
  obtain ws' where ws': "workLoop_step (\<lambda>e. Some True) ?w work_init = DoSearch ws'"
    using hdr by (simp add: workLoop_step_def Let_def has_work_def fork_height_def ethash_get_datasize_def ETHASH_EPOCH_LENGTH_def
        work_init_def WorkPackage_default_def PROGPOW_PERIOD_def)
  have "can_load demo_cuda cuda_statics_init 1 323 demo_miner 1" by (rule demo_can_load) (simp_all add: cuda_statics_init_def DAG_LOAD_SEQUENTIAL_def)
  moreover have "cs_dagLoadMode cuda_statics_init = 0" "launch_shape (cs_config cuda_statics_init)" "cs_dagInHostMemory cuda_statics_init = None"
    by (simp_all add: cuda_statics_init_def launch_shape_def c_defaultBlockSize_def c_defaultGridSize_def)
  ultimately show ?thesis
    using loaded_dag_covers_search [OF _ _ _ _ aux_reachable.start _ work_reachable.start ws', of demo_cuda cuda_statics_init 1 323 demo_miner 1
        "\<lparr>sr_count = 0, sr_result = []\<rparr>"]
    unfolding Let_def h by (simp only: of_nat_numeral) fastforce
qed

text \<open>A package made from a block header, as the simulation and the benchmark use it, takes its epoch from the block
  number without the offset of the fork: its height lies 323 epochs later, so its kernel reads outside the DAG.\<close>

lemma header_package_mismatch:
  assumes "unat (wp_height w) + 2584000 < 2 ^ 64" "e = unat (wp_height w) div ETHASH_EPOCH_LENGTH"
  shows "unat (fork_height w) div ETHASH_EPOCH_LENGTH = e + 323" "\<not> unat (fork_height w) div ETHASH_EPOCH_LENGTH \<le> e"
proof -
  have "unat (fork_height w) = unat (wp_height w) + 323 * 8000"
    using assms(1) by (simp add: fork_height_def unat_word_ariths)
  then show "unat (fork_height w) div ETHASH_EPOCH_LENGTH = e + 323"
    using assms(2) by (simp add: ETHASH_EPOCH_LENGTH_def)
  then show "\<not> unat (fork_height w) div ETHASH_EPOCH_LENGTH \<le> e" by simp
qed

end
